(* ===== verification/Go_Prelude.thy ===== *)
theory Go_Prelude
  imports Main "HOL-Library.Char_ord" "HOL-Library.List_Lexorder" "HOL-Library.Sublist"
begin

text \<open>
  Shared vocabulary of the development: the pieces of the Go language and library the sources
  use (64-bit integers, truncating division, decimal printing and parsing, white-space
  trimming, prefixes), and the SQL statements of the two SQLite databases as functions on
  tables. A table is the list of its rows in rowid order; \<open>SELECT\<close> is \<open>filter\<close>, \<open>ORDER BY\<close> a
  stable sort, \<open>UPDATE\<close> is \<open>upd_where\<close>, \<open>DELETE\<close> is \<open>del_where\<close>, and the three kinds of
  \<open>INSERT\<close> are \<open>xs @ [r]\<close> (after the key check), \<open>insert_ignore\<close> and \<open>upsert\<close>.
  The collections \<open>table_simps\<close> and \<open>table_intros\<close> carry the facts every component reuses.
\<close>

named_theorems table_simps
named_theorems table_intros

section \<open>Database faults\<close>

text \<open>
  \<open>io k\<close> says that the k-th database statement of an operation fails (disk full, locked
  database, closed handle). A failed statement has no effect and a failed transaction is
  rolled back.
\<close>

type_synonym io = "nat \<Rightarrow> bool"

definition no_io :: io where
  "no_io = (\<lambda>_. False)"

lemma no_io_simp [simp]: "no_io k = False"
  by (simp add: no_io_def)

section \<open>Integers\<close>

definition in_int64 :: "int \<Rightarrow> bool" where
  "in_int64 i \<longleftrightarrow> - (2 ^ 63) \<le> i \<and> i < 2 ^ 63"

definition wrap64 :: "int \<Rightarrow> int" where
  "wrap64 i = (i + 2 ^ 63) mod 2 ^ 64 - 2 ^ 63"

definition go_quo :: "int \<Rightarrow> int \<Rightarrow> int" where
  "go_quo a b = sgn a * sgn b * (\<bar>a\<bar> div \<bar>b\<bar>)"

lemma wrap64_id: "in_int64 i \<Longrightarrow> wrap64 i = i"
  by (simp add: in_int64_def wrap64_def)

lemma wrap64_in [simp]: "in_int64 (wrap64 i)"
  using pos_mod_bound [of "2 ^ 64" "i + 2 ^ 63"] pos_mod_sign [of "2 ^ 64" "i + 2 ^ 63"]
  by (simp add: in_int64_def wrap64_def)

lemma go_quo_nonneg: "0 \<le> a \<Longrightarrow> 0 < b \<Longrightarrow> go_quo a b = a div b"
  by (cases "a = 0") (auto simp: go_quo_def)

section \<open>Strings\<close>

definition digit_char :: "nat \<Rightarrow> char" where
  "digit_char d = char_of (48 + d)"

fun show_nat :: "nat \<Rightarrow> string" where
  "show_nat n = (if n < 10 then [digit_char n] else show_nat (n div 10) @ [digit_char (n mod 10)])"

declare show_nat.simps [simp del]

definition show_int :: "int \<Rightarrow> string" where
  "show_int i = (if i < 0 then CHR ''-'' # show_nat (nat (- i)) else show_nat (nat i))"

definition is_digit :: "char \<Rightarrow> bool" where
  "is_digit c \<longleftrightarrow> 48 \<le> (of_char c :: nat) \<and> (of_char c :: nat) \<le> 57"

definition digits_val :: "string \<Rightarrow> nat" where
  "digits_val s = foldl (\<lambda>a c. 10 * a + (of_char c - 48)) 0 s"

text \<open>\<open>strconv.ParseInt(v, 10, 64)\<close>: an optional sign, at least one digit, the 64-bit range.\<close>

definition parse_int :: "string \<Rightarrow> int option" where
  "parse_int s =
     (let neg = (s \<noteq> [] \<and> hd s = CHR ''-'');
          ds = (if s \<noteq> [] \<and> (hd s = CHR ''-'' \<or> hd s = CHR ''+'') then tl s else s);
          v = (if neg then - int (digits_val ds) else int (digits_val ds))
      in if ds = [] \<or> \<not> list_all is_digit ds \<or> \<not> in_int64 v then None else Some v)"

definition has_prefix :: "string \<Rightarrow> string \<Rightarrow> bool" where
  "has_prefix s p \<longleftrightarrow> take (length p) s = p"

text \<open>The UTF-8 encodings of the code points \<open>unicode.IsSpace\<close> accepts.\<close>

definition go_spaces :: "string list" where
  "go_spaces = map (map char_of)
     ([[9], [10], [11], [12], [13], [32], [194, 133], [194, 160], [225, 154, 128]]
      @ map (\<lambda>b. [226, 128, b]) [128..<139]
      @ [[226, 128, 168], [226, 128, 169], [226, 128, 175], [226, 129, 159], [227, 128, 128 :: nat]])"

fun trim_by :: "nat \<Rightarrow> string list \<Rightarrow> string \<Rightarrow> string" where
  "trim_by 0 ps s = s"
| "trim_by (Suc k) ps s =
     (case filter (has_prefix s) ps of [] \<Rightarrow> s | p # _ \<Rightarrow> trim_by k ps (drop (length p) s))"

text \<open>\<open>strings.TrimSpace\<close>: every pass removes at least one byte, so the length bounds the passes.\<close>

definition trim_space :: "string \<Rightarrow> string" where
  "trim_space s =
     (let l = trim_by (length s) go_spaces s
      in rev (trim_by (length l) (map rev go_spaces) (rev l)))"

text \<open>\<open>hex.EncodeToString\<close> of a byte list.\<close>

definition hex_digit :: "nat \<Rightarrow> char" where
  "hex_digit d = (if d < 10 then char_of (48 + d) else char_of (87 + d))"

definition hex_encode :: "nat list \<Rightarrow> string" where
  "hex_encode bs = concat (map (\<lambda>b. [hex_digit (b div 16), hex_digit (b mod 16)]) bs)"

text \<open>\<open>%q\<close> of \<open>fmt\<close>, on strings whose non-ASCII characters are printable.\<close>

definition go_quote_char :: "char \<Rightarrow> string" where
  "go_quote_char c =
     (let n = (of_char c :: nat) in
      if n = 34 then [CHR 0x5C, CHR 0x22] else if n = 92 then [CHR 0x5C, CHR 0x5C]
      else if n = 7 then [CHR 0x5C, CHR ''a''] else if n = 8 then [CHR 0x5C, CHR ''b'']
      else if n = 12 then [CHR 0x5C, CHR ''f''] else if n = 10 then [CHR 0x5C, CHR ''n'']
      else if n = 13 then [CHR 0x5C, CHR ''r''] else if n = 9 then [CHR 0x5C, CHR ''t'']
      else if n = 11 then [CHR 0x5C, CHR ''v'']
      else if n < 32 \<or> n = 127 then [CHR 0x5C, CHR ''x'', hex_digit (n div 16), hex_digit (n mod 16)]
      else [c])"

definition go_quote :: "string \<Rightarrow> string" where
  "go_quote s = CHR 0x22 # concat (map go_quote_char s) @ [CHR 0x22]"

lemma digit_char_digit: "d < 10 \<Longrightarrow> is_digit (digit_char d)"
  by (simp add: is_digit_def digit_char_def)

lemma of_digit_char: "d < 10 \<Longrightarrow> (of_char (digit_char d) :: nat) = 48 + d"
  by (simp add: digit_char_def)

lemma digits_val_snoc: "digits_val (s @ [c]) = 10 * digits_val s + (of_char c - 48)"
  by (simp add: digits_val_def)

lemma show_nat_val: "digits_val (show_nat n) = n"
proof (induction n rule: show_nat.induct)
  case (1 n)
  then show ?case
    by (subst show_nat.simps) (auto simp: digits_val_snoc of_digit_char digits_val_def)
qed

lemma show_nat_digits: "list_all is_digit (show_nat n)"
proof (induction n rule: show_nat.induct)
  case (1 n)
  then show ?case
    by (subst show_nat.simps) (auto simp: digit_char_digit)
qed

lemma show_nat_nonempty [simp]: "show_nat n \<noteq> []"
  by (subst show_nat.simps) simp

lemma digit_no_sign: "is_digit c \<Longrightarrow> c \<noteq> CHR ''-'' \<and> c \<noteq> CHR ''+'' \<and> c \<noteq> CHR '':''"
  by (auto simp: is_digit_def)

lemma show_nat_hd: "hd (show_nat n) \<noteq> CHR ''-'' \<and> hd (show_nat n) \<noteq> CHR ''+''"
  using show_nat_digits [of n] digit_no_sign by (cases "show_nat n") auto

lemma parse_show_int: "in_int64 i \<Longrightarrow> parse_int (show_int i) = Some i"
  using show_nat_hd [of "nat i"]
  by (auto simp: parse_int_def show_int_def show_nat_digits show_nat_val Let_def)

lemma show_nat_inj: "show_nat m = show_nat n \<longleftrightarrow> m = n"
  by (metis show_nat_val)

lemma show_nat_not_neg: "CHR ''-'' # s \<noteq> show_nat n"
  using show_nat_hd [of n] by (metis list.sel(1))

lemma show_int_inj: "show_int i = show_int j \<longleftrightarrow> i = j"
  by (auto simp: show_int_def show_nat_inj show_nat_not_neg show_nat_not_neg [symmetric])

lemma has_prefix_append: "has_prefix s p \<longleftrightarrow> (\<exists>t. s = p @ t)"
  by (metis append_eq_conv_conj has_prefix_def)

section \<open>Tables\<close>

definition upd_where :: "('r \<Rightarrow> bool) \<Rightarrow> ('r \<Rightarrow> 'r) \<Rightarrow> 'r list \<Rightarrow> 'r list" where
  "upd_where P f xs = map (\<lambda>r. if P r then f r else r) xs"

definition del_where :: "('r \<Rightarrow> bool) \<Rightarrow> 'r list \<Rightarrow> 'r list" where
  "del_where P xs = filter (\<lambda>r. \<not> P r) xs"

definition rows_where :: "('r \<Rightarrow> bool) \<Rightarrow> 'r list \<Rightarrow> nat" where
  "rows_where P xs = length (filter P xs)"

definition insert_ignore :: "('r \<Rightarrow> 'k) \<Rightarrow> 'r \<Rightarrow> 'r list \<Rightarrow> 'r list" where
  "insert_ignore key r xs = (if key r \<in> key ` set xs then xs else xs @ [r])"

definition upsert :: "('r \<Rightarrow> 'k) \<Rightarrow> ('r \<Rightarrow> 'r \<Rightarrow> 'r) \<Rightarrow> 'r \<Rightarrow> 'r list \<Rightarrow> 'r list" where
  "upsert key merge r xs =
     (if key r \<in> key ` set xs then upd_where (\<lambda>x. key x = key r) (\<lambda>x. merge x r) xs else xs @ [r])"

lemma set_upd_where [table_simps]:
  "set (upd_where P f xs) = {r. (r \<in> set xs \<and> \<not> P r) \<or> (\<exists>x \<in> set xs. P x \<and> r = f x)}"
  by (auto simp: upd_where_def)

lemma set_del_where [table_simps]: "set (del_where P xs) = {r \<in> set xs. \<not> P r}"
  by (simp add: del_where_def)

lemma length_upd_where [simp]: "length (upd_where P f xs) = length xs"
  by (simp add: upd_where_def)

lemma rows_where_0 [table_simps]: "rows_where P xs = 0 \<longleftrightarrow> (\<forall>r \<in> set xs. \<not> P r)"
  by (simp add: rows_where_def filter_empty_conv)

lemma upd_where_none: "\<forall>r \<in> set xs. \<not> P r \<Longrightarrow> upd_where P f xs = xs"
  by (simp add: upd_where_def map_idI)

lemma map_upd_where:
  "(\<And>r. P r \<Longrightarrow> key (f r) = key r) \<Longrightarrow> map key (upd_where P f xs) = map key xs"
  by (induction xs) (auto simp: upd_where_def)

lemma distinct_map_key [table_intros]:
  "distinct (map key xs) \<Longrightarrow> distinct (map key (del_where P xs))"
  by (simp add: del_where_def distinct_map_filter)

lemma distinct_upd_where [table_intros]:
  assumes "distinct (map key xs)" and "\<And>r. P r \<Longrightarrow> key (f r) = key r"
  shows "distinct (map key (upd_where P f xs))"
  using assms by (simp add: map_upd_where)

lemma distinct_insert_ignore [table_intros]:
  "distinct (map key xs) \<Longrightarrow> distinct (map key (insert_ignore key r xs))"
  by (auto simp: insert_ignore_def)

lemma distinct_upsert [table_intros]:
  "distinct (map key xs) \<Longrightarrow> (\<And>x. key (merge x r) = key r) \<Longrightarrow> distinct (map key (upsert key merge r xs))"
  by (auto simp: upsert_def intro!: distinct_upd_where)

lemma distinct_key_unique:
  "distinct (map key xs) \<Longrightarrow> x \<in> set xs \<Longrightarrow> y \<in> set xs \<Longrightarrow> key x = key y \<Longrightarrow> x = y"
  by (simp add: distinct_map inj_on_def)

lemma find_key_Some:
  "distinct (map key xs) \<Longrightarrow> r \<in> set xs \<Longrightarrow> find (\<lambda>x. key x = key r) xs = Some r"
  by (induction xs) auto

lemma find_Some_D: "find P xs = Some r \<Longrightarrow> r \<in> set xs \<and> P r"
  by (auto simp: find_Some_iff)

lemma find_None_D: "find P xs = None \<Longrightarrow> r \<in> set xs \<Longrightarrow> \<not> P r"
  by (auto simp: find_None_iff)

lemma find_append: "find P (xs @ ys) = (case find P xs of None \<Rightarrow> find P ys | Some x \<Rightarrow> Some x)"
  by (induction xs) auto

lemma find_replace_same:
  "key r \<in> key ` set xs \<Longrightarrow> find (\<lambda>x. key x = key r) (upd_where (\<lambda>x. key x = key r) (\<lambda>_. r) xs) = Some r"
  by (induction xs) (auto simp: upd_where_def)

lemma find_replace_other:
  "key r \<noteq> k \<Longrightarrow> find (\<lambda>x. key x = k) (upd_where (\<lambda>x. key x = key r) (\<lambda>_. r) xs) = find (\<lambda>x. key x = k) xs"
  by (induction xs) (auto simp: upd_where_def)

text \<open>Looking up a key after its row was inserted or replaced.\<close>

lemma find_upsert:
  "find (\<lambda>x. key x = k) (upsert key (\<lambda>_ new. new) r xs)
   = (if k = key r then Some r else find (\<lambda>x. key x = k) xs)"
proof (cases "key r \<in> key ` set xs")
  case True
  then show ?thesis by (auto simp: upsert_def find_replace_same find_replace_other)
next
  case False
  then have "find (\<lambda>x. key x = key r) xs = None"
    unfolding find_None_iff by (metis image_eqI)
  then show ?thesis
    using False by (auto simp: upsert_def find_append split: option.split)
qed

lemma filter_upd_where_other:
  "(\<And>r. P r \<Longrightarrow> \<not> Q r \<and> \<not> Q (f r)) \<Longrightarrow> filter Q (upd_where P f xs) = filter Q xs"
  by (induction xs) (auto simp: upd_where_def)

lemma sum_list_filter_le:
  fixes f :: "'r \<Rightarrow> nat"
  shows "(\<Sum>r \<leftarrow> filter P xs. f r) \<le> (\<Sum>r \<leftarrow> xs. f r)"
  by (induction xs) auto

end
