(* ===== verification/Go_Json.thy ===== *)
theory Go_Json
  imports Go_Prelude
begin

text \<open>
  The part of \<open>encoding/json\<close> the program uses. A syntactically valid document is a value of
  \<open>json\<close>; the text of an invalid one is \<open>None\<close> where a body is read. A \<open>json.RawMessage\<close> is
  \<open>raw\<close>: \<open>None\<close> when the field was absent (an empty slice), else the value it holds, which is
  valid JSON because the enclosing document was. Every decoder takes the value already in the
  variable and returns the new value with a success flag, as \<open>Unmarshal\<close> keeps going after a
  type error and reports it at the end. \<open>null\<close> leaves a string, number or slice as it is and is
  no error; object keys match struct fields without regard to case; of repeated keys the last
  one wins.
\<close>

section \<open>Values\<close>

datatype json =
    JNull
  | JBool bool
  | JInt int          \<comment> \<open>a number literal without fraction and exponent\<close>
  | JDec int int      \<comment> \<open>any other number literal, as mantissa and power of ten\<close>
  | JStr string
  | JArr "json list"
  | JObj "(string \<times> json) list"

type_synonym raw = "json option"

section \<open>Scalars\<close>

definition unm_string :: "json \<Rightarrow> string \<Rightarrow> string \<times> bool" where
  "unm_string j s = (case j of JStr t \<Rightarrow> (t, True) | JNull \<Rightarrow> (s, True) | _ \<Rightarrow> (s, False))"

definition unm_int :: "json \<Rightarrow> int \<Rightarrow> int \<times> bool" where
  "unm_int j n =
     (case j of JInt i \<Rightarrow> if in_int64 i then (i, True) else (n, False)
      | JNull \<Rightarrow> (n, True) | _ \<Rightarrow> (n, False))"

definition unm_raw :: "json \<Rightarrow> raw \<Rightarrow> raw \<times> bool" where
  "unm_raw j r = (Some j, True)"

text \<open>The least integer that rounds to no finite \<open>float64\<close>.\<close>

definition float_limit :: int where
  "float_limit = 2 ^ 1024 - 2 ^ 970"

text \<open>Decoding into a \<open>float64\<close> whose value is not used: only the success flag.\<close>

definition unm_float_ok :: "json \<Rightarrow> bool" where
  "unm_float_ok j =
     (case j of JInt i \<Rightarrow> \<bar>i\<bar> < float_limit
      | JDec m e \<Rightarrow> (if 0 \<le> e then \<bar>m\<bar> * 10 ^ nat e < float_limit else \<bar>m\<bar> < float_limit * 10 ^ nat (- e))
      | JNull \<Rightarrow> True | _ \<Rightarrow> False)"

section \<open>Objects\<close>

definition ascii_up :: "char \<Rightarrow> char" where
  "ascii_up c = (if 97 \<le> (of_char c :: nat) \<and> (of_char c :: nat) \<le> 122 then char_of ((of_char c :: nat) - 32) else c)"

text \<open>
  The key folding of \<open>encoding/json\<close>: letters to upper case, and the two non-ASCII code points
  that fold to ASCII letters (U+212A to K, U+017F to S).
\<close>

function go_fold :: "string \<Rightarrow> string" where
  "go_fold s =
     (case s of [] \<Rightarrow> []
      | c # cs \<Rightarrow>
          if take 3 s = map char_of [226 :: nat, 132, 170] then CHR ''K'' # go_fold (drop 3 s)
          else if take 2 s = map char_of [197 :: nat, 191] then CHR ''S'' # go_fold (drop 2 s)
          else ascii_up c # go_fold cs)"
  by pat_completeness auto
termination
  by (relation "measure length") auto

declare go_fold.simps [simp del]

definition key_match :: "string \<Rightarrow> string \<Rightarrow> bool" where
  "key_match k name \<longleftrightarrow> go_fold k = go_fold name"

text \<open>One struct field decoded from a document: all matching keys, in document order.\<close>

definition fld :: "(json \<Rightarrow> 'a \<Rightarrow> 'a \<times> bool) \<Rightarrow> string \<Rightarrow> json \<Rightarrow> 'a \<Rightarrow> 'a \<times> bool" where
  "fld dec name j z =
     (case j of
        JObj kvs \<Rightarrow>
          foldl (\<lambda>(v, ok) (k, x).
            if key_match k name then (case dec x v of (v', ok') \<Rightarrow> (v', ok \<and> ok')) else (v, ok)) (z, True) kvs
      | JNull \<Rightarrow> (z, True)
      | _ \<Rightarrow> (z, False))"

text \<open>Decoding into a \<open>map[string]json.RawMessage\<close>: an error, a nil map, or the entries.\<close>

definition unm_map :: "json \<Rightarrow> (string \<times> json) list option option" where
  "unm_map j = (case j of JObj kvs \<Rightarrow> Some (Some kvs) | JNull \<Rightarrow> Some None | _ \<Rightarrow> None)"

definition map_get :: "(string \<times> json) list \<Rightarrow> string \<Rightarrow> json option" where
  "map_get kvs k = map_of (rev kvs) k"

text \<open>Decoding into a slice of structs, each from its zero value. (Go decodes into the elements a slice already
  has, which shows only when one document gives the same array field twice.)\<close>

definition unm_list :: "(json \<Rightarrow> 'a \<times> bool) \<Rightarrow> json \<Rightarrow> 'a list \<Rightarrow> 'a list \<times> bool" where
  "unm_list dec j z =
     (case j of JArr xs \<Rightarrow> (map (fst \<circ> dec) xs, list_all (snd \<circ> dec) xs)
      | JNull \<Rightarrow> ([], True) | _ \<Rightarrow> (z, False))"

definition rawObject :: "raw \<Rightarrow> bool" where
  "rawObject r = (case r of None \<Rightarrow> False | Some j \<Rightarrow> (case unm_map j of Some (Some _) \<Rightarrow> True | _ \<Rightarrow> False))"

definition raw_json :: "raw \<Rightarrow> json" where
  "raw_json r = (case r of None \<Rightarrow> JNull | Some j \<Rightarrow> j)"

section \<open>Facts\<close>

named_theorems json_simps

lemma go_fold_Nil [json_simps]: "go_fold [] = []"
  by (simp add: go_fold.simps)

lemma go_fold_ascii [json_simps]:
  "(of_char c :: nat) < 128 \<Longrightarrow> go_fold (c # cs) = ascii_up c # go_fold cs"
  by (subst go_fold.simps) (auto split: if_splits)

lemma key_match_refl [simp]: "key_match k k"
  by (simp add: key_match_def)

lemma unm_string_simps [json_simps]:
  "unm_string (JStr t) s = (t, True)" "unm_string JNull s = (s, True)"
  "unm_string (JInt i) s = (s, False)" "unm_string (JDec m e) s = (s, False)"
  "unm_string (JBool b) s = (s, False)" "unm_string (JArr xs) s = (s, False)"
  "unm_string (JObj kvs) s = (s, False)"
  by (simp_all add: unm_string_def)

lemma unm_int_simps [json_simps]:
  "in_int64 i \<Longrightarrow> unm_int (JInt i) n = (i, True)" "unm_int JNull n = (n, True)"
  "unm_int (JDec m e) n = (n, False)" "unm_int (JStr t) n = (n, False)"
  by (simp_all add: unm_int_def)

lemma unm_raw_simp [json_simps]: "unm_raw j r = (Some j, True)"
  by (simp add: unm_raw_def)

lemma unm_list_simps [json_simps]:
  "unm_list dec (JArr xs) z = (map (fst \<circ> dec) xs, list_all (snd \<circ> dec) xs)"
  "unm_list dec JNull z = ([], True)"
  by (simp_all add: unm_list_def)

lemma fld_Nil [json_simps]: "fld dec name (JObj []) z = (z, True)"
  by (simp add: fld_def)

lemma fld_JNull [json_simps]: "fld dec name JNull z = (z, True)"
  by (simp add: fld_def)

text \<open>Folding distinguishes keys, so a document with pairwise unmatched keys has one value per field.\<close>

lemma fld_foldl_skip:
  "\<forall>(k, x) \<in> set kvs. \<not> key_match k name \<Longrightarrow>
   foldl (\<lambda>(v, ok) (k, x).
     if key_match k name then (case dec x v of (v', ok') \<Rightarrow> (v', ok \<and> ok')) else (v, ok)) a kvs = a"
  by (induction kvs arbitrary: a) auto

lemma fld_absent:
  "\<forall>(k, x) \<in> set kvs. \<not> key_match k name \<Longrightarrow> fld dec name (JObj kvs) z = (z, True)"
  by (simp add: fld_def fld_foldl_skip)

lemma fld_hit:
  assumes "\<forall>(k, x) \<in> set xs \<union> set ys. \<not> key_match k name"
  shows "fld dec name (JObj (xs @ (name, x) # ys)) z = dec x z"
proof -
  have "\<forall>(k, x) \<in> set xs. \<not> key_match k name" "\<forall>(k, x) \<in> set ys. \<not> key_match k name"
    using assms by auto
  then show ?thesis
    by (simp add: fld_def fld_foldl_skip split: prod.split)
qed

lemma fld_Cons_match [json_simps]:
  "\<forall>(k, x) \<in> set ys. \<not> key_match k name \<Longrightarrow> fld dec name (JObj ((name, x) # ys)) z = dec x z"
  using fld_hit [of "[]" ys name dec x z] by simp

lemma fld_Cons_skip [json_simps]:
  "\<not> key_match k name \<Longrightarrow> fld dec name (JObj ((k, x) # ys)) z = fld dec name (JObj ys) z"
  by (simp add: fld_def)

text \<open>The same for a document whose keys were compared once and for all.\<close>

lemma fld_mem:
  assumes "distinct (map go_fold (map fst kvs))" and "(name, x) \<in> set kvs"
  shows "fld dec name (JObj kvs) z = dec x z"
proof -
  obtain xs ys where kvs: "kvs = xs @ (name, x) # ys"
    using assms(2) by (meson split_list)
  have "go_fold name \<notin> (go_fold \<circ> fst) ` (set xs \<union> set ys)"
    using assms(1) unfolding kvs by (auto simp: image_Un image_comp)
  then have "\<forall>p \<in> set xs \<union> set ys. go_fold (fst p) \<noteq> go_fold name"
    by (metis comp_apply image_eqI)
  then have "\<forall>(k, y) \<in> set xs \<union> set ys. \<not> key_match k name"
    by (simp add: key_match_def case_prod_unfold)
  then show ?thesis
    unfolding kvs by (rule fld_hit)
qed

lemma rawObject_JObj [simp]: "rawObject (Some (JObj kvs))"
  by (simp add: rawObject_def unm_map_def)

lemma rawObject_iff: "rawObject r \<longleftrightarrow> (\<exists>kvs. r = Some (JObj kvs))"
  by (auto simp: rawObject_def unm_map_def split: option.splits json.splits)

lemma float_limit_pos: "0 < float_limit"
  by (simp add: float_limit_def)

text \<open>A number every consumer can read as a 64-bit integer is one every validator accepts.\<close>

lemma int64_float_ok: "snd (unm_int j n) \<Longrightarrow> unm_float_ok j"
  by (auto simp: unm_int_def unm_float_ok_def in_int64_def float_limit_def split: json.splits if_splits)

end
