(* ===== verification/Contracts.thy ===== *)
theory Contracts
  imports Go_Prelude
begin

text \<open>
  The interfaces between the components, as locales: the operations a client calls are the
  parameters, what the provider promises are the assumptions, and what a client may conclude
  is proved once here. Each locale is interpreted where its provider is modelled.

  \<^item> \<open>dedup_log\<close>: a log that keeps one entry per key (the hub feed, the node's event table).
  \<^item> \<open>paged_feed\<close>: an ordered feed read in pages from a cursor (the hub's \<open>GET /v1/events\<close>).
  \<^item> \<open>owner_queue\<close>: a queue whose items only their owner may settle, once (the hub's PvP and
    travel queues).
\<close>

section \<open>Logs without duplicates\<close>

text \<open>Putting a batch, counting what was new.\<close>

fun put_all :: "('e \<Rightarrow> 's \<Rightarrow> 's \<times> bool) \<Rightarrow> 'e list \<Rightarrow> 's \<Rightarrow> 's \<times> nat" where
  "put_all put [] s = (s, 0)"
| "put_all put (e # es) s =
     (case put e s of (s1, new) \<Rightarrow>
        case put_all put es s1 of (s2, n) \<Rightarrow> (s2, n + (if new then 1 else 0)))"

text \<open>The keys of a batch a log does not have yet, first occurrence first.\<close>

fun fresh_keys :: "('e \<Rightarrow> 'k) \<Rightarrow> 'e list \<Rightarrow> 'k list \<Rightarrow> 'k list" where
  "fresh_keys key [] ks = []"
| "fresh_keys key (e # es) ks =
     (if key e \<in> set ks then fresh_keys key es ks else key e # fresh_keys key es (ks @ [key e]))"

locale dedup_log =
  fixes keys :: "'s \<Rightarrow> 'k list"
    and key :: "'e \<Rightarrow> 'k"
    and put :: "'e \<Rightarrow> 's \<Rightarrow> 's \<times> bool"
  assumes put_new: "key e \<notin> set (keys s) \<Longrightarrow> keys (fst (put e s)) = keys s @ [key e] \<and> snd (put e s)"
    and put_dup: "key e \<in> set (keys s) \<Longrightarrow> keys (fst (put e s)) = keys s \<and> \<not> snd (put e s)"
begin

lemma put_keys: "keys (fst (put e s)) = (if key e \<in> set (keys s) then keys s else keys s @ [key e])"
  using put_new put_dup by simp

lemma put_flag: "snd (put e s) \<longleftrightarrow> key e \<notin> set (keys s)"
  using put_new put_dup by blast

lemma put_distinct: "distinct (keys s) \<Longrightarrow> distinct (keys (fst (put e s)))"
  by (simp add: put_keys)

lemma put_all_keys: "keys (fst (put_all put es s)) = keys s @ fresh_keys key es (keys s)"
  by (induction es arbitrary: s) (auto simp: case_prod_beta put_keys)

lemma put_all_count: "snd (put_all put es s) = length (fresh_keys key es (keys s))"
  by (induction es arbitrary: s) (auto simp: case_prod_beta put_keys put_flag)

lemma put_all_known: "key ` set es \<subseteq> set (keys s) \<Longrightarrow> snd (put_all put es s) = 0 \<and> keys (fst (put_all put es s)) = keys s"
  by (induction es arbitrary: s) (auto simp: case_prod_beta put_keys put_flag)

lemma put_all_covers: "key ` set es \<subseteq> set (keys (fst (put_all put es s)))"
proof (induction es arbitrary: s)
  case (Cons e es)
  have "set (keys t) \<subseteq> set (keys (fst (put_all put es t)))" for t
    by (simp add: put_all_keys)
  then show ?case
    using Cons.IH by (fastforce simp: case_prod_beta put_keys)
qed simp

text \<open>Replaying a batch adds nothing.\<close>

lemma put_all_replay:
  "snd (put_all put es (fst (put_all put es s))) = 0 \<and>
   keys (fst (put_all put es (fst (put_all put es s)))) = keys (fst (put_all put es s))"
  by (rule put_all_known) (rule put_all_covers)

end

section \<open>Paged feeds\<close>

text \<open>Reading pages from a cursor until an empty one, moving the cursor to each page's last entry.\<close>

fun drain :: "(int \<Rightarrow> 'e list) \<Rightarrow> ('e \<Rightarrow> int) \<Rightarrow> nat \<Rightarrow> int \<Rightarrow> 'e list" where
  "drain page pos 0 c = []"
| "drain page pos (Suc k) c = (case page c of [] \<Rightarrow> [] | e # es \<Rightarrow> (e # es) @ drain page pos k (pos (last (e # es))))"

lemma sorted_filter_split:
  fixes pos :: "'e \<Rightarrow> int"
  assumes "sorted_wrt (<) (map pos (xs @ ys))" and "xs \<noteq> []"
  shows "filter (\<lambda>e. pos (last xs) < pos e) (xs @ ys) = ys"
proof -
  have "\<forall>e \<in> set xs. pos e \<le> pos (last xs)"
    using assms by (induction xs) (auto simp: less_imp_le)
  moreover have "\<forall>e \<in> set ys. pos (last xs) < pos e"
    using assms by (auto simp: sorted_wrt_append)
  ultimately show ?thesis
    by (auto simp: filter_empty_conv not_less)
qed

locale paged_feed =
  fixes feed :: "'h \<Rightarrow> 'e list"
    and pos :: "'e \<Rightarrow> int"
    and page :: "int \<Rightarrow> 'h \<Rightarrow> 'e list"
    and wf :: "'h \<Rightarrow> bool"
  assumes feed_sorted: "wf h \<Longrightarrow> sorted_wrt (<) (map pos (feed h))"
    and page_prefix: "wf h \<Longrightarrow> \<exists>n > 0. page c h = take n (filter (\<lambda>e. c < pos e) (feed h))"
begin

lemma page_sound: "wf h \<Longrightarrow> set (page c h) \<subseteq> {e \<in> set (feed h). c < pos e}"
proof -
  assume "wf h"
  then obtain n where "page c h = take n (filter (\<lambda>e. c < pos e) (feed h))"
    using page_prefix by blast
  then show ?thesis
    using set_take_subset [of n "filter (\<lambda>e. c < pos e) (feed h)"] by auto
qed

lemma page_empty_iff: "wf h \<Longrightarrow> page c h = [] \<longleftrightarrow> filter (\<lambda>e. c < pos e) (feed h) = []"
  using page_prefix [of h c] by fastforce

lemma page_then_rest:
  assumes "wf h" and "page c h \<noteq> []"
  shows "page c h @ filter (\<lambda>e. pos (last (page c h)) < pos e) (feed h) = filter (\<lambda>e. c < pos e) (feed h)"
proof -
  obtain n where n: "page c h = take n (filter (\<lambda>e. c < pos e) (feed h))"
    using page_prefix assms(1) by blast
  let ?rest = "filter (\<lambda>e. c < pos e) (feed h)"
  have srt: "sorted_wrt (<) (map pos ?rest)"
    using feed_sorted [OF assms(1)] by (simp add: sorted_wrt_map sorted_wrt_filter)
  have last_c: "c < pos (last (page c h))"
    using page_sound [OF assms(1), of c] assms(2) last_in_set by fastforce
  have "filter (\<lambda>e. pos (last (page c h)) < pos e) (feed h)
      = filter (\<lambda>e. pos (last (page c h)) < pos e) ?rest"
    using last_c by (auto intro!: filter_cong)
  also have "\<dots> = drop n ?rest"
    using sorted_filter_split [of pos "take n ?rest" "drop n ?rest"] srt assms(2) n by simp
  finally show ?thesis
    by (simp add: n)
qed

text \<open>Paging visits every entry after the cursor, once and in order.\<close>

lemma drain_complete:
  assumes "wf h" and "length (filter (\<lambda>e. c < pos e) (feed h)) \<le> k"
  shows "drain (\<lambda>c. page c h) pos k c = filter (\<lambda>e. c < pos e) (feed h)"
  using assms(2)
proof (induction k arbitrary: c)
  case 0
  then show ?case by simp
next
  case (Suc k)
  show ?case
  proof (cases "page c h")
    case Nil
    then show ?thesis using page_empty_iff [OF assms(1), of c] by simp
  next
    case (Cons e es)
    have split: "page c h @ filter (\<lambda>e. pos (last (page c h)) < pos e) (feed h) = filter (\<lambda>e. c < pos e) (feed h)"
      by (rule page_then_rest [OF assms(1)]) (simp add: Cons)
    have "length (page c h) + length (filter (\<lambda>e. pos (last (page c h)) < pos e) (feed h)) \<le> Suc k"
      using Suc.prems arg_cong [OF split, of length] by (simp only: length_append)
    then have "length (filter (\<lambda>e. pos (last (page c h)) < pos e) (feed h)) \<le> k"
      using arg_cong [OF Cons, of length] by (simp only: length_Cons)
    then have "drain (\<lambda>c. page c h) pos k (pos (last (page c h)))
        = filter (\<lambda>e. pos (last (page c h)) < pos e) (feed h)"
      by (rule Suc.IH)
    moreover have "drain (\<lambda>c. page c h) pos (Suc k) c = page c h @ drain (\<lambda>c. page c h) pos k (pos (last (page c h)))"
      by (simp add: Cons)
    ultimately show ?thesis
      using split by (simp only:)
  qed
qed

end

section \<open>Queues settled by their owner\<close>

locale owner_queue =
  fixes rows :: "'h \<Rightarrow> 'r list"
    and rid :: "'r \<Rightarrow> string"
    and owner :: "'r \<Rightarrow> string"
    and status :: "'r \<Rightarrow> string"
    and settle :: "io \<Rightarrow> string \<Rightarrow> string \<Rightarrow> 'h \<Rightarrow> 'h \<times> 'err option"
    and final :: string
  assumes final_not_pending: "final \<noteq> ''pending''"
    and settle_err: "snd (settle io i w h) \<noteq> None \<Longrightarrow> fst (settle io i w h) = h"
    and settle_found: "snd (settle io i w h) = None \<Longrightarrow>
      (\<exists>r \<in> set (rows h). rid r = i \<and> owner r = w \<and> status r = ''pending'')"
    and settle_rows: "snd (settle io i w h) = None \<Longrightarrow>
      map (\<lambda>r. (rid r, owner r, status r)) (rows (fst (settle io i w h))) =
      map (\<lambda>r. (rid r, owner r, if rid r = i \<and> owner r = w \<and> status r = ''pending'' then final else status r)) (rows h)"
    and settle_runs: "\<exists>r \<in> set (rows h). rid r = i \<and> owner r = w \<and> status r = ''pending'' \<Longrightarrow>
      snd (settle no_io i w h) = None"
begin

lemma settled_none_left:
  assumes "snd (settle io i w h) = None"
  shows "\<not> (\<exists>r \<in> set (rows (fst (settle io i w h))). rid r = i \<and> owner r = w \<and> status r = ''pending'')"
proof
  assume "\<exists>r \<in> set (rows (fst (settle io i w h))). rid r = i \<and> owner r = w \<and> status r = ''pending''"
  then have "(i, w, ''pending'') \<in> set (map (\<lambda>r. (rid r, owner r, status r)) (rows (fst (settle io i w h))))"
    by force
  then show False
    using final_not_pending by (auto simp: settle_rows [OF assms] split: if_splits)
qed

text \<open>An item is settled at most once: whatever settles it again fails and changes nothing.\<close>

lemma settle_once:
  assumes "snd (settle io i w h) = None"
  shows "snd (settle io' i w (fst (settle io i w h))) \<noteq> None"
  using settle_found settled_none_left [OF assms] by blast

text \<open>Nobody but the owner settles an item.\<close>

lemma settle_foreign:
  assumes "\<forall>r \<in> set (rows h). rid r = i \<longrightarrow> owner r \<noteq> w"
  shows "snd (settle io i w h) \<noteq> None \<and> fst (settle io i w h) = h"
  using assms settle_found settle_err by blast

text \<open>Settling leaves every other item as it was.\<close>

lemma settle_others:
  assumes "snd (settle io i w h) = None" and "r \<in> set (rows (fst (settle io i w h)))" and "rid r \<noteq> i"
  shows "\<exists>r' \<in> set (rows h). rid r' = rid r \<and> owner r' = owner r \<and> status r' = status r"
proof -
  have "(rid r, owner r, status r) \<in> set (map (\<lambda>r. (rid r, owner r, status r)) (rows (fst (settle io i w h))))"
    using assms(2) by auto
  then show ?thesis
    using assms(3) by (auto simp: settle_rows [OF assms(1)])
qed

end

end
