(* ===== verification/Hub_Store.thy ===== *)
theory Hub_Store
  imports Go_Json Contracts
begin

text \<open>
  The hub's persistence layer: \<open>internal/hub/store.go\<close> (the data types and the \<open>Store\<close>
  interface) and \<open>internal/hub/sqlite.go\<close> (its SQLite implementation). A value of \<open>hub\<close> is
  the database, one list per table. Operations that may fail return the error beside the new
  database; \<open>io\<close> is the fault schedule of the call and \<open>now\<close> the clock reading it makes.
\<close>

section \<open>Data types\<close>

datatype hub_err = ErrNodeExists | ErrNotFound | ErrIncompatibleGame | ErrLocationMismatch | ErrTravelActive | ErrDB

record Node =
  n_NodeID :: string
  n_GameID :: string
  n_GameTitle :: string
  n_GameVersion :: string
  n_ProtocolVersion :: string
  n_AdvertiseAddr :: string
  n_PlayerCount :: int
  n_UptimeS :: int
  n_LastHeartbeat :: int
  n_Status :: string

record node_row = Node +
  n_api_key_hash :: string
  n_created_at :: int

record WireEvent =
  e_EventID :: string
  e_SourceNode :: string
  e_Seq :: int
  e_Type :: string
  e_TS :: int
  e_Payload :: raw

type_synonym FeedEvent = "int \<times> WireEvent"

record RosterEntry =
  ro_GlobalID :: string
  ro_NodeID :: string
  ro_Name :: string
  ro_Level :: int
  ro_Status :: string
  ro_LastSeen :: int

record HubDebt =
  d_ObligationID :: string
  d_SourceNode :: string
  d_CreditorRef :: string
  d_DebtorRef :: string
  d_Kind :: string
  d_Terms :: string
  d_Weight :: int
  d_Status :: string
  d_UpdatedAt :: int

record TravelRequest =
  t_TravelID :: string
  t_GlobalID :: string
  t_HomeNode :: string
  t_FromNode :: string
  t_DestNode :: string
  t_Snapshot :: raw
  t_Status :: string
  t_Error :: string
  t_CreatedAt :: int
  t_UpdatedAt :: int

record PvPRequest =
  q_RequestID :: string
  q_AttackerID :: string
  q_VictimID :: string
  q_VictimNode :: string
  q_AttackerPayload :: raw
  q_Status :: string
  q_Error :: string
  q_CreatedAt :: int
  q_UpdatedAt :: int

text \<open>A row of \<open>player_locations\<close> and one of the operator tool's \<open>hub_admin_audit\<close>.\<close>

record location =
  l_global_id :: string
  l_current_node :: string
  l_home_node :: string
  l_status :: string
  l_travel_id :: "string option"
  l_updated_at :: int

record audit_row =
  a_created_at :: int
  a_operator :: string
  a_command :: string
  a_target :: string
  a_detail :: string

text \<open>
  The database. \<open>h_evseq\<close> is the high-water mark SQLite keeps for the \<open>AUTOINCREMENT\<close> column
  \<open>hub_seq\<close>; a roster row carries its \<open>updated_at\<close> beside the entry.
\<close>

record hub =
  h_nodes :: "node_row list"
  h_events :: "FeedEvent list"
  h_evseq :: int
  h_roster :: "(RosterEntry \<times> int) list"
  h_debts :: "HubDebt list"
  h_pvp :: "PvPRequest list"
  h_travel :: "TravelRequest list"
  h_locs :: "location list"
  h_audit :: "audit_row list"

text \<open>A freshly created database (\<open>OpenSQLite\<close> on a new path).\<close>

definition hub_empty :: hub where
  "hub_empty = \<lparr>h_nodes = [], h_events = [], h_evseq = 0, h_roster = [], h_debts = [], h_pvp = [],
     h_travel = [], h_locs = [], h_audit = []\<rparr>"

section \<open>Nodes\<close>

definition DisplayGameTitle :: "Node \<Rightarrow> string" where
  "DisplayGameTitle n = (if n_GameTitle n \<noteq> [] then n_GameTitle n else n_GameID n)"

text \<open>The columns the node queries select, with \<open>COALESCE(NULLIF(game_title,''),game_id)\<close>.\<close>

definition scan_node :: "node_row \<Rightarrow> Node" where
  "scan_node r = \<lparr>n_NodeID = n_NodeID r, n_GameID = n_GameID r,
     n_GameTitle = (if n_GameTitle r \<noteq> [] then n_GameTitle r else n_GameID r),
     n_GameVersion = n_GameVersion r, n_ProtocolVersion = n_ProtocolVersion r,
     n_AdvertiseAddr = n_AdvertiseAddr r, n_PlayerCount = n_PlayerCount r, n_UptimeS = n_UptimeS r,
     n_LastHeartbeat = n_LastHeartbeat r, n_Status = n_Status r\<rparr>"

definition RegisterNode :: "io \<Rightarrow> int \<Rightarrow> Node \<Rightarrow> string \<Rightarrow> hub \<Rightarrow> hub \<times> hub_err option" where
  "RegisterNode io now n apiKeyHash h =
     (if io 0 then (h, Some ErrDB)
      else if rows_where (\<lambda>r. n_NodeID r = n_NodeID n) (h_nodes h) > 0 then (h, Some ErrNodeExists)
      else if io 1 \<or> apiKeyHash \<in> n_api_key_hash ` set (h_nodes h) then (h, Some ErrDB)
      else (h\<lparr>h_nodes := h_nodes h @
              [\<lparr>n_NodeID = n_NodeID n, n_GameID = n_GameID n, n_GameTitle = n_GameTitle n,
                n_GameVersion = n_GameVersion n, n_ProtocolVersion = n_ProtocolVersion n,
                n_AdvertiseAddr = n_AdvertiseAddr n, n_PlayerCount = 0, n_UptimeS = 0,
                n_LastHeartbeat = now, n_Status = ''active'',
                n_api_key_hash = apiKeyHash, n_created_at = now\<rparr>]\<rparr>, None))"

definition NodeByAPIKeyHash :: "io \<Rightarrow> string \<Rightarrow> hub \<Rightarrow> hub_err + Node" where
  "NodeByAPIKeyHash io apiKeyHash h =
     (if io 0 then Inl ErrDB
      else case find (\<lambda>r. n_api_key_hash r = apiKeyHash) (h_nodes h) of
             None \<Rightarrow> Inl ErrNotFound | Some r \<Rightarrow> Inr (scan_node r))"

definition NodeByID :: "io \<Rightarrow> string \<Rightarrow> hub \<Rightarrow> hub_err + Node" where
  "NodeByID io nodeID h =
     (if io 0 then Inl ErrDB
      else case find (\<lambda>r. n_NodeID r = nodeID) (h_nodes h) of
             None \<Rightarrow> Inl ErrNotFound | Some r \<Rightarrow> Inr (scan_node r))"

definition Heartbeat :: "io \<Rightarrow> int \<Rightarrow> string \<Rightarrow> int \<Rightarrow> int \<Rightarrow> string \<Rightarrow> hub \<Rightarrow> hub \<times> hub_err option" where
  "Heartbeat io now nodeID playerCount uptimeS gameVersion h =
     (if io 0 then (h, Some ErrDB)
      else if rows_where (\<lambda>r. n_NodeID r = nodeID) (h_nodes h) = 0 then (h, Some ErrNotFound)
      else (h\<lparr>h_nodes := upd_where (\<lambda>r. n_NodeID r = nodeID)
              (\<lambda>r. r\<lparr>n_LastHeartbeat := now, n_PlayerCount := playerCount, n_UptimeS := uptimeS,
                      n_GameVersion := gameVersion\<rparr>) (h_nodes h)\<rparr>, None))"

definition GetDirectory :: "io \<Rightarrow> hub \<Rightarrow> hub_err + Node list" where
  "GetDirectory io h =
     (if io 0 then Inl ErrDB
      else Inr (map scan_node (sort_key n_NodeID (filter (\<lambda>r. n_Status r = ''active'') (h_nodes h)))))"

section \<open>The event feed\<close>

definition head :: "hub \<Rightarrow> int" where
  "head h = (if h_events h = [] then 0 else Max (fst ` set (h_events h)))"

definition FeedHead :: "io \<Rightarrow> hub \<Rightarrow> hub_err + int" where
  "FeedHead io h = (if io 0 then Inl ErrDB else Inr (head h))"

definition EventCount :: "io \<Rightarrow> hub \<Rightarrow> hub_err + int" where
  "EventCount io h = (if io 0 then Inl ErrDB else Inr (int (length (h_events h))))"

text \<open>
  One \<open>INSERT OR IGNORE\<close> into \<open>events\<close>. SQLite leaves open whether an ignored insert uses up
  a value of the \<open>AUTOINCREMENT\<close> sequence; \<open>burn\<close> says what it does.
\<close>

definition insert_event :: "bool \<Rightarrow> WireEvent \<Rightarrow> hub \<Rightarrow> hub \<times> bool" where
  "insert_event burn e h =
     (if e_EventID e \<in> (e_EventID \<circ> snd) ` set (h_events h)
      then (h\<lparr>h_evseq := h_evseq h + (if burn then 1 else 0)\<rparr>, False)
      else (h\<lparr>h_events := h_events h @ [(h_evseq h + 1, e)], h_evseq := h_evseq h + 1\<rparr>, True))"

text \<open>The loop of \<open>AppendEvents\<close> from its k-th statement: the new database, the number
  accepted, and whether a statement failed. There is no transaction around it.\<close>

fun append_loop :: "bool \<Rightarrow> io \<Rightarrow> nat \<Rightarrow> WireEvent list \<Rightarrow> hub \<Rightarrow> hub \<times> int \<times> bool" where
  "append_loop burn io k [] h = (h, 0, False)"
| "append_loop burn io k (e # es) h =
     (if io k then (h, 0, True)
      else case insert_event burn e h of (h1, new) \<Rightarrow>
             case append_loop burn io (Suc k) es h1 of (h2, n, failed) \<Rightarrow>
               (h2, n + (if new then 1 else 0), failed))"

definition AppendEvents :: "bool \<Rightarrow> io \<Rightarrow> WireEvent list \<Rightarrow> hub \<Rightarrow> hub \<times> int \<times> (hub_err + int)" where
  "AppendEvents burn io events h =
     (case append_loop burn io 0 events h of (h1, accepted, failed) \<Rightarrow>
        if failed then (h1, accepted, Inl ErrDB)
        else if io (length events) then (h1, accepted, Inl ErrDB)
        else (h1, accepted, Inr (head h1)))"

text \<open>SQL's \<open>LIMIT\<close>: a negative limit means none.\<close>

definition sql_limit :: "int \<Rightarrow> 'a list \<Rightarrow> 'a list" where
  "sql_limit n xs = (if n < 0 then xs else take (nat n) xs)"

definition FeedSince :: "io \<Rightarrow> int \<Rightarrow> int \<Rightarrow> string \<Rightarrow> hub \<Rightarrow> hub_err + (FeedEvent list \<times> int)" where
  "FeedSince io after limit excludeNode h =
     (if io 0 \<or> io 1 then Inl ErrDB
      else Inr (sql_limit limit (sort_key fst
             (filter (\<lambda>(s, e). s > after \<and> (excludeNode \<noteq> [] \<longrightarrow> e_SourceNode e \<noteq> excludeNode)) (h_events h))),
           head h))"

section \<open>Roster\<close>

text \<open>The insert loop inside the transaction of \<open>UpsertRoster\<close>; \<open>None\<close> rolls back.\<close>

fun roster_insert :: "io \<Rightarrow> nat \<Rightarrow> int \<Rightarrow> string \<Rightarrow> RosterEntry list \<Rightarrow> (RosterEntry \<times> int) list
    \<Rightarrow> (RosterEntry \<times> int) list option" where
  "roster_insert io k now nodeID [] rs = Some rs"
| "roster_insert io k now nodeID (e # es) rs =
     (if io k \<or> ro_GlobalID e \<in> (ro_GlobalID \<circ> fst) ` set rs then None
      else roster_insert io (Suc k) now nodeID es (rs @ [(e\<lparr>ro_NodeID := nodeID\<rparr>, now)]))"

definition UpsertRoster :: "io \<Rightarrow> int \<Rightarrow> string \<Rightarrow> RosterEntry list \<Rightarrow> hub \<Rightarrow> hub \<times> hub_err option" where
  "UpsertRoster io now nodeID entries h =
     (if io 0 \<or> io 1 then (h, Some ErrDB)
      else case roster_insert io 2 now nodeID entries (del_where (\<lambda>(r, _). ro_NodeID r = nodeID) (h_roster h)) of
             None \<Rightarrow> (h, Some ErrDB)
           | Some rs \<Rightarrow> if io (2 + length entries) then (h, Some ErrDB) else (h\<lparr>h_roster := rs\<rparr>, None))"

definition GetRoster :: "io \<Rightarrow> string \<Rightarrow> hub \<Rightarrow> hub_err + RosterEntry list" where
  "GetRoster io excludeNode h =
     (if io 0 then Inl ErrDB
      else Inr (sort_key ro_Name (filter (\<lambda>r. excludeNode \<noteq> [] \<longrightarrow> ro_NodeID r \<noteq> excludeNode) (map fst (h_roster h)))))"

section \<open>The PvP queue\<close>

definition QueuePvP :: "io \<Rightarrow> PvPRequest \<Rightarrow> hub \<Rightarrow> hub \<times> hub_err option" where
  "QueuePvP io req h =
     (if io 0 \<or> q_RequestID req \<in> q_RequestID ` set (h_pvp h) then (h, Some ErrDB)
      else (h\<lparr>h_pvp := h_pvp h @ [req\<lparr>q_Status := ''pending'', q_Error := [], q_UpdatedAt := 0\<rparr>]\<rparr>, None))"

definition PendingPvP :: "io \<Rightarrow> string \<Rightarrow> hub \<Rightarrow> hub_err + PvPRequest list" where
  "PendingPvP io victim_node h =
     (if io 0 then Inl ErrDB
      else Inr (sort_key q_CreatedAt (filter (\<lambda>r. q_VictimNode r = victim_node \<and> q_Status r = ''pending'') (h_pvp h))))"

definition pvp_open :: "string \<Rightarrow> string \<Rightarrow> PvPRequest \<Rightarrow> bool" where
  "pvp_open requestID victim_node r \<longleftrightarrow>
     q_RequestID r = requestID \<and> q_VictimNode r = victim_node \<and> q_Status r = ''pending''"

definition CompletePvP :: "io \<Rightarrow> int \<Rightarrow> string \<Rightarrow> string \<Rightarrow> hub \<Rightarrow> hub \<times> hub_err option" where
  "CompletePvP io now requestID victim_node h =
     (if io 0 then (h, Some ErrDB)
      else if rows_where (pvp_open requestID victim_node) (h_pvp h) = 0 then (h, Some ErrNotFound)
      else (h\<lparr>h_pvp := upd_where (pvp_open requestID victim_node)
              (\<lambda>r. r\<lparr>q_Status := ''resolved'', q_UpdatedAt := now\<rparr>) (h_pvp h)\<rparr>, None))"

definition BlockPvP :: "io \<Rightarrow> int \<Rightarrow> string \<Rightarrow> string \<Rightarrow> string \<Rightarrow> hub \<Rightarrow> hub \<times> hub_err option" where
  "BlockPvP io now requestID victim_node reason h =
     (if io 0 then (h, Some ErrDB)
      else if rows_where (pvp_open requestID victim_node) (h_pvp h) = 0 then (h, Some ErrNotFound)
      else (h\<lparr>h_pvp := upd_where (pvp_open requestID victim_node)
              (\<lambda>r. r\<lparr>q_Status := ''blocked'', q_Error := reason, q_UpdatedAt := now\<rparr>) (h_pvp h)\<rparr>, None))"

definition PendingPvPCount :: "io \<Rightarrow> string \<Rightarrow> hub \<Rightarrow> hub_err + int" where
  "PendingPvPCount io victim_node h =
     (if io 0 then Inl ErrDB
      else Inr (int (rows_where (\<lambda>r. q_VictimNode r = victim_node \<and> q_Status r = ''pending'') (h_pvp h))))"

section \<open>The debt projection\<close>

text \<open>The three payload structs \<open>MaterializeEvents\<close> decodes, each with the success flag.\<close>

definition dec_debt_created :: "json \<Rightarrow> (string \<times> string \<times> string \<times> string \<times> string \<times> int) \<times> bool" where
  "dec_debt_created j =
     (let oid = fld unm_string ''obligation_id'' j []; cr = fld unm_string ''creditor_ref'' j [];
          db = fld unm_string ''debtor_ref'' j []; kd = fld unm_string ''kind'' j [];
          tm = fld unm_string ''terms'' j []; w = fld unm_int ''weight'' j 0
      in ((fst oid, fst cr, fst db, fst kd, fst tm, fst w),
          snd oid \<and> snd cr \<and> snd db \<and> snd kd \<and> snd tm \<and> snd w))"

definition dec_debt_resolved :: "json \<Rightarrow> string \<times> bool" where
  "dec_debt_resolved j = fld unm_string ''obligation_id'' j []"

definition dec_debt_adjusted :: "json \<Rightarrow> (string \<times> int) \<times> bool" where
  "dec_debt_adjusted j =
     (let oid = fld unm_string ''obligation_id'' j []; w = fld unm_int ''new_weight'' j 0
      in ((fst oid, fst w), snd oid \<and> snd w))"

text \<open>
  One iteration of \<open>MaterializeEvents\<close>; \<open>fault\<close> is the failure of its statement, whose error
  is discarded. An empty payload does not parse, so it is skipped like a malformed one.
\<close>

definition materialize1 :: "bool \<Rightarrow> WireEvent \<Rightarrow> HubDebt list \<Rightarrow> HubDebt list" where
  "materialize1 fault e ds =
     (case e_Payload e of
        None \<Rightarrow> ds
      | Some j \<Rightarrow>
          if fault then ds
          else if e_Type e = ''debt.created'' then
            (case dec_debt_created j of ((oid, cr, db, kd, tm, w), ok) \<Rightarrow>
               if ok then insert_ignore d_ObligationID
                 \<lparr>d_ObligationID = oid, d_SourceNode = e_SourceNode e, d_CreditorRef = cr, d_DebtorRef = db,
                  d_Kind = kd, d_Terms = tm, d_Weight = w, d_Status = ''open'', d_UpdatedAt = e_TS e\<rparr> ds
               else ds)
          else if e_Type e = ''debt.resolved'' then
            (case dec_debt_resolved j of (oid, ok) \<Rightarrow>
               if ok then upd_where (\<lambda>d. d_ObligationID d = oid)
                 (\<lambda>d. d\<lparr>d_Status := ''resolved'', d_UpdatedAt := e_TS e\<rparr>) ds
               else ds)
          else if e_Type e = ''debt.adjusted'' then
            (case dec_debt_adjusted j of ((oid, w), ok) \<Rightarrow>
               if ok then upd_where (\<lambda>d. d_ObligationID d = oid \<and> d_Status d = ''open'')
                 (\<lambda>d. d\<lparr>d_Weight := w, d_UpdatedAt := e_TS e\<rparr>) ds
               else ds)
          else ds)"

fun materialize :: "io \<Rightarrow> nat \<Rightarrow> WireEvent list \<Rightarrow> HubDebt list \<Rightarrow> HubDebt list" where
  "materialize io k [] ds = ds"
| "materialize io k (e # es) ds = materialize io (Suc k) es (materialize1 (io k) e ds)"

definition MaterializeEvents :: "io \<Rightarrow> WireEvent list \<Rightarrow> hub \<Rightarrow> hub" where
  "MaterializeEvents io events h = h\<lparr>h_debts := materialize io 0 events (h_debts h)\<rparr>"

definition DebtsForDebtor :: "io \<Rightarrow> string \<Rightarrow> hub \<Rightarrow> hub_err + HubDebt list" where
  "DebtsForDebtor io debtor h =
     (if io 0 then Inl ErrDB
      else Inr (sort_key (\<lambda>d. - d_UpdatedAt d) (filter (\<lambda>d. d_DebtorRef d = debtor) (h_debts h))))"

section \<open>Travel\<close>

text \<open>\<open>refNode\<close> and \<open>victimNode\<close>: the part of a global id before its first colon.\<close>

definition refNode :: "string \<Rightarrow> string" where
  "refNode gid = (if CHR '':'' \<in> set gid then takeWhile (\<lambda>c. c \<noteq> CHR '':'') gid else [])"

definition victimNode :: "string \<Rightarrow> string" where
  "victimNode victimID = refNode victimID"

text \<open>\<open>currentLocation\<close>: the location row's current and home node, empty strings without a row.\<close>

definition currentLocation :: "string \<Rightarrow> hub \<Rightarrow> string \<times> string" where
  "currentLocation globalID h =
     (case find (\<lambda>l. l_global_id l = globalID) (h_locs h) of
        None \<Rightarrow> ([], []) | Some l \<Rightarrow> (l_current_node l, l_home_node l))"

definition travel_pending_for :: "string \<Rightarrow> TravelRequest \<Rightarrow> bool" where
  "travel_pending_for globalID t \<longleftrightarrow> t_GlobalID t = globalID \<and> t_Status t = ''pending''"

text \<open>The current node a submission is checked against, and the home node it records.\<close>

definition submit_current :: "TravelRequest \<Rightarrow> hub \<Rightarrow> string" where
  "submit_current req h =
     (let cur = fst (currentLocation (t_GlobalID req) h)
      in if cur = [] then victimNode (t_GlobalID req) else cur)"

definition submit_home :: "TravelRequest \<Rightarrow> hub \<Rightarrow> string" where
  "submit_home req h =
     (let (cur, hom) = currentLocation (t_GlobalID req) h;
          homeNode = (if cur = [] then victimNode (t_GlobalID req) else hom)
      in if t_HomeNode req = [] then homeNode else t_HomeNode req)"

definition SubmitTravel :: "io \<Rightarrow> int \<Rightarrow> TravelRequest \<Rightarrow> hub \<Rightarrow> hub \<times> hub_err option" where
  "SubmitTravel io now req h =
     (if io 0 \<or> io 1 then (h, Some ErrDB)
      else if rows_where (travel_pending_for (t_GlobalID req)) (h_travel h) > 0 then (h, Some ErrTravelActive)
      else if io 2 then (h, Some ErrDB)
      else if submit_current req h \<noteq> t_FromNode req then (h, Some ErrLocationMismatch)
      else if t_DestNode req = t_FromNode req then (h, Some ErrLocationMismatch)
      else if io 3 \<or> t_TravelID req \<in> t_TravelID ` set (h_travel h) \<or> io 4 \<or> io 5 then (h, Some ErrDB)
      else (h\<lparr>h_travel := h_travel h @
                [req\<lparr>t_HomeNode := submit_home req h, t_Status := ''pending'', t_Error := [], t_UpdatedAt := 0\<rparr>],
              h_locs := upsert l_global_id (\<lambda>_ new. new)
                \<lparr>l_global_id = t_GlobalID req, l_current_node = t_FromNode req, l_home_node = submit_home req h,
                 l_status = ''traveling'', l_travel_id = Some (t_TravelID req), l_updated_at = now\<rparr>
                (h_locs h)\<rparr>, None))"

definition PendingTravel :: "io \<Rightarrow> string \<Rightarrow> hub \<Rightarrow> hub_err + TravelRequest list" where
  "PendingTravel io destNode h =
     (if io 0 then Inl ErrDB
      else Inr (sort_key t_CreatedAt (filter (\<lambda>r. t_DestNode r = destNode \<and> t_Status r = ''pending'') (h_travel h))))"

definition PendingTravelCount :: "io \<Rightarrow> string \<Rightarrow> hub \<Rightarrow> hub_err + int" where
  "PendingTravelCount io destNode h =
     (if io 0 then Inl ErrDB
      else Inr (int (rows_where (\<lambda>r. t_DestNode r = destNode \<and> t_Status r = ''pending'') (h_travel h))))"

definition travel_open :: "string \<Rightarrow> string \<Rightarrow> TravelRequest \<Rightarrow> bool" where
  "travel_open travelID destNode t \<longleftrightarrow>
     t_TravelID t = travelID \<and> t_DestNode t = destNode \<and> t_Status t = ''pending''"

definition ArriveTravel :: "io \<Rightarrow> int \<Rightarrow> string \<Rightarrow> string \<Rightarrow> hub \<Rightarrow> hub \<times> hub_err option" where
  "ArriveTravel io now travelID destNode h =
     (if io 0 \<or> io 1 then (h, Some ErrDB)
      else case find (travel_open travelID destNode) (h_travel h) of
             None \<Rightarrow> (h, Some ErrNotFound)
           | Some t \<Rightarrow>
               if io 2 then (h, Some ErrDB)
               else if rows_where (travel_open travelID destNode) (h_travel h) = 0 then (h, Some ErrNotFound)
               else if io 3 \<or> io 4 then (h, Some ErrDB)
               else (h\<lparr>h_travel := upd_where (travel_open travelID destNode)
                         (\<lambda>t. t\<lparr>t_Status := ''arrived'', t_UpdatedAt := now\<rparr>) (h_travel h),
                       h_locs := upsert l_global_id (\<lambda>_ new. new)
                         \<lparr>l_global_id = t_GlobalID t, l_current_node = destNode, l_home_node = t_HomeNode t,
                          l_status = ''active'', l_travel_id = None, l_updated_at = now\<rparr> (h_locs h)\<rparr>, None))"

definition BlockTravel :: "io \<Rightarrow> int \<Rightarrow> string \<Rightarrow> string \<Rightarrow> string \<Rightarrow> hub \<Rightarrow> hub \<times> hub_err option" where
  "BlockTravel io now travelID destNode reason h =
     (if io 0 then (h, Some ErrDB)
      else if rows_where (travel_open travelID destNode) (h_travel h) = 0 then (h, Some ErrNotFound)
      else (h\<lparr>h_travel := upd_where (travel_open travelID destNode)
              (\<lambda>t. t\<lparr>t_Status := ''blocked'', t_Error := reason, t_UpdatedAt := now\<rparr>) (h_travel h)\<rparr>, None))"

section \<open>Well-formedness\<close>

text \<open>
  What the schema and the insert paths keep: primary keys and unique columns are unique, the
  feed is listed in strictly increasing \<open>hub_seq\<close> below the high-water mark, and queue rows
  are in one of their three states.
\<close>

definition feed_wf :: "hub \<Rightarrow> bool" where
  "feed_wf h \<longleftrightarrow>
     sorted_wrt (<) (map fst (h_events h)) \<and> (\<forall>p \<in> set (h_events h). 0 < fst p \<and> fst p \<le> h_evseq h)
     \<and> distinct (map (e_EventID \<circ> snd) (h_events h)) \<and> 0 \<le> h_evseq h"

definition hub_wf :: "hub \<Rightarrow> bool" where
  "hub_wf h \<longleftrightarrow>
     distinct (map n_NodeID (h_nodes h)) \<and> distinct (map n_api_key_hash (h_nodes h))
     \<and> feed_wf h
     \<and> distinct (map (ro_GlobalID \<circ> fst) (h_roster h))
     \<and> distinct (map d_ObligationID (h_debts h))
     \<and> distinct (map q_RequestID (h_pvp h))
     \<and> (\<forall>r \<in> set (h_pvp h). q_Status r \<in> {''pending'', ''resolved'', ''blocked''})
     \<and> distinct (map t_TravelID (h_travel h))
     \<and> (\<forall>t \<in> set (h_travel h). t_Status t \<in> {''pending'', ''arrived'', ''blocked''})
     \<and> distinct (map l_global_id (h_locs h))"

text \<open>
  The travel invariant: a player has at most one pending request, and a pending request agrees
  with the player's location row.
\<close>

definition loc_of_travel :: "TravelRequest \<Rightarrow> location \<Rightarrow> bool" where
  "loc_of_travel t l \<longleftrightarrow> l_global_id l = t_GlobalID t \<and> l_current_node l = t_FromNode t
     \<and> l_home_node l = t_HomeNode t \<and> l_status l = ''traveling'' \<and> l_travel_id l = Some (t_TravelID t)"

definition travel_ok :: "hub \<Rightarrow> bool" where
  "travel_ok h \<longleftrightarrow>
     (\<forall>t \<in> set (h_travel h). \<forall>u \<in> set (h_travel h).
        t_Status t = ''pending'' \<and> t_Status u = ''pending'' \<and> t_GlobalID t = t_GlobalID u \<longrightarrow> t = u)
     \<and> (\<forall>t \<in> set (h_travel h). t_Status t = ''pending'' \<longrightarrow> (\<exists>l \<in> set (h_locs h). loc_of_travel t l))"

definition hub_inv :: "hub \<Rightarrow> bool" where
  "hub_inv h \<longleftrightarrow> hub_wf h \<and> travel_ok h"

lemma hub_inv_empty: "hub_inv hub_empty"
  by (simp add: hub_inv_def hub_wf_def feed_wf_def travel_ok_def hub_empty_def)

text \<open>Updates that touch none of the fields the invariants read keep them.\<close>

lemma feed_wf_frame [simp]:
  "feed_wf (h\<lparr>h_nodes := ns\<rparr>) = feed_wf h" "feed_wf (h\<lparr>h_roster := rs\<rparr>) = feed_wf h"
  "feed_wf (h\<lparr>h_debts := ds\<rparr>) = feed_wf h" "feed_wf (h\<lparr>h_pvp := qs\<rparr>) = feed_wf h"
  "feed_wf (h\<lparr>h_travel := ts\<rparr>) = feed_wf h" "feed_wf (h\<lparr>h_locs := ls\<rparr>) = feed_wf h"
  "feed_wf (h\<lparr>h_audit := as\<rparr>) = feed_wf h"
  by (simp_all add: feed_wf_def)

lemma travel_ok_frame [simp]:
  "travel_ok (h\<lparr>h_nodes := ns\<rparr>) = travel_ok h" "travel_ok (h\<lparr>h_events := es\<rparr>) = travel_ok h"
  "travel_ok (h\<lparr>h_evseq := n\<rparr>) = travel_ok h" "travel_ok (h\<lparr>h_roster := rs\<rparr>) = travel_ok h"
  "travel_ok (h\<lparr>h_debts := ds\<rparr>) = travel_ok h" "travel_ok (h\<lparr>h_pvp := qs\<rparr>) = travel_ok h"
  "travel_ok (h\<lparr>h_audit := as\<rparr>) = travel_ok h"
  by (simp_all add: travel_ok_def)

lemmas hub_inv_defs = hub_inv_def hub_wf_def

subsection \<open>Nodes\<close>

lemma RegisterNode_inv: "hub_inv h \<Longrightarrow> hub_inv (fst (RegisterNode io now n k h))"
  by (auto simp: RegisterNode_def table_simps hub_inv_defs)

lemma Heartbeat_inv: "hub_inv h \<Longrightarrow> hub_inv (fst (Heartbeat io now i p u v h))"
  by (auto simp: Heartbeat_def hub_inv_defs map_upd_where)

subsection \<open>Feed\<close>

lemma insert_event_feed_wf: "feed_wf h \<Longrightarrow> feed_wf (fst (insert_event burn e h))"
  by (fastforce simp: feed_wf_def insert_event_def sorted_wrt_append)

lemma insert_event_frame:
  assumes "insert_event burn e h = (h', b)"
  shows "h_nodes h' = h_nodes h" "h_roster h' = h_roster h" "h_debts h' = h_debts h" "h_pvp h' = h_pvp h"
    "h_travel h' = h_travel h" "h_locs h' = h_locs h" "h_audit h' = h_audit h"
  using assms by (auto simp: insert_event_def split: if_splits)

lemma append_loop_frame:
  "append_loop burn io k es h = (h', n, f) \<Longrightarrow>
   h_nodes h' = h_nodes h \<and> h_roster h' = h_roster h \<and> h_debts h' = h_debts h \<and> h_pvp h' = h_pvp h
   \<and> h_travel h' = h_travel h \<and> h_locs h' = h_locs h \<and> h_audit h' = h_audit h"
proof (induction es arbitrary: k h h' n f)
  case Nil
  then show ?case by simp
next
  case (Cons e es)
  then show ?case
    by (fastforce split: if_splits prod.splits dest: insert_event_frame)
qed

lemma append_loop_feed_wf: "feed_wf h \<Longrightarrow> feed_wf (fst (append_loop burn io k es h))"
proof (induction es arbitrary: k h)
  case (Cons e es)
  have "feed_wf (fst (insert_event burn e h))"
    using Cons.prems by (rule insert_event_feed_wf)
  then have "feed_wf (fst (append_loop burn io (Suc k) es (fst (insert_event burn e h))))"
    by (rule Cons.IH)
  then show ?case
    using Cons.prems by (simp add: case_prod_beta)
qed simp

lemma AppendEvents_inv: "hub_inv h \<Longrightarrow> hub_inv (fst (AppendEvents burn io es h))"
proof -
  assume inv: "hub_inv h"
  obtain h1 n f where ap: "append_loop burn io 0 es h = (h1, n, f)"
    by (metis prod_cases3)
  have "feed_wf h1"
    using inv append_loop_feed_wf [of h burn io 0 es] by (simp add: hub_inv_def hub_wf_def ap)
  then have "hub_inv h1"
    using inv append_loop_frame [OF ap] by (simp add: hub_inv_def hub_wf_def travel_ok_def)
  then show ?thesis
    by (simp add: AppendEvents_def ap)
qed

subsection \<open>Roster\<close>

lemma roster_insert_distinct:
  "roster_insert io k now i es rs = Some rs' \<Longrightarrow> distinct (map (ro_GlobalID \<circ> fst) rs) \<Longrightarrow>
   distinct (map (ro_GlobalID \<circ> fst) rs')"
  by (induction es arbitrary: k rs) (auto split: if_splits)

lemma UpsertRoster_inv: "hub_inv h \<Longrightarrow> hub_inv (fst (UpsertRoster io now i es h))"
proof -
  assume inv: "hub_inv h"
  have "distinct (map (ro_GlobalID \<circ> fst) (del_where (\<lambda>(r, _). ro_NodeID r = i) (h_roster h)))"
    using inv by (auto simp: hub_inv_def hub_wf_def intro!: distinct_map_key)
  then show ?thesis
    using inv by (auto simp: UpsertRoster_def hub_inv_defs split: option.splits dest: roster_insert_distinct)
qed

subsection \<open>Queues\<close>

lemma QueuePvP_inv: "hub_inv h \<Longrightarrow> hub_inv (fst (QueuePvP io q h))"
  by (auto simp: QueuePvP_def hub_inv_defs)

lemma CompletePvP_inv: "hub_inv h \<Longrightarrow> hub_inv (fst (CompletePvP io now i v h))"
  by (auto simp: CompletePvP_def hub_inv_defs map_upd_where table_simps)

lemma BlockPvP_inv: "hub_inv h \<Longrightarrow> hub_inv (fst (BlockPvP io now i v why h))"
  by (auto simp: BlockPvP_def hub_inv_defs map_upd_where table_simps)

subsection \<open>Debts\<close>

lemma materialize1_distinct:
  "distinct (map d_ObligationID ds) \<Longrightarrow> distinct (map d_ObligationID (materialize1 f e ds))"
  by (auto simp: materialize1_def intro!: distinct_insert_ignore distinct_upd_where
      split: option.split prod.split)

lemma materialize_distinct:
  "distinct (map d_ObligationID ds) \<Longrightarrow> distinct (map d_ObligationID (materialize io k es ds))"
  by (induction es arbitrary: k ds) (simp_all add: materialize1_distinct)

lemma MaterializeEvents_inv: "hub_inv h \<Longrightarrow> hub_inv (MaterializeEvents io es h)"
  by (simp add: MaterializeEvents_def hub_inv_defs materialize_distinct)

subsection \<open>Travel\<close>

lemma SubmitTravel_cases:
  assumes "SubmitTravel io now req h = (h', r)"
  shows "(r \<noteq> None \<and> h' = h) \<or>
     (r = None \<and> (\<forall>t \<in> set (h_travel h). \<not> travel_pending_for (t_GlobalID req) t)
      \<and> t_TravelID req \<notin> t_TravelID ` set (h_travel h)
      \<and> submit_current req h = t_FromNode req \<and> t_DestNode req \<noteq> t_FromNode req
      \<and> h' = h\<lparr>h_travel := h_travel h @
              [req\<lparr>t_HomeNode := submit_home req h, t_Status := ''pending'', t_Error := [], t_UpdatedAt := 0\<rparr>],
            h_locs := upsert l_global_id (\<lambda>_ new. new)
              \<lparr>l_global_id = t_GlobalID req, l_current_node = t_FromNode req, l_home_node = submit_home req h,
               l_status = ''traveling'', l_travel_id = Some (t_TravelID req), l_updated_at = now\<rparr> (h_locs h)\<rparr>)"
  using assms by (auto simp: SubmitTravel_def table_simps split: if_splits)

lemma upsert_replace_mem:
  "r \<in> set (upsert key (\<lambda>_ new. new) r xs)"
  by (auto simp: upsert_def table_simps)

lemma upsert_replace_other:
  "x \<in> set xs \<Longrightarrow> key x \<noteq> key r \<Longrightarrow> x \<in> set (upsert key (\<lambda>_ new. new) r xs)"
  by (auto simp: upsert_def table_simps)

text \<open>A new pending request for a player without one, with its location row, keeps the travel
  invariant; so does any location change for a player without a pending request.\<close>

lemma travel_ok_add:
  assumes ok: "travel_ok h" and none: "\<forall>u \<in> set (h_travel h). \<not> travel_pending_for (t_GlobalID t) u"
    and loc: "loc_of_travel t l"
  shows "travel_ok (h\<lparr>h_travel := h_travel h @ [t], h_locs := upsert l_global_id (\<lambda>_ new. new) l (h_locs h)\<rparr>)"
proof -
  have l: "l_global_id l = t_GlobalID t"
    using loc by (simp add: loc_of_travel_def)
  have "\<exists>m \<in> set (upsert l_global_id (\<lambda>_ new. new) l (h_locs h)). loc_of_travel u m"
    if u: "u \<in> set (h_travel h)" "t_Status u = ''pending''" for u
  proof -
    obtain m where m: "m \<in> set (h_locs h)" "loc_of_travel u m"
      using ok u by (auto simp: travel_ok_def)
    then have "l_global_id m \<noteq> l_global_id l"
      using none u l by (auto simp: travel_pending_for_def loc_of_travel_def)
    then show ?thesis
      using m upsert_replace_other [of m "h_locs h" l_global_id l] by blast
  qed
  then show ?thesis
    using ok none loc upsert_replace_mem [of l l_global_id "h_locs h"]
    by (auto simp: travel_ok_def travel_pending_for_def)
qed

lemma SubmitTravel_inv:
  assumes inv: "hub_inv h"
  shows "hub_inv (fst (SubmitTravel io now req h))"
proof -
  obtain h' r where eq: "SubmitTravel io now req h = (h', r)"
    by (cases "SubmitTravel io now req h")
  from SubmitTravel_cases [OF eq] show ?thesis
  proof (elim disjE conjE)
    assume "h' = h"
    then show ?thesis using inv by (simp add: eq)
  next
    assume none: "\<forall>t \<in> set (h_travel h). \<not> travel_pending_for (t_GlobalID req) t"
      and fresh: "t_TravelID req \<notin> t_TravelID ` set (h_travel h)"
      and h': "h' = h\<lparr>h_travel := h_travel h @
              [req\<lparr>t_HomeNode := submit_home req h, t_Status := ''pending'', t_Error := [], t_UpdatedAt := 0\<rparr>],
            h_locs := upsert l_global_id (\<lambda>_ new. new)
              \<lparr>l_global_id = t_GlobalID req, l_current_node = t_FromNode req, l_home_node = submit_home req h,
               l_status = ''traveling'', l_travel_id = Some (t_TravelID req), l_updated_at = now\<rparr> (h_locs h)\<rparr>"
    have "hub_wf h'"
      using inv fresh by (auto simp: h' hub_inv_defs intro!: distinct_upsert)
    moreover have "travel_ok h'"
      unfolding h' using inv none by (intro travel_ok_add) (auto simp: hub_inv_def loc_of_travel_def)
    ultimately show ?thesis by (simp add: eq hub_inv_def)
  qed
qed

lemma travel_settle_inv:
  assumes inv: "hub_inv h" and st: "st \<in> {''arrived'', ''blocked''}"
    and same: "\<And>t. t_TravelID (f t) = t_TravelID t" "\<And>t. t_Status (f t) = st"
  shows "hub_inv (h\<lparr>h_travel := upd_where (travel_open i d) f (h_travel h)\<rparr>)"
  using assms by (auto simp: hub_inv_defs travel_ok_def map_upd_where table_simps)

lemma BlockTravel_inv: "hub_inv h \<Longrightarrow> hub_inv (fst (BlockTravel io now i d why h))"
  by (auto simp: BlockTravel_def intro!: travel_settle_inv [where st = "''blocked''"])

lemma hub_inv_loc:
  assumes inv: "hub_inv h"
    and other: "\<And>u. u \<in> set (h_travel h) \<Longrightarrow> t_Status u = ''pending'' \<Longrightarrow> t_GlobalID u \<noteq> l_global_id l"
  shows "hub_inv (h\<lparr>h_locs := upsert l_global_id (\<lambda>_ new. new) l (h_locs h)\<rparr>)"
proof -
  have "\<exists>m \<in> set (upsert l_global_id (\<lambda>_ new. new) l (h_locs h)). loc_of_travel u m"
    if u: "u \<in> set (h_travel h)" "t_Status u = ''pending''" for u
  proof -
    obtain m where m: "m \<in> set (h_locs h)" "loc_of_travel u m"
      using inv u by (auto simp: hub_inv_def travel_ok_def)
    then have "l_global_id m \<noteq> l_global_id l"
      using other [OF u] by (simp add: loc_of_travel_def)
    then show ?thesis
      using m upsert_replace_other [of m "h_locs h" l_global_id l] by blast
  qed
  then show ?thesis
    using inv by (auto simp: hub_inv_defs travel_ok_def intro!: distinct_upsert)
qed

lemma ArriveTravel_inv:
  assumes inv: "hub_inv h"
  shows "hub_inv (fst (ArriveTravel io now i d h))"
proof (cases "find (travel_open i d) (h_travel h)")
  case None
  then show ?thesis using inv by (simp add: ArriveTravel_def)
next
  case (Some t)
  let ?f = "\<lambda>t. t\<lparr>t_Status := ''arrived'', t_UpdatedAt := now\<rparr>"
  let ?h1 = "h\<lparr>h_travel := upd_where (travel_open i d) ?f (h_travel h)\<rparr>"
  let ?l = "\<lparr>l_global_id = t_GlobalID t, l_current_node = d, l_home_node = t_HomeNode t,
     l_status = ''active'', l_travel_id = None, l_updated_at = now\<rparr>"
  have t: "t \<in> set (h_travel h)" "travel_open i d t"
    using find_Some_D [OF Some] by auto
  have h1: "hub_inv ?h1"
    using inv by (auto intro!: travel_settle_inv [where st = "''arrived''"])
  have other: "\<And>u. u \<in> set (h_travel ?h1) \<Longrightarrow> t_Status u = ''pending'' \<Longrightarrow> t_GlobalID u \<noteq> t_GlobalID t"
    using inv t by (auto simp: hub_inv_def travel_ok_def table_simps travel_open_def)
  have "hub_inv (?h1\<lparr>h_locs := upsert l_global_id (\<lambda>_ new. new) ?l (h_locs h)\<rparr>)"
    using hub_inv_loc [of ?h1 ?l] h1 other by simp
  then show ?thesis
    using inv by (simp add: ArriveTravel_def Some)
qed

section \<open>The contracts of the store\<close>

subsection \<open>The feed keeps one entry per event id\<close>

interpretation hubfeed: dedup_log "\<lambda>h. map (e_EventID \<circ> snd) (h_events h)" e_EventID "insert_event burn" for burn
  by unfold_locales (auto simp: insert_event_def)

text \<open>Without faults the loop of \<open>AppendEvents\<close> is the contract's \<open>put_all\<close>.\<close>

lemma append_loop_put_all:
  "append_loop burn no_io k es h
     = (fst (put_all (insert_event burn) es h), int (snd (put_all (insert_event burn) es h)), False)"
  by (induction es arbitrary: k h) (auto simp: case_prod_beta)

text \<open>A batch cut short by a fault has stored a prefix of it.\<close>

lemma append_loop_prefix:
  "\<exists>m \<le> length es. fst (append_loop burn io k es h) = fst (put_all (insert_event burn) (take m es) h)
     \<and> (\<not> snd (snd (append_loop burn io k es h)) \<longrightarrow> m = length es)"
proof (induction es arbitrary: k h)
  case (Cons e es)
  show ?case
  proof (cases "io k")
    case True
    then show ?thesis by (intro exI [of _ 0]) simp
  next
    case False
    obtain m where "m \<le> length es"
      and "fst (append_loop burn io (Suc k) es (fst (insert_event burn e h)))
        = fst (put_all (insert_event burn) (take m es) (fst (insert_event burn e h)))"
      and "\<not> snd (snd (append_loop burn io (Suc k) es (fst (insert_event burn e h)))) \<longrightarrow> m = length es"
      using Cons.IH by blast
    then show ?thesis
      using False by (intro exI [of _ "Suc m"]) (simp add: case_prod_beta)
  qed
qed simp

subsection \<open>The queues\<close>

lemma map_upd_triple:
  assumes "\<And>r. rid (f r) = rid r" "\<And>r. own (f r) = own r" "\<And>r. st (f r) = fin"
    and "\<And>r. P r \<longleftrightarrow> rid r = i \<and> own r = w \<and> st r = p"
  shows "map (\<lambda>r. (rid r, own r, st r)) (upd_where P f xs)
    = map (\<lambda>r. (rid r, own r, if rid r = i \<and> own r = w \<and> st r = p then fin else st r)) xs"
  using assms by (induction xs) (auto simp: upd_where_def)

interpretation pvpdone: owner_queue h_pvp q_RequestID q_VictimNode q_Status "\<lambda>io. CompletePvP io now" "''resolved''" for now
  by unfold_locales
    (auto simp: CompletePvP_def table_simps pvp_open_def intro!: map_upd_triple split: if_splits)

interpretation pvpblock: owner_queue h_pvp q_RequestID q_VictimNode q_Status
    "\<lambda>io i w. BlockPvP io now i w why" "''blocked''" for now why
  by unfold_locales
    (auto simp: BlockPvP_def table_simps pvp_open_def intro!: map_upd_triple split: if_splits)

interpretation travelblock: owner_queue h_travel t_TravelID t_DestNode t_Status
    "\<lambda>io i w. BlockTravel io now i w why" "''blocked''" for now why
  by unfold_locales
    (auto simp: BlockTravel_def table_simps travel_open_def intro!: map_upd_triple split: if_splits)

lemma ArriveTravel_none:
  "snd (ArriveTravel io now i d h) = None \<longleftrightarrow>
   (\<exists>t \<in> set (h_travel h). travel_open i d t) \<and> \<not> io 0 \<and> \<not> io 1 \<and> \<not> io 2 \<and> \<not> io 3 \<and> \<not> io 4"
  by (auto simp: ArriveTravel_def table_simps dest: find_None_D find_Some_D split: option.split)

lemma ArriveTravel_travel:
  "snd (ArriveTravel io now i d h) = None \<Longrightarrow>
   h_travel (fst (ArriveTravel io now i d h))
     = upd_where (travel_open i d) (\<lambda>t. t\<lparr>t_Status := ''arrived'', t_UpdatedAt := now\<rparr>) (h_travel h)"
  by (auto simp: ArriveTravel_def split: option.splits if_splits)

interpretation travelarrive: owner_queue h_travel t_TravelID t_DestNode t_Status "\<lambda>io. ArriveTravel io now" "''arrived''" for now
proof unfold_locales
  fix io i w h
  show "fst (ArriveTravel io now i w h) = h" if "snd (ArriveTravel io now i w h) \<noteq> None"
    using that by (auto simp: ArriveTravel_def split: option.splits if_splits)
  show "map (\<lambda>r. (t_TravelID r, t_DestNode r, t_Status r)) (h_travel (fst (ArriveTravel io now i w h))) =
      map (\<lambda>r. (t_TravelID r, t_DestNode r,
        if t_TravelID r = i \<and> t_DestNode r = w \<and> t_Status r = ''pending'' then ''arrived'' else t_Status r)) (h_travel h)"
    if "snd (ArriveTravel io now i w h) = None"
    using that by (simp only: ArriveTravel_travel) (rule map_upd_triple; simp add: travel_open_def)
qed (auto simp: ArriveTravel_none travel_open_def)

end
