(* ===== verification/Hub_Server.thy ===== *)
theory Hub_Server
  imports Hub_Store
begin

text \<open>
  The hub's HTTP API: \<open>internal/hub/server.go\<close> with the key functions of
  \<open>internal/hub/auth.go\<close>. A request is a method, the decoded path segments, the query
  parameters, the \<open>Authorization\<close> header and the JSON value of its body (\<open>None\<close> when the body
  is not valid JSON); a response is a status code and its JSON body. Each handler maps a
  database to a database and a response. The environment \<open>henv\<close> of a request holds the clock
  in nanoseconds, the random bytes it draws, SHA-256, SQLite's choice about ignored inserts
  and the fault schedule, by store operation and statement number.
\<close>

section \<open>Requests, responses and environment\<close>

record henv =
  v_nanos :: int
  v_keyBytes :: "nat list"
  v_idBytes :: "nat list"
  v_sha256 :: "string \<Rightarrow> nat list"
  v_burn :: bool
  v_io :: "string \<Rightarrow> nat \<Rightarrow> bool"

definition unix_now :: "henv \<Rightarrow> int" where
  "unix_now env = v_nanos env div 10 ^ 9"

record Server =
  s_regToken :: string

record http_req =
  r_method :: string
  r_path :: "string list"
  r_query :: "(string \<times> string) list"
  r_auth :: string
  r_body :: raw

record http_resp =
  p_code :: int
  p_body :: raw

definition writeJSON :: "int \<Rightarrow> json \<Rightarrow> http_resp" where
  "writeJSON code v = \<lparr>p_code = code, p_body = Some v\<rparr>"

definition writeErr :: "int \<Rightarrow> string \<Rightarrow> http_resp" where
  "writeErr code msg = writeJSON code (JObj [(''error'', JStr msg)])"

section \<open>Keys\<close>

definition b64_char :: "nat \<Rightarrow> char" where
  "b64_char n = (if n < 26 then char_of (65 + n) else if n < 52 then char_of (71 + n)
     else if n < 62 then char_of (n - 4) else if n = 62 then CHR ''-'' else CHR ''_'')"

fun base64_raw_url :: "nat list \<Rightarrow> string" where
  "base64_raw_url [] = []"
| "base64_raw_url [a] = [b64_char (a div 4), b64_char (a mod 4 * 16)]"
| "base64_raw_url [a, b] = [b64_char (a div 4), b64_char (a mod 4 * 16 + b div 16), b64_char (b mod 16 * 4)]"
| "base64_raw_url (a # b # c # bs) =
     [b64_char (a div 4), b64_char (a mod 4 * 16 + b div 16), b64_char (b mod 16 * 4 + c div 64), b64_char (c mod 64)]
     @ base64_raw_url bs"

definition hashKey :: "henv \<Rightarrow> string \<Rightarrow> string" where
  "hashKey env key = hex_encode (v_sha256 env key)"

definition newAPIKey :: "henv \<Rightarrow> string \<times> string" where
  "newAPIKey env = (let key = base64_raw_url (v_keyBytes env) in (key, hashKey env key))"

section \<open>Registration\<close>

definition ProtocolVersion :: string where
  "ProtocolVersion = ''1''"

record registerReq =
  rg_NodeID :: string
  rg_RegistrationToken :: string
  rg_GameID :: string
  rg_GameTitle :: string
  rg_GameVersion :: string
  rg_ProtocolVersion :: string
  rg_AdvertiseAddr :: string

definition dec_registerReq :: "json \<Rightarrow> registerReq \<times> bool" where
  "dec_registerReq j =
     (let f = (\<lambda>name. fld unm_string name j []);
          names = [''node_id'', ''registration_token'', ''game_id'', ''game_title'', ''game_version'',
                   ''protocol_version'', ''advertise_addr'']
      in (\<lparr>rg_NodeID = fst (f ''node_id''), rg_RegistrationToken = fst (f ''registration_token''),
           rg_GameID = fst (f ''game_id''), rg_GameTitle = fst (f ''game_title''),
           rg_GameVersion = fst (f ''game_version''), rg_ProtocolVersion = fst (f ''protocol_version''),
           rg_AdvertiseAddr = fst (f ''advertise_addr'')\<rparr>,
          list_all (\<lambda>n. snd (f n)) names))"

definition register_node :: "registerReq \<Rightarrow> Node" where
  "register_node req =
     (let t = trim_space (rg_GameTitle req);
          gameTitle = (if t = [] then rg_GameID req else t)
      in \<lparr>n_NodeID = rg_NodeID req, n_GameID = rg_GameID req, n_GameTitle = gameTitle,
          n_GameVersion = rg_GameVersion req, n_ProtocolVersion = rg_ProtocolVersion req,
          n_AdvertiseAddr = rg_AdvertiseAddr req, n_PlayerCount = 0, n_UptimeS = 0,
          n_LastHeartbeat = 0, n_Status = []\<rparr>)"

definition handleRegister :: "Server \<Rightarrow> henv \<Rightarrow> http_req \<Rightarrow> hub \<Rightarrow> hub \<times> http_resp" where
  "handleRegister s env r h =
     (case map_option dec_registerReq (r_body r) of
        None \<Rightarrow> (h, writeErr 400 ''invalid json'')
      | Some (req, ok) \<Rightarrow>
          if \<not> ok then (h, writeErr 400 ''invalid json'')
          else if rg_RegistrationToken req = [] \<or> rg_RegistrationToken req \<noteq> s_regToken s
            then (h, writeErr 401 ''bad registration token'')
          else if rg_ProtocolVersion req \<noteq> ProtocolVersion then (h, writeErr 426 ''unsupported protocol version'')
          else if rg_NodeID req = [] \<or> rg_GameID req = [] then (h, writeErr 400 ''node_id and game_id are required'')
          else
            (let (key, hash) = newAPIKey env; n = register_node req
             in case RegisterNode (v_io env ''RegisterNode'') (unix_now env) n hash h of
                  (h1, Some ErrNodeExists) \<Rightarrow> (h1, writeErr 409 ''node_id already registered'')
                | (h1, Some _) \<Rightarrow> (h1, writeErr 500 ''registration failed'')
                | (h1, None) \<Rightarrow> (h1, writeJSON 200 (JObj [(''api_key'', JStr key), (''hub_seq_head'', JInt 0)]))))"

section \<open>Heartbeat\<close>

record heartbeatReq =
  hb_NodeID :: string
  hb_PlayerCount :: int
  hb_UptimeS :: int
  hb_GameVersion :: string

definition dec_heartbeatReq :: "json \<Rightarrow> heartbeatReq \<times> bool" where
  "dec_heartbeatReq j =
     (let n = fld unm_string ''node_id'' j []; p = fld unm_int ''player_count'' j 0;
          u = fld unm_int ''uptime_s'' j 0; v = fld unm_string ''game_version'' j []
      in (\<lparr>hb_NodeID = fst n, hb_PlayerCount = fst p, hb_UptimeS = fst u, hb_GameVersion = fst v\<rparr>,
          snd n \<and> snd p \<and> snd u \<and> snd v))"

text \<open>\<open>v, _ := f()\<close> on a failed query leaves the zero value.\<close>

definition or_zero :: "'e + int \<Rightarrow> int" where
  "or_zero r = (case r of Inl _ \<Rightarrow> 0 | Inr n \<Rightarrow> n)"

definition handleHeartbeat :: "henv \<Rightarrow> Node \<Rightarrow> http_req \<Rightarrow> hub \<Rightarrow> hub \<times> http_resp" where
  "handleHeartbeat env n r h =
     (case map_option dec_heartbeatReq (r_body r) of
        None \<Rightarrow> (h, writeErr 400 ''invalid json'')
      | Some (req, ok) \<Rightarrow>
          if \<not> ok then (h, writeErr 400 ''invalid json'')
          else case Heartbeat (v_io env ''Heartbeat'') (unix_now env) (n_NodeID n) (hb_PlayerCount req)
                      (hb_UptimeS req) (hb_GameVersion req) h of
            (h1, Some _) \<Rightarrow> (h1, writeErr 500 ''heartbeat failed'')
          | (h1, None) \<Rightarrow>
              (h1, writeJSON 200 (JObj
                [(''hub_seq_head'', JInt (or_zero (FeedHead (v_io env ''FeedHead'') h1))),
                 (''pending'', JObj
                   [(''events'', JInt 0),
                    (''pvp'', JInt (or_zero (PendingPvPCount (v_io env ''PendingPvPCount'') (n_NodeID n) h1))),
                    (''travel'', JInt (or_zero (PendingTravelCount (v_io env ''PendingTravelCount'') (n_NodeID n) h1)))])])))"

section \<open>Event push\<close>

definition dec_WireEvent :: "json \<Rightarrow> WireEvent \<times> bool" where
  "dec_WireEvent j =
     (let i = fld unm_string ''event_id'' j []; s = fld unm_string ''source_node'' j [];
          q = fld unm_int ''seq'' j 0; t = fld unm_string ''type'' j []; ts = fld unm_int ''ts'' j 0;
          p = fld unm_raw ''payload'' j None
      in (\<lparr>e_EventID = fst i, e_SourceNode = fst s, e_Seq = fst q, e_Type = fst t, e_TS = fst ts, e_Payload = fst p\<rparr>,
          snd i \<and> snd s \<and> snd q \<and> snd t \<and> snd ts \<and> snd p))"

definition dec_eventsPushReq :: "json \<Rightarrow> WireEvent list \<times> bool" where
  "dec_eventsPushReq j = fld (unm_list dec_WireEvent) ''events'' j []"

definition objectPayload :: "WireEvent \<Rightarrow> string + (string \<times> json) list" where
  "objectPayload e =
     (let bad = ''event '' @ go_quote (e_EventID e) @ '' payload must be an object'' in
      case e_Payload e of
        None \<Rightarrow> Inl bad
      | Some j \<Rightarrow> (case unm_map j of None \<Rightarrow> Inl bad | Some None \<Rightarrow> Inl bad | Some (Some flds) \<Rightarrow> Inr flds))"

fun requireStrings :: "(string \<times> json) list \<Rightarrow> string list \<Rightarrow> string option" where
  "requireStrings flds [] = None"
| "requireStrings flds (name # names) =
     (case map_get flds name of
        None \<Rightarrow> Some (''missing '' @ name)
      | Some raw \<Rightarrow>
          (case unm_string raw [] of (s, ok) \<Rightarrow>
             if \<not> ok \<or> s = [] then Some (name @ '' must be a non-empty string'')
             else requireStrings flds names))"

fun requireNumbers :: "(string \<times> json) list \<Rightarrow> string list \<Rightarrow> string option" where
  "requireNumbers flds [] = None"
| "requireNumbers flds (name # names) =
     (case map_get flds name of
        None \<Rightarrow> Some (''missing '' @ name)
      | Some raw \<Rightarrow> if \<not> unm_float_ok raw then Some (name @ '' must be a number'') else requireNumbers flds names)"

text \<open>\<open>if err := f(); err != nil { return err }\<close> followed by another check.\<close>

definition or_else :: "string option \<Rightarrow> string option \<Rightarrow> string option" where
  "or_else a b = (case a of None \<Rightarrow> b | Some m \<Rightarrow> Some m)"

text \<open>The switch over the standard event types.\<close>

definition check_schema :: "string \<Rightarrow> (string \<times> json) list \<Rightarrow> string option" where
  "check_schema ty flds =
     (if ty = ''player.created'' then
        or_else (requireStrings flds [''global_id'', ''name'', ''home_node'']) (requireNumbers flds [''created_at''])
      else if ty = ''player.died'' then
        or_else (requireStrings flds [''global_id''])
          (or_else (if map_get flds ''cause'' = None then Some ''missing cause'' else None)
             (requireNumbers flds [''timestamp'']))
      else if ty = ''player.traveled'' then
        or_else (requireStrings flds [''global_id'', ''src_node'', ''dest_node'', ''snapshot_hash''])
          (requireNumbers flds [''timestamp''])
      else if ty = ''debt.created'' then
        or_else (requireStrings flds [''obligation_id'', ''creditor_ref'', ''debtor_ref'', ''kind'', ''terms''])
          (requireNumbers flds [''weight''])
      else if ty = ''debt.adjusted'' then
        or_else (requireStrings flds [''obligation_id'', ''reason''])
          (requireNumbers flds [''old_weight'', ''new_weight'', ''delta''])
      else if ty = ''debt.resolved'' then
        or_else (requireStrings flds [''obligation_id'', ''resolution'']) (requireNumbers flds [''resolved_at''])
      else if ty = ''pvp.resolved'' then
        or_else (requireStrings flds
            [''request_id'', ''attacker_global_id'', ''victim_global_id'', ''winner_global_id'', ''result_text''])
          (requireNumbers flds [''resolved_at''])
      else None)"

definition eventSchemaErr :: "WireEvent \<Rightarrow> string \<Rightarrow> string" where
  "eventSchemaErr e err = ''event '' @ go_quote (e_EventID e) @ '' '' @ e_Type e @ '' payload invalid: '' @ err"

fun validateEventSchemas :: "WireEvent list \<Rightarrow> string option" where
  "validateEventSchemas [] = None"
| "validateEventSchemas (e # es) =
     (if e_EventID e = [] \<or> e_SourceNode e = [] \<or> e_Type e = [] \<or> e_Seq e < 1 \<or> e_TS e < 1
      then Some (''invalid event envelope for '' @ go_quote (e_EventID e))
      else case objectPayload e of
        Inl msg \<Rightarrow> Some msg
      | Inr flds \<Rightarrow>
          (case check_schema (e_Type e) flds of
             Some err \<Rightarrow> Some (eventSchemaErr e err)
           | None \<Rightarrow> validateEventSchemas es))"

text \<open>\<open>io k\<close> is the fault of the lookup for the k-th reference.\<close>

fun validateRefsSameGame :: "io \<Rightarrow> nat \<Rightarrow> Node \<Rightarrow> string list \<Rightarrow> hub \<Rightarrow> hub_err option" where
  "validateRefsSameGame io k source [] h = None"
| "validateRefsSameGame io k source (ref # refs) h =
     (let nodeID = refNode ref in
      if nodeID = [] \<or> nodeID = ''npc'' then validateRefsSameGame io (Suc k) source refs h
      else case NodeByID (\<lambda>_. io k) nodeID h of
        Inl e \<Rightarrow> Some e
      | Inr n \<Rightarrow> if n_GameID n \<noteq> n_GameID source then Some ErrIncompatibleGame
                else validateRefsSameGame io (Suc k) source refs h)"

text \<open>The references of an event that must stay within one game; \<open>[]\<close> when none are checked.\<close>

definition dec_two :: "string \<Rightarrow> string \<Rightarrow> raw \<Rightarrow> string list" where
  "dec_two a b p =
     (case p of None \<Rightarrow> []
      | Some j \<Rightarrow> (let x = fld unm_string a j []; y = fld unm_string b j [] in if snd x \<and> snd y then [fst x, fst y] else []))"

definition event_refs :: "WireEvent \<Rightarrow> string list" where
  "event_refs e =
     (if e_Type e = ''debt.created'' then dec_two ''creditor_ref'' ''debtor_ref'' (e_Payload e)
      else if e_Type e = ''pvp.resolved'' then dec_two ''attacker_global_id'' ''victim_global_id'' (e_Payload e)
      else [])"

fun validateEventCompatibility :: "io \<Rightarrow> nat \<Rightarrow> Node \<Rightarrow> WireEvent list \<Rightarrow> hub \<Rightarrow> hub_err option" where
  "validateEventCompatibility io k source [] h = None"
| "validateEventCompatibility io k source (e # es) h =
     (case validateRefsSameGame io k source (event_refs e) h of
        Some err \<Rightarrow> Some err
      | None \<Rightarrow> validateEventCompatibility io (k + 2) source es h)"

definition handleEventsPush :: "henv \<Rightarrow> Node \<Rightarrow> http_req \<Rightarrow> hub \<Rightarrow> hub \<times> http_resp" where
  "handleEventsPush env n r h =
     (case map_option dec_eventsPushReq (r_body r) of
        None \<Rightarrow> (h, writeErr 400 ''invalid json'')
      | Some (events, ok) \<Rightarrow>
          if \<not> ok then (h, writeErr 400 ''invalid json'')
          else if \<not> list_all (\<lambda>e. e_SourceNode e = n_NodeID n) events
            then (h, writeErr 403 ''source_node must match the authenticated node'')
          else case validateEventSchemas events of
            Some msg \<Rightarrow> (h, writeErr 400 msg)
          | None \<Rightarrow>
            (case validateEventCompatibility (v_io env ''NodeByID'') 0 n events h of
               Some ErrIncompatibleGame \<Rightarrow> (h, writeErr 409 ''event references incompatible game_id'')
             | Some ErrNotFound \<Rightarrow> (h, writeErr 404 ''event references unknown node'')
             | Some _ \<Rightarrow> (h, writeErr 500 ''event compatibility check failed'')
             | None \<Rightarrow>
               (case AppendEvents (v_burn env) (v_io env ''AppendEvents'') events h of
                  (h1, accepted, Inl _) \<Rightarrow> (h1, writeErr 500 ''append failed'')
                | (h1, accepted, Inr hs) \<Rightarrow>
                    (MaterializeEvents (v_io env ''MaterializeEvents'') events h1,
                     writeJSON 200 (JObj [(''accepted'', JInt accepted),
                       (''duplicates'', JInt (int (length events) - accepted)), (''last_hub_seq'', JInt hs)])))))"

section \<open>Event pull\<close>

definition query_get :: "http_req \<Rightarrow> string \<Rightarrow> string" where
  "query_get r key = (case map_of (r_query r) key of None \<Rightarrow> [] | Some v \<Rightarrow> v)"

definition queryInt :: "http_req \<Rightarrow> string \<Rightarrow> int \<Rightarrow> int" where
  "queryInt r key def =
     (let v = query_get r key in
      if v \<noteq> [] then (case parse_int v of Some n \<Rightarrow> n | None \<Rightarrow> def) else def)"

definition clamp_limit :: "int \<Rightarrow> int" where
  "clamp_limit limit = (let l = (if limit < 1 then 1 else limit) in if l > 1000 then 1000 else l)"

definition enc_FeedEvent :: "FeedEvent \<Rightarrow> json" where
  "enc_FeedEvent fe = JObj
     [(''hub_seq'', JInt (fst fe)), (''event_id'', JStr (e_EventID (snd fe))),
      (''source_node'', JStr (e_SourceNode (snd fe))), (''seq'', JInt (e_Seq (snd fe))),
      (''type'', JStr (e_Type (snd fe))), (''ts'', JInt (e_TS (snd fe))), (''payload'', raw_json (e_Payload (snd fe)))]"

definition handleEventsPull :: "henv \<Rightarrow> Node \<Rightarrow> http_req \<Rightarrow> hub \<Rightarrow> hub \<times> http_resp" where
  "handleEventsPull env n r h =
     (let after = queryInt r ''after'' 0;
          limit = clamp_limit (queryInt r ''limit'' 500);
          exclude = (if query_get r ''exclude_self'' = ''true'' then n_NodeID n else [])
      in case FeedSince (v_io env ''FeedSince'') after limit exclude h of
           Inl _ \<Rightarrow> (h, writeErr 500 ''feed failed'')
         | Inr (events, hs) \<Rightarrow>
             (h, writeJSON 200 (JObj [(''events'', JArr (map enc_FeedEvent events)), (''head'', JInt hs)])))"

section \<open>PvP queue\<close>

record pvpQueueReq =
  pq_AttackerID :: string
  pq_VictimID :: string
  pq_Attacker :: raw

definition dec_pvpQueueReq :: "json \<Rightarrow> pvpQueueReq \<times> bool" where
  "dec_pvpQueueReq j =
     (let a = fld unm_string ''attacker_id'' j []; v = fld unm_string ''victim_id'' j [];
          p = fld unm_raw ''attacker'' j None
      in (\<lparr>pq_AttackerID = fst a, pq_VictimID = fst v, pq_Attacker = fst p\<rparr>, snd a \<and> snd v \<and> snd p))"

definition handlePvPQueue :: "henv \<Rightarrow> Node \<Rightarrow> http_req \<Rightarrow> hub \<Rightarrow> hub \<times> http_resp" where
  "handlePvPQueue env n r h =
     (case map_option dec_pvpQueueReq (r_body r) of
        None \<Rightarrow> (h, writeErr 400 ''invalid json'')
      | Some (req, ok) \<Rightarrow>
          if \<not> ok then (h, writeErr 400 ''invalid json'')
          else if pq_AttackerID req = [] \<or> pq_VictimID req = []
            then (h, writeErr 400 ''attacker_id and victim_id required'')
          else if \<not> rawObject (pq_Attacker req) then (h, writeErr 400 ''attacker payload must be an object'')
          else if \<not> has_prefix (pq_AttackerID req) (n_NodeID n @ '':'')
            then (h, writeErr 403 ''attacker must belong to authenticated node'')
          else
            (let vNode = victimNode (pq_VictimID req) in
             if vNode = [] then (h, writeErr 400 ''invalid victim_id'')
             else case NodeByID (v_io env ''NodeByID'') vNode h of
               Inl ErrNotFound \<Rightarrow> (h, writeErr 404 ''victim node not registered'')
             | Inl _ \<Rightarrow> (h, writeErr 500 ''victim lookup failed'')
             | Inr victim \<Rightarrow>
                 if n_GameID victim \<noteq> n_GameID n then (h, writeErr 409 ''victim node game_id is incompatible'')
                 else if n_Status victim \<noteq> ''active'' then (h, writeErr 409 ''victim node is not active'')
                 else
                   (let reqID = hex_encode (v_idBytes env);
                        pvpReq = \<lparr>q_RequestID = reqID, q_AttackerID = pq_AttackerID req, q_VictimID = pq_VictimID req,
                          q_VictimNode = vNode, q_AttackerPayload = pq_Attacker req, q_Status = [], q_Error = [],
                          q_CreatedAt = unix_now env, q_UpdatedAt = 0\<rparr>
                    in case QueuePvP (v_io env ''QueuePvP'') pvpReq h of
                         (h1, Some _) \<Rightarrow> (h1, writeErr 500 ''queue failed'')
                       | (h1, None) \<Rightarrow>
                           (h1, writeJSON 200 (JObj [(''request_id'', JStr reqID), (''status'', JStr ''queued'')])))))"

definition enc_PvPRequest :: "PvPRequest \<Rightarrow> json" where
  "enc_PvPRequest q = JObj
     ([(''request_id'', JStr (q_RequestID q)), (''attacker_id'', JStr (q_AttackerID q)),
       (''victim_id'', JStr (q_VictimID q)), (''victim_node'', JStr (q_VictimNode q)),
       (''attacker'', raw_json (q_AttackerPayload q)), (''status'', JStr (q_Status q))]
      @ (if q_Error q = [] then [] else [(''error'', JStr (q_Error q))])
      @ [(''created_at'', JInt (q_CreatedAt q))]
      @ (if q_UpdatedAt q = 0 then [] else [(''updated_at'', JInt (q_UpdatedAt q))]))"

definition handlePvPPending :: "henv \<Rightarrow> Node \<Rightarrow> http_req \<Rightarrow> hub \<Rightarrow> hub \<times> http_resp" where
  "handlePvPPending env n r h =
     (case PendingPvP (v_io env ''PendingPvP'') (n_NodeID n) h of
        Inl _ \<Rightarrow> (h, writeErr 500 ''fetch failed'')
      | Inr reqs \<Rightarrow> (h, writeJSON 200 (JObj [(''requests'', JArr (map enc_PvPRequest reqs))])))"

definition handlePvPResult :: "henv \<Rightarrow> Node \<Rightarrow> string \<Rightarrow> http_req \<Rightarrow> hub \<Rightarrow> hub \<times> http_resp" where
  "handlePvPResult env n reqID r h =
     (if reqID = [] then (h, writeErr 400 ''request id required'')
      else case CompletePvP (v_io env ''CompletePvP'') (unix_now env) reqID (n_NodeID n) h of
        (h1, Some ErrNotFound) \<Rightarrow> (h1, writeErr 404 ''pending pvp request not found'')
      | (h1, Some _) \<Rightarrow> (h1, writeErr 500 ''complete failed'')
      | (h1, None) \<Rightarrow> (h1, writeJSON 200 (JObj [(''status'', JStr ''resolved'')])))"

text \<open>The reason of a block request: decoding errors are ignored, \<open>reason[:500]\<close> cuts bytes.\<close>

definition readBlockReason :: "http_req \<Rightarrow> string" where
  "readBlockReason r =
     (let err = (case r_body r of None \<Rightarrow> [] | Some j \<Rightarrow> fst (fld unm_string ''error'' j []));
          reason = trim_space err
      in if reason = [] then ''blocked by destination node''
         else if length reason > 500 then take 500 reason else reason)"

definition handlePvPBlocked :: "henv \<Rightarrow> Node \<Rightarrow> string \<Rightarrow> http_req \<Rightarrow> hub \<Rightarrow> hub \<times> http_resp" where
  "handlePvPBlocked env n reqID r h =
     (if reqID = [] then (h, writeErr 400 ''request id required'')
      else case BlockPvP (v_io env ''BlockPvP'') (unix_now env) reqID (n_NodeID n) (readBlockReason r) h of
        (h1, Some ErrNotFound) \<Rightarrow> (h1, writeErr 404 ''pending pvp request not found'')
      | (h1, Some _) \<Rightarrow> (h1, writeErr 500 ''block failed'')
      | (h1, None) \<Rightarrow> (h1, writeJSON 200 (JObj [(''status'', JStr ''blocked'')])))"

section \<open>Travel queue\<close>

record travelSubmitReq =
  ts_GlobalID :: string
  ts_HomeNode :: string
  ts_DestNode :: string
  ts_Snapshot :: raw

definition dec_travelSubmitReq :: "json \<Rightarrow> travelSubmitReq \<times> bool" where
  "dec_travelSubmitReq j =
     (let g = fld unm_string ''global_id'' j []; m = fld unm_string ''home_node'' j [];
          d = fld unm_string ''dest_node'' j []; s = fld unm_raw ''snapshot'' j None
      in (\<lparr>ts_GlobalID = fst g, ts_HomeNode = fst m, ts_DestNode = fst d, ts_Snapshot = fst s\<rparr>,
          snd g \<and> snd m \<and> snd d \<and> snd s))"

definition handleTravelSubmit :: "henv \<Rightarrow> Node \<Rightarrow> http_req \<Rightarrow> hub \<Rightarrow> hub \<times> http_resp" where
  "handleTravelSubmit env n r h =
     (case map_option dec_travelSubmitReq (r_body r) of
        None \<Rightarrow> (h, writeErr 400 ''invalid json'')
      | Some (req, ok) \<Rightarrow>
          if \<not> ok then (h, writeErr 400 ''invalid json'')
          else if ts_GlobalID req = [] \<or> ts_DestNode req = [] \<or> ts_Snapshot req = None
            then (h, writeErr 400 ''global_id, dest_node, and snapshot required'')
          else if \<not> rawObject (ts_Snapshot req) then (h, writeErr 400 ''snapshot must be an object'')
          else case NodeByID (v_io env ''NodeByID'') (ts_DestNode req) h of
            Inl ErrNotFound \<Rightarrow> (h, writeErr 404 ''destination node not registered'')
          | Inl _ \<Rightarrow> (h, writeErr 500 ''destination lookup failed'')
          | Inr dest \<Rightarrow>
              if n_GameID dest \<noteq> n_GameID n then (h, writeErr 409 ''destination node game_id is incompatible'')
              else if n_Status dest \<noteq> ''active'' then (h, writeErr 409 ''destination node is not active'')
              else
                (let travelID = hex_encode (v_idBytes env);
                     tr = \<lparr>t_TravelID = travelID, t_GlobalID = ts_GlobalID req, t_HomeNode = ts_HomeNode req,
                       t_FromNode = n_NodeID n, t_DestNode = ts_DestNode req, t_Snapshot = ts_Snapshot req,
                       t_Status = [], t_Error = [], t_CreatedAt = unix_now env, t_UpdatedAt = 0\<rparr>
                 in case SubmitTravel (v_io env ''SubmitTravel'') (unix_now env) tr h of
                      (h1, Some ErrTravelActive) \<Rightarrow> (h1, writeErr 409 ''player already in transit'')
                    | (h1, Some ErrLocationMismatch) \<Rightarrow> (h1, writeErr 403 ''player is not located at this node'')
                    | (h1, Some _) \<Rightarrow> (h1, writeErr 500 ''submit failed'')
                    | (h1, None) \<Rightarrow>
                        (h1, writeJSON 200 (JObj [(''status'', JStr ''pending''), (''travel_id'', JStr travelID)]))))"

definition enc_TravelRequest :: "TravelRequest \<Rightarrow> json" where
  "enc_TravelRequest t = JObj
     ([(''travel_id'', JStr (t_TravelID t)), (''global_id'', JStr (t_GlobalID t)),
       (''home_node'', JStr (t_HomeNode t)), (''from_node'', JStr (t_FromNode t)),
       (''dest_node'', JStr (t_DestNode t)), (''snapshot'', raw_json (t_Snapshot t)), (''status'', JStr (t_Status t))]
      @ (if t_Error t = [] then [] else [(''error'', JStr (t_Error t))])
      @ [(''created_at'', JInt (t_CreatedAt t))]
      @ (if t_UpdatedAt t = 0 then [] else [(''updated_at'', JInt (t_UpdatedAt t))]))"

definition handleTravelPending :: "henv \<Rightarrow> Node \<Rightarrow> http_req \<Rightarrow> hub \<Rightarrow> hub \<times> http_resp" where
  "handleTravelPending env n r h =
     (case PendingTravel (v_io env ''PendingTravel'') (n_NodeID n) h of
        Inl _ \<Rightarrow> (h, writeErr 500 ''fetch failed'')
      | Inr reqs \<Rightarrow> (h, writeJSON 200 (JObj [(''arrivals'', JArr (map enc_TravelRequest reqs))])))"

definition handleTravelArrived :: "henv \<Rightarrow> Node \<Rightarrow> string \<Rightarrow> http_req \<Rightarrow> hub \<Rightarrow> hub \<times> http_resp" where
  "handleTravelArrived env n travelID r h =
     (if travelID = [] then (h, writeErr 400 ''travel id required'')
      else case ArriveTravel (v_io env ''ArriveTravel'') (unix_now env) travelID (n_NodeID n) h of
        (h1, Some ErrNotFound) \<Rightarrow> (h1, writeErr 404 ''pending travel request not found'')
      | (h1, Some _) \<Rightarrow> (h1, writeErr 500 ''arrive failed'')
      | (h1, None) \<Rightarrow> (h1, writeJSON 200 (JObj [(''status'', JStr ''arrived'')])))"

definition handleTravelBlocked :: "henv \<Rightarrow> Node \<Rightarrow> string \<Rightarrow> http_req \<Rightarrow> hub \<Rightarrow> hub \<times> http_resp" where
  "handleTravelBlocked env n travelID r h =
     (if travelID = [] then (h, writeErr 400 ''travel id required'')
      else case BlockTravel (v_io env ''BlockTravel'') (unix_now env) travelID (n_NodeID n) (readBlockReason r) h of
        (h1, Some ErrNotFound) \<Rightarrow> (h1, writeErr 404 ''pending travel request not found'')
      | (h1, Some _) \<Rightarrow> (h1, writeErr 500 ''block failed'')
      | (h1, None) \<Rightarrow> (h1, writeJSON 200 (JObj [(''status'', JStr ''blocked'')])))"

section \<open>Ledger index and roster\<close>

definition enc_HubDebt :: "HubDebt \<Rightarrow> json" where
  "enc_HubDebt d = JObj
     [(''obligation_id'', JStr (d_ObligationID d)), (''source_node'', JStr (d_SourceNode d)),
      (''creditor_ref'', JStr (d_CreditorRef d)), (''debtor_ref'', JStr (d_DebtorRef d)),
      (''kind'', JStr (d_Kind d)), (''terms'', JStr (d_Terms d)), (''weight'', JInt (d_Weight d)),
      (''status'', JStr (d_Status d)), (''updated_at'', JInt (d_UpdatedAt d))]"

definition handleDebts :: "henv \<Rightarrow> Node \<Rightarrow> http_req \<Rightarrow> hub \<Rightarrow> hub \<times> http_resp" where
  "handleDebts env n r h =
     (let debtor = query_get r ''debtor'' in
      if debtor = [] then (h, writeErr 400 ''debtor query param required'')
      else case DebtsForDebtor (v_io env ''DebtsForDebtor'') debtor h of
        Inl _ \<Rightarrow> (h, writeErr 500 ''ledger query failed'')
      | Inr debts \<Rightarrow>
          (h, writeJSON 200 (JObj [(''debtor'', JStr debtor), (''debts'', JArr (map enc_HubDebt debts))])))"

definition dec_RosterEntry :: "json \<Rightarrow> RosterEntry \<times> bool" where
  "dec_RosterEntry j =
     (let g = fld unm_string ''global_id'' j []; n = fld unm_string ''node_id'' j [];
          m = fld unm_string ''name'' j []; l = fld unm_int ''level'' j 0;
          s = fld unm_string ''status'' j []; t = fld unm_int ''last_seen'' j 0
      in (\<lparr>ro_GlobalID = fst g, ro_NodeID = fst n, ro_Name = fst m, ro_Level = fst l, ro_Status = fst s,
           ro_LastSeen = fst t\<rparr>,
          snd g \<and> snd n \<and> snd m \<and> snd l \<and> snd s \<and> snd t))"

definition enc_RosterEntry :: "RosterEntry \<Rightarrow> json" where
  "enc_RosterEntry e = JObj
     [(''global_id'', JStr (ro_GlobalID e)), (''node_id'', JStr (ro_NodeID e)), (''name'', JStr (ro_Name e)),
      (''level'', JInt (ro_Level e)), (''status'', JStr (ro_Status e)), (''last_seen'', JInt (ro_LastSeen e))]"

definition handleRosterPush :: "henv \<Rightarrow> Node \<Rightarrow> http_req \<Rightarrow> hub \<Rightarrow> hub \<times> http_resp" where
  "handleRosterPush env n r h =
     (case map_option (\<lambda>j. fld (unm_list dec_RosterEntry) ''entries'' j []) (r_body r) of
        None \<Rightarrow> (h, writeErr 400 ''invalid json'')
      | Some (entries0, ok) \<Rightarrow>
          if \<not> ok then (h, writeErr 400 ''invalid json'')
          else
            (let entries = map (\<lambda>e. e\<lparr>ro_NodeID := n_NodeID n\<rparr>) entries0 in
             case UpsertRoster (v_io env ''UpsertRoster'') (unix_now env) (n_NodeID n) entries h of
               (h1, Some _) \<Rightarrow> (h1, writeErr 500 ''roster update failed'')
             | (h1, None) \<Rightarrow> (h1, writeJSON 200 (JObj [(''updated'', JInt (int (length entries)))]))))"

definition handleRosterPull :: "henv \<Rightarrow> Node \<Rightarrow> http_req \<Rightarrow> hub \<Rightarrow> hub \<times> http_resp" where
  "handleRosterPull env n r h =
     (let exclude = (if query_get r ''exclude_self'' = ''true'' then n_NodeID n else [])
      in case GetRoster (v_io env ''GetRoster'') exclude h of
           Inl _ \<Rightarrow> (h, writeErr 500 ''roster fetch failed'')
         | Inr entries \<Rightarrow> (h, writeJSON 200 (JObj [(''entries'', JArr (map enc_RosterEntry entries))])))"

section \<open>Public pages\<close>

text \<open>\<open>http.NotFound\<close> and the mux answer with a plain text body.\<close>

definition plain :: "int \<Rightarrow> http_resp" where
  "plain code = \<lparr>p_code = code, p_body = None\<rparr>"

definition handleRoot :: "http_req \<Rightarrow> hub \<Rightarrow> hub \<times> http_resp" where
  "handleRoot r h =
     (if r_path r \<noteq> [] then (h, plain 404)
      else (h, writeJSON 200 (JObj
        [(''endpoints'', JObj [(''directory'', JStr ''/v1/directory''), (''status'', JStr ''/v1/status'')]),
         (''hub'', JStr ''InterDOOR federation hub''), (''protocol_version'', JStr ProtocolVersion)])))"

text \<open>\<open>onlineThreshold\<close> in nanoseconds; a stored heartbeat is a whole second.\<close>

definition onlineThreshold :: int where
  "onlineThreshold = 5 * 60 * 10 ^ 9"

definition isOnline :: "henv \<Rightarrow> Node \<Rightarrow> bool" where
  "isOnline env n \<longleftrightarrow> v_nanos env - n_LastHeartbeat n * 10 ^ 9 \<le> onlineThreshold"

definition directoryEntry :: "henv \<Rightarrow> Node \<Rightarrow> json" where
  "directoryEntry env n = JObj
     [(''node_id'', JStr (n_NodeID n)), (''game_id'', JStr (n_GameID n)), (''game_title'', JStr (DisplayGameTitle n)),
      (''game_version'', JStr (n_GameVersion n)), (''advertise_addr'', JStr (n_AdvertiseAddr n)),
      (''player_count'', JInt (n_PlayerCount n)), (''last_heartbeat'', JInt (n_LastHeartbeat n)),
      (''online'', JBool (isOnline env n))]"

definition handleDirectory :: "henv \<Rightarrow> http_req \<Rightarrow> hub \<Rightarrow> hub \<times> http_resp" where
  "handleDirectory env r h =
     (case GetDirectory (v_io env ''GetDirectory'') h of
        Inl _ \<Rightarrow> (h, writeErr 500 ''directory unavailable'')
      | Inr nodes \<Rightarrow>
          (h, writeJSON 200 (JObj
            [(''nodes'', JArr (map (directoryEntry env) nodes)),
             (''online'', JInt (int (length (filter (isOnline env) nodes)))),
             (''total'', JInt (int (length nodes)))])))"

definition handleStatus :: "henv \<Rightarrow> http_req \<Rightarrow> hub \<Rightarrow> hub \<times> http_resp" where
  "handleStatus env r h =
     (case GetDirectory (v_io env ''GetDirectory'') h of
        Inl _ \<Rightarrow> (h, writeErr 500 ''status unavailable'')
      | Inr nodes \<Rightarrow>
          (h, writeJSON 200 (JObj
            [(''events_total'', JInt (or_zero (EventCount (v_io env ''EventCount'') h))),
             (''hub'', JStr ''ok''),
             (''nodes_online'', JInt (int (length (filter (isOnline env) nodes)))),
             (''nodes_total'', JInt (int (length nodes))),
             (''protocol_version'', JStr ProtocolVersion)])))"

section \<open>Authentication and routing\<close>

definition bearer :: "http_req \<Rightarrow> string" where
  "bearer r = (if has_prefix (r_auth r) ''Bearer '' then drop 7 (r_auth r) else [])"

text \<open>The middleware: \<open>next\<close> gets the node of the request's key.\<close>

definition auth :: "henv \<Rightarrow> (Node \<Rightarrow> http_req \<Rightarrow> hub \<Rightarrow> hub \<times> http_resp) \<Rightarrow> http_req \<Rightarrow> hub \<Rightarrow> hub \<times> http_resp" where
  "auth env next r h =
     (let tok = bearer r in
      if tok = [] then (h, writeErr 401 ''missing bearer token'')
      else case NodeByAPIKeyHash (v_io env ''NodeByAPIKeyHash'') (hashKey env tok) h of
        Inl _ \<Rightarrow> (h, writeErr 401 ''invalid api key'')
      | Inr n \<Rightarrow> if n_Status n \<noteq> ''active'' then (h, writeErr 403 ''node is not active'') else next n r h)"

text \<open>
  The patterns of the mux. \<open>Route\<close> is the handler a request selects: the most specific pattern
  for its method and path (a \<open>GET\<close> pattern also serves \<open>HEAD\<close>), with \<open>GET /\<close> as the catch-all of
  both; another method on any path is then 405. A path is the list of its cleaned segments, and
  \<open>{id}\<close> matches one non-empty segment.
\<close>

datatype route =
    RRoot | RDirectory | RStatus | RRegister | RHeartbeat | REventsPush | REventsPull | RRosterPush | RRosterPull
  | RDebts | RPvPQueue | RPvPPending | RPvPResult string | RPvPBlocked string | RTravelSubmit | RTravelPending
  | RTravelArrived string | RTravelBlocked string | RNotAllowed

definition route_get :: "string list \<Rightarrow> route" where
  "route_get p =
     (if p = [''v1'', ''directory''] then RDirectory
      else if p = [''v1'', ''status''] then RStatus
      else if p = [''v1'', ''events''] then REventsPull
      else if p = [''v1'', ''roster''] then RRosterPull
      else if p = [''v1'', ''debts''] then RDebts
      else if p = [''v1'', ''pvp'', ''pending''] then RPvPPending
      else if p = [''v1'', ''travel'', ''pending''] then RTravelPending
      else RRoot)"

definition route_post :: "string list \<Rightarrow> route" where
  "route_post p =
     (if p = [''v1'', ''register''] then RRegister
      else if p = [''v1'', ''heartbeat''] then RHeartbeat
      else if p = [''v1'', ''events''] then REventsPush
      else if p = [''v1'', ''roster''] then RRosterPush
      else if p = [''v1'', ''pvp''] then RPvPQueue
      else if p = [''v1'', ''travel''] then RTravelSubmit
      else case p of
        [a, b, i, act] \<Rightarrow>
          if a = ''v1'' \<and> b = ''pvp'' \<and> i \<noteq> [] \<and> act = ''result'' then RPvPResult i
          else if a = ''v1'' \<and> b = ''pvp'' \<and> i \<noteq> [] \<and> act = ''blocked'' then RPvPBlocked i
          else if a = ''v1'' \<and> b = ''travel'' \<and> i \<noteq> [] \<and> act = ''arrived'' then RTravelArrived i
          else if a = ''v1'' \<and> b = ''travel'' \<and> i \<noteq> [] \<and> act = ''blocked'' then RTravelBlocked i
          else RNotAllowed
      | _ \<Rightarrow> RNotAllowed)"

definition Route :: "http_req \<Rightarrow> route" where
  "Route r = (if r_method r = ''GET'' \<or> r_method r = ''HEAD'' then route_get (r_path r)
     else if r_method r = ''POST'' then route_post (r_path r) else RNotAllowed)"

definition serve :: "Server \<Rightarrow> henv \<Rightarrow> route \<Rightarrow> http_req \<Rightarrow> hub \<Rightarrow> hub \<times> http_resp" where
  "serve s env rt r h =
     (case rt of
        RRoot \<Rightarrow> handleRoot r h
      | RDirectory \<Rightarrow> handleDirectory env r h
      | RStatus \<Rightarrow> handleStatus env r h
      | RRegister \<Rightarrow> handleRegister s env r h
      | RHeartbeat \<Rightarrow> auth env (handleHeartbeat env) r h
      | REventsPush \<Rightarrow> auth env (handleEventsPush env) r h
      | REventsPull \<Rightarrow> auth env (handleEventsPull env) r h
      | RRosterPush \<Rightarrow> auth env (handleRosterPush env) r h
      | RRosterPull \<Rightarrow> auth env (handleRosterPull env) r h
      | RDebts \<Rightarrow> auth env (handleDebts env) r h
      | RPvPQueue \<Rightarrow> auth env (handlePvPQueue env) r h
      | RPvPPending \<Rightarrow> auth env (handlePvPPending env) r h
      | RPvPResult i \<Rightarrow> auth env (\<lambda>n. handlePvPResult env n i) r h
      | RPvPBlocked i \<Rightarrow> auth env (\<lambda>n. handlePvPBlocked env n i) r h
      | RTravelSubmit \<Rightarrow> auth env (handleTravelSubmit env) r h
      | RTravelPending \<Rightarrow> auth env (handleTravelPending env) r h
      | RTravelArrived i \<Rightarrow> auth env (\<lambda>n. handleTravelArrived env n i) r h
      | RTravelBlocked i \<Rightarrow> auth env (\<lambda>n. handleTravelBlocked env n i) r h
      | RNotAllowed \<Rightarrow> (h, plain 405))"

definition Handler :: "Server \<Rightarrow> henv \<Rightarrow> http_req \<Rightarrow> hub \<Rightarrow> hub \<times> http_resp" where
  "Handler s env r h = serve s env (Route r) r h"

end
