(* ===== verification/Hub_Safety.thy ===== *)
theory Hub_Safety
  imports Hub_Server
begin

text \<open>
  What the hub's API guarantees, over the handlers of \<open>Hub_Server\<close>: one preservation lemma per
  handler, then the theorems about a whole request.
\<close>

section \<open>The effect of a request\<close>

text \<open>
  A request changes the database through at most one store operation (an event push through two).
  So a predicate that holds of the database and of what each operation makes of it holds after
  any request; this rule carries the invariants and the frame properties below.
\<close>

lemma fst_P: "p = (a, b) \<Longrightarrow> P (fst p) \<Longrightarrow> P a"
  by simp

lemma read_only [simp]:
  "fst (handleRoot r h) = h" "fst (handleDirectory env r h) = h" "fst (handleStatus env r h) = h"
  "fst (handleEventsPull env n r h) = h" "fst (handleRosterPull env n r h) = h" "fst (handleDebts env n r h) = h"
  "fst (handlePvPPending env n r h) = h" "fst (handleTravelPending env n r h) = h"
  by (simp_all add: handleRoot_def handleDirectory_def handleStatus_def handleEventsPull_def handleRosterPull_def
      handleDebts_def handlePvPPending_def handleTravelPending_def Let_def split: sum.split prod.split)

lemma handleRegister_effect:
  assumes "P h" and "\<And>io now n k. P (fst (RegisterNode io now n k h))"
  shows "P (fst (handleRegister s env r h))"
  by (auto simp: handleRegister_def assms(1) Let_def split: option.split prod.split hub_err.split sum.split
      intro: fst_P [where P = P, OF _ assms(2)])

lemma handleHeartbeat_effect:
  assumes "P h" and "\<And>io now i p u v. P (fst (Heartbeat io now i p u v h))"
  shows "P (fst (handleHeartbeat env n r h))"
  by (auto simp: handleHeartbeat_def assms(1) Let_def split: option.split prod.split hub_err.split sum.split
      intro: fst_P [where P = P, OF _ assms(2)])

lemma handleRosterPush_effect:
  assumes "P h" and "\<And>io now i es. P (fst (UpsertRoster io now i es h))"
  shows "P (fst (handleRosterPush env n r h))"
  by (auto simp: handleRosterPush_def assms(1) Let_def split: option.split prod.split hub_err.split sum.split
      intro: fst_P [where P = P, OF _ assms(2)])

lemma handlePvPQueue_effect:
  assumes "P h" and "\<And>io q. P (fst (QueuePvP io q h))"
  shows "P (fst (handlePvPQueue env n r h))"
  by (auto simp: handlePvPQueue_def assms(1) Let_def split: option.split prod.split hub_err.split sum.split
      intro: fst_P [where P = P, OF _ assms(2)])

lemma handlePvPResult_effect:
  assumes "P h" and "\<And>io now i v. P (fst (CompletePvP io now i v h))"
  shows "P (fst (handlePvPResult env n i r h))"
  by (auto simp: handlePvPResult_def assms(1) Let_def split: option.split prod.split hub_err.split sum.split
      intro: fst_P [where P = P, OF _ assms(2)])

lemma handlePvPBlocked_effect:
  assumes "P h" and "\<And>io now i v why. P (fst (BlockPvP io now i v why h))"
  shows "P (fst (handlePvPBlocked env n i r h))"
  by (auto simp: handlePvPBlocked_def assms(1) Let_def split: option.split prod.split hub_err.split sum.split
      intro: fst_P [where P = P, OF _ assms(2)])

lemma handleTravelSubmit_effect:
  assumes "P h" and "\<And>io now t. P (fst (SubmitTravel io now t h))"
  shows "P (fst (handleTravelSubmit env n r h))"
  by (auto simp: handleTravelSubmit_def assms(1) Let_def split: option.split prod.split hub_err.split sum.split
      intro: fst_P [where P = P, OF _ assms(2)])

lemma handleTravelArrived_effect:
  assumes "P h" and "\<And>io now i d. P (fst (ArriveTravel io now i d h))"
  shows "P (fst (handleTravelArrived env n i r h))"
  by (auto simp: handleTravelArrived_def assms(1) Let_def split: option.split prod.split hub_err.split sum.split
      intro: fst_P [where P = P, OF _ assms(2)])

lemma handleTravelBlocked_effect:
  assumes "P h" and "\<And>io now i d why. P (fst (BlockTravel io now i d why h))"
  shows "P (fst (handleTravelBlocked env n i r h))"
  by (auto simp: handleTravelBlocked_def assms(1) Let_def split: option.split prod.split hub_err.split sum.split
      intro: fst_P [where P = P, OF _ assms(2)])

lemma handleEventsPush_effect:
  assumes "P h" and "\<And>burn io es. P (fst (AppendEvents burn io es h))"
    and "\<And>burn io io' es. P (MaterializeEvents io' es (fst (AppendEvents burn io es h)))"
  shows "P (fst (handleEventsPush env n r h))"
proof -
  have "P g" "P (MaterializeEvents io' es g)" if "AppendEvents burn io es h = (g, x)" for burn io io' es g x
    using assms(2) [of burn io es] assms(3) [of io' es burn io] that by simp_all
  then show ?thesis
    by (auto simp: handleEventsPush_def assms(1) split: option.split prod.split hub_err.split sum.split)
qed

lemma auth_cases:
  "(\<exists>m. fst (auth env nxt r h) = h \<and> (snd (auth env nxt r h) = writeErr 401 m \<or> snd (auth env nxt r h) = writeErr 403 m))
   \<or> (\<exists>n. bearer r \<noteq> [] \<and> NodeByAPIKeyHash (v_io env ''NodeByAPIKeyHash'') (hashKey env (bearer r)) h = Inr n
          \<and> n_Status n = ''active'' \<and> auth env nxt r h = nxt n r h)"
  by (auto simp: auth_def Let_def split: sum.split)

lemma auth_effect:
  assumes "P h" and "\<And>n. P (fst (nxt n r h))"
  shows "P (fst (auth env nxt r h))"
  using auth_cases [of env nxt r h] assms by auto

lemma serve_effect:
  assumes "P h"
    "\<And>io now n k. P (fst (RegisterNode io now n k h))"
    "\<And>io now i p u v. P (fst (Heartbeat io now i p u v h))"
    "\<And>io now i es. P (fst (UpsertRoster io now i es h))"
    "\<And>io q. P (fst (QueuePvP io q h))"
    "\<And>io now i v. P (fst (CompletePvP io now i v h))"
    "\<And>io now i v why. P (fst (BlockPvP io now i v why h))"
    "\<And>io now t. P (fst (SubmitTravel io now t h))"
    "\<And>io now i d. P (fst (ArriveTravel io now i d h))"
    "\<And>io now i d why. P (fst (BlockTravel io now i d why h))"
    and push: "rt = REventsPush \<Longrightarrow> (\<And>burn io es. P (fst (AppendEvents burn io es h)))"
      "rt = REventsPush \<Longrightarrow> (\<And>burn io io' es. P (MaterializeEvents io' es (fst (AppendEvents burn io es h))))"
  shows "P (fst (serve s env rt r h))"
proof (cases rt)
  case REventsPush
  then show ?thesis
    using handleEventsPush_effect [of P h env] assms(1) push by (simp add: serve_def auth_effect)
qed (simp_all add: serve_def assms(1-10) auth_effect handleRegister_effect handleHeartbeat_effect handleRosterPush_effect handlePvPQueue_effect handlePvPResult_effect handlePvPBlocked_effect handleTravelSubmit_effect handleTravelArrived_effect handleTravelBlocked_effect)

section \<open>The invariant\<close>

lemmas store_inv = RegisterNode_inv Heartbeat_inv UpsertRoster_inv QueuePvP_inv CompletePvP_inv BlockPvP_inv
  SubmitTravel_inv ArriveTravel_inv BlockTravel_inv AppendEvents_inv MaterializeEvents_inv

lemma Handler_inv: "hub_inv h \<Longrightarrow> hub_inv (fst (Handler s env r h))"
  unfolding Handler_def by (rule serve_effect) (simp_all add: store_inv)

section \<open>Who may change what\<close>

text \<open>Only an event push changes the feed.\<close>

lemma store_feed_same:
  "h_events (fst (RegisterNode io now n k h)) = h_events h"
  "h_events (fst (Heartbeat io now i p u v h)) = h_events h"
  "h_events (fst (UpsertRoster io now i es h)) = h_events h"
  "h_events (fst (QueuePvP io q h)) = h_events h"
  "h_events (fst (CompletePvP io now i v h)) = h_events h"
  "h_events (fst (BlockPvP io now i v why h)) = h_events h"
  "h_events (fst (SubmitTravel io now t h)) = h_events h"
  "h_events (fst (ArriveTravel io now i d h)) = h_events h"
  "h_events (fst (BlockTravel io now i d why h)) = h_events h"
  by (simp_all add: RegisterNode_def Heartbeat_def UpsertRoster_def QueuePvP_def CompletePvP_def BlockPvP_def
      SubmitTravel_def ArriveTravel_def BlockTravel_def split: option.split)

lemma serve_feed_same: "rt \<noteq> REventsPush \<Longrightarrow> h_events (fst (serve s env rt r h)) = h_events h"
  by (rule serve_effect [where P = "\<lambda>g. h_events g = h_events h"]) (simp_all add: store_feed_same)

text \<open>What a batch of inserts does to the feed, fault or not.\<close>

lemma insert_event_extends:
  "\<exists>new. h_events (fst (insert_event burn e h)) = h_events h @ new \<and> snd ` set new \<subseteq> {e}
     \<and> (\<forall>p \<in> set new. h_evseq h < fst p)"
  by (auto simp: insert_event_def)

lemma insert_event_evseq: "h_evseq h \<le> h_evseq (fst (insert_event burn e h))"
  by (simp add: insert_event_def)

lemma append_loop_extends:
  "\<exists>new. h_events (fst (append_loop burn io k es h)) = h_events h @ new \<and> snd ` set new \<subseteq> set es
     \<and> (\<forall>p \<in> set new. h_evseq h < fst p)"
proof (induction es arbitrary: k h)
  case (Cons e es)
  let ?h1 = "fst (insert_event burn e h)"
  obtain n1 where n1: "h_events ?h1 = h_events h @ n1" "snd ` set n1 \<subseteq> {e}" "\<forall>p \<in> set n1. h_evseq h < fst p"
    using insert_event_extends by blast
  obtain n2 where n2: "h_events (fst (append_loop burn io (Suc k) es ?h1)) = h_events ?h1 @ n2"
    "snd ` set n2 \<subseteq> set es" "\<forall>p \<in> set n2. h_evseq ?h1 < fst p"
    using Cons.IH by blast
  have seq: "\<forall>p \<in> set (n1 @ n2). h_evseq h < fst p"
    using n1(3) n2(3) insert_event_evseq [of h burn e] by fastforce
  have src: "snd ` set (n1 @ n2) \<subseteq> set (e # es)"
    using n1(2) n2(2) by auto
  show ?case
  proof (cases "io k")
    case False
    then have "h_events (fst (append_loop burn io k (e # es) h)) = h_events h @ n1 @ n2"
      using n1(1) n2(1) by (simp add: case_prod_beta)
    then show ?thesis using seq src by blast
  qed simp
qed simp

text \<open>A push is refused as a whole, or its batch passed every check and is appended.\<close>

lemma handleEventsPush_cases:
  obtains (refused) code msg where "handleEventsPush env n r h = (h, writeErr code msg)" "code \<noteq> 200"
  | (appended) j es where "r_body r = Some j" "dec_eventsPushReq j = (es, True)"
      "list_all (\<lambda>e. e_SourceNode e = n_NodeID n) es" "validateEventSchemas es = None"
      "validateEventCompatibility (v_io env ''NodeByID'') 0 n es h = None"
      "handleEventsPush env n r h =
         (case AppendEvents (v_burn env) (v_io env ''AppendEvents'') es h of
            (h1, accepted, Inl _) \<Rightarrow> (h1, writeErr 500 ''append failed'')
          | (h1, accepted, Inr hs) \<Rightarrow>
              (MaterializeEvents (v_io env ''MaterializeEvents'') es h1,
               writeJSON 200 (JObj [(''accepted'', JInt accepted),
                 (''duplicates'', JInt (int (length es) - accepted)), (''last_hub_seq'', JInt hs)])))"
proof (cases "r_body r")
  case None
  then show ?thesis by (auto simp: handleEventsPush_def intro: refused)
next
  case (Some j)
  obtain es ok where d: "dec_eventsPushReq j = (es, ok)"
    by (cases "dec_eventsPushReq j")
  let ?src = "list_all (\<lambda>e. e_SourceNode e = n_NodeID n) es"
  show ?thesis
  proof (cases "ok \<and> ?src \<and> validateEventSchemas es = None
      \<and> validateEventCompatibility (v_io env ''NodeByID'') 0 n es h = None")
    case True
    then show ?thesis
      using Some d by (intro appended) (simp_all add: handleEventsPush_def)
  next
    case False
    then have "\<exists>code msg. handleEventsPush env n r h = (h, writeErr code msg) \<and> code \<noteq> 200"
      using Some d by (auto simp: handleEventsPush_def split: option.split hub_err.split)
    then show ?thesis using refused by blast
  qed
qed

lemma MaterializeEvents_events [simp]: "h_events (MaterializeEvents io es h) = h_events h"
  by (simp add: MaterializeEvents_def)

lemma AppendEvents_fst: "fst (AppendEvents burn io es h) = fst (append_loop burn io 0 es h)"
  by (simp add: AppendEvents_def case_prod_beta)

lemma handleEventsPush_extends:
  "\<exists>new. h_events (fst (handleEventsPush env n r h)) = h_events h @ new
     \<and> (\<forall>p \<in> set new. h_evseq h < fst p \<and> e_SourceNode (snd p) = n_NodeID n
          \<and> (\<exists>es. snd p \<in> set es \<and> validateEventSchemas es = None))"
proof (cases rule: handleEventsPush_cases [of env n r h])
  case (appended j es)
  let ?a = "append_loop (v_burn env) (v_io env ''AppendEvents'') 0 es h"
  have "h_events (fst (handleEventsPush env n r h)) = h_events (fst ?a)"
    unfolding appended(6)
    by (auto simp: AppendEvents_fst [symmetric] split: prod.split sum.split)
  moreover obtain new where new: "h_events (fst ?a) = h_events h @ new" "snd ` set new \<subseteq> set es"
      "\<forall>p \<in> set new. h_evseq h < fst p"
    using append_loop_extends by blast
  ultimately show ?thesis
    using appended(3,4) by (intro exI [of _ new]) (auto simp: list_all_iff)
qed simp

section \<open>Properties of a request\<close>

lemma validate_each: "validateEventSchemas es = None \<Longrightarrow> e \<in> set es \<Longrightarrow> validateEventSchemas [e] = None"
  by (induction es) (auto split: if_splits sum.splits option.splits)

text \<open>The node a request authenticates as.\<close>

definition caller :: "henv \<Rightarrow> http_req \<Rightarrow> hub \<Rightarrow> Node option" where
  "caller env r h =
     (if bearer r = [] then None
      else case NodeByAPIKeyHash (v_io env ''NodeByAPIKeyHash'') (hashKey env (bearer r)) h of
        Inl _ \<Rightarrow> None | Inr n \<Rightarrow> if n_Status n = ''active'' then Some n else None)"

definition public :: "route \<Rightarrow> bool" where
  "public rt \<longleftrightarrow> rt \<in> {RRoot, RDirectory, RStatus, RRegister, RNotAllowed}"

lemma auth_caller:
  "caller env r h = Some n \<Longrightarrow> auth env nxt r h = nxt n r h"
  "caller env r h = None \<Longrightarrow> fst (auth env nxt r h) = h \<and> p_code (snd (auth env nxt r h)) \<in> {401, 403}"
  by (auto simp: caller_def auth_def Let_def writeErr_def writeJSON_def split: if_splits sum.splits)

lemma caller_iff:
  "caller env r h = Some n \<longleftrightarrow> bearer r \<noteq> [] \<and> \<not> v_io env ''NodeByAPIKeyHash'' 0 \<and>
     (\<exists>row. find (\<lambda>x. n_api_key_hash x = hashKey env (bearer r)) (h_nodes h) = Some row
        \<and> n_Status row = ''active'' \<and> n = scan_node row)"
  by (cases "find (\<lambda>x. n_api_key_hash x = hashKey env (bearer r)) (h_nodes h)")
    (auto simp: caller_def NodeByAPIKeyHash_def scan_node_def)

lemma caller_node:
  assumes "caller env r h = Some n"
  obtains row where "row \<in> set (h_nodes h)" "n_api_key_hash row = hashKey env (bearer r)" "n = scan_node row"
    "n_Status row = ''active''"
proof -
  obtain row where "find (\<lambda>x. n_api_key_hash x = hashKey env (bearer r)) (h_nodes h) = Some row"
      "n_Status row = ''active''" "n = scan_node row"
    using assms by (auto simp: caller_iff)
  then have "row \<in> set (h_nodes h) \<and> n_api_key_hash row = hashKey env (bearer r) \<and> n = scan_node row
      \<and> n_Status row = ''active''"
    by (auto dest: find_Some_D)
  then show ?thesis using that by blast
qed

text \<open>C2: every endpoint but the public ones is closed to a caller without the key of an active
  node: the answer is 401 or 403 and the database is unchanged.\<close>

theorem unauthenticated_rejected:
  assumes "\<not> public (Route r)" and "caller env r h = None"
  shows "fst (Handler s env r h) = h \<and> p_code (snd (Handler s env r h)) \<in> {401, 403}"
  using assms auth_caller(2) [OF assms(2)]
  by (cases "Route r") (simp_all add: Handler_def serve_def public_def)

text \<open>C3: whoever calls whatever, an event that enters the feed carries the node id of the active
  node whose key the request presented, and passed the schema check.\<close>

theorem feed_provenance:
  assumes "p \<in> set (h_events (fst (Handler s env r h)))" and "p \<notin> set (h_events h)"
  shows "Route r = REventsPush \<and>
    (\<exists>row \<in> set (h_nodes h). n_api_key_hash row = hashKey env (bearer r) \<and> n_Status row = ''active''
       \<and> e_SourceNode (snd p) = n_NodeID row) \<and> validateEventSchemas [snd p] = None"
proof -
  have route: "Route r = REventsPush"
    using assms serve_feed_same by (metis Handler_def)
  then have H: "Handler s env r h = auth env (handleEventsPush env) r h"
    by (simp add: Handler_def serve_def)
  show ?thesis
  proof (cases "caller env r h")
    case None
    then show ?thesis using assms H auth_caller(2) [OF None] by simp
  next
    case (Some n)
    then have hp: "Handler s env r h = handleEventsPush env n r h"
      using H auth_caller(1) by simp
    obtain row where row: "row \<in> set (h_nodes h)" "n_api_key_hash row = hashKey env (bearer r)"
      "n = scan_node row" "n_Status row = ''active''"
      using Some by (rule caller_node)
    have "e_SourceNode (snd p) = n_NodeID n \<and> validateEventSchemas [snd p] = None"
    proof -
      obtain new where new: "h_events (fst (handleEventsPush env n r h)) = h_events h @ new"
        "\<forall>p \<in> set new. h_evseq h < fst p \<and> e_SourceNode (snd p) = n_NodeID n
          \<and> (\<exists>es. snd p \<in> set es \<and> validateEventSchemas es = None)"
        using handleEventsPush_extends by blast
      then have "p \<in> set new" using assms hp by simp
      then show ?thesis using new(2) validate_each by blast
    qed
    then show ?thesis
      using row route by (auto simp: scan_node_def)
  qed
qed

lemma feed_extends:
  "\<exists>new. h_events (fst (Handler s env r h)) = h_events h @ new \<and> (\<forall>p \<in> set new. h_evseq h < fst p)"
proof (cases "Route r = REventsPush")
  case True
  then have H: "Handler s env r h = auth env (handleEventsPush env) r h"
    by (simp add: Handler_def serve_def)
  show ?thesis
  proof (cases "caller env r h")
    case None
    then show ?thesis using H auth_caller(2) [OF None] by simp
  next
    case (Some n)
    then show ?thesis
      using H auth_caller(1) handleEventsPush_extends [of env n r h] by fastforce
  qed
next
  case False
  then show ?thesis by (simp add: Handler_def serve_feed_same)
qed

text \<open>C4: the feed is append-only and totally ordered: a request keeps every entry with its
  position and puts new ones strictly after all of them, so a reader's cursor never misses one.\<close>

theorem feed_append_only:
  assumes "hub_inv h"
  shows "\<exists>new. h_events (fst (Handler s env r h)) = h_events h @ new
     \<and> (\<forall>p \<in> set new. \<forall>q \<in> set (h_events h). fst q < fst p)"
proof -
  have "\<forall>q \<in> set (h_events h). fst q \<le> h_evseq h"
    using assms by (simp add: hub_inv_def hub_wf_def feed_wf_def)
  then show ?thesis
    using feed_extends [of s env r h] by fastforce
qed

section \<open>Failed requests\<close>

lemma store_err_same:
  "RegisterNode io now n k h = (h', Some e) \<Longrightarrow> h' = h"
  "Heartbeat io now i p u v h = (h', Some e) \<Longrightarrow> h' = h"
  "UpsertRoster io now i es h = (h', Some e) \<Longrightarrow> h' = h"
  "QueuePvP io q h = (h', Some e) \<Longrightarrow> h' = h"
  "CompletePvP io now i v h = (h', Some e) \<Longrightarrow> h' = h"
  "BlockPvP io now i v why h = (h', Some e) \<Longrightarrow> h' = h"
  "SubmitTravel io now t h = (h', Some e) \<Longrightarrow> h' = h"
  "ArriveTravel io now i d h = (h', Some e) \<Longrightarrow> h' = h"
  "BlockTravel io now i d why h = (h', Some e) \<Longrightarrow> h' = h"
  by (auto simp: RegisterNode_def Heartbeat_def UpsertRoster_def QueuePvP_def CompletePvP_def BlockPvP_def SubmitTravel_def ArriveTravel_def BlockTravel_def
      split: option.splits if_splits)

lemma code_simps [simp]:
  "p_code (writeErr c m) = c" "p_code (writeJSON c j) = c" "p_code (plain c) = c"
  by (simp_all add: writeErr_def writeJSON_def plain_def)

text \<open>A result is a success or has left the database alone.\<close>

definition ok_or_same :: "hub \<Rightarrow> hub \<times> http_resp \<Rightarrow> bool" where
  "ok_or_same h p \<longleftrightarrow> fst p = h \<or> p_code (snd p) = 200"

lemma ok_or_same_simps:
  "ok_or_same h (h, x)" "ok_or_same h (h1, writeJSON 200 j)" "ok_or_same h (h1, writeErr c m) \<longleftrightarrow> h1 = h \<or> c = 200"
  by (auto simp: ok_or_same_def)

lemma handler_err_same:
  "ok_or_same h (handleRegister s env r h)"
  "ok_or_same h (handleHeartbeat env n r h)"
  "ok_or_same h (handleRosterPush env n r h)"
  "ok_or_same h (handlePvPQueue env n r h)"
  "ok_or_same h (handlePvPResult env n i r h)"
  "ok_or_same h (handlePvPBlocked env n i r h)"
  "ok_or_same h (handleTravelSubmit env n r h)"
  "ok_or_same h (handleTravelArrived env n i r h)"
  "ok_or_same h (handleTravelBlocked env n i r h)"
  subgoal by (auto simp: handleRegister_def Let_def ok_or_same_simps split: option.split prod.split hub_err.split sum.split
      dest: store_err_same(1))
  subgoal by (auto simp: handleHeartbeat_def Let_def ok_or_same_simps split: option.split prod.split hub_err.split sum.split
      dest: store_err_same(2))
  subgoal by (auto simp: handleRosterPush_def Let_def ok_or_same_simps split: option.split prod.split hub_err.split sum.split
      dest: store_err_same(3))
  subgoal by (auto simp: handlePvPQueue_def Let_def ok_or_same_simps split: option.split prod.split hub_err.split sum.split
      dest: store_err_same(4))
  subgoal by (auto simp: handlePvPResult_def Let_def ok_or_same_simps split: option.split prod.split hub_err.split sum.split
      dest: store_err_same(5))
  subgoal by (auto simp: handlePvPBlocked_def Let_def ok_or_same_simps split: option.split prod.split hub_err.split sum.split
      dest: store_err_same(6))
  subgoal by (auto simp: handleTravelSubmit_def Let_def ok_or_same_simps split: option.split prod.split hub_err.split sum.split
      dest: store_err_same(7))
  subgoal by (auto simp: handleTravelArrived_def Let_def ok_or_same_simps split: option.split prod.split hub_err.split sum.split
      dest: store_err_same(8))
  subgoal by (auto simp: handleTravelBlocked_def Let_def ok_or_same_simps split: option.split prod.split hub_err.split sum.split
      dest: store_err_same(9))
  done

lemma AppendEvents_cases:
  obtains (failed) h1 a where "AppendEvents burn io es h = (h1, a, Inl ErrDB)"
      "h1 = fst (append_loop burn io 0 es h)"
  | (stored) h1 a where "AppendEvents burn io es h = (h1, a, Inr (head h1))"
      "append_loop burn io 0 es h = (h1, a, False)"
  by (auto simp: AppendEvents_def case_prod_beta split: if_splits)
    (metis prod.collapse)+

text \<open>C5: a request that is not answered with 200 has changed nothing, with one exception: an
  event push whose storage failed midway (500). Then the batch in its body was valid and the caller's
  own, and the hub has stored a prefix of that batch, in its order; sending it again completes it.\<close>

theorem failed_request_effect:
  assumes "p_code (snd (Handler s env r h)) \<noteq> 200"
  shows "fst (Handler s env r h) = h \<or>
    (Route r = REventsPush \<and> p_code (snd (Handler s env r h)) = 500
     \<and> (\<exists>n j es m. caller env r h = Some n \<and> r_body r = Some j \<and> dec_eventsPushReq j = (es, True)
         \<and> list_all (\<lambda>e. e_SourceNode e = n_NodeID n) es \<and> validateEventSchemas es = None
         \<and> fst (Handler s env r h) = fst (put_all (insert_event (v_burn env)) (take m es) h)))"
proof (cases "\<exists>n. Route r = REventsPush \<and> caller env r h = Some n")
  case True
  then obtain n where n: "caller env r h = Some n"
      and H: "Route r = REventsPush" "Handler s env r h = handleEventsPush env n r h"
    by (auto simp: Handler_def serve_def auth_caller(1))
  show ?thesis
  proof (cases rule: handleEventsPush_cases [of env n r h])
    case refused
    then show ?thesis using H by simp
  next
    case (appended j es)
    then show ?thesis
    proof (cases rule: AppendEvents_cases [of "v_burn env" "v_io env ''AppendEvents''" es h])
      case (failed h1 a)
      obtain m where "fst (append_loop (v_burn env) (v_io env ''AppendEvents'') 0 es h)
          = fst (put_all (insert_event (v_burn env)) (take m es) h)"
        using append_loop_prefix by blast
      then have "h1 = fst (put_all (insert_event (v_burn env)) (take m es) h)"
        using failed(2) by simp
      moreover have "Handler s env r h = (h1, writeErr 500 ''append failed'')"
        using H(2) appended(6) failed(1) by simp
      ultimately show ?thesis
        using H(1) n appended(1-4) by (intro disjI2 conjI exI [of _ n] exI [of _ j] exI [of _ es] exI [of _ m]) simp_all
    next
      case (stored h1 a)
      then have "p_code (snd (handleEventsPush env n r h)) = 200"
        using appended(6) by simp
      then show ?thesis using assms H(2) by simp
    qed
  qed
next
  case push: False
  have auth_ok: "ok_or_same h (auth env nxt r h)" if "\<And>n. ok_or_same h (nxt n r h)" for nxt
    using that auth_caller [of env r h] by (cases "caller env r h") (auto simp: ok_or_same_def)
  have same: "fst p = h \<Longrightarrow> ok_or_same h p" for p
    by (simp add: ok_or_same_def)
  show ?thesis
  proof (cases "Route r = REventsPush")
    case True
    then show ?thesis
      using push auth_caller(2) [of env r h] by (cases "caller env r h") (auto simp: Handler_def serve_def)
  next
    case False
    then have "ok_or_same h (Handler s env r h)"
      by (cases "Route r") (simp_all add: Handler_def serve_def auth_ok handler_err_same same ok_or_same_simps)
    then show ?thesis using assms by (simp add: ok_or_same_def)
  qed
qed

section \<open>Pushing events\<close>

abbreviation feed_ids :: "hub \<Rightarrow> string list" where
  "feed_ids h \<equiv> map (e_EventID \<circ> snd) (h_events h)"

text \<open>The answer to a push whose batch passed the checks and met no fault.\<close>

lemma handleEventsPush_ok:
  assumes "r_body r = Some j" "dec_eventsPushReq j = (es, True)" "list_all (\<lambda>e. e_SourceNode e = n_NodeID n) es"
    "validateEventSchemas es = None" "validateEventCompatibility (v_io env ''NodeByID'') 0 n es h = None"
    and "v_io env ''AppendEvents'' = no_io"
  shows "feed_ids (fst (handleEventsPush env n r h)) = feed_ids h @ fresh_keys e_EventID es (feed_ids h)"
    and "snd (handleEventsPush env n r h) = writeJSON 200 (JObj
      [(''accepted'', JInt (int (length (fresh_keys e_EventID es (feed_ids h))))),
       (''duplicates'', JInt (int (length es) - int (length (fresh_keys e_EventID es (feed_ids h))))),
       (''last_hub_seq'', JInt (head (fst (handleEventsPush env n r h))))])"
proof -
  let ?p = "put_all (insert_event (v_burn env)) es h"
  have ap: "AppendEvents (v_burn env) no_io es h = (fst ?p, int (snd ?p), Inr (head (fst ?p)))"
    by (simp add: AppendEvents_def append_loop_put_all)
  have hd: "head (MaterializeEvents io es g) = head g" for io g
    by (simp add: head_def)
  have H: "handleEventsPush env n r h =
     (MaterializeEvents (v_io env ''MaterializeEvents'') es (fst ?p),
      writeJSON 200 (JObj [(''accepted'', JInt (int (snd ?p))),
        (''duplicates'', JInt (int (length es) - int (snd ?p))), (''last_hub_seq'', JInt (head (fst ?p)))]))"
    using assms by (simp add: handleEventsPush_def ap)
  show "feed_ids (fst (handleEventsPush env n r h)) = feed_ids h @ fresh_keys e_EventID es (feed_ids h)"
    by (simp add: H hubfeed.put_all_keys)
  show "snd (handleEventsPush env n r h) = writeJSON 200 (JObj
      [(''accepted'', JInt (int (length (fresh_keys e_EventID es (feed_ids h))))),
       (''duplicates'', JInt (int (length es) - int (length (fresh_keys e_EventID es (feed_ids h))))),
       (''last_hub_seq'', JInt (head (fst (handleEventsPush env n r h))))])"
    by (simp add: H hubfeed.put_all_count hd)
qed

lemma Handler_push:
  "Route r = REventsPush \<Longrightarrow> caller env r h = Some n \<Longrightarrow> Handler s env r h = handleEventsPush env n r h"
  by (simp add: Handler_def serve_def auth_caller(1))

text \<open>C6: a batch of valid events of the calling node is stored: the ids the feed did not have are
  appended in order, once each, and the answer counts them, the duplicates and the new head.\<close>

theorem push_stores_batch:
  assumes "Route r = REventsPush" "caller env r h = Some n" "r_body r = Some j" "dec_eventsPushReq j = (es, True)"
    "list_all (\<lambda>e. e_SourceNode e = n_NodeID n) es" "validateEventSchemas es = None"
    "validateEventCompatibility (v_io env ''NodeByID'') 0 n es h = None" "v_io env ''AppendEvents'' = no_io"
  defines "new \<equiv> fresh_keys e_EventID es (feed_ids h)"
  shows "feed_ids (fst (Handler s env r h)) = feed_ids h @ new \<and>
    snd (Handler s env r h) = writeJSON 200 (JObj
      [(''accepted'', JInt (int (length new))), (''duplicates'', JInt (int (length es) - int (length new))),
       (''last_hub_seq'', JInt (head (fst (Handler s env r h))))])"
  using handleEventsPush_ok [OF assms(3-8)] assms(9) by (simp add: Handler_push [OF assms(1,2)])

lemma AppendEvents_frame:
  "h_nodes (fst (AppendEvents burn io es h)) = h_nodes h" "h_pvp (fst (AppendEvents burn io es h)) = h_pvp h"
  "h_travel (fst (AppendEvents burn io es h)) = h_travel h" "h_locs (fst (AppendEvents burn io es h)) = h_locs h"
  "h_roster (fst (AppendEvents burn io es h)) = h_roster h" "h_debts (fst (AppendEvents burn io es h)) = h_debts h"
  using append_loop_frame [of burn io 0 es h "fst (append_loop burn io 0 es h)"
      "fst (snd (append_loop burn io 0 es h))" "snd (snd (append_loop burn io 0 es h))"]
  by (simp_all add: AppendEvents_fst)

lemma refs_no_io:
  "validateRefsSameGame io k n refs h = None \<Longrightarrow> h_nodes h' = h_nodes h \<Longrightarrow>
   validateRefsSameGame no_io k' n refs h' = None"
  by (induction refs arbitrary: k k') (auto simp: NodeByID_def Let_def split: if_splits sum.splits option.splits)

lemma compat_no_io:
  "validateEventCompatibility io k n es h = None \<Longrightarrow> h_nodes h' = h_nodes h \<Longrightarrow>
   validateEventCompatibility no_io k' n es h' = None"
  by (induction es arbitrary: k k') (auto simp: refs_no_io split: option.splits)

lemma handleEventsPush_nodes: "h_nodes (fst (handleEventsPush env n r h)) = h_nodes h"
  by (rule handleEventsPush_effect [where P = "\<lambda>g. h_nodes g = h_nodes h"])
    (simp_all add: AppendEvents_frame MaterializeEvents_def)

text \<open>An environment in which no statement fails.\<close>

definition calm :: "henv \<Rightarrow> bool" where
  "calm env \<longleftrightarrow> v_io env = (\<lambda>_. no_io)"

lemma caller_calm:
  "caller env r h = Some n \<Longrightarrow> calm env' \<Longrightarrow> v_sha256 env' = v_sha256 env \<Longrightarrow> h_nodes h' = h_nodes h \<Longrightarrow>
   caller env' r h' = Some n"
  by (simp add: caller_iff calm_def hashKey_def)

lemma handleEventsPush_200:
  assumes "p_code (snd (handleEventsPush env n r h)) = 200"
  obtains j es where "r_body r = Some j" "dec_eventsPushReq j = (es, True)"
      "list_all (\<lambda>e. e_SourceNode e = n_NodeID n) es" "validateEventSchemas es = None"
      "validateEventCompatibility (v_io env ''NodeByID'') 0 n es h = None"
      "e_EventID ` set es \<subseteq> set (feed_ids (fst (handleEventsPush env n r h)))"
proof (cases rule: handleEventsPush_cases [of env n r h])
  case (refused code msg)
  then show ?thesis using assms by simp
next
  case (appended j es)
  show ?thesis
  proof (cases rule: AppendEvents_cases [of "v_burn env" "v_io env ''AppendEvents''" es h])
    case (failed g a)
    then show ?thesis using assms appended(6) by simp
  next
    case (stored g a)
    then have "feed_ids (fst (handleEventsPush env n r h)) = feed_ids (fst (put_all (insert_event (v_burn env)) es h))"
      using append_loop_prefix [of es "v_burn env" "v_io env ''AppendEvents''" 0 h] appended(6) by auto
    then have "e_EventID ` set es \<subseteq> set (feed_ids (fst (handleEventsPush env n r h)))"
      using hubfeed.put_all_covers [of es "v_burn env" h] by (simp only:)
    then show ?thesis using appended(1-5) that by blast
  qed
qed

lemma handleEventsPush_known:
  assumes "r_body r = Some j" "dec_eventsPushReq j = (es, True)" "list_all (\<lambda>e. e_SourceNode e = n_NodeID n) es"
    "validateEventSchemas es = None" "validateEventCompatibility (v_io env ''NodeByID'') 0 n es h = None"
    "v_io env ''AppendEvents'' = no_io" and known: "e_EventID ` set es \<subseteq> set (feed_ids h)"
  shows "feed_ids (fst (handleEventsPush env n r h)) = feed_ids h"
    and "snd (handleEventsPush env n r h) = writeJSON 200 (JObj
      [(''accepted'', JInt 0), (''duplicates'', JInt (int (length es))), (''last_hub_seq'', JInt (head h))])"
proof -
  have fresh: "fresh_keys e_EventID es (feed_ids h) = []"
    using hubfeed.put_all_known [OF known, of "v_burn env"] hubfeed.put_all_count [of "v_burn env" es h] by simp
  note push = handleEventsPush_ok [OF assms(1-6)]
  show ids: "feed_ids (fst (handleEventsPush env n r h)) = feed_ids h"
    using push(1) fresh by simp
  have "h_events (fst (handleEventsPush env n r h)) = h_events h"
    using ids handleEventsPush_extends [of env n r h] by auto
  then show "snd (handleEventsPush env n r h) = writeJSON 200 (JObj
      [(''accepted'', JInt 0), (''duplicates'', JInt (int (length es))), (''last_hub_seq'', JInt (head h))])"
    using push(2) fresh by (simp add: head_def)
qed

text \<open>C7: pushing is idempotent on the feed: after a push was answered with 200, the same request
  sent again is answered with 200, accepts nothing and leaves the feed as it is.\<close>

theorem push_replay:
  assumes "Route r = REventsPush" and ok: "p_code (snd (Handler s env r h)) = 200"
    and calm: "calm env'" "v_sha256 env' = v_sha256 env"
  defines "h1 \<equiv> fst (Handler s env r h)"
  shows "feed_ids (fst (Handler s env' r h1)) = feed_ids h1 \<and>
    (\<exists>k. snd (Handler s env' r h1) = writeJSON 200 (JObj
      [(''accepted'', JInt 0), (''duplicates'', JInt k), (''last_hub_seq'', JInt (head h1))]))"
proof -
  obtain n where n: "caller env r h = Some n"
    using ok auth_caller(2) [of env r h "handleEventsPush env"] assms(1)
    by (cases "caller env r h") (auto simp: Handler_def serve_def)
  have H: "Handler s env r h = handleEventsPush env n r h"
    by (rule Handler_push [OF assms(1) n])
  have nodes: "h_nodes h1 = h_nodes h"
    by (simp add: h1_def H handleEventsPush_nodes)
  have H': "Handler s env' r h1 = handleEventsPush env' n r h1"
    by (rule Handler_push [OF assms(1) caller_calm [OF n calm nodes]])
  have calm': "v_io env' ''AppendEvents'' = no_io" "v_io env' ''NodeByID'' = no_io"
    using calm(1) by (simp_all add: calm_def)
  from ok [unfolded H] obtain j es where es: "r_body r = Some j" "dec_eventsPushReq j = (es, True)"
      "list_all (\<lambda>e. e_SourceNode e = n_NodeID n) es" "validateEventSchemas es = None"
      "validateEventCompatibility (v_io env ''NodeByID'') 0 n es h = None" "e_EventID ` set es \<subseteq> set (feed_ids h1)"
    by (rule handleEventsPush_200) (simp add: h1_def H)
  have compat: "validateEventCompatibility (v_io env' ''NodeByID'') 0 n es h1 = None"
    unfolding calm'(2) by (rule compat_no_io [OF es(5) nodes])
  show ?thesis
    using handleEventsPush_known [OF es(1-4) compat calm'(1) es(6)] H' by auto
qed

section \<open>Pulling events\<close>

text \<open>The events of one answer to \<open>GET /v1/events\<close>.\<close>

definition feed_page :: "int \<Rightarrow> string \<Rightarrow> int \<Rightarrow> hub \<Rightarrow> FeedEvent list" where
  "feed_page limit exclude after h =
     (case FeedSince no_io after (clamp_limit limit) exclude h of Inl _ \<Rightarrow> [] | Inr (es, _) \<Rightarrow> es)"

definition visible :: "string \<Rightarrow> hub \<Rightarrow> FeedEvent list" where
  "visible exclude h = filter (\<lambda>p. exclude \<noteq> [] \<longrightarrow> e_SourceNode (snd p) \<noteq> exclude) (h_events h)"

lemma clamp_limit_range: "1 \<le> clamp_limit l \<and> clamp_limit l \<le> 1000"
  by (simp add: clamp_limit_def)

lemma feed_sorted_visible: "feed_wf h \<Longrightarrow> sorted_wrt (<) (map fst (visible exclude h))"
  by (simp add: feed_wf_def visible_def sorted_wrt_map sorted_wrt_filter)

lemma sort_key_id_strict: "sorted_wrt (<) (map f xs) \<Longrightarrow> sort_key f xs = xs" for f :: "'a \<Rightarrow> int"
  by (rule sort_key_id_if_sorted) (rule sorted_wrt_mono_rel [of _ "(<)"], auto)

lemma feed_page_take:
  assumes "feed_wf h"
  shows "feed_page limit exclude after h
    = take (nat (clamp_limit limit)) (filter (\<lambda>p. after < fst p) (visible exclude h))"
proof -
  have eq: "filter (\<lambda>(s, e). s > after \<and> (exclude \<noteq> [] \<longrightarrow> e_SourceNode e \<noteq> exclude)) (h_events h)
      = filter (\<lambda>p. after < fst p) (visible exclude h)"
    by (auto simp: visible_def intro!: filter_cong)
  have "sorted_wrt (<) (map fst (filter (\<lambda>p. after < fst p) (visible exclude h)))"
    using feed_sorted_visible [OF assms, of exclude] by (simp add: sorted_wrt_map sorted_wrt_filter)
  then show ?thesis
    using clamp_limit_range [of limit]
    by (simp add: feed_page_def FeedSince_def eq sort_key_id_strict sql_limit_def)
qed

interpretation hubpull: paged_feed "visible exclude" fst "feed_page limit exclude" feed_wf for limit exclude
proof unfold_locales
  fix h c
  assume wf: "feed_wf h"
  show "sorted_wrt (<) (map fst (visible exclude h))"
    using wf by (rule feed_sorted_visible)
  show "\<exists>n > 0. feed_page limit exclude c h = take n (filter (\<lambda>e. c < fst e) (visible exclude h))"
    using feed_page_take [OF wf, of limit exclude c] clamp_limit_range [of limit]
    by (intro exI [of _ "nat (clamp_limit limit)"]) simp
qed

lemma handleEventsPull_ok:
  assumes "calm env"
  shows "snd (handleEventsPull env n r h) = writeJSON 200 (JObj
    [(''events'', JArr (map enc_FeedEvent (feed_page (queryInt r ''limit'' 500)
        (if query_get r ''exclude_self'' = ''true'' then n_NodeID n else []) (queryInt r ''after'' 0) h))),
     (''head'', JInt (head h))])"
  using assms by (simp add: handleEventsPull_def feed_page_def FeedSince_def calm_def Let_def)

text \<open>C8: reading the feed page by page, whatever page size is asked for, each time after the last
  position of the page before, returns every entry after the first cursor that is not excluded,
  once and in feed order.\<close>

theorem pull_visits_all:
  assumes "hub_inv h" and "length (h_events h) \<le> k"
  shows "drain (\<lambda>c. feed_page limit exclude c h) fst k after
    = filter (\<lambda>p. after < fst p \<and> (exclude \<noteq> [] \<longrightarrow> e_SourceNode (snd p) \<noteq> exclude)) (h_events h)"
proof -
  have wf: "feed_wf h"
    using assms(1) by (simp add: hub_inv_def hub_wf_def)
  have "length (filter (\<lambda>e. after < fst e) (visible exclude h)) \<le> k"
    using assms(2) by (auto simp: visible_def intro: le_trans [OF length_filter_le])
  then have "drain (\<lambda>c. feed_page limit exclude c h) fst k after
      = filter (\<lambda>e. after < fst e) (visible exclude h)"
    by (rule hubpull.drain_complete [OF wf])
  then show ?thesis
    by (auto simp: visible_def intro!: filter_cong)
qed

section \<open>Registration\<close>

lemma base64_nonempty: "bs \<noteq> [] \<Longrightarrow> base64_raw_url bs \<noteq> []"
  by (cases bs rule: base64_raw_url.cases) auto

lemma bearer_token: "r_auth r = ''Bearer '' @ tok \<Longrightarrow> bearer r = tok"
  by (simp add: bearer_def has_prefix_def)

lemma RegisterNode_row:
  assumes "snd (RegisterNode io now n k h) = None"
  obtains row where "RegisterNode io now n k h = (h\<lparr>h_nodes := h_nodes h @ [row]\<rparr>, None)"
    "n_NodeID row = n_NodeID n" "n_GameID row = n_GameID n" "n_Status row = ''active''" "n_api_key_hash row = k"
    "n_NodeID row \<notin> n_NodeID ` set (h_nodes h)" "n_api_key_hash row \<notin> n_api_key_hash ` set (h_nodes h)"
proof -
  have "\<not> io 0 \<and> (\<forall>r \<in> set (h_nodes h). n_NodeID r \<noteq> n_NodeID n) \<and> \<not> io 1 \<and> k \<notin> n_api_key_hash ` set (h_nodes h)"
    using assms by (auto simp: RegisterNode_def table_simps split: if_splits)
  then show ?thesis
    by (intro that) (auto simp: RegisterNode_def table_simps)
qed

text \<open>A 200 answer means every check passed and the row was added.\<close>

lemma handleRegister_200:
  assumes "p_code (snd (handleRegister s env r h)) = 200"
  obtains j req row where "r_body r = Some j" "dec_registerReq j = (req, True)"
    "rg_RegistrationToken req = s_regToken s" "s_regToken s \<noteq> []" "rg_ProtocolVersion req = ProtocolVersion"
    "rg_NodeID req \<noteq> []" "rg_GameID req \<noteq> []"
    "handleRegister s env r h = (h\<lparr>h_nodes := h_nodes h @ [row]\<rparr>,
       writeJSON 200 (JObj [(''api_key'', JStr (fst (newAPIKey env))), (''hub_seq_head'', JInt 0)]))"
    "n_NodeID row = rg_NodeID req" "n_GameID row = rg_GameID req" "n_Status row = ''active''"
    "n_api_key_hash row = hashKey env (fst (newAPIKey env))"
    "n_NodeID row \<notin> n_NodeID ` set (h_nodes h)" "n_api_key_hash row \<notin> n_api_key_hash ` set (h_nodes h)"
proof (cases "r_body r")
  case None
  then show ?thesis using assms by (simp add: handleRegister_def)
next
  case (Some j)
  obtain req ok where d: "dec_registerReq j = (req, ok)"
    by (cases "dec_registerReq j")
  have ok: "ok" "rg_RegistrationToken req = s_regToken s" "s_regToken s \<noteq> []"
    "rg_ProtocolVersion req = ProtocolVersion" "rg_NodeID req \<noteq> []" "rg_GameID req \<noteq> []"
    using assms Some d by (auto simp: handleRegister_def split: if_splits)
  let ?reg = "RegisterNode (v_io env ''RegisterNode'') (unix_now env) (register_node req) (hashKey env (fst (newAPIKey env))) h"
  have H: "handleRegister s env r h =
      (case ?reg of
         (h1, Some ErrNodeExists) \<Rightarrow> (h1, writeErr 409 ''node_id already registered'')
       | (h1, Some _) \<Rightarrow> (h1, writeErr 500 ''registration failed'')
       | (h1, None) \<Rightarrow> (h1, writeJSON 200 (JObj [(''api_key'', JStr (fst (newAPIKey env))), (''hub_seq_head'', JInt 0)])))"
    using ok Some d
    by (simp add: handleRegister_def newAPIKey_def Let_def split: prod.split option.split hub_err.split)
  have none: "snd ?reg = None"
    using assms unfolding H by (auto split: prod.splits option.splits hub_err.splits)
  obtain row where row: "?reg = (h\<lparr>h_nodes := h_nodes h @ [row]\<rparr>, None)"
      "n_NodeID row = n_NodeID (register_node req)" "n_GameID row = n_GameID (register_node req)"
      "n_Status row = ''active''" "n_api_key_hash row = hashKey env (fst (newAPIKey env))"
      "n_NodeID row \<notin> n_NodeID ` set (h_nodes h)" "n_api_key_hash row \<notin> n_api_key_hash ` set (h_nodes h)"
    using none by (rule RegisterNode_row)
  have n: "n_NodeID (register_node req) = rg_NodeID req" "n_GameID (register_node req) = rg_GameID req"
    by (simp_all add: register_node_def Let_def)
  show ?thesis
    by (rule that [of j req row]) (use Some d ok n H row in simp_all)
qed

lemma find_append_new:
  "\<forall>x \<in> set xs. \<not> P x \<Longrightarrow> P y \<Longrightarrow> find P (xs @ [y]) = Some y"
  by (induction xs) auto

lemma find_append_old: "find P xs = Some x \<Longrightarrow> find P (xs @ ys) = Some x"
  by (simp add: find_append)

text \<open>C9: registration hands out a working key. It succeeds only with the operator's token, the
  hub's protocol version and an unused node id; the key in the answer then authenticates as the new
  node, and every key that worked before still does.\<close>

theorem register_gives_key:
  assumes "Route r = RRegister" and ok: "p_code (snd (Handler s env r h)) = 200"
    and "v_keyBytes env \<noteq> []" and calm: "calm env'" "v_sha256 env' = v_sha256 env"
  defines "h1 \<equiv> fst (Handler s env r h)"
  shows "\<exists>j req key n. r_body r = Some j \<and> dec_registerReq j = (req, True)
    \<and> rg_RegistrationToken req = s_regToken s \<and> rg_ProtocolVersion req = ProtocolVersion
    \<and> rg_NodeID req \<notin> n_NodeID ` set (h_nodes h)
    \<and> snd (Handler s env r h) = writeJSON 200 (JObj [(''api_key'', JStr key), (''hub_seq_head'', JInt 0)])
    \<and> n_NodeID n = rg_NodeID req \<and> n_GameID n = rg_GameID req
    \<and> (\<forall>r'. r_auth r' = ''Bearer '' @ key \<longrightarrow> caller env' r' h1 = Some n)
    \<and> (\<forall>r' m. caller env' r' h = Some m \<longrightarrow> caller env' r' h1 = Some m)"
proof -
  have HR: "Handler s env r h = handleRegister s env r h"
    using assms(1) by (simp add: Handler_def serve_def)
  let ?key = "fst (newAPIKey env)"
  obtain j req row where R: "r_body r = Some j" "dec_registerReq j = (req, True)"
    "rg_RegistrationToken req = s_regToken s" "rg_ProtocolVersion req = ProtocolVersion"
    "handleRegister s env r h = (h\<lparr>h_nodes := h_nodes h @ [row]\<rparr>,
       writeJSON 200 (JObj [(''api_key'', JStr ?key), (''hub_seq_head'', JInt 0)]))"
    "n_NodeID row = rg_NodeID req" "n_GameID row = rg_GameID req" "n_Status row = ''active''"
    "n_api_key_hash row = hashKey env ?key"
    "n_NodeID row \<notin> n_NodeID ` set (h_nodes h)" "n_api_key_hash row \<notin> n_api_key_hash ` set (h_nodes h)"
    using ok unfolding HR by (rule handleRegister_200) blast
  have h1: "h_nodes h1 = h_nodes h @ [row]"
    by (simp add: h1_def HR R(5))
  have key: "?key \<noteq> []"
    using base64_nonempty [OF assms(3)] by (simp add: newAPIKey_def Let_def)
  have hash: "hashKey env' k = hashKey env k" for k
    using calm(2) by (simp add: hashKey_def)
  have "find (\<lambda>x. n_api_key_hash x = hashKey env ?key) (h_nodes h @ [row]) = Some row"
    using R(9,11) by (intro find_append_new) force+
  then have "caller env' r' h1 = Some (scan_node row)" if "r_auth r' = ''Bearer '' @ ?key" for r'
    using bearer_token [OF that] key calm(1) R(8) by (simp add: caller_iff calm_def h1 hash)
  moreover have "caller env' r' h1 = Some m" if "caller env' r' h = Some m" for r' m
    using that by (auto simp: caller_iff h1 dest: find_append_old)
  ultimately show ?thesis
    using R(1-4,6,7,10) by (intro exI [of _ j] exI [of _ req] exI [of _ ?key] exI [of _ "scan_node row"])
      (simp add: HR R(5) scan_node_def)
qed

section \<open>Travel\<close>

lemma NodeByID_Inr:
  "NodeByID io i h = Inr n \<Longrightarrow> \<exists>row \<in> set (h_nodes h). n = scan_node row \<and> n_NodeID row = i"
  by (auto simp: NodeByID_def split: if_splits option.splits dest!: find_Some_D)

text \<open>The request a submission stores.\<close>

definition travel_of :: "henv \<Rightarrow> Node \<Rightarrow> travelSubmitReq \<Rightarrow> TravelRequest" where
  "travel_of env n req = \<lparr>t_TravelID = hex_encode (v_idBytes env), t_GlobalID = ts_GlobalID req,
     t_HomeNode = ts_HomeNode req, t_FromNode = n_NodeID n, t_DestNode = ts_DestNode req, t_Snapshot = ts_Snapshot req,
     t_Status = [], t_Error = [], t_CreatedAt = unix_now env, t_UpdatedAt = 0\<rparr>"

lemma handleTravelSubmit_200:
  assumes "p_code (snd (handleTravelSubmit env n r h)) = 200"
  obtains j req dest where "r_body r = Some j" "dec_travelSubmitReq j = (req, True)" "ts_GlobalID req \<noteq> []"
    "rawObject (ts_Snapshot req)" "NodeByID (v_io env ''NodeByID'') (ts_DestNode req) h = Inr dest"
    "n_GameID dest = n_GameID n" "n_Status dest = ''active''"
    "SubmitTravel (v_io env ''SubmitTravel'') (unix_now env) (travel_of env n req) h
       = (fst (handleTravelSubmit env n r h), None)"
    "snd (handleTravelSubmit env n r h) =
       writeJSON 200 (JObj [(''status'', JStr ''pending''), (''travel_id'', JStr (hex_encode (v_idBytes env)))])"
proof (cases "r_body r")
  case None
  then show ?thesis using assms by (simp add: handleTravelSubmit_def)
next
  case (Some j)
  obtain req ok where d: "dec_travelSubmitReq j = (req, ok)"
    by (cases "dec_travelSubmitReq j")
  have ok: ok "ts_GlobalID req \<noteq> []" "ts_DestNode req \<noteq> []" "rawObject (ts_Snapshot req)"
    using assms Some d by (auto simp: handleTravelSubmit_def split: if_splits)
  have snap: "(ts_Snapshot req = None) = False"
    using ok(4) by (auto simp: rawObject_iff)
  obtain dest where dest: "NodeByID (v_io env ''NodeByID'') (ts_DestNode req) h = Inr dest"
    using assms Some d ok snap
    by (cases "NodeByID (v_io env ''NodeByID'') (ts_DestNode req) h")
      (auto simp: handleTravelSubmit_def split: hub_err.splits)
  have act: "n_GameID dest = n_GameID n" "n_Status dest = ''active''"
    using assms Some d ok dest by (auto simp: handleTravelSubmit_def split: if_splits)
  let ?sub = "SubmitTravel (v_io env ''SubmitTravel'') (unix_now env) (travel_of env n req) h"
  have H: "handleTravelSubmit env n r h =
      (case ?sub of
         (h1, Some ErrTravelActive) \<Rightarrow> (h1, writeErr 409 ''player already in transit'')
       | (h1, Some ErrLocationMismatch) \<Rightarrow> (h1, writeErr 403 ''player is not located at this node'')
       | (h1, Some _) \<Rightarrow> (h1, writeErr 500 ''submit failed'')
       | (h1, None) \<Rightarrow> (h1, writeJSON 200 (JObj
            [(''status'', JStr ''pending''), (''travel_id'', JStr (hex_encode (v_idBytes env)))])))"
    using Some d ok dest act
    by (simp add: handleTravelSubmit_def travel_of_def Let_def snap del: not_None_eq split: prod.split hub_err.split)
  have none: "snd ?sub = None"
    using assms unfolding H by (auto split: prod.splits option.splits hub_err.splits)
  then have "handleTravelSubmit env n r h = (fst ?sub, writeJSON 200 (JObj
      [(''status'', JStr ''pending''), (''travel_id'', JStr (hex_encode (v_idBytes env)))]))"
    unfolding H by (cases ?sub) auto
  then show ?thesis
    using none Some d ok dest act by (intro that [of j req dest]) (simp_all add: prod_eq_iff)
qed

text \<open>The player's location after an upsert of its row.\<close>

lemma currentLocation_upsert:
  "currentLocation g (h\<lparr>h_travel := ts, h_locs := upsert l_global_id (\<lambda>_ new. new) l (h_locs h)\<rparr>)
   = (if g = l_global_id l then (l_current_node l, l_home_node l) else currentLocation g h)"
  by (simp add: currentLocation_def find_upsert)

lemma Handler_auth_200:
  assumes "p_code (snd (auth env nxt r h)) = 200"
  obtains n where "caller env r h = Some n" "auth env nxt r h = nxt n r h"
proof (cases "caller env r h")
  case None
  then show ?thesis using assms auth_caller(2) [of env r h nxt] by auto
next
  case (Some n)
  then show ?thesis using auth_caller(1) [of env r h n nxt] that by blast
qed

lemma travel_busy:
  assumes "Route r = RTravelSubmit" "r_body r = Some j" "dec_travelSubmitReq j = (req, True)" "ts_GlobalID req = g"
    and "\<exists>t \<in> set (h_travel h). travel_pending_for g t"
  shows "p_code (snd (Handler s env r h)) \<noteq> 200"
proof
  assume ok: "p_code (snd (Handler s env r h)) = 200"
  have HA: "Handler s env r h = auth env (handleTravelSubmit env) r h"
    using assms(1) by (simp add: Handler_def serve_def)
  obtain n where H: "Handler s env r h = handleTravelSubmit env n r h"
    using ok unfolding HA by (rule Handler_auth_200)
  obtain req' h' where "dec_travelSubmitReq j = (req', True)"
      "SubmitTravel (v_io env ''SubmitTravel'') (unix_now env) (travel_of env n req') h = (h', None)"
    using ok unfolding H by (rule handleTravelSubmit_200) (use assms(2) in simp)
  then show False
    using SubmitTravel_cases assms(3,4,5) by (fastforce simp: travel_of_def)
qed

text \<open>Where the hub takes a player to be: at the node of the location row or, with no row, at the home
  node the player's id names.\<close>

definition whereabouts :: "string \<Rightarrow> hub \<Rightarrow> string" where
  "whereabouts g h = (if fst (currentLocation g h) = [] then refNode g else fst (currentLocation g h))"

text \<open>C10: a player leaves from one place at a time. An accepted departure was submitted by the
  node the player was at before the request, towards another registered, active node of the same game,
  while no other departure of the player was pending; it adds exactly one pending request, leaves every
  player where they were, and until that request is settled no further departure of the player is
  accepted.\<close>

theorem travel_departure:
  assumes "Route r = RTravelSubmit" and "p_code (snd (Handler s env r h)) = 200"
  defines "h1 \<equiv> fst (Handler s env r h)"
  shows "\<exists>n j req tr dest. caller env r h = Some n \<and> r_body r = Some j \<and> dec_travelSubmitReq j = (req, True)
    \<and> dest \<in> set (h_nodes h) \<and> n_NodeID dest = ts_DestNode req \<and> n_GameID dest = n_GameID n
    \<and> n_Status dest = ''active'' \<and> ts_DestNode req \<noteq> n_NodeID n
    \<and> whereabouts (ts_GlobalID req) h = n_NodeID n
    \<and> (\<forall>t \<in> set (h_travel h). \<not> travel_pending_for (ts_GlobalID req) t)
    \<and> h_travel h1 = h_travel h @ [tr] \<and> travel_pending_for (ts_GlobalID req) tr
    \<and> t_FromNode tr = n_NodeID n \<and> t_DestNode tr = ts_DestNode req \<and> t_Snapshot tr = ts_Snapshot req
    \<and> fst (currentLocation (ts_GlobalID req) h1) = n_NodeID n
    \<and> (\<forall>g. g \<noteq> ts_GlobalID req \<longrightarrow> currentLocation g h1 = currentLocation g h)
    \<and> (\<forall>s' env' r' j' req'. Route r' = RTravelSubmit \<and> r_body r' = Some j' \<and> dec_travelSubmitReq j' = (req', True)
         \<and> ts_GlobalID req' = ts_GlobalID req \<longrightarrow> p_code (snd (Handler s' env' r' h1)) \<noteq> 200)"
proof -
  have HA: "Handler s env r h = auth env (handleTravelSubmit env) r h"
    using assms(1) by (simp add: Handler_def serve_def)
  obtain n where n: "caller env r h = Some n" and H: "Handler s env r h = handleTravelSubmit env n r h"
    using assms(2) unfolding HA by (rule Handler_auth_200)
  obtain j req dest where S: "r_body r = Some j" "dec_travelSubmitReq j = (req, True)"
    "NodeByID (v_io env ''NodeByID'') (ts_DestNode req) h = Inr dest" "n_GameID dest = n_GameID n"
    "n_Status dest = ''active''"
    "SubmitTravel (v_io env ''SubmitTravel'') (unix_now env) (travel_of env n req) h = (h1, None)"
    using assms(2) unfolding H h1_def by (rule handleTravelSubmit_200) (simp add: H)
  obtain row where row: "row \<in> set (h_nodes h)" "dest = scan_node row" "n_NodeID row = ts_DestNode req"
    using NodeByID_Inr [OF S(3)] by blast
  define tr where "tr = (travel_of env n req)\<lparr>t_HomeNode := submit_home (travel_of env n req) h,
    t_Status := ''pending'', t_Error := [], t_UpdatedAt := 0\<rparr>"
  have C: "\<forall>t \<in> set (h_travel h). \<not> travel_pending_for (ts_GlobalID req) t" "ts_DestNode req \<noteq> n_NodeID n"
    "h_travel h1 = h_travel h @ [tr]" "fst (currentLocation (ts_GlobalID req) h1) = n_NodeID n"
    "whereabouts (ts_GlobalID req) h = n_NodeID n"
    "\<forall>g. g \<noteq> ts_GlobalID req \<longrightarrow> currentLocation g h1 = currentLocation g h"
    using SubmitTravel_cases [OF S(6)] by (auto simp: travel_of_def currentLocation_upsert tr_def whereabouts_def
        submit_current_def victimNode_def Let_def split: if_splits)
  have tr: "travel_pending_for (ts_GlobalID req) tr" "t_FromNode tr = n_NodeID n" "t_DestNode tr = ts_DestNode req"
    "t_Snapshot tr = ts_Snapshot req"
    by (simp_all add: tr_def travel_of_def travel_pending_for_def)
  have "p_code (snd (Handler s' env' r' h1)) \<noteq> 200"
    if r': "Route r' = RTravelSubmit" "r_body r' = Some j'" "dec_travelSubmitReq j' = (req', True)"
      "ts_GlobalID req' = ts_GlobalID req" for s' env' r' j' req'
    by (rule travel_busy [OF r']) (use C(3) tr(1) in simp)
  then show ?thesis
    using n S(1,2,4,5) row C tr by (intro exI [of _ n] exI [of _ j] exI [of _ req] exI [of _ tr] exI [of _ row])
      (auto simp: scan_node_def)
qed

text \<open>What arriving does to the database.\<close>

lemma ArriveTravel_effect:
  assumes "ArriveTravel io now i d h = (h1, None)"
  obtains t where "t \<in> set (h_travel h)" "travel_open i d t"
    "h1 = h\<lparr>h_travel := upd_where (travel_open i d) (\<lambda>t. t\<lparr>t_Status := ''arrived'', t_UpdatedAt := now\<rparr>) (h_travel h),
       h_locs := upsert l_global_id (\<lambda>_ new. new)
         \<lparr>l_global_id = t_GlobalID t, l_current_node = d, l_home_node = t_HomeNode t,
          l_status = ''active'', l_travel_id = None, l_updated_at = now\<rparr> (h_locs h)\<rparr>"
proof -
  obtain t where t: "find (travel_open i d) (h_travel h) = Some t"
    using assms by (auto simp: ArriveTravel_def split: if_splits option.splits)
  show ?thesis
    using find_Some_D [OF t] assms t that [of t] by (auto simp: ArriveTravel_def split: if_splits)
qed

lemma handleTravelArrived_200:
  assumes "p_code (snd (handleTravelArrived env n i r h)) = 200"
  shows "ArriveTravel (v_io env ''ArriveTravel'') (unix_now env) i (n_NodeID n) h
    = (fst (handleTravelArrived env n i r h), None)"
  using assms by (auto simp: handleTravelArrived_def split: if_splits prod.splits option.splits hub_err.splits)

text \<open>C11: only the destination completes a journey, and then the player is there. An accepted
  arrival names a pending request addressed to the calling node; afterwards the player's location is
  that node, the recorded home is kept, no request of the player is pending and no other player
  moved.\<close>

theorem travel_arrival:
  assumes "hub_inv h" and "Route r = RTravelArrived i" and "p_code (snd (Handler s env r h)) = 200"
  defines "h1 \<equiv> fst (Handler s env r h)"
  shows "\<exists>n t. caller env r h = Some n \<and> t \<in> set (h_travel h) \<and> t_TravelID t = i \<and> t_DestNode t = n_NodeID n
    \<and> t_Status t = ''pending'' \<and> currentLocation (t_GlobalID t) h1 = (n_NodeID n, t_HomeNode t)
    \<and> (\<forall>u \<in> set (h_travel h1). \<not> travel_pending_for (t_GlobalID t) u)
    \<and> (\<forall>g. g \<noteq> t_GlobalID t \<longrightarrow> currentLocation g h1 = currentLocation g h)"
proof -
  have HA: "Handler s env r h = auth env (\<lambda>n. handleTravelArrived env n i) r h"
    using assms(2) by (simp add: Handler_def serve_def)
  obtain n where n: "caller env r h = Some n" and H: "Handler s env r h = handleTravelArrived env n i r h"
    using assms(3) unfolding HA by (rule Handler_auth_200)
  have "ArriveTravel (v_io env ''ArriveTravel'') (unix_now env) i (n_NodeID n) h = (h1, None)"
    unfolding h1_def H by (rule handleTravelArrived_200) (use assms(3) H in simp)
  then obtain t where t: "t \<in> set (h_travel h)" "travel_open i (n_NodeID n) t" and
    h1: "h1 = h\<lparr>h_travel := upd_where (travel_open i (n_NodeID n))
           (\<lambda>t. t\<lparr>t_Status := ''arrived'', t_UpdatedAt := unix_now env\<rparr>) (h_travel h),
         h_locs := upsert l_global_id (\<lambda>_ new. new)
         \<lparr>l_global_id = t_GlobalID t, l_current_node = n_NodeID n, l_home_node = t_HomeNode t,
          l_status = ''active'', l_travel_id = None, l_updated_at = unix_now env\<rparr> (h_locs h)\<rparr>"
    by (rule ArriveTravel_effect)
  have loc: "currentLocation g h1 = (if g = t_GlobalID t then (n_NodeID n, t_HomeNode t) else currentLocation g h)" for g
    by (simp add: h1 currentLocation_upsert)
  have "\<not> travel_pending_for (t_GlobalID t) u" if "u \<in> set (h_travel h1)" for u
    using that assms(1) t by (auto simp: h1 hub_inv_def travel_ok_def table_simps travel_open_def travel_pending_for_def)
  then show ?thesis
    using n t loc by (intro exI [of _ n] exI [of _ t]) (auto simp: travel_open_def)
qed

section \<open>Settled requests\<close>

definition settled_kept :: "hub \<Rightarrow> hub \<Rightarrow> bool" where
  "settled_kept h g \<longleftrightarrow>
     (\<forall>q \<in> set (h_pvp h). q_Status q \<noteq> ''pending'' \<longrightarrow> q \<in> set (h_pvp g)) \<and>
     (\<forall>t \<in> set (h_travel h). t_Status t \<noteq> ''pending'' \<longrightarrow> t \<in> set (h_travel g))"

lemma store_settled:
  "settled_kept h (fst (RegisterNode io now n k h))"
  "settled_kept h (fst (Heartbeat io now i p u v h))"
  "settled_kept h (fst (UpsertRoster io now i es h))"
  "settled_kept h (fst (QueuePvP io q h))"
  "settled_kept h (fst (CompletePvP io now i v h))"
  "settled_kept h (fst (BlockPvP io now i v why h))"
  "settled_kept h (fst (SubmitTravel io now t h))"
  "settled_kept h (fst (ArriveTravel io now i d h))"
  "settled_kept h (fst (BlockTravel io now i d why h))"
  by (simp_all add: settled_kept_def RegisterNode_def Heartbeat_def UpsertRoster_def QueuePvP_def CompletePvP_def
      BlockPvP_def SubmitTravel_def ArriveTravel_def BlockTravel_def table_simps pvp_open_def travel_open_def
      split: option.split)

lemma Handler_settled: "settled_kept h (fst (Handler s env r h))"
proof -
  have "settled_kept h h" "settled_kept h (fst (AppendEvents burn io es h))"
    "settled_kept h (MaterializeEvents io' es (fst (AppendEvents burn io es h)))" for burn io io' es
    by (simp_all add: settled_kept_def AppendEvents_frame MaterializeEvents_def)
  then show ?thesis
    unfolding Handler_def by (intro serve_effect [where P = "settled_kept h"] store_settled)
qed

end
