(* ===== verification/Hub_Admin.thy ===== *)
theory Hub_Admin
  imports Hub_Safety
begin

text \<open>
  The operator tool \<open>cmd/hubadmin/main.go\<close>, which works on the hub's database file. A command is
  a function from its arguments and the world (the database, the columns its tables have, and the
  files the tool reads and writes) to the new world, the lines printed on standard output and the
  error, if any. \<open>ae_io k\<close> is the fault of the k-th database statement of a command (0 is opening
  the file) and \<open>ae_fs\<close> the file-system calls that fail, before they had an effect; a failing query
  is taken to fail before its first row.
\<close>

section \<open>World and environment\<close>

datatype adm_err = ADB | AIO | AHelp | AMsg string

datatype afile = FText string | FDatabase hub | FOther

record adm =
  ad_hub :: hub
  ad_cols :: "string \<Rightarrow> string \<Rightarrow> bool"
  ad_files :: "string \<rightharpoonup> afile"

record aenv =
  ae_nanos :: int
  ae_user :: string
  ae_logname :: string
  ae_rand :: "nat list option"
  ae_sha256 :: "string \<Rightarrow> nat list"
  ae_io :: io
  ae_fs :: "string \<Rightarrow> bool"

type_synonym aresult = "adm \<times> string list \<times> adm_err option"

definition ae_unix :: "aenv \<Rightarrow> int" where
  "ae_unix env = ae_nanos env div 10 ^ 9"

definition withDB :: "aenv \<Rightarrow> (adm \<Rightarrow> aresult) \<Rightarrow> adm \<Rightarrow> aresult" where
  "withDB env fn w = (if ae_io env 0 then (w, [], Some ADB) else fn w)"

section \<open>Command-line flags\<close>

text \<open>\<open>FlagSet.Parse\<close>: \<open>fs\<close> gives the defined flags, \<open>Some True\<close> for a boolean and \<open>Some False\<close>
  for a string; the result lists the values set (the last setting first) and the remaining
  arguments.\<close>

definition ParseBool :: "string \<Rightarrow> bool option" where
  "ParseBool v =
     (if v \<in> {''1'', ''t'', ''T'', ''true'', ''TRUE'', ''True''} then Some True
      else if v \<in> {''0'', ''f'', ''F'', ''false'', ''FALSE'', ''False''} then Some False else None)"

fun flag_parse :: "(string \<Rightarrow> bool option) \<Rightarrow> (string \<times> string) list \<Rightarrow> string list
    \<Rightarrow> adm_err + ((string \<times> string) list \<times> string list)" where
  "flag_parse fs acc [] = Inr (acc, [])"
| "flag_parse fs acc (s # rest) =
     (if length s < 2 \<or> hd s \<noteq> CHR ''-'' then Inr (acc, s # rest)
      else if s = ''--'' then Inr (acc, rest)
      else
        (let body = drop (if s ! 1 = CHR ''-'' then 2 else 1) s;
             name = takeWhile (\<lambda>c. c \<noteq> CHR ''='') body;
             valued = (CHR ''='' \<in> set body);
             v = drop (Suc (length name)) body
         in if hd body = CHR ''-'' \<or> hd body = CHR ''='' then Inl (AMsg (''bad flag syntax: '' @ s))
            else case fs name of
              None \<Rightarrow> Inl (if name = ''help'' \<or> name = ''h'' then AHelp
                         else AMsg (''flag provided but not defined: -'' @ name))
            | Some True \<Rightarrow>
                if \<not> valued then flag_parse fs ((name, ''true'') # acc) rest
                else (case ParseBool v of
                        None \<Rightarrow> Inl (AMsg (''invalid boolean value '' @ go_quote v @ '' for -'' @ name @ '': parse error''))
                      | Some b \<Rightarrow> flag_parse fs ((name, if b then ''true'' else ''false'') # acc) rest)
            | Some False \<Rightarrow>
                if valued then flag_parse fs ((name, v) # acc) rest
                else (case rest of
                        [] \<Rightarrow> Inl (AMsg (''flag needs an argument: -'' @ name))
                      | x # rest' \<Rightarrow> flag_parse fs ((name, x) # acc) rest')))"

definition flag_get :: "string \<Rightarrow> (string \<times> string) list \<Rightarrow> string" where
  "flag_get name fl = (case map_of fl name of None \<Rightarrow> [] | Some v \<Rightarrow> v)"

definition execute_flag :: "string \<Rightarrow> bool option" where
  "execute_flag n = (if n = ''execute'' then Some True else None)"

definition file_flags :: "string \<Rightarrow> bool option" where
  "file_flags n = (if n = ''execute'' then Some True else if n = ''file'' then Some False else None)"

definition node_flag :: "string \<Rightarrow> bool option" where
  "node_flag n = (if n = ''node'' then Some False else None)"

definition executes :: "(string \<times> string) list \<Rightarrow> bool" where
  "executes fl \<longleftrightarrow> flag_get ''execute'' fl = ''true''"

section \<open>Printing\<close>

text \<open>Times in UTC by \<open>RFC3339\<close>: the proleptic Gregorian date of a day number, counted in years
  that start in March.\<close>

definition civil :: "int \<Rightarrow> int \<times> int \<times> int" where
  "civil days =
     (let z = days + 719468; era = z div 146097; doe = z mod 146097;
          yoe = (doe - doe div 1460 + doe div 36524 - doe div 146096) div 365;
          doy = doe - (365 * yoe + yoe div 4 - yoe div 100);
          mp = (5 * doy + 2) div 153;
          m = (if mp < 10 then mp + 3 else mp - 9)
      in (yoe + era * 400 + (if m \<le> 2 then 1 else 0), m, doy - (153 * mp + 2) div 5 + 1))"

definition show_pad :: "nat \<Rightarrow> int \<Rightarrow> string" where
  "show_pad k i =
     (let ds = show_nat (nat \<bar>i\<bar>) in (if i < 0 then ''-'' else []) @ replicate (k - length ds) (CHR ''0'') @ ds)"

definition formatUnix :: "int \<Rightarrow> string" where
  "formatUnix ts =
     (if ts = 0 then ''never''
      else let (y, m, d) = civil (ts div 86400); s = ts mod 86400
           in show_pad 4 y @ ''-'' @ show_pad 2 m @ ''-'' @ show_pad 2 d @ ''T'' @ show_pad 2 (s div 3600) @ '':''
              @ show_pad 2 (s div 60 mod 60) @ '':'' @ show_pad 2 (s mod 60) @ ''Z'')"

text \<open>\<open>time.Duration\<close>: a difference saturates at the 64-bit range; \<open>Round\<close> to seconds, halves away
  from zero; \<open>String\<close> of a value that is zero or at least a second.\<close>

definition sat64 :: "int \<Rightarrow> int" where
  "sat64 d = max (- (2 ^ 63)) (min d (2 ^ 63 - 1))"

definition round_second :: "int \<Rightarrow> int" where
  "round_second d =
     (let r = \<bar>d\<bar> mod 10 ^ 9 in
      if d < 0 then (if 2 * r < 10 ^ 9 then d + r else sat64 (d - 10 ^ 9 + r))
      else (if 2 * r < 10 ^ 9 then d - r else sat64 (d + 10 ^ 9 - r)))"

definition show_frac :: "int \<Rightarrow> string" where
  "show_frac n =
     (if n = 0 then [] else CHR ''.'' # rev (dropWhile (\<lambda>c. c = CHR ''0'') (rev (show_pad 9 n))))"

definition show_duration :: "int \<Rightarrow> string" where
  "show_duration d =
     (let u = \<bar>d\<bar>; s = u div 10 ^ 9; mi = s div 60; ho = mi div 60
      in if u = 0 then ''0s''
         else (if d < 0 then ''-'' else [])
              @ (if ho > 0 then show_int ho @ ''h'' else [])
              @ (if mi > 0 then show_int (mi mod 60) @ ''m'' else [])
              @ show_int (s mod 60) @ show_frac (u mod 10 ^ 9) @ ''s'')"

definition age :: "aenv \<Rightarrow> int \<Rightarrow> string" where
  "age env ts = (if ts = 0 then ''unknown'' else show_duration (round_second (sat64 (ae_nanos env - ts * 10 ^ 9))))"

definition formatError :: "string \<Rightarrow> string" where
  "formatError errText = (if trim_space errText = [] then [] else '' error='' @ go_quote errText)"

definition pad_right :: "nat \<Rightarrow> string \<Rightarrow> string" where
  "pad_right k s = s @ replicate (k - length s) (CHR '' '')"

fun join :: "string \<Rightarrow> string list \<Rightarrow> string" where
  "join sep [] = []"
| "join sep [s] = s"
| "join sep (s # t # ts) = s @ sep @ join sep (t # ts)"

definition tabs :: "string list \<Rightarrow> string" where
  "tabs xs = join [CHR 0x09] xs"

section \<open>Helpers\<close>

definition columnExists :: "bool \<Rightarrow> string \<Rightarrow> string \<Rightarrow> adm \<Rightarrow> adm_err + bool" where
  "columnExists fault tab column w = (if fault then Inl ADB else Inr (ad_cols w tab column))"

definition newSecret :: "aenv \<Rightarrow> adm_err + (string \<times> string)" where
  "newSecret env =
     (case ae_rand env of
        None \<Rightarrow> Inl AIO
      | Some b \<Rightarrow> (let key = base64_raw_url b in Inr (key, hex_encode (ae_sha256 env key))))"

definition sqlQuote :: "string \<Rightarrow> string" where
  "sqlQuote s = concat (map (\<lambda>c. if c = CHR 0x27 then [CHR 0x27, CHR 0x27] else [c]) s)"

definition operatorName :: "aenv \<Rightarrow> string" where
  "operatorName env =
     (if ae_user env \<noteq> [] then ae_user env else if ae_logname env \<noteq> [] then ae_logname env else ''unknown'')"

definition audit_entry :: "aenv \<Rightarrow> string \<Rightarrow> string \<Rightarrow> string \<Rightarrow> audit_row" where
  "audit_entry env command target detail =
     \<lparr>a_created_at = ae_unix env, a_operator = operatorName env, a_command = command, a_target = target, a_detail = detail\<rparr>"

definition set_hub :: "hub \<Rightarrow> adm \<Rightarrow> adm" where
  "set_hub h w = w\<lparr>ad_hub := h\<rparr>"

text \<open>\<open>auditAction\<close> and \<open>auditActionTx\<close>: creating the table if needed, then the insert.\<close>

definition auditAction :: "aenv \<Rightarrow> nat \<Rightarrow> string \<Rightarrow> string \<Rightarrow> string \<Rightarrow> hub \<Rightarrow> hub \<times> adm_err option" where
  "auditAction env k command target detail h =
     (if ae_io env k \<or> ae_io env (Suc k) then (h, Some ADB)
      else (h\<lparr>h_audit := h_audit h @ [audit_entry env command target detail]\<rparr>, None))"

definition formatCounts :: "(string \<times> int) list \<Rightarrow> string" where
  "formatCounts counts = join '' '' (map (\<lambda>(name, n). name @ ''='' @ show_int n) counts)"

section \<open>Nodes\<close>

definition title_of :: "bool \<Rightarrow> node_row \<Rightarrow> string" where
  "title_of migrated r = (if migrated \<and> n_GameTitle r \<noteq> [] then n_GameTitle r else n_GameID r)"

definition node_line :: "bool \<Rightarrow> node_row \<Rightarrow> string" where
  "node_line migrated r =
     tabs [n_NodeID r, n_Status r, n_GameID r, title_of migrated r, n_GameVersion r, show_int (n_PlayerCount r),
           formatUnix (n_LastHeartbeat r), n_AdvertiseAddr r]"

definition listNodes :: "aenv \<Rightarrow> adm \<Rightarrow> aresult" where
  "listNodes env w =
     (case columnExists (ae_io env 1) ''nodes'' ''game_title'' w of
        Inl e \<Rightarrow> (w, [], Some e)
      | Inr ok \<Rightarrow>
          if ae_io env 2 then (w, [], Some ADB)
          else (w, tabs [''node_id'', ''status'', ''game_id'', ''game_title'', ''version'', ''players'', ''last_heartbeat'', ''advertise_addr'']
                   # map (node_line ok) (sort_key n_NodeID (h_nodes (ad_hub w))), None))"

definition node_missing :: "string \<Rightarrow> adm_err" where
  "node_missing nodeID = AMsg (''node '' @ go_quote nodeID @ '' not found'')"

definition describeNode :: "aenv \<Rightarrow> nat \<Rightarrow> string \<Rightarrow> adm \<Rightarrow> string list \<times> adm_err option" where
  "describeNode env k nodeID w =
     (case columnExists (ae_io env k) ''nodes'' ''game_title'' w of
        Inl e \<Rightarrow> ([], Some e)
      | Inr ok \<Rightarrow>
          if ae_io env (Suc k) then ([], Some ADB)
          else case find (\<lambda>r. n_NodeID r = nodeID) (h_nodes (ad_hub w)) of
            None \<Rightarrow> ([], Some (node_missing nodeID))
          | Some r \<Rightarrow>
              ([''node_id='' @ nodeID @ '' status='' @ n_Status r @ '' game_id='' @ n_GameID r @ '' game_title='' @ go_quote (title_of ok r)
                @ '' version='' @ n_GameVersion r @ '' players='' @ show_int (n_PlayerCount r) @ '' last_heartbeat=''
                @ formatUnix (n_LastHeartbeat r) @ '' advertise_addr='' @ n_AdvertiseAddr r], None))"

definition dry_run :: "aenv \<Rightarrow> nat \<Rightarrow> string \<Rightarrow> string \<Rightarrow> adm \<Rightarrow> aresult" where
  "dry_run env k msg nodeID w = (case describeNode env k nodeID w of (out, e) \<Rightarrow> (w, (''dry-run: would '' @ msg) # out, e))"

text \<open>An update of one node row followed by its audit entry (statements k, k+1, k+2); what
  \<open>node-suspend\<close>, \<open>node-activate\<close>, \<open>node-title\<close> and \<open>rotate-key\<close> execute. A hash another node
  already has violates the unique index.\<close>

definition update_node :: "aenv \<Rightarrow> nat \<Rightarrow> string \<Rightarrow> (node_row \<Rightarrow> node_row) \<Rightarrow> string \<Rightarrow> string \<Rightarrow> string list \<Rightarrow> adm \<Rightarrow> aresult" where
  "update_node env k nodeID f command detail out w =
     (let h = ad_hub w; rows = upd_where (\<lambda>r. n_NodeID r = nodeID) f (h_nodes h) in
      if ae_io env k \<or> \<not> distinct (map n_api_key_hash rows) then (w, [], Some ADB)
      else if rows_where (\<lambda>r. n_NodeID r = nodeID) (h_nodes h) = 0 then (w, [], Some (node_missing nodeID))
      else case auditAction env (Suc k) command nodeID detail (h\<lparr>h_nodes := rows\<rparr>) of
        (h1, Some e) \<Rightarrow> (set_hub h1 w, [], Some e)
      | (h1, None) \<Rightarrow> (set_hub h1 w, out, None))"

text \<open>The prologue of the commands on one node: flags, exactly one argument, the database.\<close>

definition node_command :: "aenv \<Rightarrow> string list \<Rightarrow> (bool \<Rightarrow> string \<Rightarrow> adm \<Rightarrow> aresult) \<Rightarrow> adm \<Rightarrow> aresult" where
  "node_command env args body w =
     (case flag_parse execute_flag [] args of
        Inl e \<Rightarrow> (w, [], Some e)
      | Inr (fl, rest) \<Rightarrow>
          if length rest \<noteq> 1 then (w, [], Some (AMsg ''node id required''))
          else withDB env (body (executes fl) (rest ! 0)) w)"

definition nodeStatus :: "aenv \<Rightarrow> string list \<Rightarrow> string \<Rightarrow> adm \<Rightarrow> aresult" where
  "nodeStatus env args status w =
     node_command env args (\<lambda>ex nodeID w.
       if \<not> ex then dry_run env 1 (''set node '' @ go_quote nodeID @ '' status to '' @ go_quote status) nodeID w
       else update_node env 1 nodeID (\<lambda>r. r\<lparr>n_Status := status\<rparr>) (''node-'' @ status) (''status='' @ status)
              [''node '' @ go_quote nodeID @ '' status set to '' @ go_quote status] w) w"

definition title_db :: "aenv \<Rightarrow> bool \<Rightarrow> string \<Rightarrow> string \<Rightarrow> adm \<Rightarrow> aresult" where
  "title_db env ex nodeID title w =
     (case columnExists (ae_io env 1) ''nodes'' ''game_title'' w of
        Inl e \<Rightarrow> (w, [], Some e)
      | Inr ok \<Rightarrow>
          if \<not> ok then
            (w, [], Some (AMsg ''nodes.game_title column is not migrated; deploy/current hub migration before node-title''))
          else if \<not> ex then dry_run env 2 (''set node '' @ go_quote nodeID @ '' game_title to '' @ go_quote title) nodeID w
          else update_node env 2 nodeID (\<lambda>r. r\<lparr>n_GameTitle := title\<rparr>) ''node-title'' (''game_title='' @ title)
                 [''node '' @ go_quote nodeID @ '' game_title set to '' @ go_quote title] w)"

definition nodeTitle :: "aenv \<Rightarrow> string list \<Rightarrow> adm \<Rightarrow> aresult" where
  "nodeTitle env args w =
     (case flag_parse execute_flag [] args of
        Inl e \<Rightarrow> (w, [], Some e)
      | Inr (fl, rest) \<Rightarrow>
          if length rest < 2 then (w, [], Some (AMsg ''node id and game title required''))
          else
            (let title = trim_space (join '' '' (drop 1 rest)) in
             if title = [] then (w, [], Some (AMsg ''game title cannot be empty''))
             else withDB env (title_db env (executes fl) (rest ! 0) title) w))"

definition rotate_db :: "aenv \<Rightarrow> bool \<Rightarrow> string \<Rightarrow> adm \<Rightarrow> aresult" where
  "rotate_db env ex nodeID w =
     (if \<not> ex
      then dry_run env 1 (''rotate API key for node '' @ go_quote nodeID @ ''; old key would stop authenticating immediately'') nodeID w
      else case newSecret env of
        Inl e \<Rightarrow> (w, [], Some e)
      | Inr (key, hash) \<Rightarrow>
          update_node env 1 nodeID (\<lambda>r. r\<lparr>n_api_key_hash := hash\<rparr>) ''rotate-key'' ''api-key-hash-rotated''
            [''new API key for '' @ nodeID @ '':'', key,
             ''store this in the node database/configuration before restarting the node''] w)"

definition rotateKey :: "aenv \<Rightarrow> string list \<Rightarrow> adm \<Rightarrow> aresult" where
  "rotateKey env args w = node_command env args (rotate_db env) w"

text \<open>What \<open>node-remove\<close> counts and what it deletes.\<close>

definition removalCounts :: "aenv \<Rightarrow> nat \<Rightarrow> string \<Rightarrow> hub \<Rightarrow> adm_err + (string \<times> int) list" where
  "removalCounts env k nodeID h =
     (if list_ex (ae_io env) [k..<k + 7] then Inl ADB
      else Inr
        [(''nodes'', int (rows_where (\<lambda>r. n_NodeID r = nodeID) (h_nodes h))),
         (''roster'', int (rows_where (\<lambda>(r, _). ro_NodeID r = nodeID) (h_roster h))),
         (''events'', int (rows_where (\<lambda>(_, e). e_SourceNode e = nodeID) (h_events h))),
         (''debts'', int (rows_where (\<lambda>d. d_SourceNode d = nodeID) (h_debts h))),
         (''pvp_pending'', int (rows_where (\<lambda>q. q_VictimNode q = nodeID \<and> q_Status q = ''pending'') (h_pvp h))),
         (''travel_pending'', int (rows_where (\<lambda>t. (t_FromNode t = nodeID \<or> t_DestNode t = nodeID \<or> t_HomeNode t = nodeID)
            \<and> t_Status t = ''pending'') (h_travel h))),
         (''locations'', int (rows_where (\<lambda>l. l_current_node l = nodeID \<or> l_home_node l = nodeID) (h_locs h)))])"

definition delete_node :: "string \<Rightarrow> hub \<Rightarrow> hub" where
  "delete_node nodeID h = h\<lparr>
     h_roster := del_where (\<lambda>(r, _). ro_NodeID r = nodeID) (h_roster h),
     h_locs := del_where (\<lambda>l. l_current_node l = nodeID \<or> l_home_node l = nodeID) (h_locs h),
     h_pvp := del_where (\<lambda>q. q_VictimNode q = nodeID) (h_pvp h),
     h_travel := del_where (\<lambda>t. t_FromNode t = nodeID \<or> t_DestNode t = nodeID \<or> t_HomeNode t = nodeID) (h_travel h),
     h_debts := del_where (\<lambda>d. d_SourceNode d = nodeID) (h_debts h),
     h_events := del_where (\<lambda>(_, e). e_SourceNode e = nodeID) (h_events h),
     h_nodes := del_where (\<lambda>r. n_NodeID r = nodeID) (h_nodes h)\<rparr>"

text \<open>The transaction: begin (8), the seven deletes (9 to 15), the audit entry (16, 17), commit (18).\<close>

definition remove_db :: "aenv \<Rightarrow> bool \<Rightarrow> string \<Rightarrow> adm \<Rightarrow> aresult" where
  "remove_db env ex nodeID w =
     (case removalCounts env 1 nodeID (ad_hub w) of
        Inl e \<Rightarrow> (w, [], Some e)
      | Inr counts \<Rightarrow>
          (let out = (''affected rows for '' @ go_quote nodeID @ '':'')
                   # map (\<lambda>(name, n). ''  '' @ pad_right 16 name @ '' '' @ show_int n) counts
           in if \<not> ex then (w, out @ [''dry-run: no rows deleted; run again with --execute after taking a backup''], None)
              else if list_ex (ae_io env) [8..<16] then (w, out, Some ADB)
              else case auditAction env 16 ''node-remove'' nodeID (formatCounts counts) (delete_node nodeID (ad_hub w)) of
                (_, Some e) \<Rightarrow> (w, out, Some e)
              | (h1, None) \<Rightarrow>
                  if ae_io env 18 then (w, out, Some ADB)
                  else (set_hub h1 w, out @ [''node '' @ go_quote nodeID @ '' removed from hub tables''], None)))"

definition nodeRemove :: "aenv \<Rightarrow> string list \<Rightarrow> adm \<Rightarrow> aresult" where
  "nodeRemove env args w = node_command env args (remove_db env) w"

section \<open>Queues\<close>

text \<open>Without the migrated \<open>error\<close> column the empty string is listed.\<close>

definition listPvPQueue :: "aenv \<Rightarrow> nat \<Rightarrow> string \<Rightarrow> adm \<Rightarrow> string list \<times> adm_err option" where
  "listPvPQueue env k nodeID w =
     (case columnExists (ae_io env k) ''pvp_requests'' ''error'' w of
        Inl e \<Rightarrow> ([], Some e)
      | Inr ok \<Rightarrow>
          if ae_io env (Suc k) then ([], Some ADB)
          else (''pvp_requests:'' # map (\<lambda>q.
                  ''  '' @ q_RequestID q @ '' status='' @ q_Status q @ '' age='' @ age env (q_CreatedAt q) @ '' victim_node='' @ q_VictimNode q
                  @ '' attacker='' @ q_AttackerID q @ '' victim='' @ q_VictimID q @ formatError (if ok then q_Error q else []))
                (sort_key q_CreatedAt (filter (\<lambda>q. nodeID \<noteq> [] \<longrightarrow> q_VictimNode q = nodeID) (h_pvp (ad_hub w)))), None))"

definition listTravelQueue :: "aenv \<Rightarrow> nat \<Rightarrow> string \<Rightarrow> adm \<Rightarrow> string list \<times> adm_err option" where
  "listTravelQueue env k nodeID w =
     (case columnExists (ae_io env k) ''travel'' ''error'' w of
        Inl e \<Rightarrow> ([], Some e)
      | Inr ok \<Rightarrow>
          if ae_io env (Suc k) then ([], Some ADB)
          else (''travel:'' # map (\<lambda>t.
                  ''  '' @ t_TravelID t @ '' status='' @ t_Status t @ '' age='' @ age env (t_CreatedAt t) @ '' player='' @ t_GlobalID t
                  @ '' from='' @ t_FromNode t @ '' dest='' @ t_DestNode t @ '' home='' @ t_HomeNode t
                  @ formatError (if ok then t_Error t else []))
                (sort_key t_CreatedAt (filter (\<lambda>t. nodeID \<noteq> [] \<longrightarrow>
                   t_FromNode t = nodeID \<or> t_DestNode t = nodeID \<or> t_HomeNode t = nodeID) (h_travel (ad_hub w)))), None))"

definition queues :: "aenv \<Rightarrow> string list \<Rightarrow> adm \<Rightarrow> aresult" where
  "queues env args w =
     (case flag_parse node_flag [] args of
        Inl e \<Rightarrow> (w, [], Some e)
      | Inr (fl, _) \<Rightarrow>
          withDB env (\<lambda>w.
            case listPvPQueue env 1 (flag_get ''node'' fl) w of
              (out, Some e) \<Rightarrow> (w, out, Some e)
            | (out, None) \<Rightarrow>
                (case listTravelQueue env 3 (flag_get ''node'' fl) w of (out', e) \<Rightarrow> (w, out @ out', e))) w)"

text \<open>The status and error text of a queue item, and the statement that makes a blocked one
  pending again.\<close>

definition queue_item :: "string \<Rightarrow> string \<Rightarrow> hub \<Rightarrow> (string \<times> string) option" where
  "queue_item queueType i h =
     (if queueType = ''travel'' then map_option (\<lambda>t. (t_Status t, t_Error t)) (find (\<lambda>t. t_TravelID t = i) (h_travel h))
      else map_option (\<lambda>q. (q_Status q, q_Error q)) (find (\<lambda>q. q_RequestID q = i) (h_pvp h)))"

definition retry_item :: "string \<Rightarrow> string \<Rightarrow> int \<Rightarrow> hub \<Rightarrow> hub" where
  "retry_item queueType i now h =
     (if queueType = ''travel''
      then h\<lparr>h_travel := upd_where (\<lambda>t. t_TravelID t = i \<and> t_Status t = ''blocked'')
             (\<lambda>t. t\<lparr>t_Status := ''pending'', t_Error := [], t_UpdatedAt := now\<rparr>) (h_travel h)\<rparr>
      else h\<lparr>h_pvp := upd_where (\<lambda>q. q_RequestID q = i \<and> q_Status q = ''blocked'')
             (\<lambda>q. q\<lparr>q_Status := ''pending'', q_Error := [], q_UpdatedAt := now\<rparr>) (h_pvp h)\<rparr>)"

definition retry_rows :: "string \<Rightarrow> string \<Rightarrow> hub \<Rightarrow> nat" where
  "retry_rows queueType i h =
     (if queueType = ''travel'' then rows_where (\<lambda>t. t_TravelID t = i \<and> t_Status t = ''blocked'') (h_travel h)
      else rows_where (\<lambda>q. q_RequestID q = i \<and> q_Status q = ''blocked'') (h_pvp h))"

definition retry_db :: "aenv \<Rightarrow> bool \<Rightarrow> string \<Rightarrow> string \<Rightarrow> adm \<Rightarrow> aresult" where
  "retry_db env ex queueType i w =
     (let tab = (if queueType = ''travel'' then ''travel'' else ''pvp_requests'');
          item = queueType @ '' queue item '' @ go_quote i
      in if ae_io env 1 then (w, [], Some ADB)
         else if \<not> ad_cols w tab ''error'' \<or> (\<not> ae_io env 2 \<and> \<not> ad_cols w tab ''updated_at'') then
           (w, [], Some (AMsg (queueType @ '' queue schema is not migrated; deploy/current hub migration before queue-retry'')))
         else if ae_io env 2 \<or> ae_io env 3 then (w, [], Some ADB)
         else case queue_item queueType i (ad_hub w) of
           None \<Rightarrow> (w, [], Some (AMsg (item @ '' not found'')))
         | Some (status, errText) \<Rightarrow>
             if \<not> ex then (w, [''dry-run: would retry '' @ item @ '' status='' @ status @ formatError errText], None)
             else if status \<noteq> ''blocked'' then (w, [], Some (AMsg (item @ '' is '' @ go_quote status @ '', not blocked'')))
             else if ae_io env 4 then (w, [], Some ADB)
             else if retry_rows queueType i (ad_hub w) = 0 then (w, [], Some (AMsg (item @ '' not retried'')))
             else case auditAction env 5 ''queue-retry'' (queueType @ '':'' @ i) ''status=pending''
                      (retry_item queueType i (ae_unix env) (ad_hub w)) of
               (h1, Some e) \<Rightarrow> (set_hub h1 w, [], Some e)
             | (h1, None) \<Rightarrow> (set_hub h1 w, [item @ '' reset to pending''], None))"

definition queueRetry :: "aenv \<Rightarrow> string list \<Rightarrow> adm \<Rightarrow> aresult" where
  "queueRetry env args w =
     (case flag_parse execute_flag [] args of
        Inl e \<Rightarrow> (w, [], Some e)
      | Inr (fl, rest) \<Rightarrow>
          if length rest \<noteq> 2 then (w, [], Some (AMsg ''queue type and id required''))
          else if rest ! 0 \<noteq> ''pvp'' \<and> rest ! 0 \<noteq> ''travel'' then (w, [], Some (AMsg ''queue type must be pvp or travel''))
          else withDB env (retry_db env (executes fl) (rest ! 0) (rest ! 1)) w)"

section \<open>Backup and registration tokens\<close>

text \<open>
  The statement \<open>VACUUM INTO '...'\<close> as SQLite reads it: a string literal ends at the first quote
  that is not doubled. It writes a copy of the database to the file the literal names, which must not
  exist or be empty. (A name that begins with \<open>file:\<close> is taken as a path here, not as a URI.)
\<close>

fun sql_literal :: "string \<Rightarrow> (string \<times> string) option" where
  "sql_literal [] = None"
| "sql_literal (c # cs) =
     (if c \<noteq> CHR 0x27 then map_option (\<lambda>(s, r). (c # s, r)) (sql_literal cs)
      else case cs of
        d # ds \<Rightarrow> if d = CHR 0x27 then map_option (\<lambda>(s, r). (CHR 0x27 # s, r)) (sql_literal ds) else Some ([], cs)
      | [] \<Rightarrow> Some ([], []))"

definition vacuum_into :: "string \<Rightarrow> adm \<Rightarrow> adm option" where
  "vacuum_into stmt w =
     (if \<not> has_prefix stmt (''VACUUM INTO '' @ [CHR 0x27]) then None
      else case sql_literal (drop 13 stmt) of
        Some (path, []) \<Rightarrow>
          if ad_files w path \<noteq> None \<and> ad_files w path \<noteq> Some (FText []) then None
          else Some (w\<lparr>ad_files := (ad_files w)(path \<mapsto> FDatabase (ad_hub w))\<rparr>)
      | _ \<Rightarrow> None)"

definition backup_db :: "aenv \<Rightarrow> string \<Rightarrow> adm \<Rightarrow> aresult" where
  "backup_db env out w =
     (case (if ae_io env 1 then None else vacuum_into (''VACUUM INTO '' @ [CHR 0x27] @ sqlQuote out @ [CHR 0x27]) w) of
        None \<Rightarrow> (w, [], Some ADB)
      | Some w1 \<Rightarrow>
          if ae_fs env ''chmod'' then (w1, [], Some AIO)
          else case auditAction env 2 ''backup'' out ''vacuum-into'' (ad_hub w1) of
            (h1, Some e) \<Rightarrow> (set_hub h1 w1, [], Some e)
          | (h1, None) \<Rightarrow> (set_hub h1 w1, [''backup written to '' @ out], None))"

definition backup :: "aenv \<Rightarrow> string list \<Rightarrow> adm \<Rightarrow> aresult" where
  "backup env args w =
     (if length args \<noteq> 1 then (w, [], Some (AMsg ''backup output path required''))
      else let out = args ! 0 in
        if \<not> ae_fs env ''stat'' \<and> ad_files w out \<noteq> None then (w, [], Some (AMsg (''backup output already exists: '' @ out)))
        else if ae_fs env ''mkdir'' then (w, [], Some AIO)
        else withDB env (backup_db env out) w)"

definition tokenIssue :: "aenv \<Rightarrow> string list \<Rightarrow> adm \<Rightarrow> aresult" where
  "tokenIssue env args w =
     (case flag_parse file_flags [] args of
        Inl e \<Rightarrow> (w, [], Some e)
      | Inr (fl, _) \<Rightarrow>
          (let file = flag_get ''file'' fl in
           if file = [] then (w, [], Some (AMsg ''--file is required''))
           else case newSecret env of
             Inl e \<Rightarrow> (w, [], Some e)
           | Inr (token, _) \<Rightarrow>
               if \<not> executes fl then (w, [''dry-run: would write a new registration token to '' @ file], None)
               else if ae_fs env ''mkdir'' \<or> ae_fs env ''write'' then (w, [], Some AIO)
               else (w\<lparr>ad_files := (ad_files w)(file \<mapsto> FText (token @ [CHR 0x0A]))\<rparr>,
                     [''new registration token written to '' @ file @ '':'', token], None)))"

definition tokenRevoke :: "aenv \<Rightarrow> string list \<Rightarrow> adm \<Rightarrow> aresult" where
  "tokenRevoke env args w =
     (case flag_parse file_flags [] args of
        Inl e \<Rightarrow> (w, [], Some e)
      | Inr (fl, _) \<Rightarrow>
          (let file = flag_get ''file'' fl in
           if file = [] then (w, [], Some (AMsg ''--file is required''))
           else if \<not> executes fl then (w, [''dry-run: would clear registration token file '' @ file], None)
           else if ae_fs env ''write'' then (w, [], Some AIO)
           else (w\<lparr>ad_files := (ad_files w)(file \<mapsto> FText [])\<rparr>, [''registration token file cleared: '' @ file], None)))"

section \<open>The command\<close>

definition admin_main :: "aenv \<Rightarrow> string \<Rightarrow> string list \<Rightarrow> adm \<Rightarrow> aresult" where
  "admin_main env cmd args w =
     (if cmd = ''nodes'' then withDB env (listNodes env) w
      else if cmd = ''node-suspend'' then nodeStatus env args ''suspended'' w
      else if cmd = ''node-activate'' then nodeStatus env args ''active'' w
      else if cmd = ''node-title'' then nodeTitle env args w
      else if cmd = ''node-remove'' then nodeRemove env args w
      else if cmd = ''queues'' then queues env args w
      else if cmd = ''queue-retry'' then queueRetry env args w
      else if cmd = ''backup'' then backup env args w
      else if cmd = ''rotate-key'' then rotateKey env args w
      else if cmd = ''token-issue'' then tokenIssue env args w
      else if cmd = ''token-revoke'' then tokenRevoke env args w
      else (w, [], Some (AMsg (''unknown command '' @ go_quote cmd))))"

end
