(* ===== verification/Hub_Operator.thy ===== *)
theory Hub_Operator
  imports Hub_Admin
begin

text \<open>
  What the operator tool does to the hub: dry runs change nothing, every change is audited, all
  commands but \<open>queue-retry\<close> keep the hub's invariant, a rotated key replaces the old one, and a
  backup is an exact copy at the path given.
\<close>

section \<open>What a command can do\<close>

text \<open>The arguments ask for the change to be applied.\<close>

definition execute_given :: "(string \<Rightarrow> bool option) \<Rightarrow> string list \<Rightarrow> bool" where
  "execute_given fs args = (case flag_parse fs [] args of Inl _ \<Rightarrow> False | Inr (fl, _) \<Rightarrow> executes fl)"

definition wants_execute :: "string \<Rightarrow> string list \<Rightarrow> bool" where
  "wants_execute cmd args =
     execute_given (if cmd = ''token-issue'' \<or> cmd = ''token-revoke'' then file_flags else execute_flag) args"

text \<open>
  The effects on the database: none, an update of one node row, the removal of a node, making a
  queue item pending. An effect that was recorded has its audit entry; one that was not recorded
  ends in an error.
\<close>

datatype effect = NoEffect | NodeUpdate string "node_row \<Rightarrow> node_row" | NodeRemoval string | Retry string string int

fun apply_effect :: "effect \<Rightarrow> hub \<Rightarrow> hub" where
  "apply_effect NoEffect h = h"
| "apply_effect (NodeUpdate i f) h = h\<lparr>h_nodes := upd_where (\<lambda>r. n_NodeID r = i) f (h_nodes h)\<rparr>"
| "apply_effect (NodeRemoval i) h = delete_node i h"
| "apply_effect (Retry q i t) h = retry_item q i t h"

fun effect_ok :: "effect \<Rightarrow> hub \<Rightarrow> bool" where
  "effect_ok (NodeUpdate i f) h \<longleftrightarrow> (\<forall>r. n_NodeID (f r) = n_NodeID r)
     \<and> distinct (map n_api_key_hash (upd_where (\<lambda>r. n_NodeID r = i) f (h_nodes h)))"
| "effect_ok _ h \<longleftrightarrow> True"

definition audited :: "aenv \<Rightarrow> hub \<Rightarrow> hub \<Rightarrow> bool" where
  "audited env h h1 \<longleftrightarrow> (\<exists>c t d. h1 = h\<lparr>h_audit := h_audit h @ [audit_entry env c t d]\<rparr>)"

definition effect_of :: "aenv \<Rightarrow> effect \<Rightarrow> adm \<Rightarrow> aresult \<Rightarrow> bool" where
  "effect_of env x w res \<longleftrightarrow> effect_ok x (ad_hub w)
     \<and> (case res of (w1, out, err) \<Rightarrow>
          (x = NoEffect \<and> ad_hub w1 = ad_hub w)
          \<or> (err = None \<and> audited env (apply_effect x (ad_hub w)) (ad_hub w1))
          \<or> (err \<noteq> None \<and> ad_hub w1 = apply_effect x (ad_hub w)))"

lemma set_hub_simps [simp]: "ad_hub (set_hub h w) = h" "ad_files (set_hub h w) = ad_files w" "ad_cols (set_hub h w) = ad_cols w"
  by (simp_all add: set_hub_def)

lemma auditAction_cases:
  "auditAction env k c t d h = (h, Some ADB)
   \<or> auditAction env k c t d h = (h\<lparr>h_audit := h_audit h @ [audit_entry env c t d]\<rparr>, None)"
  by (simp add: auditAction_def)

lemma effect_same: "ad_hub w1 = ad_hub w \<Longrightarrow> effect_of env NoEffect w (w1, out, e)"
  by (simp add: effect_of_def)

lemma audited_upd: "audited env h (h\<lparr>h_audit := h_audit h @ [audit_entry env c t d]\<rparr>)"
  by (auto simp: audited_def)

lemma auditAction_None: "auditAction env k c t d h = (h1, None) \<Longrightarrow> audited env h h1"
  and auditAction_Some: "auditAction env k c t d h = (h1, Some e) \<Longrightarrow> h1 = h"
  by (auto simp: auditAction_def audited_def split: if_splits)

lemma update_node_effect:
  assumes "\<And>r. n_NodeID (f r) = n_NodeID r"
  shows "\<exists>x. effect_of env x w (update_node env k i f c d out w) \<and> x \<in> {NoEffect, NodeUpdate i f}"
proof (cases "ae_io env k \<or> \<not> distinct (map n_api_key_hash (upd_where (\<lambda>r. n_NodeID r = i) f (h_nodes (ad_hub w))))
    \<or> rows_where (\<lambda>r. n_NodeID r = i) (h_nodes (ad_hub w)) = 0")
  case True
  then have "\<exists>e. update_node env k i f c d out w = (w, [], e)"
    by (auto simp: update_node_def Let_def)
  then show ?thesis
    using effect_same by fastforce
next
  case False
  then have "effect_of env (NodeUpdate i f) w (update_node env k i f c d out w)"
    using assms auditAction_cases [of env "Suc k" c i d "ad_hub w\<lparr>h_nodes := upd_where (\<lambda>r. n_NodeID r = i) f (h_nodes (ad_hub w))\<rparr>"]
    by (auto simp: update_node_def Let_def effect_of_def audited_upd [of env "ad_hub w\<lparr>h_nodes := upd_where (\<lambda>r. n_NodeID r = i) f (h_nodes (ad_hub w))\<rparr>" c i d, simplified])
  then show ?thesis by blast
qed

lemma dry_run_same: "fst (dry_run env k m i w) = w"
  by (simp add: dry_run_def split: prod.split)

lemma node_command_cases:
  obtains e where "node_command env args body w = (w, [], Some e)"
  | i where "node_command env args body w = body (execute_given execute_flag args) i w"
proof (cases "flag_parse execute_flag [] args")
  case (Inl e)
  then show ?thesis using that(1) by (simp add: node_command_def)
next
  case (Inr x)
  then obtain fl rest where "flag_parse execute_flag [] args = Inr (fl, rest)"
    by (cases x) simp
  then show ?thesis
    using that by (cases "length rest = 1"; cases "ae_io env 0") (simp_all add: node_command_def execute_given_def withDB_def)
qed

text \<open>What each command guarantees: without \<open>--execute\<close> nothing changes, and the change is one of
  the effects, a removal and a retry only by the commands that are for it.\<close>

fun may_do :: "string \<Rightarrow> effect \<Rightarrow> bool" where
  "may_do cmd (NodeRemoval i) \<longleftrightarrow> cmd = ''node-remove''"
| "may_do cmd (Retry q i t) \<longleftrightarrow> cmd = ''queue-retry''"
| "may_do cmd _ \<longleftrightarrow> True"

definition command_ok :: "string \<Rightarrow> aenv \<Rightarrow> bool \<Rightarrow> adm \<Rightarrow> aresult \<Rightarrow> bool" where
  "command_ok cmd env ex w res \<longleftrightarrow> (\<not> ex \<longrightarrow> fst res = w) \<and> (\<exists>x. effect_of env x w res \<and> may_do cmd x)"

lemma ok_same: "fst res = w \<Longrightarrow> command_ok cmd env ex w res"
  using effect_same [of w w env "fst (snd res)" "snd (snd res)"]
  by (auto simp: command_ok_def intro!: exI [of _ NoEffect])

lemma ok_update: "ex \<Longrightarrow> (\<And>r. n_NodeID (f r) = n_NodeID r) \<Longrightarrow> command_ok cmd env ex w (update_node env k i f c d out w)"
  using update_node_effect [of f env w k i c d out] by (fastforce simp: command_ok_def)

lemma ok_node_command:
  assumes "\<And>i. command_ok cmd env (execute_given execute_flag args) w (body (execute_given execute_flag args) i w)"
  shows "command_ok cmd env (execute_given execute_flag args) w (node_command env args body w)"
  by (rule node_command_cases [of env args body w]) (simp_all add: assms ok_same)

lemma nodeStatus_ok: "command_ok cmd env (execute_given execute_flag args) w (nodeStatus env args st w)"
  unfolding nodeStatus_def by (rule ok_node_command) (simp add: ok_same ok_update dry_run_same)

lemma rotateKey_ok: "command_ok cmd env (execute_given execute_flag args) w (rotateKey env args w)"
  unfolding rotateKey_def
  by (rule ok_node_command) (simp add: rotate_db_def ok_same ok_update dry_run_same split: sum.split prod.split)

lemma remove_db_ok: "command_ok ''node-remove'' env ex w (remove_db env ex i w)"
proof (cases "fst (remove_db env ex i w) = w")
  case False
  then obtain c out h1 where ex: "ex" and r: "remove_db env ex i w = (set_hub h1 w, out, None)"
      "auditAction env 16 ''node-remove'' i c (delete_node i (ad_hub w)) = (h1, None)"
    by (auto simp: remove_db_def Let_def split: sum.splits if_splits prod.splits option.splits)
  have "audited env (delete_node i (ad_hub w)) h1"
    using r(2) by (rule auditAction_None)
  then have "effect_of env (NodeRemoval i) w (remove_db env ex i w)"
    using r(1) by (simp add: effect_of_def)
  then show ?thesis
    using ex by (auto simp: command_ok_def)
qed (rule ok_same)

lemma nodeRemove_ok: "command_ok ''node-remove'' env (execute_given execute_flag args) w (nodeRemove env args w)"
  unfolding nodeRemove_def by (rule ok_node_command) (rule remove_db_ok)

lemma title_db_ok: "command_ok cmd env ex w (title_db env ex i t w)"
  by (simp add: title_db_def ok_same ok_update dry_run_same split: sum.split)

lemma nodeTitle_ok: "command_ok cmd env (execute_given execute_flag args) w (nodeTitle env args w)"
proof (cases "flag_parse execute_flag [] args")
  case (Inr x)
  then show ?thesis
    using title_db_ok [of cmd env "execute_given execute_flag args" w]
    by (cases x) (simp add: nodeTitle_def Let_def execute_given_def withDB_def ok_same)
qed (simp add: nodeTitle_def ok_same)

lemma retry_db_ok: "command_ok ''queue-retry'' env ex w (retry_db env ex q i w)"
proof (cases "fst (retry_db env ex q i w) = w")
  case False
  let ?h = "retry_item q i (ae_unix env) (ad_hub w)"
  obtain out h1 e where ex: "ex" and r: "retry_db env ex q i w = (set_hub h1 w, out, e)"
      "auditAction env 5 ''queue-retry'' (q @ '':'' @ i) ''status=pending'' ?h = (h1, e)"
    using False by (auto simp: retry_db_def Let_def split: if_splits prod.splits option.splits)
  have "effect_of env (Retry q i (ae_unix env)) w (retry_db env ex q i w)"
    unfolding r(1) using r(2) auditAction_None auditAction_Some by (cases e) (auto simp: effect_of_def)
  then show ?thesis
    using ex by (auto simp: command_ok_def)
qed (rule ok_same)

lemma queueRetry_ok: "command_ok ''queue-retry'' env (execute_given execute_flag args) w (queueRetry env args w)"
proof (cases "flag_parse execute_flag [] args")
  case (Inr x)
  then show ?thesis
    using retry_db_ok [of env "execute_given execute_flag args" w]
    by (cases x) (simp add: queueRetry_def execute_given_def withDB_def ok_same)
qed (simp add: queueRetry_def ok_same)

lemma queues_same: "fst (queues env args w) = w"
  by (auto simp: queues_def withDB_def split: sum.split prod.split option.split)

lemma listNodes_same: "fst (withDB env (listNodes env) w) = w"
  by (auto simp: listNodes_def withDB_def split: sum.split)

lemma token_ok: "command_ok cmd env (execute_given file_flags args) w (tokenIssue env args w)"
  "command_ok cmd env (execute_given file_flags args) w (tokenRevoke env args w)"
proof -
  have "ad_hub (fst (tokenIssue env args w)) = ad_hub w" "ad_hub (fst (tokenRevoke env args w)) = ad_hub w"
    "\<not> execute_given file_flags args \<Longrightarrow> fst (tokenIssue env args w) = w"
    "\<not> execute_given file_flags args \<Longrightarrow> fst (tokenRevoke env args w) = w"
    by (auto simp: tokenIssue_def tokenRevoke_def execute_given_def Let_def split: sum.splits prod.splits)
  then show "command_ok cmd env (execute_given file_flags args) w (tokenIssue env args w)"
    "command_ok cmd env (execute_given file_flags args) w (tokenRevoke env args w)"
    by (auto simp: command_ok_def effect_of_def intro!: exI [of _ NoEffect] split: prod.split)
qed

section \<open>Backups\<close>

text \<open>Quoting is undone by the SQL reader, whatever the path contains.\<close>

lemma sql_literal_quote: "sql_literal (sqlQuote s @ [CHR 0x27]) = Some (s, [])"
  by (induction s) (simp_all add: sqlQuote_def)

lemma vacuum_quoted:
  "vacuum_into (''VACUUM INTO '' @ [CHR 0x27] @ sqlQuote out @ [CHR 0x27]) w
   = (if ad_files w out \<noteq> None \<and> ad_files w out \<noteq> Some (FText []) then None
      else Some (w\<lparr>ad_files := (ad_files w)(out \<mapsto> FDatabase (ad_hub w))\<rparr>))"
  using sql_literal_quote [of out] by (simp add: vacuum_into_def has_prefix_def)

lemma backup_ok: "\<exists>x. effect_of env x w (backup env args w) \<and> may_do cmd x"
proof -
  have "effect_of env NoEffect w (backup_db env out w)" for out
    using auditAction_cases [of env 2 "''backup''" out "''vacuum-into''" "ad_hub w"]
    by (auto simp: backup_db_def vacuum_quoted [simplified] effect_of_def audited_upd)
  then have "effect_of env NoEffect w (backup env args w)"
    by (auto simp: backup_def withDB_def Let_def effect_same)
  then show ?thesis by (intro exI [of _ NoEffect]) simp
qed

text \<open>C39: a successful backup is an exact copy of the database as it was, in a file that did not exist,
  at the path given, whatever characters that path has; no other file changes and the database
  gains only the audit entry.\<close>

theorem backup_exact:
  assumes "backup env [out] w = (w1, lines, None)" and "\<not> ae_fs env ''stat''"
  shows "ad_files w out = None \<and> ad_files w1 = (ad_files w)(out \<mapsto> FDatabase (ad_hub w))
    \<and> ad_hub w1 = ad_hub w\<lparr>h_audit := h_audit (ad_hub w) @ [audit_entry env ''backup'' out ''vacuum-into'']\<rparr>"
proof -
  have none: "ad_files w out = None" and b: "backup_db env out w = (w1, lines, None)"
    using assms by (auto simp: backup_def withDB_def Let_def split: if_splits)
  show ?thesis
    using none b by (auto simp: backup_db_def vacuum_quoted [simplified] auditAction_def split: if_splits)
qed

section \<open>All commands\<close>

lemma admin_ok:
  assumes "cmd \<noteq> ''backup''"
  shows "command_ok cmd env (wants_execute cmd args) w (admin_main env cmd args w)"
  using assms nodeStatus_ok rotateKey_ok nodeRemove_ok nodeTitle_ok queueRetry_ok token_ok
  by (simp add: admin_main_def wants_execute_def ok_same listNodes_same queues_same)

lemma admin_effect: "\<exists>x. effect_of env x w (admin_main env cmd args w) \<and> may_do cmd x"
proof (cases "cmd = ''backup''")
  case True
  then show ?thesis using backup_ok [of env w args cmd] by (simp add: admin_main_def)
next
  case False
  then show ?thesis using admin_ok [OF False, of env args w] by (auto simp: command_ok_def)
qed

lemma effect_audit: "h_audit (apply_effect x h) = h_audit h"
  by (cases x) (simp_all add: delete_node_def retry_item_def)

text \<open>C38: changes by the operator are deliberate and on record. Without \<open>--execute\<close> a command other
  than \<open>backup\<close> changes neither the database nor a file; and a command that succeeds and changed
  the database has added exactly one audit entry, with the operator's name and the time.\<close>

theorem admin_changes_recorded:
  "(cmd \<noteq> ''backup'' \<and> \<not> wants_execute cmd args \<longrightarrow> fst (admin_main env cmd args w) = w)
   \<and> (\<forall>w1 out. admin_main env cmd args w = (w1, out, None) \<and> ad_hub w1 \<noteq> ad_hub w \<longrightarrow>
        (\<exists>row. h_audit (ad_hub w1) = h_audit (ad_hub w) @ [row] \<and> a_operator row = operatorName env \<and> a_created_at row = ae_unix env))"
proof (intro conjI impI allI)
  show "fst (admin_main env cmd args w) = w" if "cmd \<noteq> ''backup'' \<and> \<not> wants_execute cmd args"
    using admin_ok [of cmd env args w] that by (simp add: command_ok_def)
next
  fix w1 out
  assume "admin_main env cmd args w = (w1, out, None) \<and> ad_hub w1 \<noteq> ad_hub w"
  then obtain x where "audited env (apply_effect x (ad_hub w)) (ad_hub w1)"
    using admin_effect [of env w cmd args] by (auto simp: effect_of_def)
  then show "\<exists>row. h_audit (ad_hub w1) = h_audit (ad_hub w) @ [row] \<and> a_operator row = operatorName env \<and> a_created_at row = ae_unix env"
    by (auto simp: audited_def effect_audit audit_entry_def)
qed

text \<open>Every effect but a retry keeps the invariant of the hub.\<close>

lemma hub_inv_audit [simp]: "hub_inv (h\<lparr>h_audit := a\<rparr>) = hub_inv h"
  by (simp add: hub_inv_defs)

lemma delete_node_inv:
  assumes "hub_inv h"
  shows "hub_inv (delete_node i h)"
proof -
  have "feed_wf (delete_node i h)"
    using assms
    by (auto simp: hub_inv_defs feed_wf_def delete_node_def del_where_def sorted_wrt_map sorted_wrt_filter distinct_map_filter)
  moreover have "travel_ok (delete_node i h)"
    using assms by (fastforce simp: hub_inv_def travel_ok_def delete_node_def table_simps loc_of_travel_def)
  ultimately show ?thesis
    using assms by (auto simp: hub_inv_defs delete_node_def table_simps intro!: table_intros)
qed

lemma effect_inv:
  assumes "hub_inv h" and "effect_ok x h" and "\<And>q i t. x \<noteq> Retry q i t"
  shows "hub_inv (apply_effect x h)"
proof (cases x)
  case (NodeUpdate i f)
  then show ?thesis using assms(1,2) by (simp add: hub_inv_defs map_upd_where)
qed (use assms in \<open>simp_all add: delete_node_inv\<close>)

text \<open>C37: no operator command but \<open>queue-retry\<close> damages the hub: it keeps the invariant of the
  database, the agreement of journeys and locations included.\<close>

theorem admin_keeps_inv:
  assumes "hub_inv (ad_hub w)" and "cmd \<noteq> ''queue-retry''"
  shows "hub_inv (ad_hub (fst (admin_main env cmd args w)))"
proof -
  obtain x where x: "effect_of env x w (admin_main env cmd args w)" "may_do cmd x"
    using admin_effect by blast
  then have "\<And>q i t. x \<noteq> Retry q i t"
    using assms(2) by auto
  then have "hub_inv (apply_effect x (ad_hub w))"
    using effect_inv [OF assms(1)] x(1) by (simp add: effect_of_def)
  then show ?thesis
    using x(1) assms(1) by (auto simp: effect_of_def audited_def split: prod.splits)
qed

section \<open>Settled requests\<close>

text \<open>The hub under requests and operator commands in any order, each with its own environment and faults.\<close>

datatype hub_op = Request Server henv http_req | Command aenv string "string list"

fun operate :: "hub_op \<Rightarrow> adm \<Rightarrow> adm" where
  "operate (Request s env r) w = set_hub (fst (Handler s env r (ad_hub w))) w"
| "operate (Command env cmd args) w = fst (admin_main env cmd args w)"

definition commands :: "hub_op list \<Rightarrow> string set" where
  "commands ops = {cmd. \<exists>env args. Command env cmd args \<in> set ops}"

text \<open>A status that nothing but the commands \<open>cs\<close> could change: blocked requests are open to a retry.\<close>

definition settled :: "string set \<Rightarrow> string \<Rightarrow> bool" where
  "settled cs st \<longleftrightarrow> st \<noteq> ''pending'' \<and> (''queue-retry'' \<in> cs \<longrightarrow> st \<noteq> ''blocked'')"

definition queues_keep :: "(string \<Rightarrow> bool) \<Rightarrow> hub \<Rightarrow> hub \<Rightarrow> bool" where
  "queues_keep K h g \<longleftrightarrow> (\<forall>q \<in> set (h_pvp h). K (q_Status q) \<longrightarrow> q \<in> set (h_pvp g))
     \<and> (\<forall>t \<in> set (h_travel h). K (t_Status t) \<longrightarrow> t \<in> set (h_travel g))"

lemma command_queues:
  assumes "cmd \<noteq> ''node-remove''" and "cmd = ''queue-retry'' \<Longrightarrow> \<not> K ''blocked''"
  shows "queues_keep K (ad_hub w) (ad_hub (fst (admin_main env cmd args w)))"
proof -
  obtain x where x: "effect_of env x w (admin_main env cmd args w)" "may_do cmd x"
    using admin_effect by blast
  have "queues_keep K (ad_hub w) (apply_effect x (ad_hub w))"
    using x(2) assms by (cases x) (auto simp: queues_keep_def retry_item_def table_simps)
  then show ?thesis
    using x(1) by (auto simp: effect_of_def audited_def queues_keep_def split: prod.splits)
qed

lemma operate_queues:
  assumes "\<not> K ''pending''" and "\<And>env cmd args. x = Command env cmd args \<Longrightarrow> cmd \<noteq> ''node-remove''"
    and "\<And>env args. x = Command env ''queue-retry'' args \<Longrightarrow> \<not> K ''blocked''"
  shows "queues_keep K (ad_hub w) (ad_hub (operate x w))"
proof (cases x)
  case (Request s env r)
  have "settled_kept (ad_hub w) (fst (Handler s env r (ad_hub w)))"
    by (rule Handler_settled)
  then show ?thesis
    using Request assms(1) by (auto simp: settled_kept_def queues_keep_def)
next
  case (Command env cmd args)
  then show ?thesis
    using command_queues [of cmd K w env args] assms(2,3) by simp
qed

lemma operates_queues:
  assumes "\<not> K ''pending''" and "''node-remove'' \<notin> commands ops" and "''queue-retry'' \<in> commands ops \<Longrightarrow> \<not> K ''blocked''"
  shows "queues_keep K (ad_hub w) (ad_hub (fold operate ops w))"
  using assms(2,3)
proof (induction ops arbitrary: w)
  case Nil
  then show ?case by (simp add: queues_keep_def)
next
  case (Cons x ops)
  have "queues_keep K (ad_hub w) (ad_hub (operate x w))"
    using assms(1) Cons.prems by (intro operate_queues) (auto simp: commands_def)
  moreover have "queues_keep K (ad_hub (operate x w)) (ad_hub (fold operate ops (operate x w)))"
    using Cons.prems by (intro Cons.IH) (auto simp: commands_def)
  ultimately show ?case
    by (auto simp: queues_keep_def)
qed

text \<open>C12: a settled request is final. Through any sequence of API requests and operator commands that
  removes no node, a PvP request that was resolved and a journey that ended stay in the queue exactly as
  they are; so does one that was blocked, unless the sequence has a \<open>queue-retry\<close>, which is there to
  reopen it.\<close>

theorem settled_requests_final:
  assumes "''node-remove'' \<notin> commands ops"
  shows "(\<forall>q \<in> set (h_pvp (ad_hub w)). settled (commands ops) (q_Status q) \<longrightarrow> q \<in> set (h_pvp (ad_hub (fold operate ops w))))
    \<and> (\<forall>t \<in> set (h_travel (ad_hub w)). settled (commands ops) (t_Status t)
         \<longrightarrow> t \<in> set (h_travel (ad_hub (fold operate ops w))))"
  using operates_queues [of "settled (commands ops)" ops w] assms by (simp add: settled_def queues_keep_def)

section \<open>Keys\<close>

lemma update_node_None:
  assumes "update_node env k i f c d out w = (w1, lines, None)"
  shows "lines = out" "h_nodes (ad_hub w1) = upd_where (\<lambda>r. n_NodeID r = i) f (h_nodes (ad_hub w))"
    "distinct (map n_api_key_hash (h_nodes (ad_hub w1)))" "\<exists>r \<in> set (h_nodes (ad_hub w)). n_NodeID r = i"
proof -
  let ?rows = "upd_where (\<lambda>r. n_NodeID r = i) f (h_nodes (ad_hub w))"
  obtain h1 where h1: "auditAction env (Suc k) c i d ((ad_hub w)\<lparr>h_nodes := ?rows\<rparr>) = (h1, None)" "w1 = set_hub h1 w" "lines = out"
      and ok: "distinct (map n_api_key_hash ?rows)" "\<exists>r \<in> set (h_nodes (ad_hub w)). n_NodeID r = i"
    using assms by (auto simp: update_node_def Let_def table_simps split: if_splits prod.splits option.splits)
  show "lines = out" by (rule h1(3))
  show rows: "h_nodes (ad_hub w1) = ?rows"
    using auditAction_None [OF h1(1)] h1(2) by (auto simp: audited_def)
  show "distinct (map n_api_key_hash (h_nodes (ad_hub w1)))" "\<exists>r \<in> set (h_nodes (ad_hub w)). n_NodeID r = i"
    using ok rows by simp_all
qed

lemma NodeByAPIKeyHash_row:
  assumes "distinct (map n_api_key_hash (h_nodes h))"
  shows "r \<in> set (h_nodes h) \<Longrightarrow> NodeByAPIKeyHash no_io (n_api_key_hash r) h = Inr (scan_node r)"
    and "\<forall>r \<in> set (h_nodes h). n_api_key_hash r \<noteq> k \<Longrightarrow> NodeByAPIKeyHash no_io k h = Inl ErrNotFound"
  using find_key_Some [OF assms] by (auto simp: NodeByAPIKeyHash_def find_None_iff split: option.split)

lemma node_command_None:
  assumes "node_command env args body w = (w1, out, None)"
  obtains i where "body (execute_given execute_flag args) i w = (w1, out, None)"
  using node_command_cases [of env args body w] assms by (metis option.distinct(1) prod.inject)

lemma rotateKey_update:
  assumes "rotateKey env args w = (w1, lines, None)" and "execute_given execute_flag args"
  obtains i where "update_node env 1 i (\<lambda>r. r\<lparr>n_api_key_hash := hex_encode (ae_sha256 env (lines ! 1))\<rparr>) ''rotate-key''
      ''api-key-hash-rotated'' lines w = (w1, lines, None)" "lines ! 0 = ''new API key for '' @ i @ '':''"
proof -
  obtain i where "rotate_db env True i w = (w1, lines, None)"
    by (rule node_command_None [OF assms(1) [unfolded rotateKey_def]]) (simp add: assms(2))
  then obtain key hash where ns: "newSecret env = Inr (key, hash)" and
      u: "update_node env 1 i (\<lambda>r. r\<lparr>n_api_key_hash := hash\<rparr>) ''rotate-key'' ''api-key-hash-rotated''
      [''new API key for '' @ i @ '':'', key, ''store this in the node database/configuration before restarting the node''] w = (w1, lines, None)"
    by (auto simp: rotate_db_def split: sum.splits)
  moreover have "hash = hex_encode (ae_sha256 env key)"
    using ns by (auto simp: newSecret_def Let_def split: option.splits)
  ultimately show ?thesis
    using that [of i] update_node_None(1) [OF u] by simp
qed

text \<open>Rotating a key replaces it. After a rotation that succeeded, the key printed identifies the
  node it was printed for, the node's old key (unless its hash is the new one) identifies nobody,
  and every other node's key works as before.\<close>

theorem rotate_key_replaces:
  assumes "hub_inv (ad_hub w)" and "rotateKey env args w = (w1, lines, None)" and "execute_given execute_flag args"
  defines "hash \<equiv> hex_encode (ae_sha256 env (lines ! 1))"
  shows "\<exists>r \<in> set (h_nodes (ad_hub w)). lines ! 0 = ''new API key for '' @ n_NodeID r @ '':''
    \<and> NodeByAPIKeyHash no_io hash (ad_hub w1) = Inr (scan_node r)
    \<and> (n_api_key_hash r \<noteq> hash \<longrightarrow> NodeByAPIKeyHash no_io (n_api_key_hash r) (ad_hub w1) = Inl ErrNotFound)
    \<and> (\<forall>q \<in> set (h_nodes (ad_hub w)). q \<noteq> r \<longrightarrow> NodeByAPIKeyHash no_io (n_api_key_hash q) (ad_hub w1) = Inr (scan_node q))"
proof -
  let ?f = "\<lambda>r. r\<lparr>n_api_key_hash := hash\<rparr>"
  obtain i where u: "update_node env 1 i ?f ''rotate-key'' ''api-key-hash-rotated'' lines w = (w1, lines, None)"
      "lines ! 0 = ''new API key for '' @ i @ '':''"
    by (rule rotateKey_update [OF assms(2,3), folded hash_def])
  note n = update_node_None [OF u(1)]
  obtain r where r: "r \<in> set (h_nodes (ad_hub w))" "n_NodeID r = i"
    using n(4) by blast
  have uniq: "q = r" if "q \<in> set (h_nodes (ad_hub w))" "n_NodeID q = i" for q
    using assms(1) that r distinct_key_unique [of n_NodeID "h_nodes (ad_hub w)"] by (simp add: hub_inv_defs)
  have key: "q = r" if "q \<in> set (h_nodes (ad_hub w))" "n_api_key_hash q = n_api_key_hash r" for q
    using assms(1) that r distinct_key_unique [of n_api_key_hash "h_nodes (ad_hub w)"] by (simp add: hub_inv_defs)
  have rows: "set (h_nodes (ad_hub w1)) = insert (?f r) (set (h_nodes (ad_hub w)) - {r})"
  proof -
    have "{x \<in> set (h_nodes (ad_hub w)). n_NodeID x \<noteq> i} = set (h_nodes (ad_hub w)) - {r}"
      using r uniq by blast
    moreover have "{x. \<exists>y \<in> set (h_nodes (ad_hub w)). n_NodeID y = i \<and> x = ?f y} = {?f r}"
      using r uniq by blast
    ultimately show ?thesis
      unfolding n(2) set_upd_where by blast
  qed
  have "NodeByAPIKeyHash no_io hash (ad_hub w1) = Inr (scan_node r)"
    using NodeByAPIKeyHash_row(1) [OF n(3), of "?f r"] rows by (simp add: scan_node_def)
  moreover have "NodeByAPIKeyHash no_io (n_api_key_hash r) (ad_hub w1) = Inl ErrNotFound" if "n_api_key_hash r \<noteq> hash"
    using that key rows by (intro NodeByAPIKeyHash_row(2) [OF n(3)]) auto
  moreover have "NodeByAPIKeyHash no_io (n_api_key_hash q) (ad_hub w1) = Inr (scan_node q)"
    if "q \<in> set (h_nodes (ad_hub w))" "q \<noteq> r" for q
    using that rows by (intro NodeByAPIKeyHash_row(1) [OF n(3)]) simp
  ultimately show ?thesis
    using r u(2) by blast
qed

section \<open>Retrying\<close>

text \<open>Retrying a blocked journey ignores what happened since. When the player has meanwhile left
  again, the retry succeeds and the player has two pending journeys at once, which the hub's own
  endpoints never allow.\<close>

theorem retry_second_journey:
  assumes "t \<in> set (h_travel (ad_hub w))" "t_Status t = ''blocked''"
    and "u \<in> set (h_travel (ad_hub w))" "t_Status u = ''pending''" "t_GlobalID u = t_GlobalID t"
    and "distinct (map t_TravelID (h_travel (ad_hub w)))"
    and "ae_io env = no_io" "ad_cols w ''travel'' ''error''" "ad_cols w ''travel'' ''updated_at''"
  defines "res \<equiv> admin_main env ''queue-retry'' [''--execute'', ''travel'', t_TravelID t] w"
  shows "snd (snd res) = None \<and> \<not> travel_ok (ad_hub (fst res))
    \<and> (\<exists>t' \<in> set (h_travel (ad_hub (fst res))). t_TravelID t' = t_TravelID t \<and> t_Status t' = ''pending''
         \<and> t_GlobalID t' = t_GlobalID u \<and> t_TravelID t' \<noteq> t_TravelID u)
    \<and> u \<in> set (h_travel (ad_hub (fst res)))"
proof -
  let ?t = "t\<lparr>t_Status := ''pending'', t_Error := [], t_UpdatedAt := ae_unix env\<rparr>"
  have find: "find (\<lambda>x. t_TravelID x = t_TravelID t) (h_travel (ad_hub w)) = Some t"
    by (rule find_key_Some [OF assms(6,1)])
  have rows: "retry_rows ''travel'' (t_TravelID t) (ad_hub w) \<noteq> 0"
    using assms(1,2) by (auto simp: retry_rows_def table_simps)
  have fl: "flag_parse execute_flag [] [''--execute'', ''travel'', t_TravelID t] = Inr ([(''execute'', ''true'')], [''travel'', t_TravelID t])"
    by (simp add: execute_flag_def)
  have "res = retry_db env True ''travel'' (t_TravelID t) w"
    unfolding res_def admin_main_def queueRetry_def fl
    by (simp add: withDB_def assms(7) executes_def flag_get_def)
  also have "\<dots> = (set_hub ((retry_item ''travel'' (t_TravelID t) (ae_unix env) (ad_hub w))\<lparr>h_audit := h_audit (ad_hub w)
      @ [audit_entry env ''queue-retry'' (''travel:'' @ t_TravelID t) ''status=pending'']\<rparr>) w,
      [''travel queue item '' @ go_quote (t_TravelID t) @ '' reset to pending''], None)"
    using find rows assms(2,7-9) by (simp add: retry_db_def Let_def queue_item_def auditAction_def) (simp add: retry_item_def)
  finally have res: "snd (snd res) = None" "h_travel (ad_hub (fst res)) = upd_where
      (\<lambda>x. t_TravelID x = t_TravelID t \<and> t_Status x = ''blocked'')
      (\<lambda>x. x\<lparr>t_Status := ''pending'', t_Error := [], t_UpdatedAt := ae_unix env\<rparr>) (h_travel (ad_hub w))"
    by (simp_all add: retry_item_def)
  have in1: "?t \<in> set (h_travel (ad_hub (fst res)))" and in2: "u \<in> set (h_travel (ad_hub (fst res)))"
    using assms(1-4) by (auto simp: res(2) table_simps)
  have "t_TravelID u \<noteq> t_TravelID t"
    using distinct_key_unique [OF assms(6) assms(1,3)] assms(2,4) by auto
  moreover from this have "?t \<noteq> u"
    by auto
  then have "\<not> travel_ok (ad_hub (fst res))"
    using in1 in2 assms(4,5) unfolding travel_ok_def by force
  ultimately show ?thesis
    using res(1) in1 in2 assms(5) by (intro conjI bexI [OF _ in1]) simp_all
qed

end
