(* ===== verification/Hub_Index.thy ===== *)
theory Hub_Index
  imports Hub_Safety
begin

text \<open>
  The two indexes the hub keeps beside the feed, the roster and the debts, what an update of
  each does, and the runs of the hub as a transition system.
\<close>

section \<open>Roster\<close>

lemma roster_insert_Some:
  "roster_insert io k now i es rs = Some rs' \<Longrightarrow> rs' = rs @ map (\<lambda>e. (e\<lparr>ro_NodeID := i\<rparr>, now)) es"
proof (induction es arbitrary: k rs)
  case (Cons a es)
  then have "roster_insert io (Suc k) now i es (rs @ [(a\<lparr>ro_NodeID := i\<rparr>, now)]) = Some rs'"
    by (simp split: if_splits)
  then show ?case using Cons.IH by fastforce
qed simp

lemma roster_insert_conflict:
  assumes "e \<in> set es" and "ro_GlobalID e \<in> (ro_GlobalID \<circ> fst) ` set rs"
  shows "roster_insert io k now i es rs = None"
  using assms
proof (induction es arbitrary: k rs)
  case (Cons a es)
  have "roster_insert io (Suc k) now i es (rs @ [(a\<lparr>ro_NodeID := i\<rparr>, now)]) = None" if "e \<in> set es"
    using that Cons.prems(2) by (intro Cons.IH) auto
  then show ?case using Cons.prems by auto
qed simp

definition dec_roster :: "json \<Rightarrow> RosterEntry list \<times> bool" where
  "dec_roster j = fld (unm_list dec_RosterEntry) ''entries'' j []"

lemma handleRosterPush_eq:
  "r_body r = Some j \<Longrightarrow> dec_roster j = (es, True) \<Longrightarrow>
   handleRosterPush env n r h =
     (case UpsertRoster (v_io env ''UpsertRoster'') (unix_now env) (n_NodeID n)
             (map (\<lambda>e. e\<lparr>ro_NodeID := n_NodeID n\<rparr>) es) h of
        (h1, Some _) \<Rightarrow> (h1, writeErr 500 ''roster update failed'')
      | (h1, None) \<Rightarrow> (h1, writeJSON 200 (JObj [(''updated'', JInt (int (length es)))])))"
  by (simp add: handleRosterPush_def dec_roster_def)

lemma handleRosterPush_body:
  assumes "p_code (snd (handleRosterPush env n r h)) = 200"
  obtains j es where "r_body r = Some j" "dec_roster j = (es, True)"
  using assms by (auto simp: handleRosterPush_def dec_roster_def split: option.splits prod.splits if_splits)

lemma del_roster: "del_where (\<lambda>(r, _). ro_NodeID r = i) rs = filter (\<lambda>p. ro_NodeID (fst p) \<noteq> i) rs"
  by (auto simp: del_where_def intro!: filter_cong)

lemma UpsertRoster_ok:
  assumes "UpsertRoster io now i es h = (h1, None)"
  shows "h_roster h1 = filter (\<lambda>p. ro_NodeID (fst p) \<noteq> i) (h_roster h) @ map (\<lambda>e. (e\<lparr>ro_NodeID := i\<rparr>, now)) es"
proof -
  obtain rs where "roster_insert io 2 now i es (del_where (\<lambda>(r, _). ro_NodeID r = i) (h_roster h)) = Some rs"
      "h1 = h\<lparr>h_roster := rs\<rparr>"
    using assms by (auto simp: UpsertRoster_def split: if_splits option.splits)
  then show ?thesis
    by (auto simp: del_roster dest: roster_insert_Some)
qed

text \<open>A node publishes its own roster only. An accepted push replaces the rows of the calling
  node by the entries it sent, in order and under its own node id, and leaves the rows of every other
  node as they are.\<close>

theorem roster_push_replaces_own:
  assumes "Route r = RRosterPush" and "p_code (snd (Handler s env r h)) = 200"
  defines "h1 \<equiv> fst (Handler s env r h)"
  shows "\<exists>n j es. caller env r h = Some n \<and> r_body r = Some j \<and> dec_roster j = (es, True)
    \<and> map fst (filter (\<lambda>p. ro_NodeID (fst p) = n_NodeID n) (h_roster h1)) = map (\<lambda>e. e\<lparr>ro_NodeID := n_NodeID n\<rparr>) es
    \<and> filter (\<lambda>p. ro_NodeID (fst p) \<noteq> n_NodeID n) (h_roster h1)
      = filter (\<lambda>p. ro_NodeID (fst p) \<noteq> n_NodeID n) (h_roster h)"
proof -
  have HA: "Handler s env r h = auth env (handleRosterPush env) r h"
    using assms(1) by (simp add: Handler_def serve_def)
  obtain n where n: "caller env r h = Some n" and H: "Handler s env r h = handleRosterPush env n r h"
    using assms(2) unfolding HA by (rule Handler_auth_200)
  obtain j es where j: "r_body r = Some j" "dec_roster j = (es, True)"
    using assms(2) unfolding H by (rule handleRosterPush_body)
  let ?es = "map (\<lambda>e. e\<lparr>ro_NodeID := n_NodeID n\<rparr>) es"
  have up: "UpsertRoster (v_io env ''UpsertRoster'') (unix_now env) (n_NodeID n) ?es h = (h1, None)"
    using assms(2) unfolding h1_def H handleRosterPush_eq [OF j]
    by (auto split: prod.splits option.splits)
  have "map fst (filter (\<lambda>p. ro_NodeID (fst p) = n_NodeID n) (h_roster h1)) = ?es"
    "filter (\<lambda>p. ro_NodeID (fst p) \<noteq> n_NodeID n) (h_roster h1) = filter (\<lambda>p. ro_NodeID (fst p) \<noteq> n_NodeID n) (h_roster h)"
    by (simp_all add: UpsertRoster_ok [OF up] filter_map comp_def)
  then show ?thesis using n j by blast
qed

text \<open>A player id is taken by the first node that lists it. While another node's roster row
  has the id, every roster push that contains it is answered with 500 and stores nothing, so none of
  the caller's players are published.\<close>

theorem roster_id_taken:
  assumes "Route r = RRosterPush" "caller env r h = Some n" "r_body r = Some j" "dec_roster j = (es, True)"
    and "(x, u) \<in> set (h_roster h)" "ro_NodeID x \<noteq> n_NodeID n" "e \<in> set es" "ro_GlobalID e = ro_GlobalID x"
  shows "Handler s env r h = (h, writeErr 500 ''roster update failed'')"
proof -
  let ?es = "map (\<lambda>e. e\<lparr>ro_NodeID := n_NodeID n\<rparr>) es"
  let ?rs = "del_where (\<lambda>(r, _). ro_NodeID r = n_NodeID n) (h_roster h)"
  have "(x, u) \<in> set ?rs"
    using assms(5,6) by (simp add: table_simps)
  then have "ro_GlobalID (e\<lparr>ro_NodeID := n_NodeID n\<rparr>) \<in> (ro_GlobalID \<circ> fst) ` set ?rs"
    using assms(8) by force
  then have "roster_insert io k now (n_NodeID n) ?es ?rs = None" for io k now
    using assms(7) by (intro roster_insert_conflict [of "e\<lparr>ro_NodeID := n_NodeID n\<rparr>"]) auto
  then show ?thesis
    using assms(1,2) by (simp add: Handler_def serve_def auth_caller(1) handleRosterPush_eq [OF assms(3,4)] UpsertRoster_def)
qed

section \<open>Debts\<close>

text \<open>The index as a map from obligation ids, and what an event does to it.\<close>

definition debt_map :: "HubDebt list \<Rightarrow> string \<rightharpoonup> HubDebt" where
  "debt_map ds oid = find (\<lambda>d. d_ObligationID d = oid) ds"

definition debt_event :: "WireEvent \<Rightarrow> (string \<rightharpoonup> HubDebt) \<Rightarrow> string \<rightharpoonup> HubDebt" where
  "debt_event e m =
     (case e_Payload e of
        None \<Rightarrow> m
      | Some j \<Rightarrow>
          if e_Type e = ''debt.created'' \<and> snd (dec_debt_created j) then
            (case fst (dec_debt_created j) of (oid, cr, db, kd, tm, w) \<Rightarrow>
               if m oid = None then m(oid \<mapsto> \<lparr>d_ObligationID = oid, d_SourceNode = e_SourceNode e, d_CreditorRef = cr,
                 d_DebtorRef = db, d_Kind = kd, d_Terms = tm, d_Weight = w, d_Status = ''open'', d_UpdatedAt = e_TS e\<rparr>)
               else m)
          else if e_Type e = ''debt.resolved'' \<and> snd (dec_debt_resolved j) then
            m(fst (dec_debt_resolved j) := map_option (\<lambda>d. d\<lparr>d_Status := ''resolved'', d_UpdatedAt := e_TS e\<rparr>)
              (m (fst (dec_debt_resolved j))))
          else if e_Type e = ''debt.adjusted'' \<and> snd (dec_debt_adjusted j) then
            (case fst (dec_debt_adjusted j) of (oid, w) \<Rightarrow>
               m(oid := map_option (\<lambda>d. if d_Status d = ''open'' then d\<lparr>d_Weight := w, d_UpdatedAt := e_TS e\<rparr> else d) (m oid)))
          else m)"

lemma find_upd_key:
  assumes "\<And>d. P d \<Longrightarrow> key d = k" and "\<And>d. P d \<Longrightarrow> key (f d) = key d"
  shows "find (\<lambda>d. key d = x) (upd_where P f ds)
    = (if x = k then map_option (\<lambda>d. if P d then f d else d) (find (\<lambda>d. key d = x) ds) else find (\<lambda>d. key d = x) ds)"
  using assms by (induction ds) (auto simp: upd_where_def)

lemma debt_map_insert:
  "debt_map (insert_ignore d_ObligationID d ds)
   = (if debt_map ds (d_ObligationID d) = None then (debt_map ds)(d_ObligationID d \<mapsto> d) else debt_map ds)"
proof -
  have "d_ObligationID d \<in> d_ObligationID ` set ds \<longleftrightarrow> debt_map ds (d_ObligationID d) \<noteq> None"
    unfolding debt_map_def find_None_iff by (metis (full_types) image_iff)
  then show ?thesis
    by (auto simp: insert_ignore_def debt_map_def find_append fun_eq_iff split: option.split)
qed

lemma materialize_refines_lemma:
  "debt_map (materialize1 fault e ds) = (if fault then debt_map ds else debt_event e (debt_map ds))"
proof -
  have res: "debt_map (upd_where (\<lambda>d. d_ObligationID d = oid) f ds)
      = (debt_map ds)(oid := map_option f (debt_map ds oid))"
    if "\<And>d. d_ObligationID (f d) = d_ObligationID d" for oid f
    using find_upd_key [of "\<lambda>d. d_ObligationID d = oid" d_ObligationID oid f _ ds] that
    by (auto simp: fun_eq_iff debt_map_def find_Some_iff intro!: option.map_cong)
  have adj: "debt_map (upd_where (\<lambda>d. d_ObligationID d = oid \<and> d_Status d = ''open'') f ds)
      = (debt_map ds)(oid := map_option (\<lambda>d. if d_Status d = ''open'' then f d else d) (debt_map ds oid))"
    if "\<And>d. d_ObligationID (f d) = d_ObligationID d" for oid f
    using find_upd_key [of "\<lambda>d. d_ObligationID d = oid \<and> d_Status d = ''open''" d_ObligationID oid f _ ds] that
    by (auto simp: fun_eq_iff debt_map_def find_Some_iff intro!: option.map_cong)
  show ?thesis
    by (cases "e_Payload e")
      (auto simp: materialize1_def debt_event_def debt_map_insert res adj case_prod_beta)
qed

fun debt_events :: "WireEvent list \<Rightarrow> (string \<rightharpoonup> HubDebt) \<Rightarrow> string \<rightharpoonup> HubDebt" where
  "debt_events [] m = m"
| "debt_events (e # es) m = debt_events es (debt_event e m)"

text \<open>C13: the debt table implements that map. A faultless materialisation of a batch has the effect
  of its events, one after the other, on the map of obligations; and the debts listed for a debtor are
  exactly the map's values with that debtor.\<close>

theorem debt_index_refines:
  assumes "hub_inv h"
  shows "debt_map (h_debts (MaterializeEvents no_io es h)) = debt_events es (debt_map (h_debts h))
    \<and> (\<exists>ds. DebtsForDebtor no_io debtor h = Inr ds
         \<and> set ds = {d. d_DebtorRef d = debtor \<and> debt_map (h_debts h) (d_ObligationID d) = Some d})"
proof -
  have "debt_map (materialize no_io k es ds) = debt_events es (debt_map ds)" for k ds
    by (induction es arbitrary: k ds) (simp_all add: materialize_refines_lemma)
  moreover have "d \<in> set (h_debts h) \<longleftrightarrow> debt_map (h_debts h) (d_ObligationID d) = Some d" for d
    using assms find_key_Some [of d_ObligationID "h_debts h" d]
    by (auto simp: hub_inv_defs debt_map_def dest: find_Some_D)
  ultimately show ?thesis
    by (auto simp: MaterializeEvents_def DebtsForDebtor_def)
qed

text \<open>What an index entry may become: the parties and terms stay, a resolved debt stays resolved
  with its weight, and an open one changes its weight or is resolved.\<close>

definition debt_later :: "HubDebt \<Rightarrow> HubDebt \<Rightarrow> bool" where
  "debt_later d d' \<longleftrightarrow>
     d_ObligationID d' = d_ObligationID d \<and> d_SourceNode d' = d_SourceNode d \<and> d_CreditorRef d' = d_CreditorRef d
     \<and> d_DebtorRef d' = d_DebtorRef d \<and> d_Kind d' = d_Kind d \<and> d_Terms d' = d_Terms d
     \<and> (d_Status d' = d_Status d \<or> d_Status d' = ''resolved'')
     \<and> (d_Status d \<noteq> ''open'' \<longrightarrow> d_Weight d' = d_Weight d)"

lemma debt_later_refl [simp]: "debt_later d d"
  by (simp add: debt_later_def)

lemma debt_later_trans: "debt_later a b \<Longrightarrow> debt_later b c \<Longrightarrow> debt_later a c"
  by (auto simp: debt_later_def)

lemma debt_event_later: "m oid = Some d \<Longrightarrow> \<exists>d'. debt_event e m oid = Some d' \<and> debt_later d d'"
proof (cases "e_Payload e")
  case (Some j)
  assume m: "m oid = Some d"
  have up: "\<exists>d'. (m(k := map_option f (m k))) oid = Some d' \<and> debt_later d d'" if "debt_later d (f d)" for k f
    using m that by (cases "k = oid") simp_all
  have new: "\<exists>d'. (if m k = None then m(k \<mapsto> x) else m) oid = Some d' \<and> debt_later d d'" for k x
    using m by (cases "k = oid") simp_all
  have res: "debt_later d (d\<lparr>d_Status := ''resolved'', d_UpdatedAt := u\<rparr>)" for u
    by (simp add: debt_later_def)
  have adj: "debt_later d (if d_Status d = ''open'' then d\<lparr>d_Weight := w, d_UpdatedAt := u\<rparr> else d)" for w u
    by (simp add: debt_later_def)
  have ite: "\<exists>d'. (if b then x else y) oid = Some d' \<and> debt_later d d'"
    if "\<exists>d'. x oid = Some d' \<and> debt_later d d'" "\<exists>d'. y oid = Some d' \<and> debt_later d d'" for b x y
    using that by (cases b) simp_all
  show ?thesis
    unfolding debt_event_def Some option.case case_prod_beta
    by (intro ite new up res adj) (use m in simp)
qed (simp add: debt_event_def)

lemma materialize1_later:
  "debt_map ds oid = Some d \<Longrightarrow> \<exists>d'. debt_map (materialize1 f e ds) oid = Some d' \<and> debt_later d d'"
  using debt_event_later [of "debt_map ds" oid d e] by (simp add: materialize_refines_lemma)

lemma materialize_later:
  "debt_map ds oid = Some d \<Longrightarrow> \<exists>d'. debt_map (materialize io k es ds) oid = Some d' \<and> debt_later d d'"
proof (induction es arbitrary: k ds d)
  case (Cons e es)
  obtain d1 where d1: "debt_map (materialize1 (io k) e ds) oid = Some d1" "debt_later d d1"
    using materialize1_later [OF Cons.prems] by blast
  obtain d2 where "debt_map (materialize io (Suc k) es (materialize1 (io k) e ds)) oid = Some d2" "debt_later d1 d2"
    using Cons.IH [OF d1(1)] by blast
  then show ?case using d1(2) debt_later_trans by auto
qed simp

lemma store_debts_same:
  "h_debts (fst (RegisterNode io now n k h)) = h_debts h"
  "h_debts (fst (Heartbeat io now i p u v h)) = h_debts h"
  "h_debts (fst (UpsertRoster io now i es h)) = h_debts h"
  "h_debts (fst (QueuePvP io q h)) = h_debts h"
  "h_debts (fst (CompletePvP io now i v h)) = h_debts h"
  "h_debts (fst (BlockPvP io now i v why h)) = h_debts h"
  "h_debts (fst (SubmitTravel io now t h)) = h_debts h"
  "h_debts (fst (ArriveTravel io now i d h)) = h_debts h"
  "h_debts (fst (BlockTravel io now i d why h)) = h_debts h"
  by (simp_all add: RegisterNode_def Heartbeat_def UpsertRoster_def QueuePvP_def CompletePvP_def BlockPvP_def
      SubmitTravel_def ArriveTravel_def BlockTravel_def split: option.split)

text \<open>C14: a debt in the hub's index never disappears and never changes its parties, kind or terms;
  once resolved it stays resolved with the same weight, whatever events arrive.\<close>

theorem debt_index_monotone:
  assumes "debt_map (h_debts h) oid = Some d"
  shows "\<exists>d'. debt_map (h_debts (fst (Handler s env r h))) oid = Some d' \<and> debt_later d d'"
proof -
  let ?P = "\<lambda>g. \<exists>d'. debt_map (h_debts g) oid = Some d' \<and> debt_later d d'"
  have "?P h" "?P (fst (AppendEvents burn io es h))" for burn io es
    using assms by (simp_all add: AppendEvents_frame)
  moreover have "?P (MaterializeEvents io' es (fst (AppendEvents burn io es h)))" for burn io io' es
    using materialize_later [OF assms] by (simp add: MaterializeEvents_def AppendEvents_frame)
  ultimately show ?thesis
    unfolding Handler_def by (intro serve_effect [where P = ?P]) (simp_all add: store_debts_same)
qed

text \<open>A push materialises duplicates too. An adjustment the feed already has is not accepted
  again, yet sending it once more sets the indexed weight of the open debt to its value, also when
  later adjustments have changed it since.\<close>

theorem duplicate_adjustment_reapplied:
  assumes "Route r = REventsPush" "caller env r h = Some n" "r_body r = Some j" "dec_eventsPushReq j = ([e], True)"
    "e_SourceNode e = n_NodeID n" "validateEventSchemas [e] = None" "calm env"
    and "e_EventID e \<in> set (feed_ids h)" "e_Type e = ''debt.adjusted''" "e_Payload e = Some p"
    "dec_debt_adjusted p = ((oid, w), True)" "debt_map (h_debts h) oid = Some d" "d_Status d = ''open''"
  shows "snd (Handler s env r h) = writeJSON 200 (JObj
      [(''accepted'', JInt 0), (''duplicates'', JInt 1), (''last_hub_seq'', JInt (head h))])
    \<and> debt_map (h_debts (fst (Handler s env r h))) oid = Some (d\<lparr>d_Weight := w, d_UpdatedAt := e_TS e\<rparr>)"
proof -
  have compat: "validateEventCompatibility (v_io env ''NodeByID'') 0 n [e] h = None"
    using assms(9) by (simp add: event_refs_def)
  have io: "v_io env ''AppendEvents'' = no_io" "v_io env ''MaterializeEvents'' = no_io"
    using assms(7) by (simp_all add: calm_def)
  have src: "list_all (\<lambda>e. e_SourceNode e = n_NodeID n) [e]"
    using assms(5) by simp
  have H: "Handler s env r h = handleEventsPush env n r h"
    by (rule Handler_push [OF assms(1,2)])
  have resp: "snd (handleEventsPush env n r h) = writeJSON 200 (JObj
      [(''accepted'', JInt 0), (''duplicates'', JInt (int (length [e]))), (''last_hub_seq'', JInt (head h))])"
    by (rule handleEventsPush_known(2) [OF assms(3,4) src assms(6) compat io(1)]) (use assms(8) in simp)
  let ?a = "AppendEvents (v_burn env) no_io [e] h"
  have "snd (snd ?a) = Inr (head (fst ?a))"
    by (simp add: AppendEvents_def append_loop_put_all case_prod_beta)
  then have "handleEventsPush env n r h =
      (MaterializeEvents no_io [e] (fst ?a), snd (handleEventsPush env n r h))"
    using assms(3,4,6) src compat io by (cases ?a) (simp add: handleEventsPush_def split: sum.split)
  then have "fst (Handler s env r h) = MaterializeEvents no_io [e] (fst ?a)"
    unfolding H by (metis fst_conv)
  then have "debt_map (h_debts (fst (Handler s env r h))) = debt_event e (debt_map (h_debts h))"
    by (simp add: MaterializeEvents_def AppendEvents_frame materialize_refines_lemma)
  then show ?thesis
    using resp H assms(9-13) by (simp add: debt_event_def)
qed

section \<open>Event validation\<close>

lemma requireStrings_iff:
  "requireStrings kvs names = None \<longleftrightarrow> (\<forall>x \<in> set names. \<exists>t. t \<noteq> [] \<and> map_get kvs x = Some (JStr t))"
proof (induction names)
  case (Cons x xs)
  show ?case
  proof (cases "map_get kvs x")
    case (Some j)
    then show ?thesis
      using Cons by (cases j) (auto simp: unm_string_def)
  qed simp
qed simp

lemma requireNumbers_iff:
  "requireNumbers kvs names = None \<longleftrightarrow> (\<forall>x \<in> set names. \<exists>j. map_get kvs x = Some j \<and> unm_float_ok j)"
  by (induction names) (auto split: option.split)

lemma objectPayload_Inr: "objectPayload e = Inr kvs \<longleftrightarrow> e_Payload e = Some (JObj kvs)"
  by (auto simp: objectPayload_def unm_map_def Let_def split: option.splits json.splits)

definition envelope_ok :: "WireEvent \<Rightarrow> bool" where
  "envelope_ok e \<longleftrightarrow> e_EventID e \<noteq> [] \<and> e_SourceNode e \<noteq> [] \<and> e_Type e \<noteq> [] \<and> 1 \<le> e_Seq e \<and> 1 \<le> e_TS e"

lemma validate_one:
  "validateEventSchemas [e] = None \<longleftrightarrow>
   envelope_ok e \<and> (\<exists>kvs. e_Payload e = Some (JObj kvs) \<and> check_schema (e_Type e) kvs = None)"
  by (cases "objectPayload e")
    (auto simp: envelope_ok_def objectPayload_Inr [symmetric] not_less split: option.split)

lemma or_else_None: "or_else a b = None \<longleftrightarrow> a = None \<and> b = None"
  by (simp add: or_else_def split: option.split)

lemma number_cases:
  "(\<exists>j. map_get kvs x = Some j \<and> unm_float_ok j) \<longleftrightarrow>
   (\<exists>j. map_get kvs x = Some j \<and>
      (j = JNull \<or> (\<exists>i. j = JInt i \<and> unm_float_ok j) \<or> (\<exists>m x. j = JDec m x \<and> unm_float_ok j)))"
proof -
  have "unm_float_ok j \<longleftrightarrow> j = JNull \<or> (\<exists>i. j = JInt i \<and> unm_float_ok j) \<or> (\<exists>m x. j = JDec m x \<and> unm_float_ok j)" for j
    by (cases j) (auto simp: unm_float_ok_def)
  then show ?thesis by blast
qed

lemma check_debt_schema:
  "check_schema ''debt.created'' kvs =
     or_else (requireStrings kvs [''obligation_id'', ''creditor_ref'', ''debtor_ref'', ''kind'', ''terms''])
       (requireNumbers kvs [''weight''])"
  "check_schema ''debt.adjusted'' kvs =
     or_else (requireStrings kvs [''obligation_id'', ''reason''])
       (requireNumbers kvs [''old_weight'', ''new_weight'', ''delta''])"
  "check_schema ''debt.resolved'' kvs =
     or_else (requireStrings kvs [''obligation_id'', ''resolution'']) (requireNumbers kvs [''resolved_at''])"
  by (simp_all add: check_schema_def)

text \<open>C15: the debt events the hub lets through, exactly: a complete envelope, an object payload, the
  named non-empty strings, and for every weight a number of float64 range or a null.\<close>

theorem debt_schemas_exact:
  "validateEventSchemas [e] = None \<longleftrightarrow>
     envelope_ok e \<and> (\<exists>kvs. e_Payload e = Some (JObj kvs) \<and>
       (\<forall>x \<in> set strs. \<exists>t. t \<noteq> [] \<and> map_get kvs x = Some (JStr t)) \<and>
       (\<forall>x \<in> set nums. \<exists>j. map_get kvs x = Some j \<and>
          (j = JNull \<or> (\<exists>i. j = JInt i \<and> unm_float_ok j) \<or> (\<exists>m x. j = JDec m x \<and> unm_float_ok j))))"
  if "(e_Type e, strs, nums) \<in>
    {(''debt.created'', [''obligation_id'', ''creditor_ref'', ''debtor_ref'', ''kind'', ''terms''], [''weight'']),
     (''debt.adjusted'', [''obligation_id'', ''reason''], [''old_weight'', ''new_weight'', ''delta'']),
     (''debt.resolved'', [''obligation_id'', ''resolution''], [''resolved_at''])}"
proof -
  have "check_schema (e_Type e) kvs = None \<longleftrightarrow>
      (\<forall>x \<in> set strs. \<exists>t. t \<noteq> [] \<and> map_get kvs x = Some (JStr t)) \<and>
      (\<forall>x \<in> set nums. \<exists>j. map_get kvs x = Some j \<and>
         (j = JNull \<or> (\<exists>i. j = JInt i \<and> unm_float_ok j) \<or> (\<exists>m x. j = JDec m x \<and> unm_float_ok j)))" for kvs
    using that by (elim insertE emptyE Pair_inject; simp only: check_debt_schema or_else_None requireStrings_iff
        requireNumbers_iff number_cases)
  then show ?thesis
    by (simp only: validate_one)
qed

lemma fld_bad:
  assumes "map_get kvs name = Some x" and "\<And>v. \<not> snd (dec x v)"
  shows "\<not> snd (fld dec name (JObj kvs) z)"
proof -
  let ?step = "\<lambda>(v, ok) (k, x). if key_match k name then (case dec x v of (v', ok') \<Rightarrow> (v', ok \<and> ok')) else (v, ok)"
  have keep: "\<not> snd a \<Longrightarrow> \<not> snd (foldl ?step a ys)" for a ys
    by (induction ys arbitrary: a) (auto simp: case_prod_beta)
  have "(name, x) \<in> set kvs"
    using assms(1) map_of_SomeD by (fastforce simp: map_get_def)
  then obtain xs ys where kvs: "kvs = xs @ (name, x) # ys"
    by (metis split_list)
  have "\<not> snd (foldl ?step (foldl ?step (z, True) xs) ((name, x) # ys))"
    using assms(2) by (simp add: case_prod_beta) (rule keep, simp)
  then show ?thesis
    by (simp add: fld_def kvs)
qed

text \<open>A fractional weight passes validation and enters the feed, but the decoder behind the
  index reads weights as integers: the event is never materialised.\<close>

theorem fractional_weight_not_indexed:
  assumes "e_Type e = ''debt.created''" "validateEventSchemas [e] = None"
    and "e_Payload e = Some (JObj kvs)" "map_get kvs ''weight'' = Some (JDec m x)"
  shows "\<not> snd (dec_debt_created (JObj kvs)) \<and> materialize1 fault e ds = ds"
proof -
  have "\<not> snd (fld unm_int ''weight'' (JObj kvs) 0)"
    by (rule fld_bad [OF assms(4)]) (simp add: unm_int_def)
  then have "\<not> snd (dec_debt_created (JObj kvs))"
    by (simp add: dec_debt_created_def)
  then show ?thesis
    using assms(1,3) by (simp add: materialize1_def case_prod_beta)
qed

text \<open>An event id belongs to whoever pushes it first, and the hub does not tie it to the source
  node: a later event of another node under the same id is never stored, although the push is
  answered as a success.\<close>

theorem event_id_taken:
  assumes "hub_inv h" and "q \<in> set (h_events h)"
  shows "{p \<in> set (h_events (fst (Handler s env r h))). e_EventID (snd p) = e_EventID (snd q)} = {q}"
proof -
  obtain new where "h_events (fst (Handler s env r h)) = h_events h @ new"
    using feed_extends [of s env r h] by blast
  then have q: "q \<in> set (h_events (fst (Handler s env r h)))"
    using assms(2) by simp
  have "distinct (map (e_EventID \<circ> snd) (h_events (fst (Handler s env r h))))"
    using Handler_inv [OF assms(1), of s env r] by (simp add: hub_inv_defs feed_wf_def)
  then have "p = q" if "p \<in> set (h_events (fst (Handler s env r h)))" "e_EventID (snd p) = e_EventID (snd q)" for p
    using that q distinct_key_unique [of "e_EventID \<circ> snd" _ p q] by simp
  then show ?thesis using q by auto
qed

section \<open>Runs\<close>

text \<open>The hub as a transition system: requests in any order, each with its own environment.\<close>

inductive hub_run :: "Server \<Rightarrow> hub \<Rightarrow> bool" for s where
  start: "hub_run s hub_empty"
| request: "hub_run s h \<Longrightarrow> hub_run s (fst (Handler s env r h))"

inductive_cases hub_runE: "hub_run s h"

text \<open>C1: in every state a hub can get into, whatever is sent to it in whatever order and with
  whatever storage faults, node ids, keys, feed positions, event ids, roster ids, obligations and
  request ids are unique, queue entries are in a legal state, each player has at most one pending
  journey and it agrees with the player's location.\<close>

theorem hub_run_inv: "hub_run s h \<Longrightarrow> hub_inv h"
  by (induction rule: hub_run.induct) (simp_all add: hub_inv_empty Handler_inv)

end
