(* ===== verification/Hub_Examples.thy ===== *)
theory Hub_Examples
  imports Hub_Index
begin

text \<open>
  A small federation (two nodes of one game, one event in the feed) on which the properties of the
  hub are applied: the concrete requests whose hypotheses hold.
\<close>

section \<open>The example\<close>

definition ex_s :: Server where
  "ex_s = \<lparr>s_regToken = ''t''\<rparr>"

definition ex_env :: henv where
  "ex_env = \<lparr>v_nanos = 9 * 10 ^ 9, v_keyBytes = [1, 2, 3], v_idBytes = [171], v_sha256 = (\<lambda>s. [length s]),
     v_burn = False, v_io = (\<lambda>_. no_io)\<rparr>"

definition ex_row :: "string \<Rightarrow> string \<Rightarrow> node_row" where
  "ex_row i k = \<lparr>n_NodeID = i, n_GameID = ''g'', n_GameTitle = ''G'', n_GameVersion = ''1'', n_ProtocolVersion = ''1'',
     n_AdvertiseAddr = [], n_PlayerCount = 0, n_UptimeS = 0, n_LastHeartbeat = 1, n_Status = ''active'',
     n_api_key_hash = k, n_created_at = 1\<rparr>"

definition ex_adjust :: WireEvent where
  "ex_adjust = \<lparr>e_EventID = ''a:1'', e_SourceNode = ''a'', e_Seq = 1, e_Type = ''debt.adjusted'', e_TS = 5,
     e_Payload = Some (JObj [(''obligation_id'', JStr ''o''), (''reason'', JStr ''r''), (''old_weight'', JInt 9),
       (''new_weight'', JInt 4), (''delta'', JInt 5)])\<rparr>"

definition ex_note :: WireEvent where
  "ex_note = \<lparr>e_EventID = ''a:2'', e_SourceNode = ''a'', e_Seq = 2, e_Type = ''x'', e_TS = 6, e_Payload = Some (JObj [])\<rparr>"

definition ex_debt :: HubDebt where
  "ex_debt = \<lparr>d_ObligationID = ''o'', d_SourceNode = ''a'', d_CreditorRef = ''npc:x'', d_DebtorRef = ''a:1'', d_Kind = ''k'',
     d_Terms = ''t'', d_Weight = 2, d_Status = ''open'', d_UpdatedAt = 7\<rparr>"

definition ex_hub :: hub where
  "ex_hub = \<lparr>h_nodes = [ex_row ''a'' ''01'', ex_row ''b'' ''02''], h_events = [(1, ex_adjust)], h_evseq = 1,
     h_roster = [(\<lparr>ro_GlobalID = ''a:1'', ro_NodeID = ''b'', ro_Name = ''n'', ro_Level = 1, ro_Status = ''active'',
       ro_LastSeen = 1\<rparr>, 1)],
     h_debts = [ex_debt], h_pvp = [], h_travel = [], h_locs = [], h_audit = []\<rparr>"

definition ex_post :: "string list \<Rightarrow> string \<Rightarrow> json \<Rightarrow> http_req" where
  "ex_post p tok j = \<lparr>r_method = ''POST'', r_path = ''v1'' # p, r_query = [], r_auth = ''Bearer '' @ tok, r_body = Some j\<rparr>"

definition ex_wire :: "WireEvent \<Rightarrow> json" where
  "ex_wire e = JObj [(''event_id'', JStr (e_EventID e)), (''source_node'', JStr (e_SourceNode e)), (''seq'', JInt (e_Seq e)),
     (''type'', JStr (e_Type e)), (''ts'', JInt (e_TS e)), (''payload'', raw_json (e_Payload e))]"

definition ex_push :: "WireEvent list \<Rightarrow> http_req" where
  "ex_push es = ex_post [''events''] ''k'' (JObj [(''events'', JArr (map ex_wire es))])"

definition ex_register :: http_req where
  "ex_register = ex_post [''register''] [] (JObj [(''node_id'', JStr ''c''), (''registration_token'', JStr ''t''),
     (''game_id'', JStr ''g''), (''protocol_version'', JStr ''1'')])"

definition ex_roster :: http_req where
  "ex_roster = ex_post [''roster''] ''k'' (JObj [(''entries'', JArr [JObj [(''global_id'', JStr ''a:1'')]])])"

definition ex_roster_free :: http_req where
  "ex_roster_free = ex_post [''roster''] ''k'' (JObj [(''entries'', JArr [JObj [(''global_id'', JStr ''a:2'')]])])"

definition ex_depart :: http_req where
  "ex_depart = ex_post [''travel''] ''k'' (JObj [(''global_id'', JStr ''a:1''), (''dest_node'', JStr ''b''),
     (''snapshot'', JObj [])])"

section \<open>Facts about it\<close>

lemmas ex_simps = ex_post_def ex_push_def ex_register_def ex_roster_def ex_roster_free_def ex_depart_def
lemmas fold_simps = json_simps key_match_def ascii_up_def in_int64_def

lemma ex_inv: "hub_inv ex_hub"
  by (simp add: hub_inv_defs feed_wf_def travel_ok_def ex_hub_def ex_row_def ex_debt_def)

lemma ex_calm [simp]: "calm ex_env" "v_io ex_env = (\<lambda>_. no_io)"
  by (simp_all add: calm_def ex_env_def)

lemma ex_routes [simp]:
  "Route (ex_push es) = REventsPush" "Route ex_register = RRegister" "Route ex_roster = RRosterPush"
  "Route ex_roster_free = RRosterPush" "Route ex_depart = RTravelSubmit"
  by (simp_all add: Route_def route_post_def ex_simps)

lemma ex_burn [simp]: "v_burn ex_env = False"
  by (simp add: ex_env_def)

lemma ex_hash: "hex_encode [Suc 0] = ''01''"
  by code_simp

lemma ex_proj [simp]:
  "h_nodes ex_hub = [ex_row ''a'' ''01'', ex_row ''b'' ''02'']" "h_events ex_hub = [(1, ex_adjust)]"
  "h_travel ex_hub = []" "h_pvp ex_hub = []" "h_debts ex_hub = [ex_debt]"
  "e_EventID ex_note = ''a:2''" "e_EventID ex_adjust = ''a:1''" "e_SourceNode ex_note = ''a''"
  "e_SourceNode ex_adjust = ''a''" "e_Type ex_note = ''x''" "e_Type ex_adjust = ''debt.adjusted''"
  by (simp_all add: ex_hub_def ex_note_def ex_adjust_def)

lemma ex_caller: "r_auth r = ''Bearer k'' \<Longrightarrow> caller ex_env r ex_hub = Some (scan_node (ex_row ''a'' ''01''))"
  by (simp add: caller_iff bearer_def has_prefix_def hashKey_def ex_hash ex_env_def ex_row_def)

lemma ex_auths [simp]:
  "r_auth (ex_push es) = ''Bearer k''" "r_auth ex_roster = ''Bearer k''" "r_auth ex_roster_free = ''Bearer k''"
  "r_auth ex_depart = ''Bearer k''"
  by (simp_all add: ex_simps)

lemma ex_node [simp]: "n_NodeID (scan_node (ex_row i k)) = i" "n_GameID (scan_node (ex_row i k)) = ''g''"
  by (simp_all add: scan_node_def ex_row_def)

lemma ex_dec: "dec_WireEvent (ex_wire ex_note) = (ex_note, True)" "dec_WireEvent (ex_wire ex_adjust) = (ex_adjust, True)"
  by (simp_all add: dec_WireEvent_def ex_wire_def ex_note_def ex_adjust_def raw_json_def fold_simps)

lemma ex_valid: "validateEventSchemas [ex_note] = None" "validateEventSchemas [ex_adjust] = None"
  by (simp_all add: ex_note_def ex_adjust_def objectPayload_def unm_map_def check_schema_def or_else_def map_get_def
      unm_string_def unm_float_ok_def float_limit_def)

lemma ex_push_body:
  "r_body (ex_push es) = Some (JObj [(''events'', JArr (map ex_wire es))])"
  by (simp add: ex_simps)

lemma ex_push_dec:
  "dec_eventsPushReq (JObj [(''events'', JArr (map ex_wire [ex_note]))]) = ([ex_note], True)"
  "dec_eventsPushReq (JObj [(''events'', JArr (map ex_wire [ex_adjust]))]) = ([ex_adjust], True)"
  by (simp_all add: dec_eventsPushReq_def json_simps ex_dec)

section \<open>The properties applied\<close>

theorem hub_run_inv_witness: "hub_inv (fst (Handler ex_s ex_env ex_register hub_empty))"
  using hub_run_inv [OF hub_run.request [OF hub_run.start]] by simp

theorem unauthenticated_rejected_witness:
  "Handler ex_s ex_env ((ex_push [ex_note])\<lparr>r_auth := []\<rparr>) ex_hub = (ex_hub, writeErr 401 ''missing bearer token'')"
  using unauthenticated_rejected [of "(ex_push [ex_note])\<lparr>r_auth := []\<rparr>" ex_env ex_hub ex_s]
  by (simp add: public_def caller_def bearer_def has_prefix_def Handler_def serve_def auth_def Route_def route_post_def
      ex_simps)

lemma ex_compat:
  "validateEventCompatibility (v_io ex_env ''NodeByID'') 0 (scan_node (ex_row ''a'' ''01'')) [ex_note] ex_hub = None"
  by (simp add: event_refs_def)

theorem push_stores_batch_witness:
  "feed_ids (fst (Handler ex_s ex_env (ex_push [ex_note]) ex_hub)) = [''a:1'', ''a:2''] \<and>
   p_code (snd (Handler ex_s ex_env (ex_push [ex_note]) ex_hub)) = 200"
  using push_stores_batch [OF ex_routes(1) ex_caller [OF ex_auths(1)] ex_push_body ex_push_dec(1) _ ex_valid(1) ex_compat, of ex_s]
  by simp

lemma ex_push_ok:
  "feed_ids (fst (Handler ex_s ex_env (ex_push [ex_note]) ex_hub)) = [''a:1'', ''a:2'']"
  "p_code (snd (Handler ex_s ex_env (ex_push [ex_note]) ex_hub)) = 200"
  using handleEventsPush_ok [OF ex_push_body ex_push_dec(1) _ ex_valid(1) ex_compat]
  by (simp_all add: Handler_push [OF ex_routes(1) ex_caller [OF ex_auths(1)]])

theorem push_replay_witness:
  "feed_ids (fst (Handler ex_s ex_env (ex_push [ex_note]) (fst (Handler ex_s ex_env (ex_push [ex_note]) ex_hub))))
   = [''a:1'', ''a:2'']"
  using push_replay [OF ex_routes(1) ex_push_ok(2) ex_calm(1)] ex_push_ok(1) by simp

text \<open>The two entries of the feed after that push.\<close>

lemma ex_two_events: "h_events (fst (Handler ex_s ex_env (ex_push [ex_note]) ex_hub)) = [(1, ex_adjust), (2, ex_note)]"
proof -
  have ap: "append_loop False no_io 0 [ex_note] ex_hub
      = (ex_hub\<lparr>h_events := [(1, ex_adjust), (2, ex_note)], h_evseq := 2\<rparr>, 1, False)"
    by (simp add: insert_event_def) (simp add: ex_hub_def)
  show ?thesis
    using ex_push_dec(1) ex_valid(1) ex_compat
    by (simp add: Handler_push [OF ex_routes(1) ex_caller [OF ex_auths(1)]] handleEventsPush_def ex_push_body
        AppendEvents_def ap del: append_loop.simps validateEventSchemas.simps validateEventCompatibility.simps)
qed

lemma ex_key: "hashKey ex_env (bearer (ex_push es)) = ''01''"
  by (simp add: bearer_def has_prefix_def hashKey_def ex_hash ex_env_def)

theorem feed_provenance_witness:
  "\<exists>row \<in> set (h_nodes ex_hub). n_api_key_hash row = ''01'' \<and> e_SourceNode ex_note = n_NodeID row"
  using feed_provenance [of "(2, ex_note)" ex_s ex_env "ex_push [ex_note]" ex_hub]
  by (auto simp: ex_two_events ex_key)

theorem feed_append_only_witness:
  "\<exists>new. [(1 :: int, ex_adjust), (2, ex_note)] = [(1, ex_adjust)] @ new \<and> (\<forall>p \<in> set new. 1 < fst p)"
  using feed_append_only [OF ex_inv, of ex_s ex_env "ex_push [ex_note]"] by (simp add: ex_two_events)

theorem failed_request_effect_witness:
  "fst (Handler ex_s ex_env ((ex_push [ex_note])\<lparr>r_body := None\<rparr>) ex_hub) = ex_hub"
proof -
  have "Handler ex_s ex_env ((ex_push [ex_note])\<lparr>r_body := None\<rparr>) ex_hub = (ex_hub, writeErr 400 ''invalid json'')"
    using Handler_push [of "(ex_push [ex_note])\<lparr>r_body := None\<rparr>" ex_env ex_hub _ ex_s] ex_caller
    by (simp add: handleEventsPush_def Route_def route_post_def ex_simps)
  then show ?thesis
    using failed_request_effect [of ex_s ex_env "(ex_push [ex_note])\<lparr>r_body := None\<rparr>" ex_hub] by simp
qed

theorem pull_visits_all_witness:
  "drain (\<lambda>c. feed_page 1 [] c ex_hub) fst 1 0 = [(1, ex_adjust)]"
  using pull_visits_all [OF ex_inv, of 1 1 "[]" 0] by simp

lemma ex_register_200: "p_code (snd (Handler ex_s ex_env ex_register ex_hub)) = 200"
proof -
  have key: "newAPIKey ex_env = (''AQID'', ''04'')"
    by code_simp
  have dec: "dec_registerReq (JObj [(''node_id'', JStr ''c''), (''registration_token'', JStr ''t''),
     (''game_id'', JStr ''g''), (''protocol_version'', JStr ''1'')])
    = (\<lparr>rg_NodeID = ''c'', rg_RegistrationToken = ''t'', rg_GameID = ''g'', rg_GameTitle = [], rg_GameVersion = [],
        rg_ProtocolVersion = ''1'', rg_AdvertiseAddr = []\<rparr>, True)"
    by (simp add: dec_registerReq_def fold_simps)
  have body: "r_body ex_register = Some (JObj [(''node_id'', JStr ''c''), (''registration_token'', JStr ''t''),
     (''game_id'', JStr ''g''), (''protocol_version'', JStr ''1'')])"
    by (simp add: ex_register_def ex_post_def)
  show ?thesis
    by (simp add: Handler_def serve_def handleRegister_def key dec body ProtocolVersion_def RegisterNode_def
        register_node_def rows_where_def ex_row_def ex_s_def Let_def)
qed

theorem register_gives_key_witness:
  "\<exists>key n. snd (Handler ex_s ex_env ex_register ex_hub)
      = writeJSON 200 (JObj [(''api_key'', JStr key), (''hub_seq_head'', JInt 0)])
    \<and> caller ex_env (ex_post [''heartbeat''] key JNull) (fst (Handler ex_s ex_env ex_register ex_hub)) = Some n"
  using register_gives_key [OF ex_routes(2) ex_register_200 _ ex_calm(1)]
  by (fastforce simp: ex_env_def ex_post_def)

lemma ex_depart_body: "r_body ex_depart = Some (JObj [(''global_id'', JStr ''a:1''), (''dest_node'', JStr ''b''),
     (''snapshot'', JObj [])])"
  by (simp add: ex_depart_def ex_post_def)

lemma ex_depart_dec: "dec_travelSubmitReq (JObj [(''global_id'', JStr ''a:1''), (''dest_node'', JStr ''b''),
     (''snapshot'', JObj [])])
  = (\<lparr>ts_GlobalID = ''a:1'', ts_HomeNode = [], ts_DestNode = ''b'', ts_Snapshot = Some (JObj [])\<rparr>, True)"
  by (simp add: dec_travelSubmitReq_def fold_simps)

text \<open>The accepted departure of player \<open>a:1\<close> to node b and the state it leaves.\<close>

definition ex_away :: hub where
  "ex_away = fst (Handler ex_s ex_env ex_depart ex_hub)"

lemma ex_id: "hex_encode (v_idBytes ex_env) = ''ab''"
  by code_simp

lemma ex_depart_result:
  "p_code (snd (Handler ex_s ex_env ex_depart ex_hub)) = 200" (is ?ok)
  "ex_away = ex_hub\<lparr>
     h_travel := [\<lparr>t_TravelID = ''ab'', t_GlobalID = ''a:1'', t_HomeNode = ''a'', t_FromNode = ''a'', t_DestNode = ''b'',
       t_Snapshot = Some (JObj []), t_Status = ''pending'', t_Error = [], t_CreatedAt = 9, t_UpdatedAt = 0\<rparr>],
     h_locs := [\<lparr>l_global_id = ''a:1'', l_current_node = ''a'', l_home_node = ''a'', l_status = ''traveling'',
       l_travel_id = Some ''ab'', l_updated_at = 9\<rparr>]\<rparr>" (is ?st)
proof -
  have H: "Handler ex_s ex_env ex_depart ex_hub = handleTravelSubmit ex_env (scan_node (ex_row ''a'' ''01'')) ex_depart ex_hub"
    by (simp add: Handler_def serve_def auth_caller(1) ex_caller)
  have locs: "h_locs ex_hub = []"
    by (simp add: ex_hub_def)
  have dest: "NodeByID no_io ''b'' ex_hub = Inr (scan_node (ex_row ''b'' ''02''))"
    by (simp add: NodeByID_def ex_row_def)
  have act: "n_Status (scan_node (ex_row ''b'' ''02'')) = ''active''"
    by (simp add: scan_node_def ex_row_def)
  have now: "unix_now ex_env = 9"
    by (simp add: unix_now_def ex_env_def)
  have "handleTravelSubmit ex_env (scan_node (ex_row ''a'' ''01'')) ex_depart ex_hub =
    (ex_hub\<lparr>
     h_travel := [\<lparr>t_TravelID = ''ab'', t_GlobalID = ''a:1'', t_HomeNode = ''a'', t_FromNode = ''a'', t_DestNode = ''b'',
       t_Snapshot = Some (JObj []), t_Status = ''pending'', t_Error = [], t_CreatedAt = 9, t_UpdatedAt = 0\<rparr>],
     h_locs := [\<lparr>l_global_id = ''a:1'', l_current_node = ''a'', l_home_node = ''a'', l_status = ''traveling'',
       l_travel_id = Some ''ab'', l_updated_at = 9\<rparr>]\<rparr>,
     writeJSON 200 (JObj [(''status'', JStr ''pending''), (''travel_id'', JStr ''ab'')]))"
    by (simp add: handleTravelSubmit_def ex_depart_body ex_depart_dec dest act ex_id now SubmitTravel_def submit_current_def
        submit_home_def currentLocation_def victimNode_def refNode_def rows_where_def upsert_def locs Let_def)
  then show ?ok ?st
    by (simp_all add: H ex_away_def)
qed

theorem travel_departure_witness:
  "p_code (snd (Handler ex_s ex_env ex_depart ex_away)) \<noteq> 200 \<and> fst (currentLocation ''a:1'' ex_away) = ''a''"
  using travel_departure [OF ex_routes(5) ex_depart_result(1)] ex_depart_body ex_depart_dec
    ex_caller [OF ex_auths(4)]
  by (auto simp: ex_away_def [symmetric])

definition ex_arrive :: http_req where
  "ex_arrive = ex_post [''travel'', ''ab'', ''arrived''] ''kk'' JNull"

theorem travel_arrival_witness:
  "currentLocation ''a:1'' (fst (Handler ex_s ex_env ex_arrive ex_away)) = (''b'', ''a'')"
proof -
  have route: "Route ex_arrive = RTravelArrived ''ab''"
    by (simp add: ex_arrive_def Route_def route_post_def ex_post_def)
  have hash: "hex_encode [Suc (Suc 0)] = ''02''"
    by code_simp
  have call: "caller ex_env ex_arrive ex_away = Some (scan_node (ex_row ''b'' ''02''))"
    by (simp add: caller_iff ex_arrive_def ex_post_def bearer_def has_prefix_def hashKey_def hash ex_env_def
        ex_depart_result(2) ex_row_def)
  have "Handler ex_s ex_env ex_arrive ex_away
      = handleTravelArrived ex_env (scan_node (ex_row ''b'' ''02'')) ''ab'' ex_arrive ex_away"
    by (simp add: Handler_def serve_def route auth_caller(1) [OF call])
  then have ok: "p_code (snd (Handler ex_s ex_env ex_arrive ex_away)) = 200"
    by (simp add: handleTravelArrived_def ArriveTravel_def ex_depart_result(2) travel_open_def rows_where_def)
  have tr: "\<forall>t \<in> set (h_travel ex_away). t_GlobalID t = ''a:1'' \<and> t_HomeNode t = ''a''"
    by (simp add: ex_depart_result(2))
  have inv: "hub_inv ex_away"
    unfolding ex_away_def by (rule Handler_inv [OF ex_inv])
  show ?thesis
    using travel_arrival [OF inv route ok] call tr by auto
qed

lemma ex_roster_body:
  "r_body ex_roster = Some (JObj [(''entries'', JArr [JObj [(''global_id'', JStr ''a:1'')]])])"
  "r_body ex_roster_free = Some (JObj [(''entries'', JArr [JObj [(''global_id'', JStr ''a:2'')]])])"
  by (simp_all add: ex_roster_def ex_roster_free_def ex_post_def)

definition ex_entry :: "string \<Rightarrow> RosterEntry" where
  "ex_entry g = \<lparr>ro_GlobalID = g, ro_NodeID = [], ro_Name = [], ro_Level = 0, ro_Status = [], ro_LastSeen = 0\<rparr>"

lemma ex_roster_dec:
  "dec_roster (JObj [(''entries'', JArr [JObj [(''global_id'', JStr g)]])]) = ([ex_entry g], True)"
  by (simp add: dec_roster_def dec_RosterEntry_def fold_simps ex_entry_def)

theorem roster_push_replaces_own_witness:
  "map fst (filter (\<lambda>p. ro_NodeID (fst p) = ''a'') (h_roster (fst (Handler ex_s ex_env ex_roster_free ex_hub))))
   = [(ex_entry ''a:2'')\<lparr>ro_NodeID := ''a''\<rparr>]"
proof -
  have "Handler ex_s ex_env ex_roster_free ex_hub
      = handleRosterPush ex_env (scan_node (ex_row ''a'' ''01'')) ex_roster_free ex_hub"
    by (simp add: Handler_def serve_def auth_caller(1) ex_caller)
  moreover have "snd (UpsertRoster no_io now ''a'' [(ex_entry ''a:2'')\<lparr>ro_NodeID := ''a''\<rparr>] ex_hub) = None" for now
    by (simp add: UpsertRoster_def del_roster ex_entry_def ex_hub_def)
  ultimately have ok: "p_code (snd (Handler ex_s ex_env ex_roster_free ex_hub)) = 200"
    by (auto simp: handleRosterPush_eq [OF ex_roster_body(2) ex_roster_dec] split: prod.split option.split)
      (metis snd_conv option.discI)
  show ?thesis
    using roster_push_replaces_own [OF ex_routes(4) ok] by (auto simp: ex_caller ex_roster_body ex_roster_dec)
qed

theorem roster_id_taken_witness:
  "Handler ex_s ex_env ex_roster ex_hub = (ex_hub, writeErr 500 ''roster update failed'')"
  by (rule roster_id_taken [OF ex_routes(3) ex_caller [OF ex_auths(2)] ex_roster_body(1) ex_roster_dec,
        of "fst (hd (h_roster ex_hub))" "snd (hd (h_roster ex_hub))" "ex_entry ''a:1''"])
    (simp_all add: ex_hub_def ex_entry_def)

theorem debt_index_refines_witness:
  "\<exists>ds. DebtsForDebtor no_io ''a:1'' ex_hub = Inr ds \<and> ex_debt \<in> set ds"
  using debt_index_refines [OF ex_inv, of "[]" "''a:1''"] by (auto simp: ex_debt_def debt_map_def)

theorem debt_index_monotone_witness:
  "\<exists>d'. debt_map (h_debts (fst (Handler ex_s ex_env (ex_push [ex_adjust]) ex_hub))) ''o'' = Some d' \<and> d_Terms d' = ''t''"
  using debt_index_monotone [of ex_hub "''o''" ex_debt ex_s ex_env "ex_push [ex_adjust]"]
  by (auto simp: debt_map_def debt_later_def ex_debt_def)

theorem duplicate_adjustment_reapplied_witness:
  "debt_map (h_debts (fst (Handler ex_s ex_env (ex_push [ex_adjust]) ex_hub))) ''o''
   = Some (ex_debt\<lparr>d_Weight := 4, d_UpdatedAt := 5\<rparr>)"
proof -
  let ?p = "JObj [(''obligation_id'', JStr ''o''), (''reason'', JStr ''r''), (''old_weight'', JInt 9),
       (''new_weight'', JInt 4), (''delta'', JInt 5)]"
  have "dec_debt_adjusted ?p = ((''o'', 4), True)"
    by (simp add: dec_debt_adjusted_def fold_simps)
  moreover have "e_Payload ex_adjust = Some ?p" "e_TS ex_adjust = 5"
    by (simp_all add: ex_adjust_def)
  ultimately show ?thesis
    using duplicate_adjustment_reapplied [OF ex_routes(1) ex_caller [OF ex_auths(1)] ex_push_body ex_push_dec(2) _
        ex_valid(2) ex_calm(1), of ?p "''o''" 4 ex_debt ex_s]
    by (simp add: debt_map_def ex_debt_def)
qed

definition ex_created :: "json \<Rightarrow> WireEvent" where
  "ex_created w = \<lparr>e_EventID = ''a:9'', e_SourceNode = ''a'', e_Seq = 9, e_Type = ''debt.created'', e_TS = 5,
     e_Payload = Some (JObj [(''obligation_id'', JStr ''p''), (''creditor_ref'', JStr ''npc:x''), (''debtor_ref'', JStr ''a:1''),
       (''kind'', JStr ''k''), (''terms'', JStr ''t''), (''weight'', w)])\<rparr>"

theorem debt_schemas_exact_witness: "validateEventSchemas [ex_created JNull] = None"
  using debt_schemas_exact [of "ex_created JNull" "[''obligation_id'', ''creditor_ref'', ''debtor_ref'', ''kind'', ''terms'']"
      "[''weight'']"]
  by (simp add: ex_created_def envelope_ok_def map_get_def)

theorem fractional_weight_not_indexed_witness:
  "validateEventSchemas [ex_created (JDec 15 (- 1))] = None \<and> materialize1 False (ex_created (JDec 15 (- 1))) [] = []"
proof -
  have "validateEventSchemas [ex_created (JDec 15 (- 1))] = None"
    by (simp add: ex_created_def objectPayload_def unm_map_def check_schema_def or_else_def map_get_def
      unm_string_def unm_float_ok_def float_limit_def)
  then show ?thesis
    using fractional_weight_not_indexed [of "ex_created (JDec 15 (- 1))" _ 15 "- 1" False "[]"]
    by (simp add: ex_created_def map_get_def)
qed

theorem event_id_taken_witness:
  "{p \<in> set (h_events (fst (Handler ex_s ex_env (ex_push [ex_note\<lparr>e_EventID := ''a:1''\<rparr>]) ex_hub))).
     e_EventID (snd p) = ''a:1''} = {(1, ex_adjust)}"
  using event_id_taken [OF ex_inv, of "(1, ex_adjust)" ex_s ex_env "ex_push [ex_note\<lparr>e_EventID := ''a:1''\<rparr>]"] by simp

end
