(* ===== verification/Operator_Examples.thy ===== *)
theory Operator_Examples
  imports Hub_Operator Hub_Examples
begin

text \<open>The operator's commands applied to the example hub.\<close>

definition ex_aenv :: aenv where
  "ex_aenv = \<lparr>ae_nanos = 9 * 10 ^ 9, ae_user = ''op'', ae_logname = [], ae_rand = Some [1, 2, 3], ae_sha256 = (\<lambda>s. [length s]),
     ae_io = no_io, ae_fs = (\<lambda>_. False)\<rparr>"

definition ex_adm :: adm where
  "ex_adm = \<lparr>ad_hub = ex_hub, ad_cols = (\<lambda>_ _. True), ad_files = Map.empty\<rparr>"

definition ex_trip :: "string \<Rightarrow> string \<Rightarrow> TravelRequest" where
  "ex_trip i st = \<lparr>t_TravelID = i, t_GlobalID = ''a:1'', t_HomeNode = ''a'', t_FromNode = ''a'', t_DestNode = ''b'', t_Snapshot = None,
     t_Status = st, t_Error = [], t_CreatedAt = 1, t_UpdatedAt = 1\<rparr>"

definition ex_stuck :: adm where
  "ex_stuck = ex_adm\<lparr>ad_hub := ex_hub\<lparr>h_travel := [ex_trip ''t1'' ''blocked'', ex_trip ''t2'' ''pending'']\<rparr>\<rparr>"

definition ex_path :: string where
  "ex_path = [CHR ''o'', CHR 0x27, CHR ''x'']"

lemma ex_aenv_simps [simp]: "ae_io ex_aenv = no_io" "ae_fs ex_aenv n = False"
  by (simp_all add: ex_aenv_def)

lemma ex_adm_simps [simp]: "ad_hub ex_adm = ex_hub" "ad_files ex_adm = Map.empty" "ad_cols ex_adm t c"
  by (simp_all add: ex_adm_def)

lemma ex_backup: "\<exists>w lines. backup ex_aenv [ex_path] ex_adm = (w, lines, None)"
  by (simp add: backup_def withDB_def Let_def backup_db_def vacuum_quoted [simplified] auditAction_def)

theorem backup_exact_witness:
  "ad_files (fst (backup ex_aenv [ex_path] ex_adm)) = [ex_path \<mapsto> FDatabase ex_hub]"
  using ex_backup backup_exact [of ex_aenv ex_path ex_adm] by auto

lemma ex_rotate: "\<exists>w. rotateKey ex_aenv [''--execute'', ''a''] ex_adm
    = (w, [''new API key for a:'', ''AQID'', ''store this in the node database/configuration before restarting the node''], None)"
proof -
  have "newSecret ex_aenv = Inr (''AQID'', ''04'')" "executes [(''execute'', ''true'')]"
    by code_simp+
  moreover have "flag_parse execute_flag [] [''--execute'', ''a''] = Inr ([(''execute'', ''true'')], [''a''])"
    by (simp add: execute_flag_def)
  ultimately show ?thesis
    by (simp add: rotateKey_def node_command_def withDB_def rotate_db_def update_node_def Let_def auditAction_def
        upd_where_def rows_where_def ex_row_def)
qed

lemma ex_executes: "execute_given execute_flag [''--execute'', ''a'']" "\<not> execute_given execute_flag [''a'']"
  by (simp_all add: execute_given_def execute_flag_def executes_def flag_get_def)

theorem rotate_key_replaces_witness:
  "\<exists>r. NodeByAPIKeyHash no_io (hex_encode [4]) (ad_hub (fst (rotateKey ex_aenv [''--execute'', ''a''] ex_adm))) = Inr r"
proof -
  obtain w where w: "rotateKey ex_aenv [''--execute'', ''a''] ex_adm
      = (w, [''new API key for a:'', ''AQID'', ''store this in the node database/configuration before restarting the node''], None)"
    using ex_rotate by blast
  have "hub_inv (ad_hub ex_adm)" "ae_sha256 ex_aenv ''AQID'' = [4]"
    by (simp_all add: ex_inv ex_aenv_def eval_nat_numeral)
  with rotate_key_replaces [OF _ w ex_executes(1)] show ?thesis
    unfolding w by fastforce
qed

lemma ex_suspend: "\<exists>w l. admin_main ex_aenv ''node-suspend'' [''--execute'', ''a''] ex_adm = (w, l, None)
    \<and> n_Status (h_nodes (ad_hub w) ! 0) = ''suspended''"
proof -
  have "flag_parse execute_flag [] [''--execute'', ''a''] = Inr ([(''execute'', ''true'')], [''a''])" "executes [(''execute'', ''true'')]"
    by (simp_all add: execute_flag_def executes_def flag_get_def)
  then show ?thesis
    by (simp add: admin_main_def nodeStatus_def node_command_def withDB_def update_node_def Let_def auditAction_def
        upd_where_def rows_where_def ex_row_def)
qed

theorem admin_changes_recorded_witness:
  "fst (admin_main ex_aenv ''node-suspend'' [''a''] ex_adm) = ex_adm
   \<and> length (h_audit (ad_hub (fst (admin_main ex_aenv ''node-suspend'' [''--execute'', ''a''] ex_adm)))) = 1"
proof -
  obtain w l where w: "admin_main ex_aenv ''node-suspend'' [''--execute'', ''a''] ex_adm = (w, l, None)" "ad_hub w \<noteq> ex_hub"
    using ex_suspend by (fastforce simp: ex_row_def)
  then have "\<exists>row. h_audit (ad_hub w) = h_audit ex_hub @ [row]"
    using admin_changes_recorded [of "''node-suspend''" "[''--execute'', ''a'']" ex_aenv ex_adm] by auto
  moreover have "h_audit ex_hub = []"
    by (simp add: ex_hub_def)
  ultimately show ?thesis
    using admin_changes_recorded [of "''node-suspend''" "[''a'']" ex_aenv ex_adm] ex_executes(2) w
    by (auto simp: wants_execute_def)
qed

theorem admin_keeps_inv_witness: "hub_inv (ad_hub (fst (admin_main ex_aenv ''node-remove'' [''--execute'', ''a''] ex_adm)))"
  by (rule admin_keeps_inv) (simp_all add: ex_inv)

text \<open>A journey that ended and one that was blocked; then somebody departs, and the operator retries the
  journey that ended and suspends a node.\<close>

definition ex_done :: adm where
  "ex_done = ex_adm\<lparr>ad_hub := ex_hub\<lparr>h_travel := [ex_trip ''t1'' ''arrived'', ex_trip ''t2'' ''blocked'']\<rparr>\<rparr>"

theorem settled_requests_final_witness:
  "ex_trip ''t1'' ''arrived'' \<in> set (h_travel (ad_hub (fold operate
     [Request ex_s ex_env ex_depart, Command ex_aenv ''queue-retry'' [''--execute'', ''travel'', ''t1''],
      Command ex_aenv ''node-suspend'' [''--execute'', ''a'']] ex_done)))
   \<and> ex_trip ''t2'' ''blocked'' \<in> set (h_travel (ad_hub (fold operate
     [Request ex_s ex_env ex_depart, Command ex_aenv ''node-suspend'' [''--execute'', ''a'']] ex_done)))"
proof -
  let ?a = "[Request ex_s ex_env ex_depart, Command ex_aenv ''queue-retry'' [''--execute'', ''travel'', ''t1''],
      Command ex_aenv ''node-suspend'' [''--execute'', ''a'']]"
  let ?b = "[Request ex_s ex_env ex_depart, Command ex_aenv ''node-suspend'' [''--execute'', ''a'']]"
  have "''node-remove'' \<notin> commands ?a" "settled (commands ?a) (t_Status (ex_trip ''t1'' ''arrived''))"
    "''node-remove'' \<notin> commands ?b" "settled (commands ?b) (t_Status (ex_trip ''t2'' ''blocked''))"
    "ex_trip ''t1'' ''arrived'' \<in> set (h_travel (ad_hub ex_done))" "ex_trip ''t2'' ''blocked'' \<in> set (h_travel (ad_hub ex_done))"
    by (auto simp: commands_def settled_def ex_trip_def ex_done_def)
  then show ?thesis
    using settled_requests_final [of ?a ex_done] settled_requests_final [of ?b ex_done] by blast
qed

theorem retry_second_journey_witness:
  "\<not> travel_ok (ad_hub (fst (admin_main ex_aenv ''queue-retry'' [''--execute'', ''travel'', ''t1''] ex_stuck)))"
  using retry_second_journey [of "ex_trip ''t1'' ''blocked''" ex_stuck "ex_trip ''t2'' ''pending''" ex_aenv]
  by (simp add: ex_stuck_def ex_trip_def)

end
