(* ===== verification/Engine_Store.thy ===== *)
theory Engine_Store
  imports Go_Json Contracts
begin

text \<open>
  The node's persistence layer: \<open>internal/engine/store.go\<close>, \<open>auth.go\<close>, \<open>syncstate.go\<close> and
  \<open>types.go\<close>. A value of type \<open>eng\<close> is a \<open>Store\<close>: the engine's tables and the two in-memory
  sequence counters; a game adds its own tables by extending the record. Times are stored and
  modelled as Unix seconds. Every write holds the store's mutex for the whole statement or
  transaction, so an operation is one atomic step; \<open>io\<close> is its fault schedule.
\<close>

section \<open>Data types\<close>

text \<open>Errors: a failed statement, a query without a row, a value that does not decode, a message.\<close>

datatype eng_err = EDB | ENoRows | EJSON | EMsg string

record Player =
  p_GlobalID :: string
  p_Name :: string
  p_HomeNode :: string
  p_Level :: int
  p_Standing :: int
  p_Status :: string
  p_CreatedAt :: int
  p_LastSeen :: int

record player_row = Player +
  p_pw_hash :: string

record Turn =
  tn_Actions :: int
  tn_Attacks :: int
  tn_LastReset :: int
  tn_DayIndex :: int

record turn_row = Turn +
  tn_global_id :: string

record Event =
  v_EventID :: string
  v_SourceNode :: string
  v_Seq :: int
  v_Type :: string
  v_TS :: int
  v_Payload :: raw

text \<open>A row of \<open>event_handler_state\<close>; the error column holds the error itself.\<close>

record handler_row =
  hs_event_id :: string
  hs_index :: nat
  hs_status :: string
  hs_error :: "eng_err option"
  hs_updated_at :: int

record Obligation =
  o_ID :: string
  o_SourceNode :: string
  o_Creditor :: string
  o_Debtor :: string
  o_Kind :: string
  o_Terms :: string
  o_Weight :: int
  o_Status :: string
  o_CreatedAt :: int

record obligation_row = Obligation +
  o_resolved_at :: "int option"
  o_resolution :: "string option"

record sync_row =
  y_hub_cursor :: int
  y_last_pushed :: int
  y_api_key :: string

text \<open>The store. A row of \<open>remote_roster\<close> is a player with zero standing and creation time.\<close>

record eng =
  g_nodeID :: string
  g_seq :: int
  g_oseq :: int
  g_players :: "player_row list"
  g_turns :: "turn_row list"
  g_events :: "Event list"
  g_hstate :: "handler_row list"
  g_obligations :: "obligation_row list"
  g_sync :: sync_row
  g_remote :: "Player list"

definition MainActionsPerDay :: int where
  "MainActionsPerDay = 15"

definition AttacksPerDay :: int where
  "AttacksPerDay = 3"

text \<open>SQLite's \<open>COLLATE NOCASE\<close> folds ASCII letters.\<close>

definition nocase :: "string \<Rightarrow> string" where
  "nocase s = map ascii_up s"

section \<open>Sequence counters\<close>

text \<open>
  \<open>CAST(substr(id, instr(id, ':o_') + 3) AS INTEGER)\<close>: the number the text after the first
  \<open>:o_\<close> starts with (after blanks, with an optional sign), 0 when there is none; \<open>instr\<close> is 0
  without an occurrence.
\<close>

fun find_sub :: "string \<Rightarrow> string \<Rightarrow> nat option" where
  "find_sub p [] = (if p = [] then Some 0 else None)"
| "find_sub p (c # cs) = (if has_prefix (c # cs) p then Some 0 else map_option Suc (find_sub p cs))"

definition sql_instr :: "string \<Rightarrow> string \<Rightarrow> nat" where
  "sql_instr s p = (case find_sub p s of None \<Rightarrow> 0 | Some i \<Rightarrow> Suc i)"

definition sql_substr :: "string \<Rightarrow> nat \<Rightarrow> string" where
  "sql_substr s k = drop (k - 1) s"

definition clamp64 :: "int \<Rightarrow> int" where
  "clamp64 i = (if i < - (2 ^ 63) then - (2 ^ 63) else if i \<ge> 2 ^ 63 then 2 ^ 63 - 1 else i)"

definition sql_cast_int :: "string \<Rightarrow> int" where
  "sql_cast_int s =
     (let t = dropWhile (\<lambda>c. c \<in> {CHR '' '', CHR 0x09, CHR 0x0A, CHR 0x0B, CHR 0x0C, CHR 0x0D}) s;
          neg = (t \<noteq> [] \<and> hd t = CHR ''-'');
          u = (if t \<noteq> [] \<and> (hd t = CHR ''-'' \<or> hd t = CHR ''+'') then tl t else t);
          n = int (digits_val (takeWhile is_digit u))
      in clamp64 (if neg then - n else n))"

definition obligation_num :: "string \<Rightarrow> int" where
  "obligation_num i = sql_cast_int (sql_substr i (sql_instr i '':o_'' + 3))"

text \<open>The resumption of the counters in \<open>Migrate\<close> (the tables exist already).\<close>

definition Migrate :: "io \<Rightarrow> 'a eng_scheme \<Rightarrow> 'a eng_scheme \<times> eng_err option" where
  "Migrate io s =
     (if io 0 \<or> io 1 then (s, Some EDB)
      else
        (let seqs = map v_Seq (filter (\<lambda>e. v_SourceNode e = g_nodeID s) (g_events s));
             s1 = (if seqs = [] then s else s\<lparr>g_seq := Max (set seqs)\<rparr>);
             nums = map (\<lambda>o'. obligation_num (o_ID o')) (filter (\<lambda>o'. o_SourceNode o' = g_nodeID s) (g_obligations s))
         in if io 2 then (s1, Some EDB)
            else (if nums = [] then s1 else s1\<lparr>g_oseq := Max (set nums)\<rparr>, None)))"

section \<open>Players\<close>

definition InsertPlayer :: "io \<Rightarrow> int \<Rightarrow> Player \<Rightarrow> string \<Rightarrow> 'a eng_scheme \<Rightarrow> 'a eng_scheme \<times> eng_err option" where
  "InsertPlayer io now p pwHash s =
     (if io 0 \<or> io 1 \<or> p_GlobalID p \<in> p_GlobalID ` set (g_players s)
         \<or> nocase (p_Name p) \<in> (nocase \<circ> p_Name) ` set (g_players s) then (s, Some EDB)
      else if io 2 \<or> p_GlobalID p \<in> tn_global_id ` set (g_turns s) \<or> io 3 then (s, Some EDB)
      else (s\<lparr>g_players := g_players s @ [Player.extend p \<lparr>p_pw_hash = pwHash\<rparr>],
              g_turns := g_turns s @ [\<lparr>tn_Actions = MainActionsPerDay, tn_Attacks = AttacksPerDay, tn_LastReset = now,
                tn_DayIndex = 0, tn_global_id = p_GlobalID p\<rparr>]\<rparr>, None))"

definition PlayerByName :: "bool \<Rightarrow> string \<Rightarrow> 'a eng_scheme \<Rightarrow> eng_err + (Player \<times> string)" where
  "PlayerByName fault name s =
     (if fault then Inl EDB
      else case find (\<lambda>p. nocase (p_Name p) = nocase name) (g_players s) of
        None \<Rightarrow> Inl ENoRows | Some p \<Rightarrow> Inr (Player.truncate p, p_pw_hash p))"

definition playerByID :: "bool \<Rightarrow> string \<Rightarrow> 'a eng_scheme \<Rightarrow> eng_err + (Player \<times> string)" where
  "playerByID fault globalID s =
     (if fault then Inl EDB
      else case find (\<lambda>p. p_GlobalID p = globalID) (g_players s) of
        None \<Rightarrow> Inl ENoRows | Some p \<Rightarrow> Inr (Player.truncate p, p_pw_hash p))"

definition SetPlayerStatus :: "bool \<Rightarrow> string \<Rightarrow> string \<Rightarrow> 'a eng_scheme \<Rightarrow> 'a eng_scheme \<times> eng_err option" where
  "SetPlayerStatus fault globalID status s =
     (if fault then (s, Some EDB)
      else (s\<lparr>g_players := upd_where (\<lambda>p. p_GlobalID p = globalID) (\<lambda>p. p\<lparr>p_Status := status\<rparr>) (g_players s)\<rparr>, None))"

definition TouchLastSeen :: "bool \<Rightarrow> int \<Rightarrow> string \<Rightarrow> 'a eng_scheme \<Rightarrow> 'a eng_scheme \<times> eng_err option" where
  "TouchLastSeen fault now globalID s =
     (if fault then (s, Some EDB)
      else (s\<lparr>g_players := upd_where (\<lambda>p. p_GlobalID p = globalID) (\<lambda>p. p\<lparr>p_LastSeen := now\<rparr>) (g_players s)\<rparr>, None))"

definition LocalPlayers :: "bool \<Rightarrow> 'a eng_scheme \<Rightarrow> eng_err + Player list" where
  "LocalPlayers fault s =
     (if fault then Inl EDB
      else Inr (sort_key p_Name (map Player.truncate (filter (\<lambda>p. p_HomeNode p = g_nodeID s) (g_players s)))))"

text \<open>The union of both tables, ordered by name (\<open>UNION ALL\<close> keeps the order of its parts).\<close>

definition Players :: "bool \<Rightarrow> string \<Rightarrow> 'a eng_scheme \<Rightarrow> eng_err + Player list" where
  "Players fault excludeID s =
     (if fault then Inl EDB
      else Inr (sort_key p_Name (map Player.truncate (filter (\<lambda>p. p_GlobalID p \<noteq> excludeID) (g_players s)) @ g_remote s)))"

fun remote_insert :: "io \<Rightarrow> nat \<Rightarrow> Player list \<Rightarrow> Player list \<Rightarrow> Player list option" where
  "remote_insert io k [] rs = Some rs"
| "remote_insert io k (p # ps) rs =
     (if io k \<or> p_GlobalID p \<in> p_GlobalID ` set rs then None
      else remote_insert io (Suc k) ps (rs @ [p\<lparr>p_Standing := 0, p_CreatedAt := 0\<rparr>]))"

definition UpsertRemoteRoster :: "io \<Rightarrow> Player list \<Rightarrow> 'a eng_scheme \<Rightarrow> 'a eng_scheme \<times> eng_err option" where
  "UpsertRemoteRoster io entries s =
     (if io 0 \<or> io 1 then (s, Some EDB)
      else case remote_insert io 2 entries [] of
        None \<Rightarrow> (s, Some EDB)
      | Some rs \<Rightarrow> if io (2 + length entries) then (s, Some EDB) else (s\<lparr>g_remote := rs\<rparr>, None))"

section \<open>Turns\<close>

definition LoadTurn :: "bool \<Rightarrow> string \<Rightarrow> 'a eng_scheme \<Rightarrow> eng_err + Turn" where
  "LoadTurn fault globalID s =
     (if fault then Inl EDB
      else case find (\<lambda>t. tn_global_id t = globalID) (g_turns s) of
        None \<Rightarrow> Inl ENoRows | Some t \<Rightarrow> Inr (Turn.truncate t))"

text \<open>\<open>turn, _ :=\<close>: a failed query leaves the zero value.\<close>

definition turn_of :: "bool \<Rightarrow> string \<Rightarrow> 'a eng_scheme \<Rightarrow> Turn" where
  "turn_of fault gid s = (case LoadTurn fault gid s of
     Inl _ \<Rightarrow> \<lparr>tn_Actions = 0, tn_Attacks = 0, tn_LastReset = 0, tn_DayIndex = 0\<rparr> | Inr t \<Rightarrow> t)"

text \<open>\<open>sameDay\<close> compares calendar dates in the server's zone, whose offset from UTC at an instant
  is the parameter \<open>zone\<close>.\<close>

definition sameDay :: "(int \<Rightarrow> int) \<Rightarrow> int \<Rightarrow> int \<Rightarrow> bool" where
  "sameDay zone a b \<longleftrightarrow> (a + zone a) div 86400 = (b + zone b) div 86400"

definition ResetIfNewDay :: "(int \<Rightarrow> int) \<Rightarrow> io \<Rightarrow> int \<Rightarrow> string \<Rightarrow> 'a eng_scheme \<Rightarrow> 'a eng_scheme \<times> bool \<times> eng_err option" where
  "ResetIfNewDay zone io now globalID s =
     (case LoadTurn (io 0) globalID s of
        Inl e \<Rightarrow> (s, False, Some e)
      | Inr t \<Rightarrow>
          if sameDay zone (tn_LastReset t) now then (s, False, None)
          else if io 1 then (s, False, Some EDB)
          else (s\<lparr>g_turns := upd_where (\<lambda>t. tn_global_id t = globalID)
                  (\<lambda>t. t\<lparr>tn_Actions := MainActionsPerDay, tn_Attacks := AttacksPerDay, tn_LastReset := now,
                          tn_DayIndex := tn_DayIndex t + 1\<rparr>) (g_turns s)\<rparr>, True, None))"

definition SpendActions :: "bool \<Rightarrow> string \<Rightarrow> int \<Rightarrow> 'a eng_scheme \<Rightarrow> 'a eng_scheme \<times> eng_err option" where
  "SpendActions fault globalID n s =
     (let P = (\<lambda>t. tn_global_id t = globalID \<and> tn_Actions t \<ge> n) in
      if fault then (s, Some EDB)
      else if rows_where P (g_turns s) = 0 then (s, Some (EMsg ''not enough actions''))
      else (s\<lparr>g_turns := upd_where P (\<lambda>t. t\<lparr>tn_Actions := tn_Actions t - n\<rparr>) (g_turns s)\<rparr>, None))"

definition SpendAttack :: "bool \<Rightarrow> string \<Rightarrow> 'a eng_scheme \<Rightarrow> 'a eng_scheme \<times> eng_err option" where
  "SpendAttack fault globalID s =
     (let P = (\<lambda>t. tn_global_id t = globalID \<and> tn_Attacks t \<ge> 1) in
      if fault then (s, Some EDB)
      else if rows_where P (g_turns s) = 0 then (s, Some (EMsg ''no attacks left''))
      else (s\<lparr>g_turns := upd_where P (\<lambda>t. t\<lparr>tn_Attacks := tn_Attacks t - 1\<rparr>) (g_turns s)\<rparr>, None))"

section \<open>Local events\<close>

text \<open>The payloads the program emits always marshal; \<open>body\<close> is the marshalled object.\<close>

definition Emit :: "bool \<Rightarrow> int \<Rightarrow> string \<Rightarrow> json \<Rightarrow> 'a eng_scheme \<Rightarrow> 'a eng_scheme \<times> eng_err option" where
  "Emit fault now typ body s =
     (let q = g_seq s + 1;
          s1 = s\<lparr>g_seq := q\<rparr>;
          eventID = g_nodeID s @ '':'' @ show_int q
      in if fault \<or> eventID \<in> v_EventID ` set (g_events s) then (s1, Some EDB)
         else (s1\<lparr>g_events := g_events s @ [\<lparr>v_EventID = eventID, v_SourceNode = g_nodeID s, v_Seq = q, v_Type = typ,
                 v_TS = now, v_Payload = Some body\<rparr>]\<rparr>, None))"

section \<open>Accounts\<close>

definition validName :: "string \<Rightarrow> eng_err option" where
  "validName name =
     (if length name < 3 \<or> length name > 16 then Some (EMsg ''name must be 3-16 characters'')
      else if \<not> list_all (\<lambda>c. 0x20 \<le> (of_char c :: nat) \<and> (of_char c :: nat) < 0x7f) name
        then Some (EMsg ''name must be printable ASCII'')
      else None)"

text \<open>
  bcrypt is not part of the repository: \<open>bc_gen\<close> and \<open>bc_cmp\<close> stand for \<open>GenerateFromPassword\<close>
  (with its salt drawn) and \<open>CompareHashAndPassword\<close>. \<open>newID\<close> is the lower-case base32 of five
  random bytes.
\<close>

record bcrypt =
  bc_gen :: "string \<Rightarrow> string option"
  bc_cmp :: "string \<Rightarrow> string \<Rightarrow> bool"

definition b32_char :: "nat \<Rightarrow> char" where
  "b32_char n = (if n < 26 then char_of (97 + n) else char_of (24 + n))"

definition newID :: "nat \<Rightarrow> nat \<Rightarrow> nat \<Rightarrow> nat \<Rightarrow> nat \<Rightarrow> string" where
  "newID a b c d e = map b32_char
     [a div 8, a mod 8 * 4 + b div 64, b div 2 mod 32, b mod 2 * 16 + c div 16, c mod 16 * 2 + d div 128,
      d div 4 mod 32, d mod 4 * 8 + e div 32, e mod 32]"

definition CreateAccount :: "bcrypt \<Rightarrow> io \<Rightarrow> int \<Rightarrow> string \<Rightarrow> string \<Rightarrow> string \<Rightarrow> 'a eng_scheme
    \<Rightarrow> 'a eng_scheme \<times> (eng_err + Player)" where
  "CreateAccount bc io now newid name0 password s =
     (let name = trim_space name0 in
      case validName name of
        Some e \<Rightarrow> (s, Inl e)
      | None \<Rightarrow>
          if length password < 4 then (s, Inl (EMsg ''password must be at least 4 characters''))
          else case bc_gen bc password of
            None \<Rightarrow> (s, Inl (EMsg ''bcrypt''))
          | Some hash \<Rightarrow>
              (let p = \<lparr>p_GlobalID = g_nodeID s @ '':p_'' @ newid, p_Name = name, p_HomeNode = g_nodeID s, p_Level = 1,
                        p_Standing = 0, p_Status = ''active'', p_CreatedAt = now, p_LastSeen = now\<rparr>
               in case InsertPlayer io now p hash s of
                    (s1, Some e) \<Rightarrow> (s1, Inl e)
                  | (s1, None) \<Rightarrow>
                      (fst (Emit (io 4) now ''player.created'' (JObj
                         [(''created_at'', JInt now), (''global_id'', JStr (p_GlobalID p)),
                          (''home_node'', JStr (p_HomeNode p)), (''name'', JStr (p_Name p))]) s1), Inr p)))"

definition Authenticate :: "bcrypt \<Rightarrow> bool \<Rightarrow> string \<Rightarrow> string \<Rightarrow> 'a eng_scheme \<Rightarrow> Player option" where
  "Authenticate bc fault name password s =
     (case PlayerByName fault (trim_space name) s of
        Inl _ \<Rightarrow> None
      | Inr (p, hash) \<Rightarrow> if bc_cmp bc hash password then Some p else None)"

section \<open>Sync state\<close>

definition SyncState :: "bool \<Rightarrow> 'a eng_scheme \<Rightarrow> eng_err + (int \<times> int \<times> string)" where
  "SyncState fault s = (if fault then Inl EDB
     else Inr (y_hub_cursor (g_sync s), y_last_pushed (g_sync s), y_api_key (g_sync s)))"

definition SetHubCursor :: "bool \<Rightarrow> int \<Rightarrow> 'a eng_scheme \<Rightarrow> 'a eng_scheme \<times> eng_err option" where
  "SetHubCursor fault c s = (if fault then (s, Some EDB) else (s\<lparr>g_sync := (g_sync s)\<lparr>y_hub_cursor := c\<rparr>\<rparr>, None))"

definition SetPushCursor :: "bool \<Rightarrow> int \<Rightarrow> 'a eng_scheme \<Rightarrow> 'a eng_scheme \<times> eng_err option" where
  "SetPushCursor fault c s = (if fault then (s, Some EDB) else (s\<lparr>g_sync := (g_sync s)\<lparr>y_last_pushed := c\<rparr>\<rparr>, None))"

definition SetAPIKey :: "bool \<Rightarrow> string \<Rightarrow> 'a eng_scheme \<Rightarrow> 'a eng_scheme \<times> eng_err option" where
  "SetAPIKey fault k s = (if fault then (s, Some EDB) else (s\<lparr>g_sync := (g_sync s)\<lparr>y_api_key := k\<rparr>\<rparr>, None))"

section \<open>Well-formedness\<close>

text \<open>
  Keys and unique columns are unique, a player has a turn row, budgets are within the daily
  allowance, and the node's own events are numbered by position: the k-th has sequence number at
  most the counter, and its id is the node id with that number.
\<close>

definition own_events :: "'a eng_scheme \<Rightarrow> Event list" where
  "own_events s = filter (\<lambda>e. v_SourceNode e = g_nodeID s) (g_events s)"

definition eng_wf :: "'a eng_scheme \<Rightarrow> bool" where
  "eng_wf s \<longleftrightarrow>
     distinct (map p_GlobalID (g_players s)) \<and> distinct (map (nocase \<circ> p_Name) (g_players s))
     \<and> distinct (map tn_global_id (g_turns s))
     \<and> p_GlobalID ` set (g_players s) \<subseteq> tn_global_id ` set (g_turns s)
     \<and> (\<forall>t \<in> set (g_turns s). 0 \<le> tn_Actions t \<and> tn_Actions t \<le> MainActionsPerDay
          \<and> 0 \<le> tn_Attacks t \<and> tn_Attacks t \<le> AttacksPerDay)
     \<and> distinct (map v_EventID (g_events s))
     \<and> distinct (map (\<lambda>r. (hs_event_id r, hs_index r)) (g_hstate s))
     \<and> distinct (map o_ID (g_obligations s))
     \<and> distinct (map p_GlobalID (g_remote s))"

definition eng_empty :: "string \<Rightarrow> eng" where
  "eng_empty nodeID = \<lparr>g_nodeID = nodeID, g_seq = 0, g_oseq = 0, g_players = [], g_turns = [], g_events = [],
     g_hstate = [], g_obligations = [], g_sync = \<lparr>y_hub_cursor = 0, y_last_pushed = 0, y_api_key = []\<rparr>, g_remote = []\<rparr>"

lemma eng_wf_empty: "eng_wf (eng_empty n)"
  by (simp add: eng_wf_def eng_empty_def)

lemma eng_wf_frame [simp]:
  "eng_wf (s\<lparr>g_seq := q\<rparr>) = eng_wf s" "eng_wf (s\<lparr>g_oseq := q\<rparr>) = eng_wf s" "eng_wf (s\<lparr>g_sync := y\<rparr>) = eng_wf s"
  by (simp_all add: eng_wf_def)

lemma budget_bounds [simp]: "0 \<le> MainActionsPerDay" "0 \<le> AttacksPerDay"
  by (simp_all add: MainActionsPerDay_def AttacksPerDay_def)

lemma extend_simps [simp]:
  "p_GlobalID (Player.extend p r) = p_GlobalID p" "p_Name (Player.extend p r) = p_Name p"
  "p_HomeNode (Player.extend p r) = p_HomeNode p" "p_Status (Player.extend p r) = p_Status p"
  "p_pw_hash (Player.extend p \<lparr>p_pw_hash = h\<rparr>) = h" "Player.truncate (Player.extend p r) = p"
  by (simp_all add: Player.extend_def Player.truncate_def)

lemma Migrate_wf: "eng_wf s \<Longrightarrow> eng_wf (fst (Migrate io s))"
  by (simp add: Migrate_def Let_def)

lemma InsertPlayer_wf: "eng_wf s \<Longrightarrow> eng_wf (fst (InsertPlayer io now p h s))"
  by (auto simp: InsertPlayer_def eng_wf_def)

lemma SetPlayerStatus_wf: "eng_wf s \<Longrightarrow> eng_wf (fst (SetPlayerStatus f i st s))"
  by (force simp: SetPlayerStatus_def eng_wf_def map_upd_where table_simps)

lemma TouchLastSeen_wf: "eng_wf s \<Longrightarrow> eng_wf (fst (TouchLastSeen f now i s))"
  by (force simp: TouchLastSeen_def eng_wf_def map_upd_where table_simps)

lemma remote_insert_distinct:
  "remote_insert io k ps rs = Some rs' \<Longrightarrow> distinct (map p_GlobalID rs) \<Longrightarrow> distinct (map p_GlobalID rs')"
  by (induction ps arbitrary: k rs) (auto split: if_splits)

lemma UpsertRemoteRoster_wf: "eng_wf s \<Longrightarrow> eng_wf (fst (UpsertRemoteRoster io es s))"
  by (auto simp: UpsertRemoteRoster_def eng_wf_def split: option.splits dest: remote_insert_distinct)

lemma turn_upd_wf:
  assumes "eng_wf s" and "\<And>t. P t \<Longrightarrow> t \<in> set (g_turns s) \<Longrightarrow> tn_global_id (f t) = tn_global_id t
      \<and> 0 \<le> tn_Actions (f t) \<and> tn_Actions (f t) \<le> MainActionsPerDay \<and> 0 \<le> tn_Attacks (f t) \<and> tn_Attacks (f t) \<le> AttacksPerDay"
  shows "eng_wf (s\<lparr>g_turns := upd_where P f (g_turns s)\<rparr>)"
proof -
  have "map tn_global_id (upd_where P f (g_turns s)) = map tn_global_id (g_turns s)"
    using assms(2) by (simp add: upd_where_def)
  moreover from this have "tn_global_id ` set (upd_where P f (g_turns s)) = tn_global_id ` set (g_turns s)"
    by (metis set_map)
  moreover have "\<forall>t \<in> set (upd_where P f (g_turns s)). 0 \<le> tn_Actions t \<and> tn_Actions t \<le> MainActionsPerDay
      \<and> 0 \<le> tn_Attacks t \<and> tn_Attacks t \<le> AttacksPerDay"
    using assms by (auto simp: table_simps eng_wf_def)
  ultimately show ?thesis
    using assms(1) by (simp add: eng_wf_def)
qed

lemma ResetIfNewDay_wf: "eng_wf s \<Longrightarrow> eng_wf (fst (ResetIfNewDay z io now i s))"
  by (auto simp: ResetIfNewDay_def split: sum.split intro!: turn_upd_wf)

lemma SpendActions_wf: "eng_wf s \<Longrightarrow> 0 \<le> n \<Longrightarrow> eng_wf (fst (SpendActions f i n s))"
  by (auto simp: SpendActions_def Let_def intro!: turn_upd_wf) (auto simp: eng_wf_def)

lemma SpendAttack_wf: "eng_wf s \<Longrightarrow> eng_wf (fst (SpendAttack f i s))"
  by (auto simp: SpendAttack_def Let_def intro!: turn_upd_wf) (auto simp: eng_wf_def)

lemma Emit_wf: "eng_wf s \<Longrightarrow> eng_wf (fst (Emit f now ty b s))"
  by (auto simp: Emit_def eng_wf_def Let_def)

lemma CreateAccount_wf: "eng_wf s \<Longrightarrow> eng_wf (fst (CreateAccount bc io now i n pw s))"
proof -
  assume "eng_wf s"
  then have "eng_wf s1" if "InsertPlayer io now p h s = (s1, e)" for p h s1 e
    using InsertPlayer_wf [of s io now p h] that by simp
  then show ?thesis
    using \<open>eng_wf s\<close> by (auto simp: CreateAccount_def Let_def split: option.split prod.split intro!: Emit_wf)
qed

lemma sync_wf [simp]:
  "eng_wf (fst (SetHubCursor f c s)) = eng_wf s" "eng_wf (fst (SetPushCursor f c s)) = eng_wf s"
  "eng_wf (fst (SetAPIKey f k s)) = eng_wf s"
  by (simp_all add: SetHubCursor_def SetPushCursor_def SetAPIKey_def)

section \<open>Accounts: properties\<close>

lemma find_snoc_new: "\<forall>x \<in> set xs. \<not> P x \<Longrightarrow> P y \<Longrightarrow> find P (xs @ [y]) = Some y"
  by (induction xs) auto

lemma CreateAccount_Inr:
  assumes "CreateAccount bc io now i n pw s = (s1, Inr p)"
  obtains h where "bc_gen bc pw = Some h" "validName (trim_space n) = None" "4 \<le> length pw"
    "p_Name p = trim_space n" "p_HomeNode p = g_nodeID s" "p_Status p = ''active''"
    "InsertPlayer io now p h s = (s\<lparr>g_players := g_players s @ [Player.extend p \<lparr>p_pw_hash = h\<rparr>],
       g_turns := g_turns s @ [\<lparr>tn_Actions = MainActionsPerDay, tn_Attacks = AttacksPerDay, tn_LastReset = now,
         tn_DayIndex = 0, tn_global_id = p_GlobalID p\<rparr>]\<rparr>, None)"
    "g_players s1 = g_players s @ [Player.extend p \<lparr>p_pw_hash = h\<rparr>]"
    "\<forall>q \<in> set (g_players s). nocase (p_Name q) \<noteq> nocase (p_Name p)"
proof -
  have ok: "validName (trim_space n) = None" "\<not> length pw < 4" "bc_gen bc pw \<noteq> None"
    using assms by (auto simp: CreateAccount_def Let_def split: option.splits if_splits)
  then obtain h where h: "bc_gen bc pw = Some h" by auto
  have p: "p_Name p = trim_space n" "p_HomeNode p = g_nodeID s" "p_Status p = ''active''"
    and ins: "snd (InsertPlayer io now p h s) = None"
    and s1: "\<exists>f b. s1 = fst (Emit f now ''player.created'' b (fst (InsertPlayer io now p h s)))"
    using assms ok h by (auto simp: CreateAccount_def Let_def split: option.splits prod.splits)
  have row: "InsertPlayer io now p h s = (s\<lparr>g_players := g_players s @ [Player.extend p \<lparr>p_pw_hash = h\<rparr>],
       g_turns := g_turns s @ [\<lparr>tn_Actions = MainActionsPerDay, tn_Attacks = AttacksPerDay, tn_LastReset = now,
         tn_DayIndex = 0, tn_global_id = p_GlobalID p\<rparr>]\<rparr>, None)"
    "nocase (p_Name p) \<notin> (nocase \<circ> p_Name) ` set (g_players s)"
    using ins by (auto simp: InsertPlayer_def split: if_splits)
  then have fresh: "\<forall>q \<in> set (g_players s). nocase (p_Name q) \<noteq> nocase (p_Name p)"
    by (metis comp_apply image_eqI)
  have "g_players s1 = g_players s @ [Player.extend p \<lparr>p_pw_hash = h\<rparr>]"
    using s1 row by (auto simp: Emit_def Let_def)
  then show ?thesis using that h ok p row(1) fresh by auto
qed

text \<open>C35: a new account can log in. After it was created, its password authenticates it under its
  name in any upper and lower case, a password that does not match its hash does not, and every
  account that could log in before still can.\<close>

theorem account_can_login:
  assumes "CreateAccount bc io now i n pw s = (s1, Inr p)"
    and bcrypt: "\<And>x h. bc_gen bc x = Some h \<Longrightarrow> bc_cmp bc h x"
    and "nocase (trim_space n') = nocase (trim_space n)"
  shows "Authenticate bc False n' pw s1 = Some p
    \<and> (\<forall>x. (\<forall>h. bc_gen bc pw = Some h \<longrightarrow> \<not> bc_cmp bc h x) \<longrightarrow> Authenticate bc False n' x s1 = None)
    \<and> (\<forall>m x q. Authenticate bc False m x s = Some q \<longrightarrow> Authenticate bc False m x s1 = Some q)"
proof -
  obtain h where h: "bc_gen bc pw = Some h" "p_Name p = trim_space n"
    "g_players s1 = g_players s @ [Player.extend p \<lparr>p_pw_hash = h\<rparr>]"
    "\<forall>q \<in> set (g_players s). nocase (p_Name q) \<noteq> nocase (p_Name p)"
    using assms(1) by (rule CreateAccount_Inr)
  have "PlayerByName False (trim_space n') s1 = Inr (p, h)"
    using h(2-4) assms(3) find_snoc_new [of "g_players s" "\<lambda>q. nocase (p_Name q) = nocase (trim_space n')"]
    by (simp add: PlayerByName_def)
  moreover have "PlayerByName False m s1 = Inr x" if "PlayerByName False m s = Inr x" for m x
    using that h(3) by (auto simp: PlayerByName_def find_append split: option.splits)
  ultimately show ?thesis
    using h(1) bcrypt by (auto simp: Authenticate_def split: sum.splits prod.splits if_splits)
qed

section \<open>Turns: properties\<close>

text \<open>C36: the daily budget is refreshed at most once a calendar day, without rollover: after a
  call that succeeded the player's budget was last reset on that day, and any further call on the
  same day changes nothing; a refresh sets exactly the daily allowance.\<close>

theorem reset_once_a_day:
  assumes "eng_wf s" and "ResetIfNewDay zone io now i s = (s1, b, None)" and "sameDay zone now now'"
  shows "ResetIfNewDay zone no_io now' i s1 = (s1, False, None)
    \<and> (b \<longrightarrow> (\<exists>t. LoadTurn False i s1 = Inr t \<and> tn_Actions t = MainActionsPerDay \<and> tn_Attacks t = AttacksPerDay))
    \<and> (\<not> b \<longrightarrow> s1 = s)"
proof -
  obtain t where t: "find (\<lambda>t. tn_global_id t = i) (g_turns s) = Some t"
    using assms(2) by (auto simp: ResetIfNewDay_def LoadTurn_def split: if_splits option.splits)
  let ?f = "\<lambda>t. t\<lparr>tn_Actions := MainActionsPerDay, tn_Attacks := AttacksPerDay, tn_LastReset := now,
      tn_DayIndex := tn_DayIndex t + 1\<rparr>"
  have after: "find (\<lambda>t. tn_global_id t = i) (upd_where (\<lambda>t. tn_global_id t = i) ?f ts)
      = map_option ?f (find (\<lambda>t. tn_global_id t = i) ts)" for ts
    by (induction ts) (auto simp: upd_where_def)
  show ?thesis
  proof (cases b)
    case True
    then have s1: "s1 = s\<lparr>g_turns := upd_where (\<lambda>t. tn_global_id t = i) ?f (g_turns s)\<rparr>"
      using assms(2) by (auto simp: ResetIfNewDay_def split: sum.splits if_splits)
    have "LoadTurn False i s1 = Inr (Turn.truncate (?f t))"
      by (simp add: s1 LoadTurn_def after t)
    then show ?thesis
      using True assms(3) by (simp add: ResetIfNewDay_def Turn.truncate_def)
  next
    case False
    then have "s1 = s" "sameDay zone (tn_LastReset t) now"
      using assms(2) t by (auto simp: ResetIfNewDay_def LoadTurn_def Turn.truncate_def split: if_splits)
    then show ?thesis
      using False t assms(3) by (simp add: ResetIfNewDay_def LoadTurn_def Turn.truncate_def sameDay_def)
  qed
qed

section \<open>Restart: properties\<close>

lemma digits_takeWhile: "takeWhile is_digit (show_nat n) = show_nat n"
  using show_nat_digits [of n] by (simp add: list_all_iff)

lemma clamp64_id: "in_int64 i \<Longrightarrow> clamp64 i = i"
  by (simp add: clamp64_def in_int64_def)

lemma cast_show: "in_int64 (int k) \<Longrightarrow> sql_cast_int (show_nat k) = int k"
proof -
  assume "in_int64 (int k)"
  obtain c cs where c: "show_nat k = c # cs" "is_digit c"
    using show_nat_digits [of k] show_nat_nonempty [of k] by (cases "show_nat k") auto
  have "c \<notin> {CHR '' '', CHR 0x09, CHR 0x0A, CHR 0x0B, CHR 0x0C, CHR 0x0D}" "c \<noteq> CHR ''-''" "c \<noteq> CHR ''+''"
    using c(2) by (auto simp: is_digit_def)
  then show ?thesis
    using c(1) \<open>in_int64 (int k)\<close> digits_takeWhile [of k] show_nat_val [of k]
    by (simp add: sql_cast_int_def Let_def clamp64_id)
qed

lemma find_sub_colon:
  "CHR '':'' \<notin> set n \<Longrightarrow> find_sub (CHR '':'' # p) (n @ CHR '':'' # p @ r) = Some (length n)"
  by (induction n) (auto simp: has_prefix_def)

text \<open>The number of an obligation the node created is read back from its id.\<close>

lemma obligation_num_own:
  assumes "CHR '':'' \<notin> set n" and "0 \<le> k" and "in_int64 k"
  shows "obligation_num (n @ '':o_'' @ show_int k) = k"
proof -
  have "sql_instr (n @ '':o_'' @ show_int k) '':o_'' = Suc (length n)"
    using find_sub_colon [OF assms(1), of "''o_''" "show_int k"] by (simp add: sql_instr_def)
  moreover have "show_int k = show_nat (nat k)"
    using assms(2) by (simp add: show_int_def)
  ultimately show ?thesis
    using assms(2,3) cast_show [of "nat k"] by (simp add: obligation_num_def sql_substr_def)
qed

text \<open>What a restart relies on: the node's own rows carry its counters in their ids, and no foreign
  row uses an id of the node.\<close>

definition own_ids :: "'a eng_scheme \<Rightarrow> bool" where
  "own_ids s \<longleftrightarrow> CHR '':'' \<notin> set (g_nodeID s)
     \<and> (\<forall>e \<in> set (g_events s). if v_SourceNode e = g_nodeID s then v_EventID e = g_nodeID s @ '':'' @ show_int (v_Seq e)
          else \<not> has_prefix (v_EventID e) (g_nodeID s @ '':''))
     \<and> (\<forall>x \<in> set (g_obligations s). if o_SourceNode x = g_nodeID s
          then \<exists>k \<ge> 0. in_int64 k \<and> o_ID x = g_nodeID s @ '':o_'' @ show_int k
          else \<not> has_prefix (o_ID x) (g_nodeID s @ '':o_''))"

lemma next_notin: "(if xs = [] then 0 else Max (set xs)) + 1 \<notin> set xs" for xs :: "int list"
  using Max_ge [of "set xs" "Max (set xs) + 1"] by (cases "xs = []") auto

text \<open>A restart never reuses an id. After the migration has resumed the counters from the tables,
  the id of the next event and of the next obligation are not in them, although every counter was
  lost with the process.\<close>

theorem restart_ids_fresh:
  assumes "own_ids s" and "g_seq s = 0" and "g_oseq s = 0"
  defines "s1 \<equiv> fst (Migrate no_io s)"
  shows "snd (Migrate no_io s) = None
    \<and> g_nodeID s1 @ '':'' @ show_int (g_seq s1 + 1) \<notin> v_EventID ` set (g_events s1)
    \<and> g_nodeID s1 @ '':o_'' @ show_int (g_oseq s1 + 1) \<notin> o_ID ` set (g_obligations s1)"
proof -
  let ?n = "g_nodeID s"
  have colon: "CHR '':'' \<notin> set ?n"
    using assms(1) by (simp add: own_ids_def)
  let ?seqs = "map v_Seq (filter (\<lambda>e. v_SourceNode e = ?n) (g_events s))"
  let ?nums = "map (\<lambda>x. obligation_num (o_ID x)) (filter (\<lambda>x. o_SourceNode x = ?n) (g_obligations s))"
  have s1: "g_events s1 = g_events s" "g_obligations s1 = g_obligations s" "g_nodeID s1 = ?n"
    "g_seq s1 = (if ?seqs = [] then 0 else Max (set ?seqs))" "g_oseq s1 = (if ?nums = [] then 0 else Max (set ?nums))"
    using assms(2,3) by (simp_all add: s1_def Migrate_def Let_def)
  have n1: "g_seq s1 + 1 \<notin> set ?seqs" and n2: "g_oseq s1 + 1 \<notin> set ?nums"
    unfolding s1(4,5) by (rule next_notin)+
  have num: "g_oseq s1 + 1 \<noteq> obligation_num (o_ID x)" if "x \<in> set (g_obligations s)" "o_SourceNode x = ?n" for x
    using n2 that by force
  have "v_EventID e \<noteq> ?n @ '':'' @ show_int (g_seq s1 + 1)" if "e \<in> set (g_events s)" for e
  proof (cases "v_SourceNode e = ?n")
    case True
    then have "v_EventID e = ?n @ '':'' @ show_int (v_Seq e)"
      using that assms(1) by (simp add: own_ids_def)
    moreover have "g_seq s1 + 1 \<noteq> v_Seq e"
      using n1 that True by force
    ultimately show ?thesis by (simp add: show_int_inj)
  next
    case False
    then have "\<not> has_prefix (v_EventID e) (?n @ '':'')"
      using that assms(1) by (simp add: own_ids_def)
    then show ?thesis by (auto simp: has_prefix_append)
  qed
  moreover have "o_ID x \<noteq> ?n @ '':o_'' @ show_int (g_oseq s1 + 1)" if x: "x \<in> set (g_obligations s)" for x
  proof (cases "o_SourceNode x = ?n")
    case True
    then obtain k where "0 \<le> k" "in_int64 k" "o_ID x = ?n @ '':o_'' @ show_int k"
      using x assms(1) unfolding own_ids_def by metis
    then show ?thesis
      using num [OF x True] obligation_num_own [of ?n k] colon by (auto simp: show_int_inj)
  next
    case False
    then have "\<not> has_prefix (o_ID x) (?n @ '':o_'')"
      using x assms(1) by (simp add: own_ids_def)
    then show ?thesis by (auto simp: has_prefix_append)
  qed
  ultimately have "?n @ '':'' @ show_int (g_seq s1 + 1) \<notin> v_EventID ` set (g_events s)"
    "?n @ '':o_'' @ show_int (g_oseq s1 + 1) \<notin> o_ID ` set (g_obligations s)"
    by (metis imageE)+
  then show ?thesis
    by (simp add: s1(1-3) Migrate_def Let_def)
qed

end
