(* ===== verification/Engine_Events.thy ===== *)
theory Engine_Events
  imports Engine_Store
begin

text \<open>
  The event log and what rides on it: \<open>internal/engine/eventlog.go\<close> (intake of foreign events
  with per-handler status), \<open>obligations.go\<close> (debts and the handlers that replicate them) and
  \<open>snapshot.go\<close> (portable characters). The handler registry is built at startup and is an
  argument of the intake; a handler gets the fault schedule of its own statements.
\<close>

section \<open>Event log\<close>

type_synonym 's handler = "io \<Rightarrow> Event \<Rightarrow> 's \<Rightarrow> 's \<times> eng_err option"
type_synonym 's registry = "string \<Rightarrow> 's handler list"

definition OnEvent :: "string \<Rightarrow> 's handler \<Rightarrow> 's registry \<Rightarrow> 's registry" where
  "OnEvent typ h H = H(typ := H typ @ [h])"

definition EventsSince :: "bool \<Rightarrow> string \<Rightarrow> int \<Rightarrow> 'a eng_scheme \<Rightarrow> eng_err + Event list" where
  "EventsSince fault sourceNode afterSeq s =
     (if fault then Inl EDB
      else Inr (sort_key v_Seq (filter (\<lambda>e. v_SourceNode e = sourceNode \<and> v_Seq e > afterSeq) (g_events s))))"

text \<open>The faults of one intake: its insert, and for the i-th handler the status query, the status
  update and the handler's own statements.\<close>

record apply_io =
  ai_insert :: bool
  ai_check :: io
  ai_mark :: io
  ai_handler :: "nat \<Rightarrow> io"

definition apply_calm :: apply_io where
  "apply_calm = \<lparr>ai_insert = False, ai_check = no_io, ai_mark = no_io, ai_handler = (\<lambda>_. no_io)\<rparr>"

definition handlerApplied :: "string \<Rightarrow> nat \<Rightarrow> 'a eng_scheme \<Rightarrow> bool" where
  "handlerApplied eventID index s =
     (case find (\<lambda>r. hs_event_id r = eventID \<and> hs_index r = index) (g_hstate s) of
        None \<Rightarrow> False | Some r \<Rightarrow> hs_status r = ''applied'')"

definition markHandler :: "bool \<Rightarrow> int \<Rightarrow> string \<Rightarrow> nat \<Rightarrow> string \<Rightarrow> eng_err option \<Rightarrow> 'a eng_scheme
    \<Rightarrow> 'a eng_scheme \<times> eng_err option" where
  "markHandler fault now eventID index status msg s =
     (if fault then (s, Some EDB)
      else (s\<lparr>g_hstate := upsert (\<lambda>r. (hs_event_id r, hs_index r)) (\<lambda>_ new. new)
              \<lparr>hs_event_id = eventID, hs_index = index, hs_status = status, hs_error = msg, hs_updated_at = now\<rparr>
              (g_hstate s)\<rparr>, None))"

text \<open>The loop over the handlers from index i; \<open>retry\<close> is the branch for an event already stored,
  which skips handlers that are marked applied.\<close>

fun run_handlers :: "bool \<Rightarrow> apply_io \<Rightarrow> int \<Rightarrow> nat \<Rightarrow> 'a eng_scheme handler list \<Rightarrow> Event \<Rightarrow> 'a eng_scheme
    \<Rightarrow> 'a eng_scheme \<times> eng_err option" where
  "run_handlers retry io now i [] e s = (s, None)"
| "run_handlers retry io now i (h # hs) e s =
     (if retry \<and> ai_check io i then (s, Some EDB)
      else if retry \<and> handlerApplied (v_EventID e) i s then run_handlers retry io now (Suc i) hs e s
      else case h (ai_handler io i) e s of
        (s1, Some err) \<Rightarrow> (fst (markHandler (ai_mark io i) now (v_EventID e) i ''failed'' (Some err) s1), Some err)
      | (s1, None) \<Rightarrow>
          (case markHandler (ai_mark io i) now (v_EventID e) i ''applied'' None s1 of
             (s2, Some err) \<Rightarrow> (s2, Some err)
           | (s2, None) \<Rightarrow> run_handlers retry io now (Suc i) hs e s2))"

text \<open>The \<open>INSERT OR IGNORE\<close> of an event.\<close>

definition store_event :: "Event \<Rightarrow> 'a eng_scheme \<Rightarrow> 'a eng_scheme \<times> bool" where
  "store_event e s = (if v_EventID e \<in> v_EventID ` set (g_events s) then (s, False)
     else (s\<lparr>g_events := g_events s @ [e]\<rparr>, True))"

definition ApplyEvent :: "'a eng_scheme registry \<Rightarrow> apply_io \<Rightarrow> int \<Rightarrow> Event \<Rightarrow> 'a eng_scheme
    \<Rightarrow> 'a eng_scheme \<times> bool \<times> eng_err option" where
  "ApplyEvent H io now e s =
     (if ai_insert io then (s, False, Some EDB)
      else case store_event e s of (s1, new) \<Rightarrow>
        case run_handlers (\<not> new) io now 0 (H (v_Type e)) e s1 of (s2, err) \<Rightarrow> (s2, new, err))"

section \<open>Obligations\<close>

definition new_obligation :: "int \<Rightarrow> string \<Rightarrow> string \<Rightarrow> string \<Rightarrow> string \<Rightarrow> int \<Rightarrow> 'a eng_scheme \<Rightarrow> Obligation" where
  "new_obligation now creditor debtor kind terms weight s =
     \<lparr>o_ID = g_nodeID s @ '':o_'' @ show_int (g_oseq s + 1), o_SourceNode = g_nodeID s, o_Creditor = creditor,
      o_Debtor = debtor, o_Kind = kind, o_Terms = terms, o_Weight = weight, o_Status = ''open'', o_CreatedAt = now\<rparr>"

definition debt_created_body :: "Obligation \<Rightarrow> json" where
  "debt_created_body x = JObj
     [(''creditor_ref'', JStr (o_Creditor x)), (''debtor_ref'', JStr (o_Debtor x)), (''kind'', JStr (o_Kind x)),
      (''obligation_id'', JStr (o_ID x)), (''source_node'', JStr (o_SourceNode x)), (''terms'', JStr (o_Terms x)),
      (''weight'', JInt (o_Weight x))]"

definition open_row :: "Obligation \<Rightarrow> obligation_row" where
  "open_row x = Obligation.extend x \<lparr>o_resolved_at = None, o_resolution = None\<rparr>"

definition CreateObligation :: "io \<Rightarrow> int \<Rightarrow> string \<Rightarrow> string \<Rightarrow> string \<Rightarrow> string \<Rightarrow> int \<Rightarrow> 'a eng_scheme
    \<Rightarrow> 'a eng_scheme \<times> (eng_err + Obligation)" where
  "CreateObligation io now creditor debtor kind terms weight s =
     (let ob = new_obligation now creditor debtor kind terms weight s;
          s1 = s\<lparr>g_oseq := g_oseq s + 1\<rparr>
      in if io 0 \<or> o_ID ob \<in> o_ID ` set (g_obligations s) then (s1, Inl EDB)
         else case Emit (io 1) now ''debt.created'' (debt_created_body ob)
                  (s1\<lparr>g_obligations := g_obligations s @ [open_row ob]\<rparr>) of
                (s3, Some e) \<Rightarrow> (s3, Inl e)
              | (s3, None) \<Rightarrow> (s3, Inr ob))"

text \<open>\<open>SUM\<close> over integers fails when a partial sum leaves the 64-bit range.\<close>

definition sum_ok :: "int list \<Rightarrow> bool" where
  "sum_ok xs \<longleftrightarrow> list_all (\<lambda>k. in_int64 (sum_list (take k xs))) [0..<Suc (length xs)]"

definition open_of :: "string \<Rightarrow> obligation_row \<Rightarrow> bool" where
  "open_of debtor o' \<longleftrightarrow> o_Debtor o' = debtor \<and> o_Status o' = ''open''"

definition DebtLoad :: "bool \<Rightarrow> string \<Rightarrow> 'a eng_scheme \<Rightarrow> eng_err + int" where
  "DebtLoad fault debtor s =
     (let ws = map o_Weight (filter (open_of debtor) (g_obligations s)) in
      if fault \<or> \<not> sum_ok ws then Inl EDB else Inr (sum_list ws))"

definition OpenDebts :: "bool \<Rightarrow> string \<Rightarrow> 'a eng_scheme \<Rightarrow> eng_err + Obligation list" where
  "OpenDebts fault debtor s =
     (if fault then Inl EDB
      else Inr (map Obligation.truncate (sort_key (\<lambda>o'. o_CreatedAt o')
             (sort_key (\<lambda>o'. o_ID o') (filter (open_of debtor) (g_obligations s))))))"

definition resolve :: "io \<Rightarrow> nat \<Rightarrow> int \<Rightarrow> string \<Rightarrow> string \<Rightarrow> 'a eng_scheme \<Rightarrow> 'a eng_scheme \<times> eng_err option" where
  "resolve io k now i resolution s =
     (if io k then (s, Some EDB)
      else Emit (io (Suc k)) now ''debt.resolved'' (JObj
             [(''obligation_id'', JStr i), (''resolution'', JStr resolution), (''resolved_at'', JInt now)])
             (s\<lparr>g_obligations := upd_where (\<lambda>o'. o_ID o' = i)
                (\<lambda>o'. o'\<lparr>o_Status := ''resolved'', o_resolved_at := Some now, o_resolution := Some resolution\<rparr>)
                (g_obligations s)\<rparr>))"

text \<open>The loop of \<open>PayDebt\<close> over the listed debts, with the amount left and the amount applied.\<close>

fun pay_loop :: "io \<Rightarrow> nat \<Rightarrow> int \<Rightarrow> Obligation list \<Rightarrow> int \<Rightarrow> int \<Rightarrow> 'a eng_scheme
    \<Rightarrow> 'a eng_scheme \<times> int \<times> eng_err option" where
  "pay_loop io k now [] amount applied s = (s, applied, None)"
| "pay_loop io k now (d # ds) amount applied s =
     (if amount \<le> 0 then (s, applied, None)
      else if amount \<ge> o_Weight d then
        (case resolve io k now (o_ID d) ''paid'' s of
           (s1, Some e) \<Rightarrow> (s1, applied, Some e)
         | (s1, None) \<Rightarrow>
             pay_loop io (k + 2) now ds (wrap64 (amount - o_Weight d)) (wrap64 (applied + o_Weight d)) s1)
      else if io k then (s, applied, Some EDB)
      else
        (let s1 = s\<lparr>g_obligations := upd_where (\<lambda>o'. o_ID o' = o_ID d)
                     (\<lambda>o'. o'\<lparr>o_Weight := o_Weight o' - amount\<rparr>) (g_obligations s)\<rparr>
         in case Emit (io (Suc k)) now ''debt.adjusted'' (JObj
                [(''delta'', JInt (- amount)), (''new_weight'', JInt (wrap64 (o_Weight d - amount))),
                 (''obligation_id'', JStr (o_ID d)), (''old_weight'', JInt (o_Weight d)),
                 (''reason'', JStr ''partial_payment'')]) s1 of
              (s2, Some e) \<Rightarrow> (s2, applied, Some e)
            | (s2, None) \<Rightarrow> pay_loop io (k + 2) now ds 0 (wrap64 (applied + amount)) s2))"

definition PayDebt :: "io \<Rightarrow> int \<Rightarrow> string \<Rightarrow> int \<Rightarrow> 'a eng_scheme \<Rightarrow> 'a eng_scheme \<times> int \<times> eng_err option" where
  "PayDebt io now debtor amount s =
     (case OpenDebts (io 0) debtor s of
        Inl e \<Rightarrow> (s, 0, Some e)
      | Inr debts \<Rightarrow> pay_loop io 1 now debts amount 0 s)"

text \<open>The three handlers of \<open>RegisterDebtHandlers\<close>; an empty payload does not decode.\<close>

definition on_debt_created :: "'a eng_scheme handler" where
  "on_debt_created io e s =
     (case v_Payload e of
        None \<Rightarrow> (s, Some EJSON)
      | Some j \<Rightarrow>
          (let f = (\<lambda>name. fld unm_string name j []); w = fld unm_int ''weight'' j 0;
               names = [''obligation_id'', ''source_node'', ''creditor_ref'', ''debtor_ref'', ''kind'', ''terms'']
           in if \<not> (list_all (\<lambda>n. snd (f n)) names \<and> snd w) then (s, Some EJSON)
              else if io 0 then (s, Some EDB)
              else (s\<lparr>g_obligations := insert_ignore o_ID
                      \<lparr>o_ID = fst (f ''obligation_id''), o_SourceNode = fst (f ''source_node''),
                       o_Creditor = fst (f ''creditor_ref''), o_Debtor = fst (f ''debtor_ref''),
                       o_Kind = fst (f ''kind''), o_Terms = fst (f ''terms''), o_Weight = fst w, o_Status = ''open'',
                       o_CreatedAt = v_TS e, o_resolved_at = None, o_resolution = None\<rparr> (g_obligations s)\<rparr>, None)))"

definition on_debt_resolved :: "'a eng_scheme handler" where
  "on_debt_resolved io e s =
     (case v_Payload e of
        None \<Rightarrow> (s, Some EJSON)
      | Some j \<Rightarrow>
          (let oid = fld unm_string ''obligation_id'' j []; r = fld unm_string ''resolution'' j []
           in if \<not> (snd oid \<and> snd r) then (s, Some EJSON)
              else if io 0 then (s, Some EDB)
              else (s\<lparr>g_obligations := upd_where (\<lambda>o'. o_ID o' = fst oid \<and> o_Status o' = ''open'')
                      (\<lambda>o'. o'\<lparr>o_Status := ''resolved'', o_resolved_at := Some (v_TS e), o_resolution := Some (fst r)\<rparr>)
                      (g_obligations s)\<rparr>, None)))"

definition on_debt_adjusted :: "'a eng_scheme handler" where
  "on_debt_adjusted io e s =
     (case v_Payload e of
        None \<Rightarrow> (s, Some EJSON)
      | Some j \<Rightarrow>
          (let oid = fld unm_string ''obligation_id'' j []; w = fld unm_int ''new_weight'' j 0
           in if \<not> (snd oid \<and> snd w) then (s, Some EJSON)
              else if io 0 then (s, Some EDB)
              else (s\<lparr>g_obligations := upd_where (\<lambda>o'. o_ID o' = fst oid \<and> o_Status o' = ''open'')
                      (\<lambda>o'. o'\<lparr>o_Weight := fst w\<rparr>) (g_obligations s)\<rparr>, None)))"

definition RegisterDebtHandlers :: "'a eng_scheme registry \<Rightarrow> 'a eng_scheme registry" where
  "RegisterDebtHandlers H =
     OnEvent ''debt.adjusted'' on_debt_adjusted (OnEvent ''debt.resolved'' on_debt_resolved
       (OnEvent ''debt.created'' on_debt_created H))"

section \<open>Snapshots\<close>

record Snapshot =
  sn_Version :: int
  sn_Player :: Player
  sn_PwHash :: string
  sn_GameID :: string
  sn_GameState :: raw

definition snapshotVersion :: int where
  "snapshotVersion = 1"

text \<open>The part of the \<open>Game\<close> interface the engine's snapshots use; a call gets the faults of the game's own
  statements.\<close>

record 's Game =
  gm_ID :: string
  gm_ExportState :: "io \<Rightarrow> string \<Rightarrow> 's \<Rightarrow> eng_err + raw"
  gm_ImportState :: "io \<Rightarrow> Player \<Rightarrow> raw \<Rightarrow> 's \<Rightarrow> 's \<times> eng_err option"

definition ExportPlayer :: "io \<Rightarrow> 'a eng_scheme Game \<Rightarrow> string \<Rightarrow> 'a eng_scheme \<Rightarrow> eng_err + Snapshot" where
  "ExportPlayer io g globalID s =
     (case playerByID (io 0) globalID s of
        Inl e \<Rightarrow> Inl e
      | Inr (p, hash) \<Rightarrow>
          (case gm_ExportState g (\<lambda>k. io (Suc k)) globalID s of
             Inl e \<Rightarrow> Inl e
           | Inr state \<Rightarrow> Inr \<lparr>sn_Version = snapshotVersion, sn_Player = p, sn_PwHash = hash, sn_GameID = gm_ID g,
                               sn_GameState = state\<rparr>))"

text \<open>The upsert of the visiting player: a conflict on the id updates the row (keeping
  \<open>created_at\<close>), a name another player has is an error.\<close>

definition import_row :: "Snapshot \<Rightarrow> 'a eng_scheme \<Rightarrow> player_row list option" where
  "import_row snap s =
     (let p = sn_Player snap in
      if \<exists>q \<in> set (g_players s). p_GlobalID q \<noteq> p_GlobalID p \<and> nocase (p_Name q) = nocase (p_Name p) then None
      else Some (upsert p_GlobalID (\<lambda>old new. new\<lparr>p_CreatedAt := p_CreatedAt old\<rparr>)
             (Player.extend p \<lparr>p_pw_hash = sn_PwHash snap\<rparr>) (g_players s)))"

definition ImportPlayer :: "io \<Rightarrow> int \<Rightarrow> 'a eng_scheme Game \<Rightarrow> Snapshot \<Rightarrow> 'a eng_scheme \<Rightarrow> 'a eng_scheme \<times> eng_err option" where
  "ImportPlayer io now g snap s =
     (if sn_Version snap \<noteq> snapshotVersion then (s, Some (EMsg (''unsupported snapshot version '' @ show_int (sn_Version snap))))
      else if sn_GameID snap \<noteq> gm_ID g then 
        (s, Some (EMsg (''snapshot game '' @ go_quote (sn_GameID snap) @ '' != node game '' @ go_quote (gm_ID g))))
      else case (if io 0 then None else import_row snap s) of
        None \<Rightarrow> (s, Some EDB)
      | Some ps \<Rightarrow>
          (let s1 = s\<lparr>g_players := ps\<rparr> in
           if io 1 then (s1, Some EDB)
           else gm_ImportState g (\<lambda>k. io (k + 4)) (sn_Player snap) (sn_GameState snap)
             (s1\<lparr>g_turns := insert_ignore tn_global_id
                \<lparr>tn_Actions = MainActionsPerDay, tn_Attacks = AttacksPerDay, tn_LastReset = now, tn_DayIndex = 0,
                 tn_global_id = p_GlobalID (sn_Player snap)\<rparr> (g_turns s1)\<rparr>)))"

section \<open>Well-formedness\<close>

lemma CreateObligation_fst:
  "fst (CreateObligation io now c d k t w s) =
     (let ob = new_obligation now c d k t w s; s1 = s\<lparr>g_oseq := g_oseq s + 1\<rparr>
      in if io 0 \<or> o_ID ob \<in> o_ID ` set (g_obligations s) then s1
         else fst (Emit (io 1) now ''debt.created'' (debt_created_body ob)
                (s1\<lparr>g_obligations := g_obligations s @ [open_row ob]\<rparr>)))"
  by (auto simp: CreateObligation_def Let_def split: prod.split option.split)

lemma CreateObligation_wf: "eng_wf s \<Longrightarrow> eng_wf (fst (CreateObligation io now c d k t w s))"
  by (auto simp: CreateObligation_fst Let_def intro!: Emit_wf)
    (auto simp: eng_wf_def open_row_def Obligation.extend_def)

lemma obl_upd_wf: "eng_wf s \<Longrightarrow> (\<And>o'. P o' \<Longrightarrow> o_ID (f o') = o_ID o') \<Longrightarrow> eng_wf (s\<lparr>g_obligations := upd_where P f (g_obligations s)\<rparr>)"
  by (simp add: eng_wf_def map_upd_where)

lemma resolve_wf: "eng_wf s \<Longrightarrow> eng_wf (fst (resolve io k now i r s))"
  by (simp add: resolve_def Emit_wf obl_upd_wf)

lemma pay_loop_wf: "eng_wf s \<Longrightarrow> eng_wf (fst (pay_loop io k now ds a b s))"
proof (induction ds arbitrary: k a b s)
  case (Cons d ds)
  have "eng_wf s1" if "resolve io k now i r s = (s1, x)" for i r s1 x
    using resolve_wf [OF Cons.prems, of io k now i r] that by simp
  moreover have "eng_wf s2"
    if "Emit f now ty b (s\<lparr>g_obligations := upd_where (\<lambda>o'. o_ID o' = i) (\<lambda>o'. o'\<lparr>o_Weight := o_Weight o' - a\<rparr>) (g_obligations s)\<rparr>)
      = (s2, x)" for f ty b i s2 x
    using Emit_wf [OF obl_upd_wf [OF Cons.prems, of "\<lambda>o'. o_ID o' = i" "\<lambda>o'. o'\<lparr>o_Weight := o_Weight o' - a\<rparr>"], of f now ty b] that
    by simp
  ultimately show ?case
    using Cons by (auto simp: Let_def split: prod.split option.split)
qed simp

lemma PayDebt_wf: "eng_wf s \<Longrightarrow> eng_wf (fst (PayDebt io now d a s))"
  by (auto simp: PayDebt_def pay_loop_wf split: sum.split)

lemma debt_handlers_wf:
  "eng_wf s \<Longrightarrow> eng_wf (fst (on_debt_created io e s))"
  "eng_wf s \<Longrightarrow> eng_wf (fst (on_debt_resolved io e s))"
  "eng_wf s \<Longrightarrow> eng_wf (fst (on_debt_adjusted io e s))"
  subgoal by (auto simp: on_debt_created_def Let_def eng_wf_def intro: distinct_insert_ignore split: option.split)
  subgoal by (auto simp: on_debt_resolved_def Let_def intro!: obl_upd_wf split: option.split)
  subgoal by (auto simp: on_debt_adjusted_def Let_def intro!: obl_upd_wf split: option.split)
  done

lemma markHandler_wf: "eng_wf s \<Longrightarrow> eng_wf (fst (markHandler f now i k st m s))"
  by (auto simp: markHandler_def eng_wf_def intro!: distinct_upsert)

lemma store_event_wf: "eng_wf s \<Longrightarrow> eng_wf (fst (store_event e s))"
  by (auto simp: store_event_def eng_wf_def)

lemma run_handlers_wf:
  assumes "\<And>h io e s. h \<in> set hs \<Longrightarrow> eng_wf s \<Longrightarrow> eng_wf (fst (h io e s))"
  shows "eng_wf s \<Longrightarrow> eng_wf (fst (run_handlers retry io now i hs e s))"
  using assms
proof (induction hs arbitrary: i s)
  case (Cons h hs)
  have h: "eng_wf (fst (h x e s))" for x
    using Cons.prems by simp
  have IH: "eng_wf t \<Longrightarrow> eng_wf (fst (run_handlers retry io now j hs e t))" for j t
    using Cons.prems(2) by (intro Cons.IH) simp_all
  obtain s1 r where s1: "h (ai_handler io i) e s = (s1, r)"
    by (cases "h (ai_handler io i) e s")
  then have wf1: "eng_wf s1"
    using h [of "ai_handler io i"] by simp
  have mark: "eng_wf (fst (markHandler f now k j st m s1))" for f k j st m
    by (rule markHandler_wf [OF wf1])
  obtain s2 r2 where s2: "markHandler (ai_mark io i) now (v_EventID e) i ''applied'' None s1 = (s2, r2)"
    by (cases "markHandler (ai_mark io i) now (v_EventID e) i ''applied'' None s1")
  then have "eng_wf s2"
    using mark [of "ai_mark io i" "v_EventID e" i "''applied''" None] by simp
  then show ?case
    using Cons.prems(1) s1 s2 mark IH by (cases r; cases r2; cases retry) simp_all
qed simp

section \<open>Intake: properties\<close>

lemma mark_applied: "handlerApplied i k (fst (markHandler False now i k ''applied'' None s))"
  using find_upsert [of "\<lambda>r. (hs_event_id r, hs_index r)" "(i, k)"
      "\<lparr>hs_event_id = i, hs_index = k, hs_status = ''applied'', hs_error = None, hs_updated_at = now\<rparr>" "g_hstate s"]
  by (simp add: handlerApplied_def markHandler_def)

lemma mark_other:
  "k' \<noteq> k \<Longrightarrow> handlerApplied i k' (fst (markHandler f now i k st m s)) = handlerApplied i k' s"
  using find_upsert [of "\<lambda>r. (hs_event_id r, hs_index r)" "(i, k')"
      "\<lparr>hs_event_id = i, hs_index = k, hs_status = st, hs_error = m, hs_updated_at = now\<rparr>" "g_hstate s"]
  by (auto simp: handlerApplied_def markHandler_def)

text \<open>What the intake relies on of the registered handlers: they keep the stored events and leave the
  bookkeeping of handler status alone.\<close>

locale event_handlers =
  fixes H :: "'a eng_scheme registry"
  assumes keep_events: "h \<in> set (H ty) \<Longrightarrow> v_EventID ` set (g_events s) \<subseteq> v_EventID ` set (g_events (fst (h io e s)))"
    and keep_hstate: "h \<in> set (H ty) \<Longrightarrow> g_hstate (fst (h io e s)) = g_hstate s"
begin

lemma handler_state: "h \<in> set (H ty) \<Longrightarrow> handlerApplied i k (fst (h io e s)) = handlerApplied i k s"
  by (simp add: handlerApplied_def keep_hstate)

text \<open>A run without error leaves every handler marked and keeps the marks before it.\<close>

lemma run_marks:
  assumes "set hs \<subseteq> set (H ty)" and "run_handlers retry io now i hs e s = (s', None)"
  shows "(\<forall>k < i + length hs. (i \<le> k \<or> handlerApplied (v_EventID e) k s) \<longrightarrow> handlerApplied (v_EventID e) k s')
    \<and> v_EventID ` set (g_events s) \<subseteq> v_EventID ` set (g_events s')"
  using assms
proof (induction hs arbitrary: i s)
  case (Cons h hs)
  let ?skip = "retry \<and> handlerApplied (v_EventID e) i s"
  have h: "h \<in> set (H ty)"
    using Cons.prems(1) by simp
  obtain t where t: "run_handlers retry io now (Suc i) hs e t = (s', None)" "handlerApplied (v_EventID e) i t"
    "\<forall>k. handlerApplied (v_EventID e) k s \<longrightarrow> handlerApplied (v_EventID e) k t"
    "v_EventID ` set (g_events s) \<subseteq> v_EventID ` set (g_events t)"
  proof (cases ?skip)
    case True
    then show ?thesis using Cons.prems(2) that [of s] by (auto split: if_splits)
  next
    case False
    obtain s1 where s1: "h (ai_handler io i) e s = (s1, None)"
      using Cons.prems(2) False by (cases "h (ai_handler io i) e s") (auto split: if_splits option.splits)
    let ?m = "markHandler (ai_mark io i) now (v_EventID e) i ''applied'' None s1"
    have m: "snd ?m = None" "run_handlers retry io now (Suc i) hs e (fst ?m) = (s', None)"
      using Cons.prems(2) False s1 by (auto split: if_splits prod.splits option.splits)
    have m': "?m = markHandler False now (v_EventID e) i ''applied'' None s1"
      using m(1) by (simp add: markHandler_def split: if_splits)
    have "handlerApplied (v_EventID e) k s \<longrightarrow> handlerApplied (v_EventID e) k (fst ?m)" for k
      using handler_state [OF h, of "v_EventID e" k "ai_handler io i" e s] s1
      by (cases "k = i") (simp_all add: m' mark_applied mark_other)
    moreover have "g_events (fst ?m) = g_events s1"
      by (simp add: markHandler_def)
    ultimately show ?thesis
      using that [of "fst ?m"] m(2) keep_events [OF h, of s "ai_handler io i" e] s1 by (simp add: m' mark_applied)
  qed
  have IH: "\<forall>k < Suc i + length hs. (Suc i \<le> k \<or> handlerApplied (v_EventID e) k t) \<longrightarrow> handlerApplied (v_EventID e) k s'"
    "v_EventID ` set (g_events t) \<subseteq> v_EventID ` set (g_events s')"
    using Cons.IH [OF _ t(1)] Cons.prems(1) by simp_all
  have "Suc i \<le> k \<or> handlerApplied (v_EventID e) k t" if "i \<le> k \<or> handlerApplied (v_EventID e) k s" for k
    using that t(2,3) by (cases "k = i") auto
  then show ?case
    using IH(1) subset_trans [OF t(4) IH(2)] by (simp only: length_Cons add_Suc_right add_Suc) blast
qed auto

lemma run_all_applied:
  assumes "\<forall>k < i + length hs. i \<le> k \<longrightarrow> handlerApplied (v_EventID e) k s"
  shows "run_handlers True apply_calm now i hs e s = (s, None)"
  using assms by (induction hs arbitrary: i) (auto simp: apply_calm_def)

text \<open>Once an event was applied without error, applying it again does nothing.\<close>

lemma apply_again:
  assumes "ApplyEvent H io now e s = (s1, b, None)"
  shows "ApplyEvent H apply_calm now' e s1 = (s1, False, None)"
proof -
  obtain t new where t: "store_event e s = (t, new)" "run_handlers (\<not> new) io now 0 (H (v_Type e)) e t = (s1, None)"
    using assms by (auto simp: ApplyEvent_def split: if_splits prod.splits)
  note run = run_marks [OF subset_refl t(2)]
  have "v_EventID e \<in> v_EventID ` set (g_events t)"
    using t(1) by (auto simp: store_event_def split: if_splits)
  then have "v_EventID e \<in> v_EventID ` set (g_events s1)"
    using run by blast
  moreover have "run_handlers True apply_calm now' 0 (H (v_Type e)) e s1 = (s1, None)"
    using run by (intro run_all_applied) simp
  ultimately show ?thesis
    by (simp add: ApplyEvent_def store_event_def apply_calm_def)
qed

end

end
