(* ===== verification/Engine_Ledger.thy ===== *)
theory Engine_Ledger
  imports Engine_Events "HOL-Library.Multiset"
begin

text \<open>
  The ledger of obligations: what creating and paying debts does to it, that a payment is exactly
  what the debtor's load goes down by, and that a node which applies the events another node
  emitted ends up with the same ledger entries.
\<close>

section \<open>The ledger as a map\<close>

type_synonym entry = "string \<times> string \<times> string \<times> string \<times> int \<times> string"

definition oview :: "'b Obligation_scheme \<Rightarrow> entry" where
  "oview x = (o_Creditor x, o_Debtor x, o_Kind x, o_Terms x, o_Weight x, o_Status x)"

definition obl_view :: "'a eng_scheme \<Rightarrow> string \<rightharpoonup> entry" where
  "obl_view s oid = map_option oview (find (\<lambda>x. o_ID x = oid) (g_obligations s))"

definition closed :: "entry \<Rightarrow> entry" where
  "closed v = (case v of (c, d, k, t, w, st) \<Rightarrow> (c, d, k, t, w, ''resolved''))"

lemma closed_simp: "closed (c, d, k, t, w, st) = (c, d, k, t, w, ''resolved'')"
  by (simp add: closed_def)

definition reweigh :: "int \<Rightarrow> entry \<Rightarrow> entry" where
  "reweigh w v = (case v of (c, d, k, t, _, st) \<Rightarrow> (c, d, k, t, w, st))"

lemma reweigh_simp: "reweigh w (c, d, k, t, v, st) = (c, d, k, t, w, st)"
  by (simp add: reweigh_def)

definition is_open :: "entry \<Rightarrow> bool" where
  "is_open v \<longleftrightarrow> (case v of (_, _, _, _, _, st) \<Rightarrow> st = ''open'')"

lemma find_map_upd:
  assumes "\<And>x. P x \<Longrightarrow> key (f x) = key x"
  shows "find (\<lambda>x. key x = k) (upd_where P f xs) = map_option (\<lambda>x. if P x then f x else x) (find (\<lambda>x. key x = k) xs)"
  using assms by (induction xs) (auto simp: upd_where_def)

lemma obl_view_upd:
  assumes "\<And>x. P x \<longleftrightarrow> o_ID x = i \<and> Q (oview x)" and "\<And>x. o_ID (f x) = o_ID x" and "\<And>x. P x \<Longrightarrow> oview (f x) = g (oview x)"
  shows "obl_view (s\<lparr>g_obligations := upd_where P f (g_obligations s)\<rparr>)
    = (obl_view s)(i := map_option (\<lambda>v. if Q v then g v else v) (obl_view s i))"
proof
  fix k
  let ?row = "find (\<lambda>x. o_ID x = k) (g_obligations s)"
  have "find (\<lambda>x. o_ID x = k) (upd_where P f (g_obligations s)) = map_option (\<lambda>x. if P x then f x else x) ?row"
    by (rule find_map_upd) (simp add: assms(2))
  then have "obl_view (s\<lparr>g_obligations := upd_where P f (g_obligations s)\<rparr>) k
      = map_option (\<lambda>x. oview (if P x then f x else x)) ?row"
    by (simp add: obl_view_def option.map_comp comp_def)
  also have "\<dots> = ((obl_view s)(i := map_option (\<lambda>v. if Q v then g v else v) (obl_view s i))) k"
  proof (cases ?row)
    case (Some x)
    then have "o_ID x = k"
      using find_Some_D by force
    then show ?thesis
      using Some assms(1) [of x] assms(3) [of x] by (cases "k = i") (simp_all add: obl_view_def)
  qed (auto simp: obl_view_def)
  finally show "obl_view (s\<lparr>g_obligations := upd_where P f (g_obligations s)\<rparr>) k
      = ((obl_view s)(i := map_option (\<lambda>v. if Q v then g v else v) (obl_view s i))) k" .
qed

lemma obl_view_events [simp]:
  "obl_view (s\<lparr>g_events := es\<rparr>) = obl_view s" "obl_view (s\<lparr>g_seq := q\<rparr>) = obl_view s"
  "obl_view (s\<lparr>g_oseq := q\<rparr>) = obl_view s" "obl_view (s\<lparr>g_hstate := hs\<rparr>) = obl_view s"
  by (simp_all add: obl_view_def fun_eq_iff)

lemma obl_view_Emit [simp]: "obl_view (fst (Emit f now ty b s)) = obl_view s"
  by (simp add: Emit_def Let_def obl_view_def fun_eq_iff)

section \<open>Emitting\<close>

text \<open>The ids the node will use next are free.\<close>

definition seq_free :: "'a eng_scheme \<Rightarrow> bool" where
  "seq_free s \<longleftrightarrow> (\<forall>q > g_seq s. g_nodeID s @ '':'' @ show_int q \<notin> v_EventID ` set (g_events s))"

definition local_event :: "'a eng_scheme \<Rightarrow> int \<Rightarrow> string \<Rightarrow> json \<Rightarrow> Event" where
  "local_event s now ty b = \<lparr>v_EventID = g_nodeID s @ '':'' @ show_int (g_seq s + 1), v_SourceNode = g_nodeID s,
     v_Seq = g_seq s + 1, v_Type = ty, v_TS = now, v_Payload = Some b\<rparr>"

lemma Emit_ok:
  assumes "seq_free s" and "\<not> f"
  shows "Emit f now ty b s = (s\<lparr>g_seq := g_seq s + 1, g_events := g_events s @ [local_event s now ty b]\<rparr>, None)"
    and "seq_free (fst (Emit f now ty b s))"
proof -
  have fresh: "g_nodeID s @ '':'' @ show_int (g_seq s + 1) \<notin> v_EventID ` set (g_events s)"
    using assms(1) by (simp add: seq_free_def)
  then show eq: "Emit f now ty b s = (s\<lparr>g_seq := g_seq s + 1, g_events := g_events s @ [local_event s now ty b]\<rparr>, None)"
    using assms(2) by (simp add: Emit_def Let_def local_event_def)
  show "seq_free (fst (Emit f now ty b s))"
    using assms(1) unfolding eq by (auto simp: seq_free_def local_event_def show_int_inj)
qed

lemma seq_free_obl [simp]: "seq_free (s\<lparr>g_obligations := xs\<rparr>) = seq_free s" "seq_free (s\<lparr>g_oseq := q\<rparr>) = seq_free s"
  by (simp_all add: seq_free_def)

lemma local_event_obl [simp]: "local_event (s\<lparr>g_obligations := xs\<rparr>) now ty b = local_event s now ty b"
  by (simp add: local_event_def)

section \<open>Paying\<close>

text \<open>The reference: debts are paid in the given order, each in full while the amount lasts, and the
  first that is not covered is reduced by the rest.\<close>

fun pay_view :: "Obligation list \<Rightarrow> int \<Rightarrow> (string \<rightharpoonup> entry) \<Rightarrow> string \<rightharpoonup> entry" where
  "pay_view [] a m = m"
| "pay_view (d # ds) a m =
     (if a \<le> 0 then m
      else if a \<ge> o_Weight d then pay_view ds (a - o_Weight d) (m(o_ID d := map_option closed (m (o_ID d))))
      else m(o_ID d := map_option (reweigh (o_Weight d - a)) (m (o_ID d))))"

text \<open>The listed debts are open rows of the table, with weights in range.\<close>

definition listed :: "Obligation list \<Rightarrow> 'a eng_scheme \<Rightarrow> bool" where
  "listed ds s \<longleftrightarrow> distinct (map o_ID ds)
     \<and> (\<forall>d \<in> set ds. obl_view s (o_ID d) = Some (oview d) \<and> o_Status d = ''open'' \<and> 0 \<le> o_Weight d \<and> in_int64 (o_Weight d))"

lemma in64_between: "0 \<le> b \<Longrightarrow> b \<le> a \<Longrightarrow> in_int64 a \<Longrightarrow> in_int64 b"
  by (simp add: in_int64_def)

text \<open>The two statements a payment executes, with the event each emits.\<close>

definition resolved_body :: "string \<Rightarrow> string \<Rightarrow> int \<Rightarrow> json" where
  "resolved_body i r now = JObj [(''obligation_id'', JStr i), (''resolution'', JStr r), (''resolved_at'', JInt now)]"

definition adjusted_body :: "Obligation \<Rightarrow> int \<Rightarrow> json" where
  "adjusted_body d amount = JObj [(''delta'', JInt (- amount)), (''new_weight'', JInt (wrap64 (o_Weight d - amount))),
     (''obligation_id'', JStr (o_ID d)), (''old_weight'', JInt (o_Weight d)), (''reason'', JStr ''partial_payment'')]"

definition step_to :: "'a eng_scheme \<Rightarrow> Event \<Rightarrow> (string \<rightharpoonup> entry) \<Rightarrow> 'a eng_scheme \<Rightarrow> bool" where
  "step_to s e m s1 \<longleftrightarrow> obl_view s1 = m \<and> seq_free s1 \<and> g_events s1 = g_events s @ [e]"

lemma resolve_ok:
  assumes "seq_free s"
  obtains s1 where "resolve no_io k now i r s = (s1, None)"
    "step_to s (local_event s now ''debt.resolved'' (resolved_body i r now))
       ((obl_view s)(i := map_option closed (obl_view s i))) s1"
proof -
  let ?u = "s\<lparr>g_obligations := upd_where (\<lambda>x. o_ID x = i)
    (\<lambda>x. x\<lparr>o_Status := ''resolved'', o_resolved_at := Some now, o_resolution := Some r\<rparr>) (g_obligations s)\<rparr>"
  have "resolve no_io k now i r s = Emit False now ''debt.resolved'' (resolved_body i r now) ?u"
    by (simp add: resolve_def resolved_body_def)
  moreover have "obl_view ?u = (obl_view s)(i := map_option closed (obl_view s i))"
    using obl_view_upd [of "\<lambda>x. o_ID x = i" i "\<lambda>_. True"
        "\<lambda>x. x\<lparr>o_Status := ''resolved'', o_resolved_at := Some now, o_resolution := Some r\<rparr>" closed s]
    by (simp add: oview_def closed_simp)
  ultimately show ?thesis
    using Emit_ok [of ?u False now "''debt.resolved''" "resolved_body i r now"] assms
    by (intro that [of "fst (Emit False now ''debt.resolved'' (resolved_body i r now) ?u)"]) (simp_all add: step_to_def)
qed

lemma adjust_ok:
  assumes "seq_free s" and "obl_view s (o_ID d) = Some (oview d)"
  obtains s1 where
    "Emit False now ''debt.adjusted'' (adjusted_body d amount) (s\<lparr>g_obligations := upd_where (\<lambda>x. o_ID x = o_ID d)
       (\<lambda>x. x\<lparr>o_Weight := o_Weight x - amount\<rparr>) (g_obligations s)\<rparr>) = (s1, None)"
    "step_to s (local_event s now ''debt.adjusted'' (adjusted_body d amount))
       ((obl_view s)(o_ID d := map_option (reweigh (o_Weight d - amount)) (obl_view s (o_ID d)))) s1"
proof -
  let ?u = "s\<lparr>g_obligations := upd_where (\<lambda>x. o_ID x = o_ID d) (\<lambda>x. x\<lparr>o_Weight := o_Weight x - amount\<rparr>) (g_obligations s)\<rparr>"
  have "obl_view ?u = (obl_view s)(o_ID d := map_option (\<lambda>v. reweigh (fst (snd (snd (snd (snd v)))) - amount) v) (obl_view s (o_ID d)))"
    using obl_view_upd [of "\<lambda>x. o_ID x = o_ID d" "o_ID d" "\<lambda>_. True" "\<lambda>x. x\<lparr>o_Weight := o_Weight x - amount\<rparr>"
        "\<lambda>v. reweigh (fst (snd (snd (snd (snd v)))) - amount) v" s]
    by (simp add: oview_def reweigh_simp)
  then have "obl_view ?u = (obl_view s)(o_ID d := map_option (reweigh (o_Weight d - amount)) (obl_view s (o_ID d)))"
    by (simp add: assms(2) oview_def)
  then show ?thesis
    using Emit_ok [of ?u False now "''debt.adjusted''" "adjusted_body d amount"] assms(1)
    by (intro that [of "fst (Emit False now ''debt.adjusted'' (adjusted_body d amount) ?u)"]) (simp_all add: step_to_def)
qed

text \<open>What the loop emits, as the event bodies in order.\<close>

fun pay_bodies :: "int \<Rightarrow> Obligation list \<Rightarrow> int \<Rightarrow> (string \<times> json) list" where
  "pay_bodies now [] a = []"
| "pay_bodies now (d # ds) a =
     (if a \<le> 0 then []
      else if a \<ge> o_Weight d then (''debt.resolved'', resolved_body (o_ID d) ''paid'' now) # pay_bodies now ds (a - o_Weight d)
      else [(''debt.adjusted'', adjusted_body d a)])"

definition emitted :: "'a eng_scheme \<Rightarrow> (string \<times> json) list \<Rightarrow> 'a eng_scheme \<Rightarrow> bool" where
  "emitted s bs s1 \<longleftrightarrow> (\<exists>es. g_events s1 = g_events s @ es \<and> map (\<lambda>e. (v_Type e, v_Payload e)) es = map (\<lambda>(ty, b). (ty, Some b)) bs)"

lemma emitted_Nil: "emitted s [] s"
  by (simp add: emitted_def)

lemma emitted_step: "step_to s (local_event s now ty b) m s1 \<Longrightarrow> emitted s1 bs s2 \<Longrightarrow> emitted s ((ty, b) # bs) s2"
  by (fastforce simp: emitted_def step_to_def local_event_def)

lemma listed_Cons:
  assumes "listed (d # ds) s"
  shows "obl_view s (o_ID d) = Some (oview d)" "0 \<le> o_Weight d" "in_int64 (o_Weight d)" "o_Status d = ''open''"
    "\<forall>x \<in> set ds. o_ID x \<noteq> o_ID d" "0 \<le> (\<Sum>d\<leftarrow>ds. o_Weight d)" "listed ds s"
  using assms by (auto simp: listed_def intro!: sum_list_nonneg) (metis image_eqI)

lemma pay_loop_spec:
  assumes "listed ds s" "seq_free s" "0 \<le> amount" "0 \<le> applied" "in_int64 (applied + amount)"
  shows "\<exists>s1. pay_loop no_io k now ds amount applied s = (s1, applied + min amount (\<Sum>d\<leftarrow>ds. o_Weight d), None)
    \<and> obl_view s1 = pay_view ds amount (obl_view s) \<and> emitted s (pay_bodies now ds amount) s1"
  using assms
proof (induction ds arbitrary: k amount applied s)
  case Nil
  then show ?case by (simp add: emitted_Nil)
next
  case (Cons d ds)
  note d = listed_Cons [OF Cons.prems(1)]
  consider (stop) "amount = 0" | (full) "0 < amount" "o_Weight d \<le> amount" | (part) "0 < amount" "amount < o_Weight d"
    using Cons.prems(3) by linarith
  then show ?case
  proof cases
    case stop
    then show ?thesis using d(2,6) by (simp add: emitted_Nil)
  next
    case full
    obtain s1 where s1: "resolve no_io k now (o_ID d) ''paid'' s = (s1, None)"
      "step_to s (local_event s now ''debt.resolved'' (resolved_body (o_ID d) ''paid'' now))
         ((obl_view s)(o_ID d := map_option closed (obl_view s (o_ID d)))) s1"
      using Cons.prems(2) by (rule resolve_ok)
    have w: "wrap64 (amount - o_Weight d) = amount - o_Weight d" "wrap64 (applied + o_Weight d) = applied + o_Weight d"
      using full d(2) Cons.prems(3-5) by (auto intro!: wrap64_id in64_between [of _ "applied + amount"])
    have l: "listed ds s1"
      using d(5,7) s1(2) by (auto simp: listed_def step_to_def)
    have free: "seq_free s1"
      using s1(2) by (simp add: step_to_def)
    have side: "0 \<le> amount - o_Weight d" "0 \<le> applied + o_Weight d" "in_int64 (applied + o_Weight d + (amount - o_Weight d))"
      using full d(2) Cons.prems(4,5) by simp_all
    obtain s2 where s2: "pay_loop no_io (k + 2) now ds (amount - o_Weight d) (applied + o_Weight d) s1
        = (s2, applied + o_Weight d + min (amount - o_Weight d) (\<Sum>d\<leftarrow>ds. o_Weight d), None)"
      "obl_view s2 = pay_view ds (amount - o_Weight d) (obl_view s1)" "emitted s1 (pay_bodies now ds (amount - o_Weight d)) s2"
      using Cons.IH [OF l free side] by blast
    have "pay_loop no_io k now (d # ds) amount applied s = (s2, applied + min amount (\<Sum>d\<leftarrow>d # ds. o_Weight d), None)"
      using full s1(1) s2(1) w by simp
    moreover have "obl_view s2 = pay_view (d # ds) amount (obl_view s)"
      using full s1(2) s2(2) by (simp add: step_to_def)
    moreover have "emitted s (pay_bodies now (d # ds) amount) s2"
      using full emitted_step [OF s1(2) s2(3)] by simp
    ultimately show ?thesis by blast
  next
    case part
    obtain s1 where s1: "Emit False now ''debt.adjusted'' (adjusted_body d amount) (s\<lparr>g_obligations := upd_where
        (\<lambda>x. o_ID x = o_ID d) (\<lambda>x. x\<lparr>o_Weight := o_Weight x - amount\<rparr>) (g_obligations s)\<rparr>) = (s1, None)"
      "step_to s (local_event s now ''debt.adjusted'' (adjusted_body d amount))
        ((obl_view s)(o_ID d := map_option (reweigh (o_Weight d - amount)) (obl_view s (o_ID d)))) s1"
      using Cons.prems(2) d(1) by (rule adjust_ok)
    have stop: "pay_loop no_io j now ds 0 b t = (t, b, None)" for j b t
      by (cases ds) simp_all
    have "pay_loop no_io k now (d # ds) amount applied s = (s1, applied + min amount (\<Sum>d\<leftarrow>d # ds. o_Weight d), None)"
      using part s1(1) d(6) stop wrap64_id [OF Cons.prems(5)] by (simp add: Let_def adjusted_body_def min_def)
    moreover have "emitted s (pay_bodies now (d # ds) amount) s1"
      using part emitted_step [OF s1(2) emitted_Nil] by simp
    moreover have "obl_view s1 = pay_view (d # ds) amount (obl_view s)"
      using part s1(2) by (simp add: step_to_def)
    ultimately show ?thesis by blast
  qed
qed

text \<open>The part of a debtor's load an entry contributes.\<close>

definition eload :: "string \<Rightarrow> entry option \<Rightarrow> int" where
  "eload debtor v = (case v of Some (c, d, k, t, w, st) \<Rightarrow> if d = debtor \<and> st = ''open'' then w else 0 | None \<Rightarrow> 0)"

lemma view_of_row: "eng_wf s \<Longrightarrow> x \<in> set (g_obligations s) \<Longrightarrow> obl_view s (o_ID x) = Some (oview x)"
  using find_key_Some [of o_ID "g_obligations s" x] by (simp add: eng_wf_def obl_view_def)

lemma load_view:
  assumes "eng_wf s"
  shows "(\<Sum>x\<leftarrow>filter (open_of debtor) (g_obligations s). o_Weight x)
    = (\<Sum>i\<leftarrow>map o_ID (g_obligations s). eload debtor (obl_view s i))"
proof -
  have "eload debtor (obl_view s (o_ID x)) = (if open_of debtor x then o_Weight x else 0)"
    if "x \<in> set (g_obligations s)" for x
    using view_of_row [OF assms that] by (simp add: eload_def oview_def open_of_def)
  then have "(\<Sum>i\<leftarrow>map o_ID (g_obligations s). eload debtor (obl_view s i))
      = (\<Sum>x\<leftarrow>g_obligations s. if open_of debtor x then o_Weight x else 0)"
    by (simp add: comp_def cong: map_cong)
  then show ?thesis
    by (simp add: sum_list_map_filter')
qed

lemma sum_upd_one:
  fixes m :: "'k \<Rightarrow> 'v" and g :: "'v \<Rightarrow> int"
  assumes "distinct ks" and "k \<in> set ks"
  shows "(\<Sum>i\<leftarrow>ks. g ((m(k := v)) i)) = (\<Sum>i\<leftarrow>ks. g (m i)) - g (m k) + g v"
  using assms
proof (induction ks)
  case (Cons a ks)
  show ?case
  proof (cases "a = k")
    case True
    then have "map (\<lambda>i. g ((m(k := v)) i)) ks = map (\<lambda>i. g (m i)) ks"
      using Cons.prems(1) by auto
    then show ?thesis using True by (simp only: list.map sum_list.Cons) simp
  next
    case False
    then show ?thesis using Cons by simp
  qed
qed simp

lemma pay_view_load:
  assumes "distinct ks" and "set (map o_ID ds) \<subseteq> set ks" and "distinct (map o_ID ds)" and "0 \<le> a"
    and "\<forall>d \<in> set ds. m (o_ID d) = Some (oview d) \<and> o_Debtor d = debtor \<and> o_Status d = ''open'' \<and> 0 \<le> o_Weight d"
  shows "(\<Sum>i\<leftarrow>ks. eload debtor (pay_view ds a m i)) = (\<Sum>i\<leftarrow>ks. eload debtor (m i)) - min a (\<Sum>d\<leftarrow>ds. o_Weight d)"
  using assms(2-)
proof (induction ds arbitrary: a m)
  case (Cons d ds)
  have d: "m (o_ID d) = Some (oview d)" "eload debtor (m (o_ID d)) = o_Weight d" "0 \<le> o_Weight d"
    "eload debtor (map_option closed (m (o_ID d))) = 0" "eload debtor (map_option (reweigh w) (m (o_ID d))) = w" for w
    using Cons.prems(4) by (simp_all add: eload_def oview_def closed_simp reweigh_simp)
  have pos: "0 \<le> (\<Sum>d\<leftarrow>ds. o_Weight d)"
    using Cons.prems(4) by (intro sum_list_nonneg) auto
  have other: "\<forall>x \<in> set ds. o_ID x \<noteq> o_ID d"
    using Cons.prems(2) by (simp) (metis image_eqI)
  have k: "o_ID d \<in> set ks"
    using Cons.prems(1) by simp
  note upd = sum_upd_one [OF assms(1) k, of "eload debtor" m]
  consider (stop) "a = 0" | (full) "0 < a" "o_Weight d \<le> a" | (part) "0 < a" "a < o_Weight d"
    using Cons.prems(3) by linarith
  then show ?case
  proof cases
    case full
    let ?m = "m(o_ID d := map_option closed (m (o_ID d)))"
    have "(\<Sum>i\<leftarrow>ks. eload debtor (pay_view ds (a - o_Weight d) ?m i))
        = (\<Sum>i\<leftarrow>ks. eload debtor (?m i)) - min (a - o_Weight d) (\<Sum>d\<leftarrow>ds. o_Weight d)"
      using Cons.prems other full by (intro Cons.IH) auto
    then show ?thesis
      using full upd [of "map_option closed (m (o_ID d))"] d(2,4) by simp
  next
    case part
    then show ?thesis
      using upd [of "map_option (reweigh (o_Weight d - a)) (m (o_ID d))"] d pos by simp
  qed (use pos d(3) in simp)
qed simp

lemma Emit_obl [simp]: "g_obligations (fst (Emit f now ty b s)) = g_obligations s"
  by (simp add: Emit_def Let_def)

lemma resolve_ids: "map o_ID (g_obligations (fst (resolve io k now i r s))) = map o_ID (g_obligations s)"
  by (simp add: resolve_def map_upd_where)

lemma pay_loop_ids: "map o_ID (g_obligations (fst (pay_loop io k now ds a b s))) = map o_ID (g_obligations s)"
proof (induction ds arbitrary: k a b s)
  case (Cons d ds)
  have r: "map o_ID (g_obligations s1) = map o_ID (g_obligations s)" if "resolve io k now (o_ID d) ''paid'' s = (s1, x)" for s1 x
    using resolve_ids [of io k now "o_ID d" "''paid''" s] that by simp
  have e: "map o_ID (g_obligations s1) = map o_ID (g_obligations s)"
    if "Emit f now ty j (s\<lparr>g_obligations := upd_where P (\<lambda>x. x\<lparr>o_Weight := o_Weight x - a\<rparr>) (g_obligations s)\<rparr>) = (s1, x)"
    for f ty j P s1 x
    using Emit_obl [of f now ty j "s\<lparr>g_obligations := upd_where P (\<lambda>x. x\<lparr>o_Weight := o_Weight x - a\<rparr>) (g_obligations s)\<rparr>"] that
    by (simp add: map_upd_where)
  show ?case
    using Cons.IH by (auto simp: Let_def r e split: prod.split option.split)
qed simp

text \<open>The debtor's open debts have weights a payment can count with.\<close>

definition ledger_ok :: "string \<Rightarrow> 'a eng_scheme \<Rightarrow> bool" where
  "ledger_ok debtor s \<longleftrightarrow> (\<forall>x \<in> set (g_obligations s). open_of debtor x \<longrightarrow> 0 \<le> o_Weight x \<and> in_int64 (o_Weight x))"

lemma truncate_simps [simp]:
  "o_ID (Obligation.truncate x) = o_ID x" "o_Weight (Obligation.truncate x) = o_Weight x"
  "o_Status (Obligation.truncate x) = o_Status x" "o_CreatedAt (Obligation.truncate x) = o_CreatedAt x" "o_Debtor (Obligation.truncate x) = o_Debtor x"
  "oview (Obligation.truncate x) = oview x"
  by (simp_all add: Obligation.truncate_def oview_def)

text \<open>Sorting by one key after another is sorting by both: the later key counts first.\<close>

lemma insort_key_lex:
  assumes "sorted_wrt (\<lambda>a b. f a < f b \<or> f a = f b \<and> g a \<le> g b) ys" and "\<forall>y \<in> set ys. g x \<le> g y"
  shows "sorted_wrt (\<lambda>a b. f a < f b \<or> f a = f b \<and> g a \<le> g b) (insort_key f x ys)"
  using assms by (induction ys) (auto simp: set_insort_key)

lemma sort_key_lex:
  "sorted (map g xs) \<Longrightarrow> sorted_wrt (\<lambda>a b. f a < f b \<or> f a = f b \<and> g a \<le> g b) (sort_key f xs)"
  by (induction xs) (simp_all add: insort_key_lex)

text \<open>The older of two debts: created earlier or, created together, with the smaller id.\<close>

definition older :: "Obligation \<Rightarrow> Obligation \<Rightarrow> bool" where
  "older a b \<longleftrightarrow> o_CreatedAt a < o_CreatedAt b \<or> o_CreatedAt a = o_CreatedAt b \<and> o_ID a \<le> o_ID b"

lemma OpenDebts_oldest_first:
  assumes "OpenDebts False debtor s = Inr ds"
  shows "sorted_wrt older ds" "mset ds = mset (map Obligation.truncate (filter (open_of debtor) (g_obligations s)))"
proof -
  let ?ord = "sort_key (\<lambda>x. o_CreatedAt x) (sort_key (\<lambda>x. o_ID x) (filter (open_of debtor) (g_obligations s)))"
  have ds: "ds = map Obligation.truncate ?ord"
    using assms by (simp add: OpenDebts_def)
  have "sorted_wrt (\<lambda>a b. o_CreatedAt a < o_CreatedAt b \<or> o_CreatedAt a = o_CreatedAt b \<and> o_ID a \<le> o_ID b) ?ord"
    by (rule sort_key_lex) simp
  then show "sorted_wrt older ds"
    by (simp add: ds sorted_wrt_map older_def)
  show "mset ds = mset (map Obligation.truncate (filter (open_of debtor) (g_obligations s)))"
    by (simp add: ds)
qed

lemma OpenDebts_listed:
  assumes "eng_wf s" and "ledger_ok debtor s" and "OpenDebts False debtor s = Inr ds"
  shows "listed ds s" "set (map o_ID ds) \<subseteq> set (map o_ID (g_obligations s))" "\<forall>d \<in> set ds. o_Debtor d = debtor"
    "(\<Sum>d\<leftarrow>ds. o_Weight d) = (\<Sum>x\<leftarrow>filter (open_of debtor) (g_obligations s). o_Weight x)"
proof -
  let ?rows = "filter (open_of debtor) (g_obligations s)"
  define ord where "ord = sort_key (\<lambda>x. o_CreatedAt x) (sort_key (\<lambda>x. o_ID x) ?rows)"
  have ds: "ds = map Obligation.truncate ord"
    using assms(3) by (simp add: OpenDebts_def ord_def)
  have ms: "mset ord = mset ?rows" and set: "set ord = set ?rows"
    by (simp_all add: ord_def)
  have dist: "distinct (map o_ID ord)"
  proof -
    have "distinct (map o_ID ?rows)"
      using assms(1) by (simp add: eng_wf_def distinct_map_filter)
    moreover have "mset (map o_ID ord) = mset (map o_ID ?rows)"
      unfolding mset_map ms ..
    ultimately show ?thesis
      using mset_eq_imp_distinct_iff by blast
  qed
  then show "listed ds s"
    using assms(2) view_of_row [OF assms(1)] set
    by (auto simp: listed_def ds comp_def ledger_ok_def open_of_def)
  show "set (map o_ID ds) \<subseteq> set (map o_ID (g_obligations s))" "\<forall>d \<in> set ds. o_Debtor d = debtor"
    using set by (auto simp: ds open_of_def)
  have "(\<Sum>d\<leftarrow>ds. o_Weight d) = (\<Sum>x\<leftarrow>ord. o_Weight x)"
    by (simp add: ds comp_def)
  also have "\<dots> = (\<Sum>x\<leftarrow>?rows. o_Weight x)"
    unfolding sum_mset_sum_list [symmetric] mset_map ms ..
  finally show "(\<Sum>d\<leftarrow>ds. o_Weight d) = (\<Sum>x\<leftarrow>?rows. o_Weight x)" .
qed

text \<open>C32: a payment is exact. A payment of a non-negative amount by a debtor whose load is L succeeds,
  applies min(amount, L), lowers the sum of the debtor's open weights by exactly that, and settles
  the debtor's open debts oldest first: each in full while the amount lasts, then one in part.\<close>

theorem pay_debt_exact:
  assumes "eng_wf s" "seq_free s" "ledger_ok debtor s" "0 \<le> amount" "in_int64 amount"
    and "DebtLoad False debtor s = Inr L"
  shows "\<exists>s1 ds. PayDebt no_io now debtor amount s = (s1, min amount L, None)
    \<and> (\<Sum>x\<leftarrow>filter (open_of debtor) (g_obligations s1). o_Weight x) = L - min amount L
    \<and> mset ds = mset (map Obligation.truncate (filter (open_of debtor) (g_obligations s))) \<and> sorted_wrt older ds
    \<and> obl_view s1 = pay_view ds amount (obl_view s)"
proof -
  obtain ds where od: "OpenDebts False debtor s = Inr ds"
    by (simp add: OpenDebts_def)
  note ds = OpenDebts_listed [OF assms(1,3) od]
  have L: "(\<Sum>d\<leftarrow>ds. o_Weight d) = L" "(\<Sum>x\<leftarrow>filter (open_of debtor) (g_obligations s). o_Weight x) = L"
    using assms(6) ds(4) by (auto simp: DebtLoad_def Let_def split: if_splits)
  obtain s1 where s1: "pay_loop no_io 1 now ds amount 0 s = (s1, min amount L, None)"
      "obl_view s1 = pay_view ds amount (obl_view s)"
    using pay_loop_spec [OF ds(1) assms(2,4), of 0 1 now] assms(5) L(1) by auto
  have pay: "PayDebt no_io now debtor amount s = (s1, min amount L, None)"
    using s1(1) od by (simp add: PayDebt_def)
  have ids: "map o_ID (g_obligations s1) = map o_ID (g_obligations s)"
    using pay_loop_ids [of no_io 1 now ds amount 0 s] s1(1) by simp
  have wf: "eng_wf s1"
    using PayDebt_wf [OF assms(1), of no_io now debtor amount] pay by simp
  have "(\<Sum>x\<leftarrow>filter (open_of debtor) (g_obligations s1). o_Weight x)
      = (\<Sum>i\<leftarrow>map o_ID (g_obligations s). eload debtor (pay_view ds amount (obl_view s) i))"
    using load_view [OF wf, of debtor] s1(2) ids by simp
  also have "\<dots> = (\<Sum>i\<leftarrow>map o_ID (g_obligations s). eload debtor (obl_view s i)) - min amount L"
    using pay_view_load [of "map o_ID (g_obligations s)" ds amount "obl_view s" debtor] assms(1,4) ds(1-3) L(1)
    by (simp add: eng_wf_def listed_def)
  finally have "(\<Sum>x\<leftarrow>filter (open_of debtor) (g_obligations s1). o_Weight x) = L - min amount L"
    using load_view [OF assms(1), of debtor] L(2) by simp
  then show ?thesis using pay s1(2) OpenDebts_oldest_first [OF od] by blast
qed

section \<open>Replication\<close>

text \<open>The registry of a node without game handlers, and applying a list of events there.\<close>

definition debt_registry :: "'a eng_scheme registry" where
  "debt_registry = RegisterDebtHandlers (\<lambda>_. [])"

fun apply_all :: "int \<Rightarrow> Event list \<Rightarrow> 'a eng_scheme \<Rightarrow> 'a eng_scheme" where
  "apply_all now [] t = t"
| "apply_all now (e # es) t = apply_all now es (fst (ApplyEvent debt_registry apply_calm now e t))"

lemma registry_debts [simp]:
  "debt_registry ''debt.created'' = [on_debt_created]" "debt_registry ''debt.resolved'' = [on_debt_resolved]"
  "debt_registry ''debt.adjusted'' = [on_debt_adjusted]"
  by (simp_all add: debt_registry_def RegisterDebtHandlers_def OnEvent_def)

lemma registry_sub: "set (debt_registry ty) \<subseteq> {on_debt_created, on_debt_resolved, on_debt_adjusted}"
  by (auto simp: debt_registry_def RegisterDebtHandlers_def OnEvent_def)

lemma debt_handlers_frame:
  assumes "h \<in> {on_debt_created, on_debt_resolved, on_debt_adjusted}"
  shows "g_events (fst (h io e s)) = g_events s \<and> g_hstate (fst (h io e s)) = g_hstate s"
  using assms by (auto simp: on_debt_created_def on_debt_resolved_def on_debt_adjusted_def Let_def split: option.split)

interpretation debts: event_handlers debt_registry
proof unfold_locales
  fix h ty s io e
  assume "h \<in> set (debt_registry ty)"
  then have "h \<in> {on_debt_created, on_debt_resolved, on_debt_adjusted}"
    using registry_sub by blast
  then show "v_EventID ` set (g_events s) \<subseteq> v_EventID ` set (g_events (fst (h io e s)))"
    "g_hstate (fst (h io e s)) = g_hstate s"
    using debt_handlers_frame by (metis order_refl)+
qed

text \<open>C33: a foreign event takes effect once. After an event was taken in without error, by
  whatever path (first delivery, or a retry after a handler had failed), taking it in again
  changes nothing at all.\<close>

theorem apply_event_once:
  assumes "ApplyEvent debt_registry io now e s = (s1, b, None)"
  shows "ApplyEvent debt_registry apply_calm now' e s1 = (s1, False, None)"
  using assms by (rule debts.apply_again)

text \<open>What the handlers make of the bodies a node emits.\<close>

lemmas body_simps = json_simps key_match_def ascii_up_def

lemma resolved_view:
  assumes "v_Payload e = Some (resolved_body i r now)"
  shows "snd (on_debt_resolved no_io e t) = None"
    "obl_view (fst (on_debt_resolved no_io e t)) = (obl_view t)(i := map_option (\<lambda>v. if is_open v then closed v else v) (obl_view t i))"
proof -
  have f: "fld unm_string ''obligation_id'' (resolved_body i r now) [] = (i, True)"
    "fld unm_string ''resolution'' (resolved_body i r now) [] = (r, True)"
    by (simp_all add: resolved_body_def body_simps)
  show "snd (on_debt_resolved no_io e t) = None"
    by (simp add: on_debt_resolved_def assms f Let_def)
  have "is_open (oview x) \<longleftrightarrow> o_Status x = ''open''" for x :: obligation_row
    by (simp add: is_open_def oview_def)
  then show "obl_view (fst (on_debt_resolved no_io e t)) = (obl_view t)(i := map_option (\<lambda>v. if is_open v then closed v else v) (obl_view t i))"
    using obl_view_upd [of "\<lambda>x. o_ID x = i \<and> o_Status x = ''open''" i is_open
        "\<lambda>x. x\<lparr>o_Status := ''resolved'', o_resolved_at := Some (v_TS e), o_resolution := Some r\<rparr>" closed t]
    by (simp add: on_debt_resolved_def assms f Let_def oview_def closed_simp)
qed

lemma adjusted_view:
  assumes "v_Payload e = Some (adjusted_body d a)"
  shows "snd (on_debt_adjusted no_io e t) = None"
    "obl_view (fst (on_debt_adjusted no_io e t))
     = (obl_view t)(o_ID d := map_option (\<lambda>v. if is_open v then reweigh (wrap64 (o_Weight d - a)) v else v) (obl_view t (o_ID d)))"
proof -
  have f: "fld unm_string ''obligation_id'' (adjusted_body d a) [] = (o_ID d, True)"
    "fld unm_int ''new_weight'' (adjusted_body d a) 0 = (wrap64 (o_Weight d - a), True)"
    by (simp_all add: adjusted_body_def body_simps)
  show "snd (on_debt_adjusted no_io e t) = None"
    by (simp add: on_debt_adjusted_def assms f Let_def)
  have "is_open (oview x) \<longleftrightarrow> o_Status x = ''open''" for x :: obligation_row
    by (simp add: is_open_def oview_def)
  then show "obl_view (fst (on_debt_adjusted no_io e t))
     = (obl_view t)(o_ID d := map_option (\<lambda>v. if is_open v then reweigh (wrap64 (o_Weight d - a)) v else v) (obl_view t (o_ID d)))"
    using obl_view_upd [of "\<lambda>x. o_ID x = o_ID d \<and> o_Status x = ''open''" "o_ID d" is_open
        "\<lambda>x. x\<lparr>o_Weight := wrap64 (o_Weight d - a)\<rparr>" "reweigh (wrap64 (o_Weight d - a))" t]
    by (simp add: on_debt_adjusted_def assms f Let_def oview_def reweigh_simp)
qed

text \<open>The first intake of an event with one handler.\<close>

lemma apply_first:
  assumes "v_EventID e \<notin> v_EventID ` set (g_events t)" and "debt_registry (v_Type e) = [h]"
    and "snd (h no_io e (t\<lparr>g_events := g_events t @ [e]\<rparr>)) = None"
  shows "obl_view (fst (ApplyEvent debt_registry apply_calm now e t)) = obl_view (fst (h no_io e (t\<lparr>g_events := g_events t @ [e]\<rparr>)))"
    and "g_events (fst (ApplyEvent debt_registry apply_calm now e t)) = g_events t @ [e]"
proof -
  let ?t = "t\<lparr>g_events := g_events t @ [e]\<rparr>"
  have st: "store_event e t = (?t, True)"
    using assms(1) by (simp add: store_event_def)
  obtain u where u: "h no_io e ?t = (u, None)"
    using assms(3) by (metis prod.collapse)
  have "h \<in> set (debt_registry (v_Type e))"
    by (simp add: assms(2))
  then have ev: "g_events u = g_events t @ [e]"
    using debt_handlers_frame [of h no_io e ?t] registry_sub u by fastforce
  have A: "ApplyEvent debt_registry apply_calm now e t
      = (fst (markHandler False now (v_EventID e) 0 ''applied'' None u), True, None)"
    using assms(2) u by (simp add: ApplyEvent_def st apply_calm_def markHandler_def no_io_def)
  show "obl_view (fst (ApplyEvent debt_registry apply_calm now e t)) = obl_view (fst (h no_io e ?t))"
    "g_events (fst (ApplyEvent debt_registry apply_calm now e t)) = g_events t @ [e]"
    by (simp_all add: A u markHandler_def ev)
qed

lemma apply_resolved:
  assumes "v_EventID e \<notin> v_EventID ` set (g_events t)" "v_Type e = ''debt.resolved''" "v_Payload e = Some (resolved_body i r now)"
  shows "obl_view (fst (ApplyEvent debt_registry apply_calm now' e t))
      = (obl_view t)(i := map_option (\<lambda>v. if is_open v then closed v else v) (obl_view t i))"
    and "g_events (fst (ApplyEvent debt_registry apply_calm now' e t)) = g_events t @ [e]"
  using apply_first [OF assms(1), of on_debt_resolved now'] assms(2) by (simp_all add: resolved_view [OF assms(3)])

lemma apply_adjusted:
  assumes "v_EventID e \<notin> v_EventID ` set (g_events t)" "v_Type e = ''debt.adjusted''" "v_Payload e = Some (adjusted_body d a)"
  shows "obl_view (fst (ApplyEvent debt_registry apply_calm now' e t))
      = (obl_view t)(o_ID d := map_option (\<lambda>v. if is_open v then reweigh (wrap64 (o_Weight d - a)) v else v) (obl_view t (o_ID d)))"
  using apply_first(1) [OF assms(1), of on_debt_adjusted now'] assms(2) by (simp add: adjusted_view [OF assms(3)])

definition agrees :: "Obligation list \<Rightarrow> (string \<rightharpoonup> entry) \<Rightarrow> bool" where
  "agrees ds m \<longleftrightarrow> distinct (map o_ID ds)
     \<and> (\<forall>d \<in> set ds. m (o_ID d) = Some (oview d) \<and> o_Status d = ''open'' \<and> 0 \<le> o_Weight d \<and> in_int64 (o_Weight d))"

lemma agrees_Cons:
  assumes "agrees (d # ds) m"
  shows "m (o_ID d) = Some (oview d)" "is_open (oview d)" "0 \<le> o_Weight d" "in_int64 (o_Weight d)"
    "agrees ds (m(o_ID d := v))"
proof -
  show "m (o_ID d) = Some (oview d)" "is_open (oview d)" "0 \<le> o_Weight d" "in_int64 (o_Weight d)"
    using assms by (simp_all add: agrees_def is_open_def oview_def)
  have "\<forall>x \<in> set ds. o_ID x \<noteq> o_ID d"
    using assms by (simp add: agrees_def) (metis image_eqI)
  then show "agrees ds (m(o_ID d := v))"
    using assms by (simp add: agrees_def)
qed

lemma replicate_bodies:
  assumes "map (\<lambda>e. (v_Type e, v_Payload e)) es = map (\<lambda>(ty, b). (ty, Some b)) (pay_bodies now ds a)"
    and "distinct (map v_EventID es)" and "v_EventID ` set es \<inter> v_EventID ` set (g_events t) = {}"
    and "agrees ds m" and "obl_view t oid = m oid" "0 \<le> a" "in_int64 a"
  shows "obl_view (apply_all now' es t) oid = pay_view ds a m oid"
  using assms
proof (induction ds arbitrary: es t m a)
  case Nil
  then show ?case by simp
next
  case (Cons d ds)
  note d = agrees_Cons [OF Cons.prems(4)]
  consider (stop) "a = 0" | (full) "0 < a" "o_Weight d \<le> a" | (part) "0 < a" "a < o_Weight d"
    using Cons.prems(6) by linarith
  then show ?case
  proof cases
    case stop
    then show ?thesis using Cons.prems(1,5) by simp
  next
    case full
    obtain e es' where es: "es = e # es'" "v_Type e = ''debt.resolved''" "v_Payload e = Some (resolved_body (o_ID d) ''paid'' now)"
        "map (\<lambda>e. (v_Type e, v_Payload e)) es' = map (\<lambda>(ty, b). (ty, Some b)) (pay_bodies now ds (a - o_Weight d))"
      using Cons.prems(1) full by (cases es) simp_all
    let ?t = "fst (ApplyEvent debt_registry apply_calm now' e t)"
    have fresh: "v_EventID e \<notin> v_EventID ` set (g_events t)"
      using Cons.prems(3) es(1) by simp
    note t = apply_resolved [OF fresh es(2,3), of now']
    have v: "obl_view ?t oid = (m(o_ID d := map_option closed (m (o_ID d)))) oid"
      using Cons.prems(5) d(1,2) by (cases "oid = o_ID d") (simp_all add: t(1))
    have di: "distinct (map v_EventID es')" and fr: "v_EventID ` set es' \<inter> v_EventID ` set (g_events ?t) = {}"
      using Cons.prems(2,3) es(1) unfolding t(2) by simp_all
    have a: "0 \<le> a - o_Weight d" "in_int64 (a - o_Weight d)"
      using full Cons.prems(7) d(3) in64_between [of "a - o_Weight d" a] by simp_all
    have "obl_view (apply_all now' es' ?t) oid
        = pay_view ds (a - o_Weight d) (m(o_ID d := map_option closed (m (o_ID d)))) oid"
      by (rule Cons.IH [where m = "m(o_ID d := map_option closed (m (o_ID d)))" and es = es' and t = ?t
            and a = "a - o_Weight d", OF es(4) di fr d(5) v a])
    then show ?thesis using full es(1) by simp
  next
    case part
    obtain e where es: "es = [e]" "v_Type e = ''debt.adjusted''" "v_Payload e = Some (adjusted_body d a)"
      using Cons.prems(1) part by (cases es) simp_all
    have fresh: "v_EventID e \<notin> v_EventID ` set (g_events t)"
      using Cons.prems(3) es(1) by simp
    have w: "wrap64 (o_Weight d - a) = o_Weight d - a"
      using part d(4) in64_between [of "o_Weight d - a" "o_Weight d"] by (simp add: wrap64_id)
    show ?thesis
      using part Cons.prems(5) d(1,2) unfolding es(1)
      by (cases "oid = o_ID d") (simp_all add: apply_adjusted [OF fresh es(2,3)] w)
  qed
qed

text \<open>C34: a payment replicates. Another node that agrees with the paying node on an obligation and
  takes in the events the payment emitted agrees with it again afterwards: same parties, terms,
  weight and status.\<close>

theorem payment_replicates:
  fixes t :: "'b eng_scheme"
  assumes "eng_wf s" "seq_free s" "ledger_ok debtor s" "0 \<le> amount" "in_int64 amount"
    and "PayDebt no_io now debtor amount s = (s1, applied, None)"
    and "g_events s1 = g_events s @ es" "v_EventID ` set es \<inter> v_EventID ` set (g_events t) = {}"
    and "obl_view t oid = obl_view s oid"
  shows "obl_view (apply_all now' es t) oid = obl_view s1 oid"
proof -
  obtain ds where od: "OpenDebts False debtor s = Inr ds"
    by (simp add: OpenDebts_def)
  note ds = OpenDebts_listed [OF assms(1,3) od]
  obtain s2 where s2: "pay_loop no_io 1 now ds amount 0 s = (s2, 0 + min amount (\<Sum>d\<leftarrow>ds. o_Weight d), None)"
      "obl_view s2 = pay_view ds amount (obl_view s)" "emitted s (pay_bodies now ds amount) s2"
    using pay_loop_spec [OF ds(1) assms(2,4), of 0 1 now] assms(5) by auto
  have "s2 = s1"
    using s2(1) assms(6) od by (simp add: PayDebt_def)
  then have bodies: "map (\<lambda>e. (v_Type e, v_Payload e)) es = map (\<lambda>(ty, b). (ty, Some b)) (pay_bodies now ds amount)"
    using s2(3) assms(7) by (auto simp: emitted_def)
  have "eng_wf s1"
    using PayDebt_wf [OF assms(1), of no_io now debtor amount] assms(6) by simp
  then have "distinct (map v_EventID es)"
    using assms(7) by (simp add: eng_wf_def)
  moreover have "agrees ds (obl_view s)"
    using ds(1) by (simp add: listed_def agrees_def)
  ultimately have "obl_view (apply_all now' es t) oid = pay_view ds amount (obl_view s) oid"
    using replicate_bodies [where m = "obl_view s" and oid = oid and t = t, OF bodies _ assms(8) _ assms(9,4,5)] by blast
  then show ?thesis using s2(2) \<open>s2 = s1\<close> by simp
qed

end
