(* ===== verification/Engine_Examples.thy ===== *)
theory Engine_Examples
  imports Engine_Ledger
begin

text \<open>
  A small node (one player with two open debts) on which the properties of the engine are applied.
\<close>

section \<open>The example\<close>

definition ex_bcrypt :: bcrypt where
  "ex_bcrypt = \<lparr>bc_gen = (\<lambda>pw. Some (CHR ''h'' # pw)), bc_cmp = (\<lambda>h pw. h = CHR ''h'' # pw)\<rparr>"

definition ex_obl :: "string \<Rightarrow> int \<Rightarrow> obligation_row" where
  "ex_obl i w = \<lparr>o_ID = i, o_SourceNode = ''a'', o_Creditor = ''npc:x'', o_Debtor = ''a:p_1'', o_Kind = ''loan'', o_Terms = ''t'',
     o_Weight = w, o_Status = ''open'', o_CreatedAt = 1, o_resolved_at = None, o_resolution = None\<rparr>"

definition ex_turn :: turn_row where
  "ex_turn = \<lparr>tn_Actions = 3, tn_Attacks = 0, tn_LastReset = 100, tn_DayIndex = 4, tn_global_id = ''a:p_1''\<rparr>"

definition ex_event :: Event where
  "ex_event = \<lparr>v_EventID = ''a:1'', v_SourceNode = ''a'', v_Seq = 1, v_Type = ''debt.created'', v_TS = 1,
     v_Payload = Some (debt_created_body (Obligation.truncate (ex_obl ''a:o_1'' 5)))\<rparr>"

definition ex_eng :: eng where
  "ex_eng = (eng_empty ''a'')\<lparr>g_seq := 1, g_oseq := 2, g_turns := [ex_turn], g_events := [ex_event],
     g_obligations := [ex_obl ''a:o_1'' 5, ex_obl ''a:o_2'' 7]\<rparr>"

definition ex_peer :: eng where
  "ex_peer = (eng_empty ''b'')\<lparr>g_obligations := [ex_obl ''a:o_2'' 7]\<rparr>"

definition ex_paid :: eng where
  "ex_paid = fst (PayDebt no_io 50 ''a:p_1'' 6 ex_eng)"

section \<open>Facts about it\<close>

lemma ex_eng_wf: "eng_wf ex_eng"
  by (simp add: eng_wf_def ex_eng_def eng_empty_def ex_turn_def ex_event_def ex_obl_def MainActionsPerDay_def AttacksPerDay_def)

lemma show_one: "show_int 1 = ''1''"
  by code_simp

lemma ex_seq_free: "seq_free ex_eng"
proof -
  have "''a'' @ '':'' @ show_int q \<noteq> ''a:1''" if "1 < q" for q
    using that show_int_inj [of q 1] by (simp add: show_one)
  then show ?thesis
    by (simp add: seq_free_def ex_eng_def eng_empty_def ex_event_def)
qed

lemma ex_ledger: "ledger_ok ''a:p_1'' ex_eng"
  by (simp add: ledger_ok_def ex_eng_def ex_obl_def in_int64_def)

lemma ex_load: "DebtLoad False ''a:p_1'' ex_eng = Inr 12"
  by code_simp

lemma ex_pay: "PayDebt no_io 50 ''a:p_1'' 6 ex_eng = (ex_paid, 6, None)"
  by code_simp

lemma ex_pay_events: "g_events ex_paid = g_events ex_eng @ drop 1 (g_events ex_paid)"
  by code_simp

lemma ex_names: "trim_space ''joe'' = ''joe''" "validName ''joe'' = None" "nocase (trim_space ''JOE'') = nocase ''joe''"
  by code_simp+

lemma ex_intake: "\<exists>t. ApplyEvent debt_registry apply_calm 8 ex_event ex_peer = (t, True, None)"
proof -
  have "snd (on_debt_created no_io ex_event t) = None" for t :: eng
    by (simp add: on_debt_created_def ex_event_def debt_created_body_def ex_obl_def Obligation.truncate_def body_simps
        in_int64_def Let_def)
  then obtain u where "on_debt_created no_io ex_event (ex_peer\<lparr>g_events := [ex_event]\<rparr>) = (u, None)"
    by (metis prod.collapse)
  moreover have "v_Type ex_event = ''debt.created''" "g_events ex_peer = []"
    by (simp_all add: ex_event_def ex_peer_def eng_empty_def)
  ultimately show ?thesis
    by (simp add: ApplyEvent_def store_event_def apply_calm_def markHandler_def del: no_io_simp) (simp add: no_io_def)
qed

section \<open>The properties applied\<close>

theorem account_can_login_witness:
  "Authenticate ex_bcrypt False ''JOE'' ''word'' (fst (CreateAccount ex_bcrypt no_io 7 ''id'' ''joe'' ''word'' (eng_empty ''a''))) \<noteq> None"
proof -
  obtain s1 p where "CreateAccount ex_bcrypt no_io 7 ''id'' ''joe'' ''word'' (eng_empty ''a'') = (s1, Inr p)"
    using ex_names by (simp add: CreateAccount_def Let_def ex_bcrypt_def InsertPlayer_def eng_empty_def)
  then show ?thesis
    using account_can_login [of ex_bcrypt no_io 7 "''id''" "''joe''" "''word''" "eng_empty ''a''" s1 p "''JOE''"] ex_names
    by (simp add: ex_bcrypt_def)
qed

theorem reset_once_a_day_witness:
  "ResetIfNewDay (\<lambda>_. 0) no_io 90000 ''a:p_1'' (fst (ResetIfNewDay (\<lambda>_. 0) no_io 86400 ''a:p_1'' ex_eng))
   = (fst (ResetIfNewDay (\<lambda>_. 0) no_io 86400 ''a:p_1'' ex_eng), False, None)"
proof -
  have "snd (ResetIfNewDay (\<lambda>_. 0) no_io 86400 ''a:p_1'' ex_eng) = (True, None)" "sameDay (\<lambda>_. 0) 86400 90000"
    by code_simp+
  then show ?thesis
    using reset_once_a_day [OF ex_eng_wf, of "\<lambda>_. 0" no_io 86400 "''a:p_1''" _ True 90000] by (metis prod.collapse)
qed

theorem restart_ids_fresh_witness:
  "''a:2'' \<notin> v_EventID ` set (g_events (fst (Migrate no_io (ex_eng\<lparr>g_seq := 0, g_oseq := 0\<rparr>))))"
proof -
  have "own_ids (ex_eng\<lparr>g_seq := 0, g_oseq := 0\<rparr>)"
  proof -
    have "''a:o_1'' = ''a'' @ '':o_'' @ show_int 1" "''a:o_2'' = ''a'' @ '':o_'' @ show_int 2" "''a:1'' = ''a'' @ '':'' @ show_int 1"
      by code_simp+
    moreover have "in_int64 1" "in_int64 2"
      by (simp_all add: in_int64_def)
    ultimately show ?thesis
      by (auto simp: own_ids_def ex_eng_def eng_empty_def ex_event_def ex_obl_def intro: exI [of _ 1] exI [of _ 2])
  qed
  moreover have "g_nodeID s1 @ '':'' @ show_int (g_seq s1 + 1) = ''a:2''"
    if "s1 = fst (Migrate no_io (ex_eng\<lparr>g_seq := 0, g_oseq := 0\<rparr>))" for s1
    unfolding that by code_simp
  ultimately show ?thesis
    using restart_ids_fresh [of "ex_eng\<lparr>g_seq := 0, g_oseq := 0\<rparr>"] by simp
qed

theorem pay_debt_exact_witness:
  "(\<Sum>x\<leftarrow>filter (open_of ''a:p_1'') (g_obligations ex_paid). o_Weight x) = 6"
  using pay_debt_exact [OF ex_eng_wf ex_seq_free ex_ledger _ _ ex_load, of 6 50] ex_pay
  by (auto simp: in_int64_def)

theorem apply_event_once_witness:
  "ApplyEvent debt_registry apply_calm 9 ex_event (fst (ApplyEvent debt_registry apply_calm 8 ex_event ex_peer))
   = (fst (ApplyEvent debt_registry apply_calm 8 ex_event ex_peer), False, None)"
  using ex_intake apply_event_once [of apply_calm 8 ex_event ex_peer _ True 9] by auto

theorem payment_replicates_witness:
  "obl_view (apply_all 60 (drop 1 (g_events ex_paid)) ex_peer) ''a:o_2'' = Some (''npc:x'', ''a:p_1'', ''loan'', ''t'', 6, ''open'')"
proof -
  have "v_EventID ` set (drop 1 (g_events ex_paid)) \<inter> v_EventID ` set (g_events ex_peer) = {}"
    by (simp add: ex_peer_def eng_empty_def)
  moreover have "obl_view ex_peer ''a:o_2'' = obl_view ex_eng ''a:o_2''"
    by code_simp
  ultimately have "obl_view (apply_all 60 (drop 1 (g_events ex_paid)) ex_peer) ''a:o_2'' = obl_view ex_paid ''a:o_2''"
    by (intro payment_replicates [OF ex_eng_wf ex_seq_free ex_ledger _ _ ex_pay ex_pay_events]) (simp_all add: in_int64_def)
  also have "\<dots> = Some (''npc:x'', ''a:p_1'', ''loan'', ''t'', 6, ''open'')"
    by code_simp
  finally show ?thesis .
qed

end
