(* ===== verification/Go_Float.thy ===== *)
theory Go_Float
  imports Go_Prelude Complex_Main "HOL-Library.Log_Nat"
begin

text \<open>
  The floating-point arithmetic the game's rules use: Go's \<open>float64\<close> on values of the normal range, as
  rationals rounded to 53 significant bits (ties to even) after every operation, without fused
  operations; \<open>math.Round\<close>, the conversion to \<open>int\<close> as amd64 does it, and the draws of \<open>math/rand\<close>.
  The one fact the rules need is that a rounding is off by at most one part in 2^53.
\<close>

section \<open>Rounding\<close>

definition round_even :: "rat \<Rightarrow> int" where
  "round_even x =
     (let f = \<lfloor>x\<rfloor>; d = x - of_int f in if d < 1 / 2 \<or> (d = 1 / 2 \<and> even f) then f else f + 1)"

definition pow2 :: "int \<Rightarrow> rat" where
  "pow2 e = (if 0 \<le> e then 2 ^ nat e else 1 / 2 ^ nat (- e))"

text \<open>The binary exponent of a positive number: \<open>pow2 e \<le> x < pow2 (e + 1)\<close>.\<close>

definition expo :: "rat \<Rightarrow> int" where
  "expo x = (case quotient_of x of (p, q) \<Rightarrow>
     let e = bitlen p - bitlen q in if pow2 e \<le> x then e else e - 1)"

definition fl :: "rat \<Rightarrow> rat" where
  "fl x = (if x = 0 then 0 else let u = pow2 (expo \<bar>x\<bar> - 52) in of_int (round_even (x / u)) * u)"

definition round_away :: "rat \<Rightarrow> int" where
  "round_away x = (if 0 \<le> x then \<lfloor>x + 1 / 2\<rfloor> else - \<lfloor>1 / 2 - x\<rfloor>)"

definition float_to_int :: "int \<Rightarrow> int" where
  "float_to_int z = (if in_int64 z then z else - (2 ^ 63))"

section \<open>Random draws\<close>

text \<open>The k-th number a generator produces; \<open>Float64\<close> takes 53 bits of it and \<open>Intn n\<close> a remainder.\<close>

type_synonym rng = "nat \<Rightarrow> int"

definition Float64 :: "rng \<Rightarrow> nat \<Rightarrow> rat" where
  "Float64 r k = of_int (r k mod 2 ^ 53) / 2 ^ 53"

definition Intn :: "rng \<Rightarrow> nat \<Rightarrow> nat \<Rightarrow> nat" where
  "Intn r k n = nat (r k mod int n)"

section \<open>Error bounds\<close>

lemma round_even_near: "\<bar>of_int (round_even x) - x\<bar> \<le> 1 / 2"
proof -
  have "of_int \<lfloor>x\<rfloor> \<le> x" "x < of_int \<lfloor>x\<rfloor> + 1"
    by linarith+
  then show ?thesis
    by (auto simp: round_even_def Let_def)
qed

lemma pow2_pos [simp]: "0 < pow2 e"
  by (simp add: pow2_def)

lemma pow2_add_nat: "pow2 (e + int k) = pow2 e * 2 ^ k"
proof (cases "0 \<le> e")
  case True
  then show ?thesis by (simp add: pow2_def nat_add_distrib power_add)
next
  case False
  show ?thesis
  proof (cases "0 \<le> e + int k")
    case True
    then have "k = nat (e + int k) + nat (- e)"
      using False by simp
    then have "(2 :: rat) ^ k = 2 ^ nat (e + int k) * 2 ^ nat (- e)"
      by (metis power_add)
    then show ?thesis using True False by (simp add: pow2_def)
  next
    case neg: False
    then have "nat (- e) = nat (- (e + int k)) + k"
      using False by simp
    then have "(2 :: rat) ^ nat (- e) = 2 ^ nat (- (e + int k)) * 2 ^ k"
      by (metis power_add)
    then show ?thesis using neg False by (simp add: pow2_def)
  qed
qed

lemma pow2_diff: "pow2 (int a - int b) = 2 ^ a / 2 ^ b"
proof (cases "b \<le> a")
  case True
  then show ?thesis by (simp add: pow2_def nat_diff_distrib power_diff flip: of_nat_diff)
next
  case False
  then have "nat (int b - int a) = b - a"
    by simp
  then show ?thesis using False by (simp add: pow2_def power_diff)
qed

lemma bitlen_between: "0 < p \<Longrightarrow> 2 ^ (nat (bitlen p) - 1) \<le> p \<and> p < 2 ^ nat (bitlen p)"
  using bitlen_bounds [of p] nat_diff_distrib [of 1 "bitlen p"] bitlen_nonneg [of p]
  by (cases "bitlen p = 0") (simp_all add: bitlen_eq_zero_iff)

lemma expo_le:
  assumes "0 < x"
  shows "pow2 (expo x) \<le> x"
proof -
  obtain p q where pq: "quotient_of x = (p, q)"
    by (cases "quotient_of x")
  have x: "x = of_int p / of_int q" and q: "0 < q"
    using quotient_of_div [OF pq] quotient_of_denom_pos [OF pq] by simp_all
  have p: "0 < p"
    using assms x q by (simp add: zero_less_divide_iff)
  define a b where "a = nat (bitlen p) - 1" and "b = nat (bitlen q)"
  have "0 < bitlen p" "0 < bitlen q"
    using p q bitlen_eq_zero_iff bitlen_nonneg by (metis less_le not_le)+
  then have e: "bitlen p - bitlen q - 1 = int a - int b"
    by (simp add: a_def b_def)
  have "2 ^ a \<le> p" "q \<le> 2 ^ b"
    using bitlen_between [OF p] bitlen_between [OF q] by (simp_all add: a_def b_def)
  then have "(2 :: rat) ^ a \<le> of_int p" "(of_int q :: rat) \<le> 2 ^ b"
    by (metis of_int_le_iff of_int_numeral of_int_power)+
  then have "(2 :: rat) ^ a / 2 ^ b \<le> of_int p / of_int q"
    using p q by (intro frac_le) simp_all
  then have "pow2 (bitlen p - bitlen q - 1) \<le> x"
    unfolding e pow2_diff x .
  then show ?thesis
    by (simp add: expo_def pq Let_def)
qed

text \<open>One rounding is off by at most one part in 2^53.\<close>

lemma fl_error: "\<bar>fl x - x\<bar> \<le> \<bar>x\<bar> / 2 ^ 53"
proof (cases "x = 0")
  case False
  let ?u = "pow2 (expo \<bar>x\<bar> - 52)"
  have "pow2 (expo \<bar>x\<bar>) = ?u * 2 ^ 52"
    using pow2_add_nat [of "expo \<bar>x\<bar> - 52" 52] by simp
  then have u: "?u * 2 ^ 52 \<le> \<bar>x\<bar>"
    using expo_le [of "\<bar>x\<bar>"] False by simp
  have "fl x - x = (of_int (round_even (x / ?u)) - x / ?u) * ?u"
    using False less_imp_neq [OF pow2_pos [of "expo \<bar>x\<bar> - 52"]] by (simp add: fl_def Let_def field_simps)
  then have "\<bar>fl x - x\<bar> = \<bar>of_int (round_even (x / ?u)) - x / ?u\<bar> * ?u"
    using pow2_pos [of "expo \<bar>x\<bar> - 52"] by (simp add: abs_mult abs_of_pos)
  also have "\<dots> \<le> 1 / 2 * ?u"
    using round_even_near by (rule mult_right_mono) (simp add: less_imp_le)
  finally show ?thesis using u by simp
qed (simp add: fl_def)

lemma fl_between:
  assumes "0 \<le> x"
  shows "x * (1 - 1 / 2 ^ 53) \<le> fl x" "fl x \<le> x * (1 + 1 / 2 ^ 53)"
  using fl_error [of x] assms unfolding abs_le_iff by (simp_all add: algebra_simps)

lemma fl_nonneg: "0 \<le> x \<Longrightarrow> 0 \<le> fl x"
  using fl_between(1) [of x] by (rule order_trans [rotated]) simp_all

lemma Float64_bounds: "0 \<le> Float64 r k" "Float64 r k < 1"
proof -
  have "r k mod 2 ^ 53 < 2 ^ 53"
    by simp
  then have "(of_int (r k mod 2 ^ 53) :: rat) < of_int (2 ^ 53)"
    by (simp only: of_int_less_iff)
  then show "Float64 r k < 1"
    by (simp add: Float64_def)
qed (simp add: Float64_def)

lemma Intn_less: "0 < n \<Longrightarrow> Intn r k n < n"
  by (simp add: Intn_def nat_less_iff)

lemma round_away_nonneg:
  assumes "0 \<le> x"
  shows "of_int (round_away x) \<le> x + 1 / 2" "x - 1 / 2 < of_int (round_away x)" "0 \<le> round_away x"
  using assms by (simp_all add: round_away_def) linarith+

end
