(* ===== verification/Game_Content.thy ===== *)
theory Game_Content
  imports Go_Float
begin

text \<open>
  The reference game's content tables (\<open>internal/game/content.go\<close>) and its combat formula
  (\<open>combat.go\<close>). The introductions of the creatures and the pools of flavour text, which are only
  shown, are left out, and so are the draws that choose among them: a generator is an arbitrary
  sequence of numbers.
\<close>

section \<open>Content\<close>

record Item =
  it_ID :: string
  it_Name :: string
  it_Bonus :: int

definition items :: "(string \<times> Item) list" where
  "items = map (\<lambda>(i, n, b). (i, \<lparr>it_ID = i, it_Name = n, it_Bonus = b\<rparr>))
     [(''wpn_rusted_shiv'', ''Rusted Shiv'', 3), (''wpn_bone_mallet'', ''Bone Mallet'', 6), (''wpn_dock_hook'', ''Dock Hook'', 9),
      (''wpn_warden_blade'', ''Warden's Blade'', 15), (''arm_scavengers_wrap'', ''Scavenger's Wrap'', 1),
      (''arm_layered_rags'', ''Layered Rags'', 5), (''arm_vault_plate'', ''Vault Plate'', 14), (''arm_deep_harness'', ''Deep Harness'', 8)]"

record TradeGood =
  td_ID :: string
  td_Name :: string
  td_Weight :: int

definition tradeGoods :: "(string \<times> TradeGood) list" where
  "tradeGoods = map (\<lambda>(i, n, w). (i, \<lparr>td_ID = i, td_Name = n, td_Weight = w\<rparr>))
     [(''trd_brass_fittings'', ''brass fittings'', 8), (''trd_lantern_glass'', ''lantern glass'', 5),
      (''trd_bone_buttons'', ''bone buttons'', 3), (''trd_copper_wire'', ''copper wire'', 6), (''trd_chalk_dust'', ''chalk dust'', 2),
      (''trd_wound_cloth'', ''wound cloth'', 4), (''trd_black_salt'', ''black salt'', 7), (''trd_old_ink'', ''old ink'', 5),
      (''trd_vault_brass'', ''vault brass'', 9)]"

definition lootDrops :: "string list" where
  "lootDrops = [''trd_brass_fittings'', ''trd_lantern_glass'', ''trd_bone_buttons'', ''trd_copper_wire'', ''trd_chalk_dust'',
     ''trd_wound_cloth'', ''trd_black_salt'', ''trd_old_ink'']"

definition goodName :: "string \<Rightarrow> string" where
  "goodName i = (case map_of tradeGoods i of Some g \<Rightarrow> td_Name g | None \<Rightarrow> i)"

definition goodWeight :: "string \<Rightarrow> int" where
  "goodWeight i = (case map_of tradeGoods i of Some g \<Rightarrow> td_Weight g | None \<Rightarrow> 0)"

record Ware =
  wa_ItemID :: string
  wa_Price :: int
  wa_Slot :: string

definition marenWares :: "Ware list" where
  "marenWares = map (\<lambda>(i, p, s). \<lparr>wa_ItemID = i, wa_Price = p, wa_Slot = s\<rparr>)
     [(''wpn_bone_mallet'', 10, ''weapon''), (''wpn_dock_hook'', 16, ''weapon''), (''arm_layered_rags'', 18, ''armor''),
      (''arm_vault_plate'', 40, ''armor'')]"

definition itemBonus :: "string \<Rightarrow> int" where
  "itemBonus i = (case map_of items i of Some x \<Rightarrow> it_Bonus x | None \<Rightarrow> 0)"

definition itemName :: "string \<Rightarrow> string" where
  "itemName i = (case map_of items i of Some x \<Rightarrow> it_Name x | None \<Rightarrow> ''nothing'')"

record Creature =
  cr_ID :: string
  cr_Name :: string
  cr_Band :: int
  cr_HP :: int
  cr_Strength :: int
  cr_Defense :: int

definition creature :: "string \<Rightarrow> string \<Rightarrow> int \<Rightarrow> int \<Rightarrow> int \<Rightarrow> int \<Rightarrow> Creature" where
  "creature i n b hp s d = \<lparr>cr_ID = i, cr_Name = n, cr_Band = b, cr_HP = hp, cr_Strength = s, cr_Defense = d\<rparr>"

definition creaturesByBand :: "(nat \<times> Creature list) list" where
  "creaturesByBand =
     [(1, [creature ''crt_gutter_eel'' ''gutter eel'' 1 12 7 3, creature ''crt_brick_rat'' ''brick rat'' 1 10 6 2,
           creature ''crt_drain_spider'' ''drain spider'' 1 14 8 4, creature ''crt_mold_crawler'' ''mold crawler'' 1 16 5 6]),
      (2, [creature ''crt_brick_haunt'' ''brick haunt'' 2 22 11 7, creature ''crt_vault_guardian'' ''vault guardian'' 2 20 10 10,
           creature ''crt_debt_collector'' ''debt collector'' 2 18 14 5]),
      (3, [creature ''crt_tally_shade'' ''tally shade'' 3 34 16 11, creature ''crt_deep_mason'' ''deep mason'' 3 42 13 16,
           creature ''crt_hunger_blind'' ''hunger blind'' 3 28 19 7]),
      (4, [creature ''crt_obligation_wraith'' ''obligation wraith'' 4 46 22 12, creature ''crt_ward_echo'' ''ward echo'' 4 36 18 17,
           creature ''crt_the_archivist'' ''Archivist'' 4 52 20 15])]"

text \<open>The loop over the bands, downwards; draw k picks the creature.\<close>

fun creature_from :: "nat \<Rightarrow> rng \<Rightarrow> nat \<Rightarrow> Creature" where
  "creature_from 0 r k = hd (the (map_of creaturesByBand 1))"
| "creature_from (Suc b) r k =
     (case map_of creaturesByBand (Suc b) of
        Some cs \<Rightarrow> if cs \<noteq> [] then cs ! Intn r k (length cs) else creature_from b r k
      | None \<Rightarrow> creature_from b r k)"

definition creatureForBand :: "int \<Rightarrow> rng \<Rightarrow> nat \<Rightarrow> Creature" where
  "creatureForBand band r k = creature_from (nat band) r k"

section \<open>Combat\<close>

text \<open>The damage of one blow, from draws k and k + 1: the variance and the critical hit.\<close>

definition raw_power :: "int \<Rightarrow> int \<Rightarrow> int" where
  "raw_power attackPower defensePower =
     (let raw = wrap64 (attackPower - go_quo defensePower 2) in if raw < 1 then 1 else raw)"

definition variance :: "rng \<Rightarrow> nat \<Rightarrow> rat" where
  "variance r k = fl (fl (8 / 10) + fl (Float64 r k * fl (4 / 10)))"

definition plain_damage :: "int \<Rightarrow> rng \<Rightarrow> nat \<Rightarrow> int" where
  "plain_damage raw r k =
     (let dmg = float_to_int (round_away (fl (fl (of_int raw) * variance r k))) in if dmg < 1 then 1 else dmg)"

definition Damage :: "int \<Rightarrow> int \<Rightarrow> int \<Rightarrow> rng \<Rightarrow> nat \<Rightarrow> int \<times> bool" where
  "Damage attackPower defensePower luck r k =
     (let dmg = plain_damage (raw_power attackPower defensePower) r k;
          crit = int (Intn r (Suc k) 100) < luck
      in (if crit then go_quo (wrap64 (dmg * 3)) 2 else dmg, crit))"

definition fleeChance :: "int \<Rightarrow> int" where
  "fleeChance luck = wrap64 (40 + wrap64 (luck * 2))"

section \<open>Facts about the tables\<close>

lemma goodWeight_bounds: "0 \<le> goodWeight i" "goodWeight i \<le> 9"
  by (simp_all add: goodWeight_def tradeGoods_def)

lemma lootDrops_weight: "i \<in> set lootDrops \<Longrightarrow> 2 \<le> goodWeight i"
  by (auto simp: lootDrops_def goodWeight_def tradeGoods_def)

lemma itemBonus_bounds: "0 \<le> itemBonus i" "itemBonus i \<le> 15"
  by (simp_all add: itemBonus_def items_def)

lemma creature_from_mem: "\<exists>p \<in> set creaturesByBand. creature_from b r k \<in> set (snd p)"
proof (induction b)
  case 0
  show ?case by (simp add: creaturesByBand_def)
next
  case (Suc b)
  show ?case
  proof (cases "\<exists>cs. map_of creaturesByBand (Suc b) = Some cs \<and> cs \<noteq> []")
    case True
    then obtain cs where cs: "map_of creaturesByBand (Suc b) = Some cs" "cs \<noteq> []" by blast
    then have "creature_from (Suc b) r k \<in> set cs"
      by (simp add: Intn_less)
    then show ?thesis
      using map_of_SomeD [OF cs(1)] by force
  next
    case False
    then show ?thesis using Suc by (auto split: option.split)
  qed
qed

lemma creature_bounds:
  "1 \<le> cr_HP (creatureForBand b r k)" "cr_HP (creatureForBand b r k) \<le> 52"
  "1 \<le> cr_Strength (creatureForBand b r k)" "cr_Strength (creatureForBand b r k) \<le> 22"
  "1 \<le> cr_Defense (creatureForBand b r k)" "cr_Defense (creatureForBand b r k) \<le> 17"
proof -
  have "\<forall>p \<in> set creaturesByBand. \<forall>x \<in> set (snd p). 1 \<le> cr_HP x \<and> cr_HP x \<le> 52 \<and> 1 \<le> cr_Strength x \<and> cr_Strength x \<le> 22
      \<and> 1 \<le> cr_Defense x \<and> cr_Defense x \<le> 17"
    by (simp add: creaturesByBand_def creature_def)
  then show "1 \<le> cr_HP (creatureForBand b r k)" "cr_HP (creatureForBand b r k) \<le> 52"
    "1 \<le> cr_Strength (creatureForBand b r k)" "cr_Strength (creatureForBand b r k) \<le> 22"
    "1 \<le> cr_Defense (creatureForBand b r k)" "cr_Defense (creatureForBand b r k) \<le> 17"
    using creature_from_mem [of "nat b" r k] unfolding creatureForBand_def by blast+
qed

section \<open>Bounds on a blow\<close>

lemma variance_bounds: "8 / 10 * (1 - 4 / 2 ^ 53) \<le> variance r k" "variance r k \<le> 12 / 10 * (1 + 4 / 2 ^ 53)"
proof -
  let ?e = "1 / 2 ^ 53 :: rat"
  have e: "8 / 10 * (1 - ?e) \<le> fl (8 / 10)" "fl (8 / 10) \<le> 8 / 10 * (1 + ?e)" "0 \<le> fl (4 / 10)" "fl (4 / 10) \<le> 4 / 10 * (1 + ?e)"
    using fl_between [of "8 / 10"] fl_between [of "4 / 10"] fl_nonneg [of "4 / 10"] by simp_all
  have u: "0 \<le> Float64 r k * fl (4 / 10)" "Float64 r k * fl (4 / 10) \<le> 4 / 10 * (1 + ?e)"
    using Float64_bounds [of r k] e(3,4) mult_mono [of "Float64 r k" 1 "fl (4 / 10)" "4 / 10 * (1 + ?e)"]
    by (simp_all add: less_imp_le)
  have f: "0 \<le> fl (Float64 r k * fl (4 / 10))" "fl (Float64 r k * fl (4 / 10)) \<le> 4 / 10 * (1 + ?e) * (1 + ?e)"
    using fl_nonneg [OF u(1)] fl_between(2) [OF u(1)] mult_right_mono [OF u(2), of "1 + ?e"] by simp_all
  let ?s = "fl (8 / 10) + fl (Float64 r k * fl (4 / 10))"
  have s: "8 / 10 * (1 - ?e) \<le> ?s" "?s \<le> 8 / 10 * (1 + ?e) + 4 / 10 * (1 + ?e) * (1 + ?e)"
    using e f by linarith+
  have "0 \<le> ?s"
    using s(1) by (rule order_trans [rotated]) simp
  note v = fl_between [OF this]
  show "8 / 10 * (1 - 4 / 2 ^ 53) \<le> variance r k"
    using v(1) mult_right_mono [OF s(1), of "1 - ?e"] unfolding variance_def by simp
  show "variance r k \<le> 12 / 10 * (1 + 4 / 2 ^ 53)"
    using v(2) mult_right_mono [OF s(2), of "1 + ?e"] unfolding variance_def by simp
qed

lemma product_bounds:
  fixes x :: rat
  assumes "0 \<le> x"
  shows "x * (8 / 10) * (1 - 8 / 2 ^ 53) \<le> fl (fl x * variance r k)" "fl (fl x * variance r k) \<le> x * (12 / 10) * (1 + 8 / 2 ^ 53)"
proof -
  let ?e = "1 / 2 ^ 53 :: rat"
  note v = variance_bounds [of r k] and f = fl_between [OF assms] fl_nonneg [OF assms]
  have v0: "0 \<le> variance r k"
    using v(1) by (rule order_trans [rotated]) simp
  have p: "x * (1 - ?e) * (8 / 10 * (1 - 4 / 2 ^ 53)) \<le> fl x * variance r k"
    "fl x * variance r k \<le> x * (1 + ?e) * (12 / 10 * (1 + 4 / 2 ^ 53))"
    by (rule mult_mono [OF f(1) v(1)], simp add: f(3), simp, rule mult_mono [OF f(2) v(2)], simp_all add: assms v0)
  have p0: "0 \<le> fl x * variance r k"
    using f(3) v0 by simp
  have "x * ((1 - ?e) * (8 / 10 * (1 - 4 / 2 ^ 53)) * (1 - ?e)) \<le> fl (fl x * variance r k)"
    using mult_right_mono [OF p(1), of "1 - ?e"] fl_between(1) [OF p0] by (simp add: mult.assoc)
  moreover have "x * (8 / 10 * (1 - 8 / 2 ^ 53)) \<le> x * ((1 - ?e) * (8 / 10 * (1 - 4 / 2 ^ 53)) * (1 - ?e))"
    by (rule mult_left_mono [OF _ assms]) simp
  ultimately show "x * (8 / 10) * (1 - 8 / 2 ^ 53) \<le> fl (fl x * variance r k)"
    by (simp add: mult.assoc)
  have "fl (fl x * variance r k) \<le> x * ((1 + ?e) * (12 / 10 * (1 + 4 / 2 ^ 53)) * (1 + ?e))"
    using mult_right_mono [OF p(2), of "1 + ?e"] fl_between(2) [OF p0] by (simp add: mult.assoc)
  moreover have "x * ((1 + ?e) * (12 / 10 * (1 + 4 / 2 ^ 53)) * (1 + ?e)) \<le> x * (12 / 10 * (1 + 8 / 2 ^ 53))"
    by (rule mult_left_mono [OF _ assms]) simp
  ultimately show "fl (fl x * variance r k) \<le> x * (12 / 10) * (1 + 8 / 2 ^ 53)"
    by (simp add: mult.assoc)
qed

lemma plain_damage_bounds:
  assumes "1 \<le> raw" "raw \<le> 2 ^ 40"
  shows "4 * raw - 2 \<le> 5 * plain_damage raw r k" "5 * plain_damage raw r k \<le> 6 * raw + 2" "1 \<le> plain_damage raw r k"
proof -
  let ?x = "fl (fl (of_int raw) * variance r k)"
  let ?d = "round_away ?x"
  have r0: "(0 :: rat) \<le> of_int raw" and r40: "(of_int raw :: rat) \<le> 2 ^ 40"
    using assms by (simp, metis of_int_le_iff of_int_numeral of_int_power)
  note b = product_bounds [OF r0, of r k]
  have "0 \<le> ?x"
    using b(1) r0 by (intro order_trans [OF _ b(1)]) simp
  note d = round_away_nonneg [OF this]
  have "of_int (5 * ?d) < (of_int (6 * raw + 3) :: rat)"
    using d(1) b(2) r40 by simp
  then have up: "5 * ?d \<le> 6 * raw + 2"
    by (simp only: of_int_less_iff)
  have "(of_int (4 * raw - 3) :: rat) < of_int (5 * ?d)"
    using d(2) b(1) r40 by simp
  then have lo: "4 * raw - 2 \<le> 5 * ?d"
    by (simp only: of_int_less_iff)
  have i: "float_to_int ?d = ?d"
    using up assms d(3) by (simp add: float_to_int_def in_int64_def)
  show "4 * raw - 2 \<le> 5 * plain_damage raw r k" "5 * plain_damage raw r k \<le> 6 * raw + 2" "1 \<le> plain_damage raw r k"
    using lo up assms(1) by (auto simp: plain_damage_def Let_def i)
qed

lemma raw_power_bounds:
  assumes "0 \<le> a" "a \<le> 2 ^ 32" "0 \<le> d" "d \<le> 2 ^ 32"
  shows "raw_power a d = max 1 (a - d div 2)" "1 \<le> raw_power a d" "raw_power a d \<le> 2 ^ 40"
proof -
  have d: "0 \<le> d div 2" "d div 2 \<le> d"
    using assms(3) by presburger+
  have "wrap64 (a - d div 2) = a - d div 2"
    using assms d by (intro wrap64_id) (simp add: in_int64_def)
  then show r: "raw_power a d = max 1 (a - d div 2)"
    using assms(3) by (simp add: raw_power_def go_quo_nonneg max_def)
  show "1 \<le> raw_power a d" "raw_power a d \<le> 2 ^ 40"
    unfolding r using assms d by simp_all
qed

lemma Damage_simps:
  "1 \<le> raw_power a d \<Longrightarrow> raw_power a d \<le> 2 ^ 40 \<Longrightarrow>
     fst (Damage a d luck r k) = (let dmg = plain_damage (raw_power a d) r k in if int (Intn r (Suc k) 100) < luck then dmg * 3 div 2 else dmg)"
  using plain_damage_bounds [of "raw_power a d" r k]
  by (simp add: Damage_def Let_def wrap64_id in_int64_def go_quo_nonneg)

lemma Damage_pos:
  assumes "0 \<le> a" "a \<le> 2 ^ 32" "0 \<le> d" "d \<le> 2 ^ 32"
  shows "1 \<le> fst (Damage a d luck r k)" "fst (Damage a d luck r k) \<le> 2 ^ 42"
proof -
  note raw = raw_power_bounds(2,3) [OF assms]
  define b where "b = plain_damage (raw_power a d) r k"
  have b: "1 \<le> b" "5 * b \<le> 6 * 2 ^ 40 + 2"
    using plain_damage_bounds(2,3) [OF raw, of r k] raw(2) by (simp_all add: b_def)
  then have "1 \<le> b * 3 div 2" "b * 3 div 2 \<le> 2 * b"
    by presburger+
  then show "1 \<le> fst (Damage a d luck r k)" "fst (Damage a d luck r k) \<le> 2 ^ 42"
    using b by (simp_all add: Damage_simps [OF raw] Let_def flip: b_def)
qed

text \<open>C20: a blow stays within the documented variance. For ordinary powers the damage is the raw power
  max(1, attack - defense/2) varied by at most 20 percent up or down and rounded, at least 1, half as
  much again on a critical hit.\<close>

theorem damage_in_range:
  assumes "0 \<le> a" "a \<le> 2 ^ 32" "0 \<le> d" "d \<le> 2 ^ 32" and "raw = max 1 (a - d div 2)" and "Damage a d luck r k = (dmg, crit)"
  shows "\<exists>base. 1 \<le> base \<and> 4 * raw - 2 \<le> 5 * base \<and> 5 * base \<le> 6 * raw + 2 \<and> dmg = (if crit then base * 3 div 2 else base)"
proof -
  note raw = raw_power_bounds [OF assms(1-4)]
  note base = plain_damage_bounds [OF raw(2,3), of r k]
  have "crit \<longleftrightarrow> int (Intn r (Suc k) 100) < luck"
    using assms(6) by (auto simp: Damage_def Let_def)
  then have "dmg = (if crit then plain_damage (raw_power a d) r k * 3 div 2 else plain_damage (raw_power a d) r k)"
    using Damage_simps [OF raw(2,3), of luck r k] assms(6) by (simp add: Let_def)
  then show ?thesis
    using base raw(1) assms(5) by metis
qed

end
