(* ===== verification/Game_Store.thy ===== *)
theory Game_Store
  imports Game_Content Engine_Events
begin

text \<open>
  The reference game's own tables (\<open>internal/game/module.go\<close>): characters, inventories and the log of
  attacks, added to the engine's store by extending its record; the character's portable state; and
  the inventory operations every rule of the game goes through.
\<close>

section \<open>State\<close>

record charState =
  ch_GlobalID :: string
  ch_HP :: int
  ch_MaxHP :: int
  ch_Strength :: int
  ch_Defense :: int
  ch_Luck :: int
  ch_Weapon :: string
  ch_Armor :: string
  ch_DepthRecord :: int
  ch_Blooded :: bool
  ch_TutorialDone :: bool
  ch_RestsToday :: int
  ch_RestDay :: int
  ch_DeadDay :: int

record inv_row =
  iv_global_id :: string
  iv_item_id :: string
  iv_qty :: int

record pvp_row =
  lg_attacker_id :: string
  lg_attacker_name :: string
  lg_victim_id :: string
  lg_day_index :: int
  lg_attacker_won :: bool
  lg_loot_desc :: string
  lg_seen :: bool
  lg_created_at :: int

record game = eng +
  k_chars :: "charState list"
  k_inv :: "inv_row list"
  k_log :: "pvp_row list"

definition isDeadToday :: "charState \<Rightarrow> Turn \<Rightarrow> bool" where
  "isDeadToday c turn \<longleftrightarrow> ch_DeadDay c = tn_DayIndex turn"

section \<open>Characters\<close>

definition new_char :: "string \<Rightarrow> charState" where
  "new_char i = \<lparr>ch_GlobalID = i, ch_HP = 20, ch_MaxHP = 20, ch_Strength = 10, ch_Defense = 4, ch_Luck = 5,
     ch_Weapon = ''wpn_rusted_shiv'', ch_Armor = ''arm_scavengers_wrap'', ch_DepthRecord = 0, ch_Blooded = False,
     ch_TutorialDone = False, ch_RestsToday = 0, ch_RestDay = -1, ch_DeadDay = -1\<rparr>"

definition NewCharacter :: "bool \<Rightarrow> string \<Rightarrow> game \<Rightarrow> game \<times> eng_err option" where
  "NewCharacter fault i s =
     (if fault \<or> i \<in> ch_GlobalID ` set (k_chars s) then (s, Some EDB)
      else (s\<lparr>k_chars := k_chars s @ [new_char i]\<rparr>, None))"

definition loadChar :: "bool \<Rightarrow> string \<Rightarrow> game \<Rightarrow> eng_err + charState" where
  "loadChar fault i s =
     (if fault then Inl EDB
      else case find (\<lambda>c. ch_GlobalID c = i) (k_chars s) of None \<Rightarrow> Inl ENoRows | Some c \<Rightarrow> Inr c)"

text \<open>The columns \<open>saveChar\<close> writes; gear and attributes are not among them.\<close>

definition saved :: "charState \<Rightarrow> charState \<Rightarrow> charState" where
  "saved c row = row\<lparr>ch_HP := ch_HP c, ch_DepthRecord := ch_DepthRecord c, ch_Blooded := ch_Blooded c,
     ch_TutorialDone := ch_TutorialDone c, ch_RestsToday := ch_RestsToday c, ch_RestDay := ch_RestDay c, ch_DeadDay := ch_DeadDay c\<rparr>"

definition saveChar :: "bool \<Rightarrow> charState \<Rightarrow> game \<Rightarrow> game \<times> eng_err option" where
  "saveChar fault c s =
     (if fault then (s, Some EDB)
      else (s\<lparr>k_chars := upd_where (\<lambda>r. ch_GlobalID r = ch_GlobalID c) (saved c) (k_chars s)\<rparr>, None))"

section \<open>Inventory\<close>

record invLine =
  il_ItemID :: string
  il_Qty :: int

record pvpLootItem =
  li_ItemID :: string
  li_Qty :: int

definition addGoods :: "bool \<Rightarrow> string \<Rightarrow> string \<Rightarrow> int \<Rightarrow> game \<Rightarrow> game \<times> eng_err option" where
  "addGoods fault gid itemID n s =
     (if n \<le> 0 then (s, None)
      else if fault then (s, Some EDB)
      else (s\<lparr>k_inv := upsert (\<lambda>r. (iv_global_id r, iv_item_id r)) (\<lambda>old new. old\<lparr>iv_qty := iv_qty old + n\<rparr>)
              \<lparr>iv_global_id = gid, iv_item_id = itemID, iv_qty = n\<rparr> (k_inv s)\<rparr>, None))"

definition addGood :: "bool \<Rightarrow> string \<Rightarrow> string \<Rightarrow> game \<Rightarrow> game \<times> eng_err option" where
  "addGood fault gid itemID s = addGoods fault gid itemID 1 s"

text \<open>
  The statement has no \<open>ORDER BY\<close>, and \<open>sort.Slice\<close> need not keep the order of equal elements: \<open>ord\<close> is
  the order the rows come in, any permutation. A sum that leaves the 64-bit range turns the column
  into a float, which \<open>Scan\<close> refuses: such a row is skipped.
\<close>

type_synonym row_order = "invLine list \<Rightarrow> invLine list"

definition goods_rows :: "string \<Rightarrow> game \<Rightarrow> invLine list" where
  "goods_rows gid s = map (\<lambda>r. \<lparr>il_ItemID = iv_item_id r, il_Qty = iv_qty r\<rparr>)
     (filter (\<lambda>r. iv_global_id r = gid \<and> iv_qty r > 0 \<and> in_int64 (iv_qty r)) (k_inv s))"

definition listGoods :: "row_order \<Rightarrow> bool \<Rightarrow> string \<Rightarrow> game \<Rightarrow> invLine list" where
  "listGoods ord fault gid s = (if fault then [] else ord (goods_rows gid s))"

definition goodsValue :: "row_order \<Rightarrow> bool \<Rightarrow> string \<Rightarrow> game \<Rightarrow> int" where
  "goodsValue ord fault gid s =
     foldl (\<lambda>total l. wrap64 (total + wrap64 (il_Qty l * goodWeight (il_ItemID l)))) 0 (listGoods ord fault gid s)"

definition takeGoods :: "string \<Rightarrow> string \<Rightarrow> int \<Rightarrow> game \<Rightarrow> game" where
  "takeGoods gid itemID n s = s\<lparr>k_inv := upd_where (\<lambda>r. iv_global_id r = gid \<and> iv_item_id r = itemID)
     (\<lambda>r. r\<lparr>iv_qty := iv_qty r - n\<rparr>) (k_inv s)\<rparr>"

definition sweepGoods :: "bool \<Rightarrow> string \<Rightarrow> game \<Rightarrow> game" where
  "sweepGoods fault gid s = (if fault then s else s\<lparr>k_inv := del_where (\<lambda>r. iv_global_id r = gid \<and> iv_qty r \<le> 0) (k_inv s)\<rparr>)"

text \<open>\<open>consumeForCost\<close>: the inner loop over the units of one line (k counts the statements), the loop over
  the lines, and the whole. A failed statement is not noticed.\<close>

fun consume_units :: "io \<Rightarrow> string \<Rightarrow> string \<Rightarrow> int \<Rightarrow> nat \<Rightarrow> nat \<times> int \<times> game \<Rightarrow> nat \<times> int \<times> game" where
  "consume_units io gid itemID cost 0 (k, consumed, s) = (k, consumed, s)"
| "consume_units io gid itemID cost (Suc n) (k, consumed, s) =
     (if consumed < cost then
        consume_units io gid itemID cost n
          (Suc k, wrap64 (consumed + goodWeight itemID), if io k then s else takeGoods gid itemID 1 s)
      else (k, consumed, s))"

fun consume_lines :: "io \<Rightarrow> string \<Rightarrow> int \<Rightarrow> invLine list \<Rightarrow> nat \<times> int \<times> game \<Rightarrow> nat \<times> int \<times> game" where
  "consume_lines io gid cost [] x = x"
| "consume_lines io gid cost (l # ls) x =
     consume_lines io gid cost ls (consume_units io gid (il_ItemID l) cost (nat (il_Qty l)) x)"

definition consumeForCost :: "row_order \<Rightarrow> io \<Rightarrow> string \<Rightarrow> int \<Rightarrow> game \<Rightarrow> game \<times> int" where
  "consumeForCost ord io gid cost s =
     (let gs = sort_key (\<lambda>l. goodWeight (il_ItemID l)) (listGoods ord (io 0) gid s) in
      case consume_lines io gid cost gs (2, 0, s) of (k, consumed, s1) \<Rightarrow> (sweepGoods (io 1) gid s1, consumed))"

section \<open>Portable state\<close>

definition enc_charState :: "charState \<Rightarrow> json" where
  "enc_charState c = JObj
     [(''GlobalID'', JStr (ch_GlobalID c)), (''HP'', JInt (ch_HP c)), (''MaxHP'', JInt (ch_MaxHP c)), (''Strength'', JInt (ch_Strength c)),
      (''Defense'', JInt (ch_Defense c)), (''Luck'', JInt (ch_Luck c)), (''Weapon'', JStr (ch_Weapon c)), (''Armor'', JStr (ch_Armor c)),
      (''DepthRecord'', JInt (ch_DepthRecord c)), (''Blooded'', JBool (ch_Blooded c)), (''TutorialDone'', JBool (ch_TutorialDone c)),
      (''RestsToday'', JInt (ch_RestsToday c)), (''RestDay'', JInt (ch_RestDay c)), (''DeadDay'', JInt (ch_DeadDay c))]"

definition unm_bool :: "json \<Rightarrow> bool \<Rightarrow> bool \<times> bool" where
  "unm_bool j b = (case j of JBool x \<Rightarrow> (x, True) | JNull \<Rightarrow> (b, True) | _ \<Rightarrow> (b, False))"

definition zero_char :: charState where
  "zero_char = \<lparr>ch_GlobalID = [], ch_HP = 0, ch_MaxHP = 0, ch_Strength = 0, ch_Defense = 0, ch_Luck = 0, ch_Weapon = [], ch_Armor = [],
     ch_DepthRecord = 0, ch_Blooded = False, ch_TutorialDone = False, ch_RestsToday = 0, ch_RestDay = 0, ch_DeadDay = 0\<rparr>"

definition dec_charState :: "json \<Rightarrow> charState \<Rightarrow> charState \<times> bool" where
  "dec_charState j z =
     (let i = (\<lambda>name v. fld unm_int name j v); s = (\<lambda>name v. fld unm_string name j v); b = (\<lambda>name v. fld unm_bool name j v);
          g = s ''GlobalID'' (ch_GlobalID z); hp = i ''HP'' (ch_HP z); mh = i ''MaxHP'' (ch_MaxHP z); st = i ''Strength'' (ch_Strength z);
          df = i ''Defense'' (ch_Defense z); lk = i ''Luck'' (ch_Luck z); wp = s ''Weapon'' (ch_Weapon z); ar = s ''Armor'' (ch_Armor z);
          dr = i ''DepthRecord'' (ch_DepthRecord z); bl = b ''Blooded'' (ch_Blooded z); tu = b ''TutorialDone'' (ch_TutorialDone z);
          rt = i ''RestsToday'' (ch_RestsToday z); rd = i ''RestDay'' (ch_RestDay z); dd = i ''DeadDay'' (ch_DeadDay z)
      in (\<lparr>ch_GlobalID = fst g, ch_HP = fst hp, ch_MaxHP = fst mh, ch_Strength = fst st, ch_Defense = fst df, ch_Luck = fst lk,
           ch_Weapon = fst wp, ch_Armor = fst ar, ch_DepthRecord = fst dr, ch_Blooded = fst bl, ch_TutorialDone = fst tu,
           ch_RestsToday = fst rt, ch_RestDay = fst rd, ch_DeadDay = fst dd\<rparr>,
          snd g \<and> snd hp \<and> snd mh \<and> snd st \<and> snd df \<and> snd lk \<and> snd wp \<and> snd ar \<and> snd dr \<and> snd bl \<and> snd tu \<and> snd rt \<and> snd rd \<and> snd dd))"

definition enc_invLine :: "invLine \<Rightarrow> json" where
  "enc_invLine l = JObj [(''ItemID'', JStr (il_ItemID l)), (''Qty'', JInt (il_Qty l))]"

definition dec_invLine :: "json \<Rightarrow> invLine \<times> bool" where
  "dec_invLine j = (let i = fld unm_string ''ItemID'' j []; q = fld unm_int ''Qty'' j 0
     in (\<lparr>il_ItemID = fst i, il_Qty = fst q\<rparr>, snd i \<and> snd q))"

text \<open>A nil slice is \<open>null\<close>.\<close>

definition enc_stateBlob :: "charState \<Rightarrow> invLine list \<Rightarrow> json" where
  "enc_stateBlob c goods = JObj
     [(''char'', enc_charState c), (''goods'', if goods = [] then JNull else JArr (map enc_invLine goods))]"

definition ExportState :: "row_order \<Rightarrow> io \<Rightarrow> string \<Rightarrow> game \<Rightarrow> eng_err + raw" where
  "ExportState ord io globalID s =
     (case loadChar (io 0) globalID s of
        Inl e \<Rightarrow> Inl e
      | Inr c \<Rightarrow> Inr (Some (enc_stateBlob c (listGoods ord (io 1) globalID s))))"

fun add_all :: "io \<Rightarrow> nat \<Rightarrow> string \<Rightarrow> invLine list \<Rightarrow> game \<Rightarrow> game \<times> eng_err option" where
  "add_all io k gid [] s = (s, None)"
| "add_all io k gid (l # ls) s =
     (case addGoods (io k) gid (il_ItemID l) (il_Qty l) s of
        (s1, Some e) \<Rightarrow> (s1, Some e)
      | (s1, None) \<Rightarrow> add_all io (Suc k) gid ls s1)"

definition ImportState :: "io \<Rightarrow> Player \<Rightarrow> raw \<Rightarrow> game \<Rightarrow> game \<times> eng_err option" where
  "ImportState io p state s =
     (case state of
        None \<Rightarrow> (s, Some EJSON)
      | Some j \<Rightarrow>
          (case (fld dec_charState ''char'' j zero_char, fld (unm_list dec_invLine) ''goods'' j []) of
             ((c, ok1), (goods, ok2)) \<Rightarrow>
               if \<not> (ok1 \<and> ok2) then (s, Some EJSON)
               else if io 0 then (s, Some EDB)
               else add_all io 1 (p_GlobalID p) goods
                 (s\<lparr>k_chars := upsert ch_GlobalID (\<lambda>_ new. new) (c\<lparr>ch_GlobalID := p_GlobalID p\<rparr>) (k_chars s)\<rparr>)))"

definition ledger_game :: "row_order \<Rightarrow> game Game" where
  "ledger_game ord = \<lparr>gm_ID = ''ledger_of_the_low'', gm_ExportState = ExportState ord, gm_ImportState = ImportState\<rparr>"

end
