(* ===== verification/Go_Text.thy ===== *)
theory Go_Text
  imports Go_Prelude
begin

text \<open>
  Go strings as text: a string is its bytes, and \<open>range\<close>, \<open>[]rune(s)\<close> and \<open>string(rs)\<close> go through UTF-8.
  A byte that starts no valid sequence is one rune, U+FFFD. With them come the functions of
  \<open>strings\<close> the terminal code uses: \<open>Fields\<close>, \<open>Repeat\<close>, \<open>Join\<close> and the trimming of spaces.
\<close>

section \<open>Decoding\<close>

abbreviation byte :: "char \<Rightarrow> nat" where
  "byte c \<equiv> of_char c"

definition rune_error :: nat where
  "rune_error = 65533"

definition in_range :: "nat \<Rightarrow> nat \<Rightarrow> char \<Rightarrow> bool" where
  "in_range lo hi c \<longleftrightarrow> lo \<le> byte c \<and> byte c \<le> hi"

text \<open>The bytes that may follow a first byte.\<close>

definition second_lo :: "nat \<Rightarrow> nat" where
  "second_lo x = (if x = 224 then 160 else if x = 240 then 144 else 128)"

definition second_hi :: "nat \<Rightarrow> nat" where
  "second_hi x = (if x = 237 then 159 else if x = 244 then 143 else 191)"

text \<open>\<open>utf8.DecodeRune\<close> of a string that is not empty: the rune and its width. Overlong forms, surrogates
  and values beyond U+10FFFF are excluded by the range of the second byte.\<close>

definition decode_rune :: "string \<Rightarrow> nat \<times> nat" where
  "decode_rune s =
     (case s of
        [] \<Rightarrow> (rune_error, 0)
      | b # t \<Rightarrow>
          (let x = byte b in
           if x < 128 then (x, 1)
           else if 194 \<le> x \<and> x \<le> 223 then
             (case t of
                c # _ \<Rightarrow> if in_range 128 191 c then ((x - 192) * 64 + (byte c - 128), 2) else (rune_error, 1)
              | _ \<Rightarrow> (rune_error, 1))
           else if 224 \<le> x \<and> x \<le> 239 then
             (case t of
                c # d # _ \<Rightarrow>
                  if in_range (second_lo x) (second_hi x) c \<and> in_range 128 191 d
                  then ((x - 224) * 4096 + (byte c - 128) * 64 + (byte d - 128), 3) else (rune_error, 1)
              | _ \<Rightarrow> (rune_error, 1))
           else if 240 \<le> x \<and> x \<le> 244 then
             (case t of
                c # d # e # _ \<Rightarrow>
                  if in_range (second_lo x) (second_hi x) c \<and> in_range 128 191 d \<and> in_range 128 191 e
                  then ((x - 240) * 262144 + (byte c - 128) * 4096 + (byte d - 128) * 64 + (byte e - 128), 4) else (rune_error, 1)
              | _ \<Rightarrow> (rune_error, 1))
           else (rune_error, 1)))"

lemma decode_width: "s \<noteq> [] \<Longrightarrow> 1 \<le> snd (decode_rune s)" "snd (decode_rune s) \<le> length s"
  by (auto simp: decode_rune_def Let_def split: list.split)

text \<open>The runes of a string with the bytes of each.\<close>

function chunks :: "string \<Rightarrow> (nat \<times> string) list" where
  "chunks [] = []"
| "chunks (b # s) = (case decode_rune (b # s) of (r, n) \<Rightarrow> (r, take n (b # s)) # chunks (drop n (b # s)))"
  by pat_completeness auto
termination
proof (relation "measure length", goal_cases)
  case (2 b s r n)
  have "1 \<le> n" using decode_width(1) [of "b # s"] 2 by (metis list.discI snd_conv)
  then show ?case by simp
qed simp

definition runes :: "string \<Rightarrow> nat list" where
  "runes s = map fst (chunks s)"

section \<open>Encoding\<close>

definition valid_rune :: "nat \<Rightarrow> bool" where
  "valid_rune r \<longleftrightarrow> r < 55296 \<or> 57344 \<le> r \<and> r < 1114112"

definition encode_rune :: "nat \<Rightarrow> string" where
  "encode_rune r0 =
     (let r = (if valid_rune r0 then r0 else rune_error) in
      map char_of
        (if r < 128 then [r]
         else if r < 2048 then [192 + r div 64, 128 + r mod 64]
         else if r < 65536 then [224 + r div 4096, 128 + r div 64 mod 64, 128 + r mod 64]
         else [240 + r div 262144, 128 + r div 4096 mod 64, 128 + r div 64 mod 64, 128 + r mod 64]))"

definition string_of_runes :: "nat list \<Rightarrow> string" where
  "string_of_runes rs = concat (map encode_rune rs)"

text \<open>Valid text.\<close>

definition utf8 :: "string \<Rightarrow> bool" where
  "utf8 s \<longleftrightarrow> (\<exists>rs. list_all valid_rune rs \<and> s = string_of_runes rs)"

section \<open>Round trips\<close>

lemma byte_char_of: "n < 256 \<Longrightarrow> byte (char_of n) = n"
  by simp

lemma decode_ascii: "byte b < 128 \<Longrightarrow> decode_rune (b # t) = (byte b, 1)"
  by (simp add: decode_rune_def)

lemma decode_two:
  assumes "2 \<le> i" "i \<le> 31" "j < 64"
  shows "decode_rune (char_of (192 + i) # char_of (128 + j) # t) = (i * 64 + j, 2)"
  using assms by (simp add: decode_rune_def Let_def in_range_def byte_char_of)

lemma decode_three:
  assumes "i \<le> 15" "j < 64" "k < 64" "i = 0 \<longrightarrow> 32 \<le> j" "i = 13 \<longrightarrow> j < 32"
  shows "decode_rune (char_of (224 + i) # char_of (128 + j) # char_of (128 + k) # t) = (i * 4096 + j * 64 + k, 3)"
proof -
  have "in_range (second_lo (224 + i)) (second_hi (224 + i)) (char_of (128 + j))"
    using assms(1,2,4,5) by (auto simp: in_range_def byte_char_of second_lo_def second_hi_def)
  moreover have "in_range 128 191 (char_of (128 + k))" "byte (char_of (224 + i)) = 224 + i" "byte (char_of (128 + j)) = 128 + j"
    "byte (char_of (128 + k)) = 128 + k"
    using assms(1-3) by (simp_all add: in_range_def byte_char_of)
  ultimately show ?thesis
    using assms(1) by (simp add: decode_rune_def Let_def)
qed

lemma decode_four:
  assumes "i \<le> 4" "j < 64" "k < 64" "l < 64" "i = 0 \<longrightarrow> 16 \<le> j" "i = 4 \<longrightarrow> j < 16"
  shows "decode_rune (char_of (240 + i) # char_of (128 + j) # char_of (128 + k) # char_of (128 + l) # t)
     = (i * 262144 + j * 4096 + k * 64 + l, 4)"
proof -
  have "in_range (second_lo (240 + i)) (second_hi (240 + i)) (char_of (128 + j))"
    using assms(1,2,5,6) by (auto simp: in_range_def byte_char_of second_lo_def second_hi_def)
  moreover have "in_range 128 191 (char_of (128 + k))" "in_range 128 191 (char_of (128 + l))" "byte (char_of (240 + i)) = 240 + i"
    "byte (char_of (128 + j)) = 128 + j" "byte (char_of (128 + k)) = 128 + k" "byte (char_of (128 + l)) = 128 + l"
    using assms(1-4) by (simp_all add: in_range_def byte_char_of)
  ultimately show ?thesis
    using assms(1) by (simp add: decode_rune_def Let_def)
qed

text \<open>The six-bit digits of a rune.\<close>

lemma digits_64: "(r :: nat) div 64 * 64 + r mod 64 = r" "r mod 64 < 64" "r div 4096 = r div 64 div 64" "r div 262144 = r div 4096 div 64"
  by (simp_all flip: div_mult2_eq)

lemma decode_encode_all:
  assumes "valid_rune r"
  shows "decode_rune (encode_rune r @ t) = (r, length (encode_rune r)) \<and> encode_rune r \<noteq> []"
proof -
  consider (1) "r < 128" | (2) "128 \<le> r" "r < 2048" | (3) "2048 \<le> r" "r < 65536" | (4) "65536 \<le> r" "r < 1114112"
    using assms by (force simp: valid_rune_def)
  then show ?thesis
  proof cases
    case 1
    then show ?thesis using assms by (simp add: encode_rune_def decode_ascii)
  next
    case 2
    define i j where ij: "i = r div 64" "j = r mod 64"
    have e: "encode_rune r = [char_of (192 + i), char_of (128 + j)]"
      using assms 2 by (simp add: encode_rune_def ij)
    have "i * 64 + j = r" "j < 64"
      unfolding ij by (rule digits_64)+
    then show ?thesis
      using decode_two [of i j t] 2 by (simp add: e)
  next
    case 3
    define i j k where ij: "i = r div 4096" "j = r div 64 mod 64" "k = r mod 64"
    have e: "encode_rune r = [char_of (224 + i), char_of (128 + j), char_of (128 + k)]"
      using assms 3 by (simp add: encode_rune_def ij)
    have "(i * 64 + j) * 64 + k = r" and jk: "j < 64" "k < 64"
      using digits_64(1,2) [of r] digits_64(1,2) [of "r div 64"] unfolding ij digits_64(3) by simp_all
    then have d: "j < 64" "k < 64" "i * 4096 + j * 64 + k = r"
      by (simp_all add: add_mult_distrib)
    have i: "32 \<le> j" if "i = 0"
      using 3 d that by linarith
    have "i \<le> 15"
      using 3 d by linarith
    moreover have "j < 32" if "i = 13"
    proof -
      have "r < 57344"
        using d that by linarith
      then have "r < 55296"
        using assms by (simp add: valid_rune_def)
      then show ?thesis
        using d that by linarith
    qed
    ultimately show ?thesis
      using decode_three [of i j k t] d i by (simp add: e)
  next
    case 4
    define i j k l where ij: "i = r div 262144" "j = r div 4096 mod 64" "k = r div 64 mod 64" "l = r mod 64"
    have e: "encode_rune r = [char_of (240 + i), char_of (128 + j), char_of (128 + k), char_of (128 + l)]"
      using assms 4 by (simp add: encode_rune_def ij)
    have "((i * 64 + j) * 64 + k) * 64 + l = r" and jk: "j < 64" "k < 64" "l < 64"
      using digits_64(1,2) [of r] digits_64(1,2) [of "r div 64"] digits_64(1,2) [of "r div 64 div 64"]
      unfolding ij digits_64(3,4) by simp_all
    then have d: "j < 64" "k < 64" "l < 64" "i * 262144 + j * 4096 + k * 64 + l = r"
      by (simp_all add: add_mult_distrib)
    have i: "i \<le> 4" "i = 0 \<Longrightarrow> 16 \<le> j" "i = 4 \<Longrightarrow> j < 16"
      using 4 d by linarith+
    then show ?thesis
      using decode_four [of i j k l t] d i by (simp add: e)
  qed
qed

lemmas decode_encode = decode_encode_all [THEN conjunct1] decode_encode_all [THEN conjunct2]

lemma cont_byte:
  assumes "in_range lo hi c" "128 \<le> lo" "hi \<le> 191"
  obtains j where "byte c = 128 + j" "lo - 128 \<le> j" "j \<le> hi - 128" "j < 64"
  using assms that [of "byte c - 128"] by (auto simp: in_range_def)

lemma valid_two: "i \<le> 31 \<Longrightarrow> j < 64 \<Longrightarrow> valid_rune (i * 64 + j)"
  by (simp add: valid_rune_def)

lemma valid_three:
  assumes "i \<le> 15" "j < 64" "k < 64" "i = 13 \<longrightarrow> j < 32"
  shows "valid_rune (i * 4096 + j * 64 + k)"
proof (cases "i \<le> 13")
  case True
  then have "i * 4096 + j * 64 + k < 55296"
    using assms by (cases "i = 13") auto
  then show ?thesis by (simp add: valid_rune_def)
qed (use assms in \<open>simp add: valid_rune_def\<close>)

lemma valid_four:
  assumes "i \<le> 4" "j < 64" "k < 64" "l < 64" "i = 0 \<longrightarrow> 16 \<le> j" "i = 4 \<longrightarrow> j < 16"
  shows "valid_rune (i * 262144 + j * 4096 + k * 64 + l)"
proof -
  have "i * 262144 + j * 4096 + k * 64 + l < 1114112"
    using assms by (cases "i = 4") auto
  moreover have "57344 \<le> i * 262144 + j * 4096 + k * 64 + l"
    using assms(5) by (cases "i = 0") auto
  ultimately show ?thesis by (simp add: valid_rune_def)
qed

lemma decode_valid: "valid_rune (fst (decode_rune s))"
proof -
  have e: "valid_rune rune_error"
    by (simp add: valid_rune_def rune_error_def)
  have two: "valid_rune ((x - 192) * 64 + (byte c - 128))" if "in_range 128 191 c" "x \<le> 223" for x c
    using that by (intro valid_two) (auto simp: in_range_def)
  have three: "valid_rune ((x - 224) * 4096 + (byte c - 128) * 64 + (byte d - 128))"
    if "in_range (second_lo x) (second_hi x) c" "in_range 128 191 d" "x \<le> 239" for x c d
    using that by (intro valid_three) (auto simp: in_range_def second_hi_def split: if_splits)
  have four: "valid_rune ((x - 240) * 262144 + (byte c - 128) * 4096 + (byte d - 128) * 64 + (byte e - 128))"
    if "in_range (second_lo x) (second_hi x) c" "in_range 128 191 d" "in_range 128 191 e" "240 \<le> x" "x \<le> 244" for x c d e
    using that by (intro valid_four) (auto simp: in_range_def second_lo_def second_hi_def split: if_splits)
  show ?thesis
  proof (cases s)
    case (Cons b t)
    consider (1) "byte b < 128" | (2) "194 \<le> byte b" "byte b \<le> 223" | (3) "224 \<le> byte b" "byte b \<le> 239"
      | (4) "240 \<le> byte b" "byte b \<le> 244" | (5) "byte b < 194" "128 \<le> byte b" | (6) "244 < byte b"
      by linarith
    then show ?thesis
      unfolding Cons decode_rune_def Let_def list.case
    proof cases
      case 1
      then show "valid_rune (fst (if byte b < 128 then (byte b, 1) else X))" for X
        by (simp add: valid_rune_def)
    qed (auto simp: e intro: two three four split: list.split)
  qed (simp add: decode_rune_def e)
qed

section \<open>Text as runes\<close>

lemma chunks_encode: "valid_rune r \<Longrightarrow> chunks (encode_rune r @ t) = (r, encode_rune r) # chunks t"
  using decode_encode(1) [of r t] decode_encode(2) [of r]
  by (cases "encode_rune r") (auto simp del: append_Cons simp flip: append_Cons, simp)

lemma runes_encode: "list_all valid_rune rs \<Longrightarrow> chunks (string_of_runes rs @ t) = map (\<lambda>r. (r, encode_rune r)) rs @ chunks t"
  by (induction rs) (simp_all add: string_of_runes_def chunks_encode)

lemma chunks_bytes: "concat (map snd (chunks s)) = s"
proof (induction s rule: chunks.induct)
  case (2 b s)
  then show ?case by (simp split: prod.split)
qed simp

lemma runes_valid: "list_all valid_rune (runes s)"
proof (induction s rule: chunks.induct)
  case (2 b s)
  obtain r n where "decode_rune (b # s) = (r, n)" by fastforce
  then show ?case using 2 decode_valid [of "b # s"] by (simp add: runes_def)
qed (simp add: runes_def)

lemma runes_Nil [simp]: "runes [] = []"
  by (simp add: runes_def)

lemma runes_of_runes [simp]: "list_all valid_rune rs \<Longrightarrow> runes (string_of_runes rs) = rs"
  using runes_encode [of rs "[]"] by (simp add: runes_def comp_def)

lemma runes_append: "utf8 s \<Longrightarrow> runes (s @ t) = runes s @ runes t"
proof -
  assume "utf8 s"
  then obtain rs where rs: "list_all valid_rune rs" "s = string_of_runes rs"
    by (auto simp: utf8_def)
  then show ?thesis
    using runes_encode [OF rs(1), of t] by (simp add: runes_def [of "_ @ _"] comp_def) (simp add: runes_def)
qed

lemma utf8_runes: "utf8 s \<Longrightarrow> string_of_runes (runes s) = s"
  by (auto simp: utf8_def)

lemma utf8_append [intro, simp]: "utf8 s \<Longrightarrow> utf8 t \<Longrightarrow> utf8 (s @ t)"
  unfolding utf8_def string_of_runes_def by (metis concat_append list_all_append map_append)

lemma utf8_Nil [simp]: "utf8 []"
  unfolding utf8_def by (rule exI [of _ "[]"]) (simp add: string_of_runes_def)

lemma utf8_of_runes [simp]: "list_all valid_rune rs \<Longrightarrow> utf8 (string_of_runes rs)"
  by (auto simp: utf8_def)

text \<open>ASCII text is its bytes.\<close>

lemma chunks_ascii: "byte b < 128 \<Longrightarrow> chunks (b # s) = (byte b, [b]) # chunks s"
  by (simp add: decode_ascii)

lemma runes_Cons: "byte b < 128 \<Longrightarrow> runes (b # s) = byte b # runes s"
  by (simp add: runes_def chunks_ascii del: chunks.simps)

definition ascii :: "string \<Rightarrow> bool" where
  "ascii s \<longleftrightarrow> list_all (\<lambda>b. byte b < 128) s"

lemma ascii_simps [simp]: "ascii []" "ascii (b # s) \<longleftrightarrow> byte b < 128 \<and> ascii s" "ascii (s @ t) \<longleftrightarrow> ascii s \<and> ascii t"
  by (simp_all add: ascii_def)

lemma runes_ascii: "ascii s \<Longrightarrow> runes (s @ t) = map byte s @ runes t"
  by (induction s) (simp_all add: runes_Cons)

lemma ascii_utf8: "ascii s \<Longrightarrow> utf8 s"
proof (induction s)
  case (Cons b s)
  have "[b] = string_of_runes [byte b]" "valid_rune (byte b)"
    using Cons.prems by (simp_all add: string_of_runes_def encode_rune_def valid_rune_def)
  then have "utf8 [b]"
    using utf8_of_runes [of "[byte b]"] by simp
  then show ?case
    using Cons utf8_append [of "[b]" s] by simp
qed simp

section \<open>The functions of strings\<close>

text \<open>\<open>strings.Repeat\<close>, which panics on a negative count.\<close>

definition repeat_string :: "string \<Rightarrow> int \<Rightarrow> string option" where
  "repeat_string s n = (if n < 0 then None else Some (concat (replicate (nat n) s)))"

text \<open>\<open>strings.Join\<close> and \<open>strings.Split\<close> at one byte.\<close>

fun join_with :: "string \<Rightarrow> string list \<Rightarrow> string" where
  "join_with sep [] = []"
| "join_with sep [p] = p"
| "join_with sep (p # q # ps) = p @ sep @ join_with sep (q # ps)"

fun split_at :: "char \<Rightarrow> string \<Rightarrow> string list" where
  "split_at c [] = [[]]"
| "split_at c (b # s) = (if b = c then [] # split_at c s else case split_at c s of p # ps \<Rightarrow> (b # p) # ps | [] \<Rightarrow> [[b]])"

text \<open>\<open>strings.Fields\<close>: the maximal runs of runes that are no white space.\<close>

fun fields_of :: "string \<Rightarrow> (nat \<times> string) list \<Rightarrow> string list" where
  "fields_of w [] = (if w = [] then [] else [w])"
| "fields_of w ((r, b) # cs) =
     (if b \<in> set go_spaces then (if w = [] then fields_of [] cs else w # fields_of [] cs) else fields_of (w @ b) cs)"

definition Fields :: "string \<Rightarrow> string list" where
  "Fields s = fields_of [] (chunks s)"

text \<open>\<open>s[:len(s)-len(strings.TrimLeft(s, " "))]\<close>.\<close>

definition leading_spaces :: "string \<Rightarrow> string" where
  "leading_spaces s = takeWhile (\<lambda>c. c = CHR '' '') s"

text \<open>\<open>%-ns\<close> of \<open>fmt\<close>: padded on the right to n runes.\<close>

definition pad_verb :: "nat \<Rightarrow> string \<Rightarrow> string" where
  "pad_verb n s = s @ replicate (n - length (runes s)) CHR '' ''"

end
