(* ===== verification/Engine_Term.thy ===== *)
theory Engine_Term
  imports Go_Text
begin

text \<open>
  The terminal layer (\<open>internal/engine/term/term.go\<close>): reading keys and lines from a client in raw mode,
  and frames of 80 by 24 cells. The input still to come is a list of bytes; with each byte come the
  clock, the database faults (by operation) and the random numbers until the next one, and the fate of
  the calls to the hub (of a type \<open>'c\<close>). Reading beyond the last byte is the error of \<open>ReadByte\<close>.
\<close>

section \<open>Input\<close>

record 'c input =
  i_key :: char
  i_now :: int
  i_io :: "string \<Rightarrow> io"
  i_rng :: "nat \<Rightarrow> int"
  i_call :: 'c

definition is_newline :: "char \<Rightarrow> bool" where
  "is_newline b \<longleftrightarrow> b = CHR 0x0D \<or> b = CHR 0x0A"

definition ReadKey :: "'c input list \<Rightarrow> (char \<times> 'c input) option \<times> 'c input list" where
  "ReadKey xs = (case xs of [] \<Rightarrow> (None, []) | x # ys \<Rightarrow> (Some (if is_newline (i_key x) then CHR 0x0A else i_key x, x), ys))"

definition is_erase :: "char \<Rightarrow> bool" where
  "is_erase b \<longleftrightarrow> b = CHR 0x7F \<or> b = CHR 0x08"

definition printable :: "char \<Rightarrow> bool" where
  "printable b \<longleftrightarrow> 32 \<le> byte b \<and> byte b < 127"

text \<open>\<open>ReadLine\<close>: the line with the last input, what was written to the client, and the rest of the input.\<close>

fun read_line :: "bool \<Rightarrow> string \<Rightarrow> string \<Rightarrow> 'c input list \<Rightarrow> (string \<times> 'c input) option \<times> string \<times> 'c input list" where
  "read_line echo sb out [] = (None, out, [])"
| "read_line echo sb out (x # xs) =
     (let b = i_key x in
      if is_newline b then (Some (sb, x), out @ [CHR 0x0D, CHR 0x0A], xs)
      else if is_erase b then
        (if sb \<noteq> [] then read_line echo (butlast sb) (out @ [CHR 0x08, CHR '' '', CHR 0x08]) xs else read_line echo sb out xs)
      else if printable b then read_line echo (sb @ [b]) (out @ (if echo then [b] else [CHR ''*''])) xs
      else read_line echo sb out xs)"

definition ReadLine :: "bool \<Rightarrow> 'c input list \<Rightarrow> (string \<times> 'c input) option \<times> string \<times> 'c input list" where
  "ReadLine echo xs = read_line echo [] [] xs"

lemma read_line_keys: "read_line echo sb out xs = (r, o', ys) \<Longrightarrow> length ys \<le> length xs"
  by (induction echo sb out xs rule: read_line.induct) (auto simp: Let_def split: if_splits intro: le_SucI)

lemma ReadLine_keys: "ReadLine echo xs = (r, o', ys) \<Longrightarrow> length ys \<le> length xs"
  unfolding ReadLine_def by (rule read_line_keys)

text \<open>How the menus read a key: a letter in either case, or a digit from 1 on.\<close>

definition is_key :: "char \<Rightarrow> char \<Rightarrow> char \<Rightarrow> bool" where
  "is_key k a b \<longleftrightarrow> k = a \<or> k = b"

definition digit_index :: "char \<Rightarrow> nat option" where
  "digit_index k = (let n = (of_char k :: nat) in if 49 \<le> n \<and> n \<le> 57 then Some (n - 49) else None)"

section \<open>What a line is\<close>

text \<open>The line editor as an edit of the line per byte.\<close>

definition edit :: "string \<Rightarrow> char \<Rightarrow> string" where
  "edit l b = (if is_erase b then butlast l else if printable b then l @ [b] else l)"

definition in_line :: "'c input \<Rightarrow> bool" where
  "in_line x \<longleftrightarrow> \<not> is_newline (i_key x)"

lemma read_line_edits:
  "read_line echo sb out xs = (r, o', ys) \<Longrightarrow>
     map_option fst r = (if dropWhile in_line xs = [] then None else Some (foldl edit sb (map i_key (takeWhile in_line xs))))
     \<and> ys = tl (dropWhile in_line xs)"
proof (induction echo sb out xs rule: read_line.induct)
  case (2 echo sb out x xs)
  then show ?case
    by (cases "is_newline (i_key x)"; cases "is_erase (i_key x)"; cases "sb = []"; cases "printable (i_key x)")
      (simp_all add: Let_def edit_def in_line_def, auto)
qed simp

text \<open>Lines hold printable ASCII only.\<close>

lemma read_line_printable:
  "read_line echo sb out xs = (Some (l, x), o', ys) \<Longrightarrow> list_all printable sb \<Longrightarrow> list_all printable l"
proof (induction echo sb out xs rule: read_line.induct)
  case (2 echo sb out y xs)
  have "list_all printable (butlast sb)"
    using 2(6) in_set_butlastD by (fastforce simp: list_all_iff)
  with 2 show ?case by (auto simp: Let_def split: if_splits)
qed simp

text \<open>What is shown of a password depends on the kinds of keys pressed only.\<close>

definition key_kind :: "char \<Rightarrow> nat" where
  "key_kind b = (if is_newline b then 0 else if is_erase b then 1 else if printable b then 2 else 3)"

lemma key_kind_eq:
  assumes "key_kind b = key_kind c"
  shows "is_newline b = is_newline c" "\<not> is_newline b \<Longrightarrow> is_erase b = is_erase c"
    "\<not> is_newline b \<Longrightarrow> \<not> is_erase b \<Longrightarrow> printable b = printable c"
  using assms by (auto simp: key_kind_def split: if_splits)

lemma masked:
  assumes "map (key_kind \<circ> i_key) xs = map (key_kind \<circ> i_key) ys" and "length sb = length sc"
  shows "fst (snd (read_line False sb out xs)) = fst (snd (read_line False sc out ys))"
  using assms
proof (induction False sb out xs arbitrary: sc ys rule: read_line.induct)
  case (2 sb out x xs)
  then obtain y zs where ys: "ys = y # zs" "key_kind (i_key x) = key_kind (i_key y)"
      "map (key_kind \<circ> i_key) xs = map (key_kind \<circ> i_key) zs"
    by (auto simp: map_eq_Cons_conv)
  note k = key_kind_eq [OF ys(2)]
  show ?case
  proof (cases "is_newline (i_key x)")
    case False
    have "sb = [] \<longleftrightarrow> sc = []" "length (butlast sb) = length (butlast sc)"
      using 2(6) by auto
    then show ?thesis
      using False 2 ys(3) k(1) k(2,3) [OF False] unfolding ys(1) by (simp add: Let_def)
  qed (use k(1) in \<open>simp add: ys(1)\<close>)
qed simp

text \<open>C40: passwords are not shown. While a password is read, what is written to the client is the same for
  any two inputs of the same kinds of keys: it tells how many characters were typed and erased, never
  which.\<close>

theorem password_hidden:
  assumes "map (key_kind \<circ> i_key) xs = map (key_kind \<circ> i_key) ys"
  shows "fst (snd (ReadLine False xs)) = fst (snd (ReadLine False ys))"
  using masked [OF assms] by (simp add: ReadLine_def)

section \<open>Frames\<close>

definition Width :: nat where
  "Width = 80"

definition Height :: nat where
  "Height = 24"

definition esc :: string where
  "esc = [CHR 0x1B, CHR ''['']"

definition reset :: string where
  "reset = esc @ ''0m''"

definition clearHome :: string where
  "clearHome = esc @ ''2J'' @ esc @ ''H''"

definition FG :: "int \<Rightarrow> string" where
  "FG c = esc @ ''3'' @ show_int c @ ''m''"

definition Bright :: "int \<Rightarrow> string" where
  "Bright c = esc @ ''9'' @ show_int c @ ''m''"

definition crlf :: string where
  "crlf = [CHR 0x0D, CHR 0x0A]"

definition has_esc :: "string \<Rightarrow> bool" where
  "has_esc s \<longleftrightarrow> CHR 0x1B \<in> set s"

fun wrap_words :: "nat \<Rightarrow> string \<Rightarrow> string \<Rightarrow> string list \<Rightarrow> string list" where
  "wrap_words width indent cur [] = [cur]"
| "wrap_words width indent cur (w # ws) =
     (if length (runes cur) + 1 + length (runes w) \<le> width then wrap_words width indent (cur @ '' '' @ w) ws
      else cur # wrap_words width indent (indent @ w) ws)"

definition wrapLine :: "string \<Rightarrow> nat \<Rightarrow> string list" where
  "wrapLine s width =
     (if has_esc s \<or> length (runes s) \<le> width then [s]
      else case Fields s of
        [] \<Rightarrow> [s]
      | w # ws \<Rightarrow> wrap_words width (leading_spaces s) (leading_spaces s @ w) ws)"

definition clip :: "string \<Rightarrow> string" where
  "clip s = (if has_esc s then s else if length (runes s) > Width then string_of_runes (take Width (runes s)) else s)"

record Frame =
  f_lines :: "string list"
  f_pre :: string
  f_status :: string

definition NewFrame :: Frame where
  "NewFrame = \<lparr>f_lines = [], f_pre = [], f_status = []\<rparr>"

definition Line :: "string \<Rightarrow> Frame \<Rightarrow> Frame" where
  "Line s f = f\<lparr>f_lines := f_lines f @ wrapLine s Width\<rparr>"

definition Blank :: "Frame \<Rightarrow> Frame" where
  "Blank f = Line [] f"

definition Pre :: "string \<Rightarrow> Frame \<Rightarrow> Frame" where
  "Pre s f = f\<lparr>f_pre := s\<rparr>"

definition Status :: "string \<Rightarrow> Frame \<Rightarrow> Frame" where
  "Status s f = f\<lparr>f_status := s\<rparr>"

text \<open>The first loop of \<open>Render\<close>: at most m body lines, and how many there were.\<close>

fun body_rows :: "nat \<Rightarrow> nat \<Rightarrow> string list \<Rightarrow> string \<Rightarrow> string \<times> nat" where
  "body_rows m n [] sb = (sb, n)"
| "body_rows m n (l # ls) sb = (if n \<ge> m then (sb, n) else body_rows m (n + 1) ls (sb @ clip l @ crlf))"

definition Render :: "Frame \<Rightarrow> string" where
  "Render f =
     (let maxBody = (if f_pre f \<noteq> [] then Height - 2 else Height - 1) in
      case body_rows maxBody 0 (f_lines f) clearHome of
        (sb, n) \<Rightarrow> sb @ concat (replicate (maxBody - n) crlf) @ (if f_pre f \<noteq> [] then clip (f_pre f) @ crlf else []) @ clip (f_status f))"

section \<open>What a frame shows\<close>

lemma body_rows_eq:
  "body_rows m n ls sb = (sb @ concat (map (\<lambda>l. clip l @ crlf) (take (m - n) ls)), n + min (m - n) (length ls))"
proof (induction m n ls sb rule: body_rows.induct)
  case (2 m n l ls sb)
  show ?case
  proof (cases "n \<ge> m")
    case False
    then have "m - n = Suc (m - (n + 1))" by simp
    then show ?thesis using 2 False by simp
  qed simp
qed simp

definition screen :: "Frame \<Rightarrow> string list" where
  "screen f =
     (let m = (if f_pre f \<noteq> [] then 22 else 23); body = map clip (take m (f_lines f)) in
      body @ replicate (m - length body) [] @ (if f_pre f \<noteq> [] then [clip (f_pre f)] else []) @ [clip (f_status f)])"

lemma concat_rows: "concat (map (\<lambda>r. r @ crlf) rs) @ z = join_with crlf (rs @ [z])"
proof (induction rs)
  case (Cons r rs)
  then show ?case by (cases rs) simp_all
qed simp

lemma Render_screen: "Render f = clearHome @ join_with crlf (screen f)"
proof -
  define m :: nat where "m = (if f_pre f \<noteq> [] then 22 else 23)"
  let ?rows = "map clip (take m (f_lines f)) @ replicate (m - length (take m (f_lines f))) []
    @ (if f_pre f \<noteq> [] then [clip (f_pre f)] else [])"
  have "Render f = clearHome @ concat (map (\<lambda>r. r @ crlf) ?rows) @ clip (f_status f)"
    by (simp add: Render_def Height_def body_rows_eq comp_def min_def m_def)
  moreover have "screen f = ?rows @ [clip (f_status f)]"
    by (simp add: screen_def Let_def flip: m_def)
  ultimately show ?thesis
    by (simp only: concat_rows)
qed

lemma clip_width:
  assumes "\<not> has_esc s"
  shows "length (runes (clip s)) \<le> 80"
proof -
  have "list_all valid_rune (take 80 (runes s))"
    using runes_valid [of s] by (auto simp: list_all_iff dest: in_set_takeD)
  then show ?thesis
    using assms by (simp add: clip_def Width_def)
qed

text \<open>A frame is a screen. Whatever lines were added, \<open>Render\<close> clears the screen and writes exactly 24
  rows: the first lines of the body, clipped, blank rows down to the bottom, the line before the status
  if there is one, always in row 23, and the status in row 24. No row without escape sequences has more
  than 80 characters.\<close>

theorem frame_is_a_screen:
  "\<exists>rows. Render f = clearHome @ join_with crlf rows \<and> length rows = 24 \<and> rows ! 23 = clip (f_status f)
     \<and> (f_pre f \<noteq> [] \<longrightarrow> rows ! 22 = clip (f_pre f))
     \<and> (\<forall>i < (if f_pre f = [] then 23 else 22). rows ! i = (if i < length (f_lines f) then clip (f_lines f ! i) else []))
     \<and> (\<forall>i < 24. has_esc (rows ! i) \<or> length (runes (rows ! i)) \<le> 80)"
proof (intro exI conjI)
  show "Render f = clearHome @ join_with crlf (screen f)"
    by (rule Render_screen)
  show len: "length (screen f) = 24"
    by (simp add: screen_def Let_def)
  obtain body where b: "screen f = body @ (if f_pre f \<noteq> [] then [clip (f_pre f)] else []) @ [clip (f_status f)]"
    by (simp add: screen_def Let_def)
  show "screen f ! 23 = clip (f_status f)" "f_pre f \<noteq> [] \<longrightarrow> screen f ! 22 = clip (f_pre f)"
    using len unfolding b by (auto simp: nth_append)
  show "\<forall>i < (if f_pre f = [] then 23 else 22). screen f ! i = (if i < length (f_lines f) then clip (f_lines f ! i) else [])"
    by (auto simp: screen_def Let_def nth_append)
  have "\<exists>s. r = clip s" if "r \<in> set (screen f)" for r
  proof -
    have "clip [] = []"
      by (simp add: clip_def)
    then show ?thesis
      using that by (auto simp: screen_def Let_def split: if_splits) metis+
  qed
  moreover have "has_esc (clip s) \<or> length (runes (clip s)) \<le> 80" for s
    using clip_width [of s] by (cases "has_esc s") (simp_all add: clip_def)
  ultimately show "\<forall>i < 24. has_esc (screen f ! i) \<or> length (runes (screen f ! i)) \<le> 80"
    using len by (metis nth_mem)
qed

section \<open>Word wrap\<close>

definition is_word :: "string \<Rightarrow> bool" where
  "is_word w \<longleftrightarrow> (\<exists>rs. rs \<noteq> [] \<and> list_all valid_rune rs \<and> (\<forall>r \<in> set rs. encode_rune r \<notin> set go_spaces) \<and> w = string_of_runes rs)"

lemma word_utf8: "is_word w \<Longrightarrow> utf8 w"
  by (auto simp: is_word_def)

lemma word_nonempty: "is_word w \<Longrightarrow> w \<noteq> []"
  using decode_encode(2) by (fastforce simp: is_word_def string_of_runes_def list_all_iff)

lemma fields_runes:
  "(\<forall>r \<in> set rs. encode_rune r \<notin> set go_spaces) \<Longrightarrow>
     fields_of acc (map (\<lambda>r. (r, encode_rune r)) rs @ cs) = fields_of (acc @ string_of_runes rs) cs"
  by (induction rs arbitrary: acc) (simp_all add: string_of_runes_def)

lemma fields_word: "is_word w \<Longrightarrow> fields_of acc (chunks (w @ t)) = fields_of (acc @ w) (chunks t)"
  by (auto simp: is_word_def runes_encode fields_runes)

lemma fields_space: "fields_of acc (chunks (CHR '' '' # t)) = (if acc = [] then [] else [acc]) @ fields_of [] (chunks t)"
proof -
  have "'' '' \<in> set go_spaces"
    by code_simp
  then show ?thesis
    by (simp add: chunks_ascii del: chunks.simps)
qed

lemma fields_indent: "list_all (\<lambda>c. c = CHR '' '') ind \<Longrightarrow> fields_of [] (chunks (ind @ t)) = fields_of [] (chunks t)"
  by (induction ind) (simp_all add: fields_space del: chunks.simps)

lemma fields_join: "list_all is_word us \<Longrightarrow> fields_of [] (chunks (join_with '' '' us)) = us"
proof (induction us rule: induct_list012)
  case (2 u)
  then show ?case using fields_word [of u "[]" "[]"] word_nonempty [of u] by simp
next
  case (3 u v us)
  then show ?case using word_nonempty [of u] by (simp add: fields_word fields_space del: chunks.simps)
qed simp

lemma Fields_line: "list_all (\<lambda>c. c = CHR '' '') ind \<Longrightarrow> list_all is_word us \<Longrightarrow> Fields (ind @ join_with '' '' us) = us"
  by (simp add: Fields_def fields_indent fields_join)

lemma fields_words:
  "list_all valid_rune rs \<Longrightarrow> acc = [] \<or> is_word acc \<Longrightarrow> list_all is_word (fields_of acc (map (\<lambda>r. (r, encode_rune r)) rs))"
proof (induction rs arbitrary: acc)
  case (Cons r rs)
  have "is_word (acc @ encode_rune r)" if "encode_rune r \<notin> set go_spaces"
  proof -
    have "acc = string_of_runes []" if "acc = []"
      using that by (simp add: string_of_runes_def)
    then obtain as where "list_all valid_rune as" "\<forall>r \<in> set as. encode_rune r \<notin> set go_spaces" "acc = string_of_runes as"
      using Cons.prems(2) unfolding is_word_def by (metis empty_iff empty_set list.pred_inject(1))
    then show ?thesis
      using Cons.prems(1) that unfolding is_word_def by (intro exI [of _ "as @ [r]"]) (auto simp: string_of_runes_def)
  qed
  then show ?case
    using Cons by auto
qed auto

lemma Fields_words: "utf8 s \<Longrightarrow> list_all is_word (Fields s)"
  using fields_words [of _ "[]"] runes_encode [of _ "[]"] by (auto simp: utf8_def Fields_def)

lemma join_snoc: "us \<noteq> [] \<Longrightarrow> join_with sep (us @ [w]) = join_with sep us @ sep @ w"
  by (induction us rule: induct_list012) auto

lemma utf8_join: "list_all is_word us \<Longrightarrow> utf8 (join_with '' '' us)"
  by (induction us rule: induct_list012) (auto simp: word_utf8 intro!: ascii_utf8 [of "'' ''"] utf8_append [of "'' ''", simplified])

text \<open>The groups of words that become the lines.\<close>

lemma wrap_words_groups:
  assumes "list_all (\<lambda>c. c = CHR '' '') ind" "list_all is_word (us @ ws)" "us \<noteq> []"
    and "length us = 1 \<or> length (runes (ind @ join_with '' '' us)) \<le> width"
  shows "\<exists>gs. wrap_words width ind (ind @ join_with '' '' us) ws = map (\<lambda>g. ind @ join_with '' '' g) gs \<and> concat gs = us @ ws
    \<and> (\<forall>g \<in> set gs. length g = 1 \<or> length (runes (ind @ join_with '' '' g)) \<le> width)"
  using assms(2-)
proof (induction ws arbitrary: us)
  case Nil
  then show ?case by (intro exI [of _ "[us]"]) simp
next
  case (Cons w ws)
  have "ascii ind"
    using assms(1) by (induction ind) auto
  then have "utf8 (ind @ join_with '' '' us)"
    using Cons.prems(1) by (simp add: utf8_join ascii_utf8)
  then have len: "length (runes ((ind @ join_with '' '' us) @ '' '' @ w)) = length (runes (ind @ join_with '' '' us)) + 1 + length (runes w)"
    by (simp only: runes_append) (simp add: runes_Cons)
  show ?case
  proof (cases "length (runes (ind @ join_with '' '' us)) + 1 + length (runes w) \<le> width")
    case True
    then have "length (runes (ind @ join_with '' '' (us @ [w]))) \<le> width"
      using len Cons.prems(2) by (simp add: join_snoc)
    then show ?thesis
      using Cons.IH [of "us @ [w]"] Cons.prems True by (simp add: join_snoc)
  next
    case False
    then obtain gs where "wrap_words width ind (ind @ w) ws = map (\<lambda>g. ind @ join_with '' '' g) gs" "concat gs = w # ws"
        "\<forall>g \<in> set gs. length g = 1 \<or> length (runes (ind @ join_with '' '' g)) \<le> width"
      using Cons.IH [of "[w]"] Cons.prems by auto
    then show ?thesis
      using False Cons.prems by (intro exI [of _ "us # gs"]) simp
  qed
qed

text \<open>Wrapping loses no word, and a line is too wide only when it is one word.\<close>

lemma wrap_keeps_words:
  assumes "utf8 s"
  shows "concat (map Fields (wrapLine s width)) = Fields s
    \<and> (\<forall>l \<in> set (wrapLine s width). has_esc s \<or> length (runes l) \<le> width \<or> length (Fields l) \<le> 1)"
proof (cases "has_esc s \<or> length (runes s) \<le> width \<or> Fields s = []")
  case True
  then show ?thesis by (auto simp: wrapLine_def split: list.split)
next
  case False
  then obtain w ws where f: "Fields s = w # ws"
    by (meson neq_Nil_conv)
  have ind: "list_all (\<lambda>c. c = CHR '' '') (leading_spaces s)"
    by (auto simp: leading_spaces_def list_all_iff dest: set_takeWhileD)
  have words: "list_all is_word ([w] @ ws)"
    using Fields_words [OF assms] f by simp
  obtain gs where g: "wrap_words width (leading_spaces s) (leading_spaces s @ w) ws = map (\<lambda>g. leading_spaces s @ join_with '' '' g) gs"
      "concat gs = w # ws" "\<forall>g \<in> set gs. length g = 1 \<or> length (runes (leading_spaces s @ join_with '' '' g)) \<le> width"
    using wrap_words_groups [OF ind words, of width] by auto
  have "list_all is_word (concat gs)"
    using words g(2) by simp
  then have "\<forall>g \<in> set gs. list_all is_word g"
    by (auto simp: list_all_iff)
  then have fl: "\<forall>g \<in> set gs. Fields (leading_spaces s @ join_with '' '' g) = g"
    using Fields_line [OF ind] by blast
  then have "map (\<lambda>g. Fields (leading_spaces s @ join_with '' '' g)) gs = gs"
    by (simp add: map_idI)
  then show ?thesis
    using False f g fl by (auto simp: wrapLine_def comp_def)
qed

end
