(* ===== verification/Game_Play.thy ===== *)
theory Game_Play
  imports Game_Store Engine_Term
begin

text \<open>
  What one player does at one node: mending, exploring and fighting, Maren's stall
  (\<open>internal/game/module.go\<close>). A rule works on the session's copy of the character, as the code does
  on its pointer, and on the store. The terminal is the list of keys the player still presses, as in
  \<open>Engine_Term\<close>; a newline is no key of any menu, so the byte stands for the key. What is drawn on the
  screen is not modelled here; the line a rule returns is, up to the choice among a pool of lines.
\<close>

section \<open>Sessions\<close>

datatype notice = Win string | Bad string | Plain string | OneOf "string"

text \<open>\<open>debt, _ :=\<close>: a failed query leaves the zero value.\<close>

definition debt_of :: "bool \<Rightarrow> string \<Rightarrow> game \<Rightarrow> int" where
  "debt_of fault gid s = (case DebtLoad fault gid s of Inl _ \<Rightarrow> 0 | Inr d \<Rightarrow> d)"

section \<open>Mending\<close>

definition restsPerDay :: int where
  "restsPerDay = 3"

definition rest :: "'c input \<Rightarrow> string \<Rightarrow> charState \<times> game \<Rightarrow> (charState \<times> game) \<times> notice" where
  "rest x gid cs =
     (case cs of (c0, s) \<Rightarrow>
        (let day = tn_DayIndex (turn_of (i_io x ''LoadTurn'' 0) gid s);
             c = (if ch_RestDay c0 \<noteq> day then c0\<lparr>ch_RestDay := day, ch_RestsToday := 0\<rparr> else c0)
         in if ch_HP c \<ge> ch_MaxHP c then ((c, s), Plain ''You're as whole as the Low will let you be.'')
            else if ch_RestsToday c \<ge> restsPerDay then
              ((c, s), Bad ''You've rested all you can today. The Bonesetter waits, for a price.'')
            else
              (let hp = wrap64 (ch_HP c + go_quo (wrap64 (ch_MaxHP c * 30)) 100);
                   c1 = c\<lparr>ch_RestsToday := wrap64 (ch_RestsToday c + 1), ch_HP := if hp > ch_MaxHP c then ch_MaxHP c else hp\<rparr>
               in ((c1, fst (saveChar (i_io x ''saveChar'' 0) c1 s)),
                   Win ''You sit in the lantern-light. The ache settles to something you can carry.''))))"

definition bonesetter :: "row_order \<Rightarrow> 'c input \<Rightarrow> string \<Rightarrow> charState \<times> game \<Rightarrow> (charState \<times> game) \<times> notice" where
  "bonesetter ord x gid cs =
     (case cs of (c, s) \<Rightarrow>
        if ch_HP c \<ge> ch_MaxHP c then ((c, s), OneOf ''bonesetterHealthy'')
        else
          (let fee = 15; val = goodsValue ord (i_io x ''goodsValue'' 0) gid s;
               owed = (if val \<ge> fee then 0 else wrap64 (fee - val));
               s1 = fst (consumeForCost ord (i_io x ''consumeForCost'') gid (if val \<ge> fee then fee else val) s);
               s2 = (if val \<ge> fee then s1
                     else fst (CreateObligation (i_io x ''CreateObligation'') (i_now x) ''npc:npc_bonesetter'' gid ''debt''
                            ''a mending from the Bonesetter'' owed s1));
               c1 = c\<lparr>ch_HP := ch_MaxHP c\<rparr>
           in ((c1, fst (saveChar (i_io x ''saveChar'' 0) c1 s2)),
               if owed > 0 then Win (''The Bonesetter mends you whole and writes '' @ show_int owed @ '' to your tab.'')
               else Win ''The Bonesetter mends you whole, paid in scavenge.'')))"

section \<open>Combat\<close>

datatype fightResult = fightWon | fightFled | fightDied

definition die :: "'c input \<Rightarrow> string \<Rightarrow> Creature \<Rightarrow> int \<Rightarrow> game \<Rightarrow> game" where
  "die x gid cr band s = fst (Emit (i_io x ''die'' 0) (i_now x) ''player.died'' (JObj
     [(''cause'', JObj [(''depth'', JInt band), (''district'', JStr ''dst_warrens''), (''source_ref'', JStr (cr_ID cr)),
        (''type'', JStr ''creature'')]),
      (''global_id'', JStr gid), (''timestamp'', JInt (i_now x))]) s)"

text \<open>The creature strikes back: the hit points left, or death at one hit point.\<close>

definition struck :: "int \<Rightarrow> int \<Rightarrow> Creature \<Rightarrow> charState \<Rightarrow> rng \<Rightarrow> nat \<Rightarrow> charState" where
  "struck defPow hp cr c r k = c\<lparr>ch_HP := wrap64 (hp - fst (Damage (cr_Strength cr) defPow 0 r k))\<rparr>"

text \<open>The loop of \<open>fight\<close>; y is the last key pressed, whose random numbers the rules after the fight draw on.\<close>

fun fight_loop :: "string \<Rightarrow> Creature \<Rightarrow> int \<Rightarrow> int \<Rightarrow> int \<Rightarrow> 'c input \<Rightarrow> int \<Rightarrow> charState \<times> game \<Rightarrow> 'c input list
    \<Rightarrow> fightResult \<times> (charState \<times> game) \<times> 'c input \<times> 'c input list" where
  "fight_loop gid cr band atk def y enemyHP cs [] = (fightFled, cs, y, [])"
| "fight_loop gid cr band atk def y enemyHP (c, s) (x # xs) =
     (if is_key (i_key x) CHR ''a'' CHR ''A'' then
        (let hp = wrap64 (enemyHP - fst (Damage atk (cr_Defense cr) (ch_Luck c) (i_rng x) 0)) in
         if hp \<le> 0 then (fightWon, (c, s), x, xs)
         else
           (let c1 = struck def (ch_HP c) cr c (i_rng x) 2 in
            if ch_HP c1 \<le> 0 then (fightDied, (c1\<lparr>ch_HP := 1\<rparr>, die x gid cr band s), x, xs)
            else fight_loop gid cr band atk def x hp (c1, s) xs))
      else if is_key (i_key x) CHR ''f'' CHR ''F'' then
        (if int (Intn (i_rng x) 0 100) < fleeChance (ch_Luck c) then (fightFled, (c, s), x, xs)
         else
           (let c1 = struck def (ch_HP c) cr c (i_rng x) 1 in
            if ch_HP c1 \<le> 0 then (fightDied, (c1\<lparr>ch_HP := 1\<rparr>, die x gid cr band s), x, xs)
            else fight_loop gid cr band atk def x enemyHP (c1, s) xs))
      else fight_loop gid cr band atk def x enemyHP (c, s) xs)"

definition fight :: "string \<Rightarrow> Creature \<Rightarrow> int \<Rightarrow> 'c input \<Rightarrow> charState \<times> game \<Rightarrow> 'c input list
    \<Rightarrow> fightResult \<times> (charState \<times> game) \<times> 'c input \<times> 'c input list" where
  "fight gid cr band y cs xs =
     (let c = fst cs in
      fight_loop gid cr band (wrap64 (ch_Strength c + itemBonus (ch_Weapon c))) (wrap64 (ch_Defense c + itemBonus (ch_Armor c)))
        y (cr_HP cr) cs xs)"

text \<open>Every page at the end waits for a key: \<open>tl\<close> of the rest of the keys.\<close>

definition explore :: "'c input \<Rightarrow> string \<Rightarrow> bool \<Rightarrow> charState \<times> game \<Rightarrow> 'c input list
    \<Rightarrow> (charState \<times> game) \<times> 'c input list \<times> notice" where
  "explore x gid deep cs xs =
     (case cs of (c, s) \<Rightarrow>
        case SpendActions (i_io x ''SpendActions'' 0) gid 1 s of
          (s0, Some _) \<Rightarrow> ((c, s0), xs, Bad ''No expeditions left in you today. Rest, trade, or come back tomorrow.'')
        | (s0, None) \<Rightarrow>
            (let down = wrap64 (ch_DepthRecord c + 1);
                 band = (if deep then if down < 2 then 2 else down else 1);
                 cr = creatureForBand band (i_rng x) 0
             in case fight gid cr band x (c, s0) xs of (res, (c1, s1), y, ys) \<Rightarrow>
               (let c2 = c1\<lparr>ch_Blooded := True\<rparr> in
                case res of
                  fightWon \<Rightarrow>
                    (let good = lootDrops ! Intn (i_rng y) 4 (length lootDrops);
                         s2 = fst (addGood (i_io y ''addGood'' 0) gid good s1);
                         c3 = (if deep \<and> band > ch_DepthRecord c2 then c2\<lparr>ch_DepthRecord := band\<rparr> else c2)
                     in ((c3, fst (saveChar (i_io y ''saveChar'' 0) c3 s2)), tl ys, Win ''Back among the lanterns, you take stock.''))
                | fightFled \<Rightarrow>
                    ((c2, fst (saveChar (i_io y ''saveChar'' 0) c2 s1)), tl ys, Plain ''You catch your breath among the lanterns.'')
                | fightDied \<Rightarrow>
                    (let turn = turn_of (i_io y ''LoadTurn'' 0) gid s1;
                         c3 = c2\<lparr>ch_DeadDay := tn_DayIndex turn\<rparr>;
                         s2 = fst (saveChar (i_io y ''saveChar'' 0) c3 s1)
                     in ((c3, fst (SpendActions (i_io y ''SpendActions'' 1) gid (tn_Actions turn) s2)), tl ys,
                         Bad ''The Low has claimed your day. Rest, trade, or come back tomorrow.'')))))"

section \<open>Maren's stall\<close>

definition buy :: "row_order \<Rightarrow> 'c input \<Rightarrow> string \<Rightarrow> Ware \<Rightarrow> charState \<times> game \<Rightarrow> (charState \<times> game) \<times> notice" where
  "buy ord x gid w cs =
     (case cs of (c, s) \<Rightarrow>
        case consumeForCost ord (i_io x ''consumeForCost'') gid (wa_Price w) s of (s1, consumed) \<Rightarrow>
          (let owed = (if consumed < wa_Price w then wrap64 (wa_Price w - consumed) else 0);
               s2 = (if consumed < wa_Price w
                     then fst (CreateObligation (i_io x ''CreateObligation'') (i_now x) ''npc:npc_maren'' gid ''debt''
                            (itemName (wa_ItemID w) @ '' advanced by Maren'') owed s1)
                     else s1);
               c1 = (if wa_Slot w = ''weapon'' then c\<lparr>ch_Weapon := wa_ItemID w\<rparr>
                     else if wa_Slot w = ''armor'' then c\<lparr>ch_Armor := wa_ItemID w\<rparr> else c);
               s3 = (if i_io x ''equip'' 0 then s2
                     else s2\<lparr>k_chars := upd_where (\<lambda>r. ch_GlobalID r = gid)
                       (\<lambda>r. r\<lparr>ch_Weapon := ch_Weapon c1, ch_Armor := ch_Armor c1\<rparr>) (k_chars s2)\<rparr>)
           in ((c1, s3),
               if owed > 0 then Plain (''You take the '' @ itemName (wa_ItemID w) @ ''. You owe Maren '' @ show_int owed
                 @ '' more. She writes it down.'')
               else Win (''You take the '' @ itemName (wa_ItemID w) @ '', paid in scavenge.''))))"

definition payDebt :: "row_order \<Rightarrow> 'c input \<Rightarrow> string \<Rightarrow> game \<Rightarrow> game \<times> notice" where
  "payDebt ord x gid s =
     (let debt = debt_of (i_io x ''DebtLoad'' 0) gid s in
      if debt = 0 then (s, Plain ''You owe Maren nothing. She seems almost disappointed.'')
      else
        (let val = goodsValue ord (i_io x ''goodsValue'' 0) gid s in
         if val = 0 then (s, Bad ''You've nothing to pay with. She's heard that before.'')
         else
           (let target = (if val < debt then val else debt) in
            case consumeForCost ord (i_io x ''consumeForCost'') gid target s of (s1, consumed) \<Rightarrow>
              (case PayDebt (i_io x ''PayDebt'') (i_now x) gid consumed s1 of (s2, applied, _) \<Rightarrow>
                 (s2, Win (''You hand over goods. '' @ show_int applied @ '' of what you owed is settled.''))))))"

fun trade :: "row_order \<Rightarrow> string \<Rightarrow> charState \<times> game \<Rightarrow> 'c input list \<Rightarrow> (charState \<times> game) \<times> 'c input list \<times> notice" where
  "trade ord gid cs [] = (cs, [], Plain ''You step away from the stall.'')"
| "trade ord gid cs (x # xs) =
     (case digit_index (i_key x) of
        Some i \<Rightarrow> if i < length marenWares then trade ord gid (fst (buy ord x gid (marenWares ! i) cs)) xs else trade ord gid cs xs
      | None \<Rightarrow>
          if is_key (i_key x) CHR ''p'' CHR ''P'' then trade ord gid (fst cs, fst (payDebt ord x gid (snd cs))) xs
          else if is_key (i_key x) CHR ''b'' CHR ''B'' then (cs, xs, Plain ''You leave Maren to her counting.'')
          else trade ord gid cs xs)"

section \<open>Keys are used up\<close>

lemma fight_loop_keys: "fight_loop gid cr band atk def y hp cs xs = (res, cs', y', ys) \<Longrightarrow> length ys \<le> length xs"
proof (induction gid cr band atk "def" y hp cs xs rule: fight_loop.induct)
  case (2 gid cr band atk "def" y enemyHP c s x xs)
  then show ?case
    by (auto simp: Let_def split: if_splits intro: le_SucI)
qed simp

lemma explore_keys: "explore x gid deep cs xs = (cs', ys, n) \<Longrightarrow> length ys \<le> length xs"
  by (auto simp: explore_def fight_def Let_def split: prod.splits option.splits fightResult.splits dest!: fight_loop_keys)

lemma trade_keys: "trade ord gid cs xs = (cs', ys, n) \<Longrightarrow> length ys \<le> length xs"
  by (induction ord gid cs xs rule: trade.induct) (auto split: option.splits if_splits intro: le_SucI)

end
