(* ===== verification/Game_PvP.thy ===== *)
theory Game_PvP
  imports Game_Play
begin

text \<open>
  Attacks between players (\<open>internal/game/module.go\<close>): who may be attacked, the thirty rounds, the
  loot, attacks on players of other nodes (\<open>resolvePvPRemote\<close> at the attacker's node, \<open>IncomingPvP\<close> at the
  victim's, and the handler that credits the loot when the result comes back), and the inbox.
\<close>

section \<open>Victims\<close>

definition serverDay :: "int \<Rightarrow> int" where
  "serverDay now = go_quo now 86400"

definition last_attack :: "string \<Rightarrow> string \<Rightarrow> game \<Rightarrow> int" where
  "last_attack attacker victim s =
     (let days = map lg_day_index (filter (\<lambda>l. lg_attacker_id l = attacker \<and> lg_victim_id l = victim) (k_log s))
      in if days = [] then -999 else Max (set days))"

text \<open>\<open>None\<close> when the attack is allowed, else the reason. A query that fails leaves 0 in its variable.\<close>

definition canAttackVictim :: "io \<Rightarrow> int \<Rightarrow> string \<Rightarrow> Player \<Rightarrow> Player \<Rightarrow> game \<Rightarrow> string option" where
  "canAttackVictim io now nodeID player victim s =
     (let remote = (p_HomeNode victim \<noteq> nodeID);
          local_reason = (if remote then None
            else case loadChar (io 0) (p_GlobalID victim) s of
              Inl _ \<Rightarrow> Some ''no quarry'' | Inr vc \<Rightarrow> if \<not> ch_Blooded vc then Some ''untested'' else None);
          today = serverDay now
      in if local_reason \<noteq> None then local_reason
         else if p_Level victim < wrap64 (p_Level player - 3) then Some ''beneath you''
         else if (if io 1 then 0 else last_attack (p_GlobalID player) (p_GlobalID victim) s) \<ge> today - 1 then Some ''too soon''
         else if \<not> remote \<and> \<not> io 2
            \<and> rows_where (\<lambda>l. lg_victim_id l = p_GlobalID victim \<and> lg_day_index l = today) (k_log s) \<ge> 3 then Some ''already hunted''
         else None)"

section \<open>The rounds\<close>

record fighter =
  ft_Atk :: int
  ft_Def :: int
  ft_Luck :: int

definition fighter_of :: "charState \<Rightarrow> fighter" where
  "fighter_of c = \<lparr>ft_Atk = wrap64 (ch_Strength c + itemBonus (ch_Weapon c)), ft_Def = wrap64 (ch_Defense c + itemBonus (ch_Armor c)),
     ft_Luck = ch_Luck c\<rparr>"

text \<open>At most n more rounds; each uses four draws.\<close>

fun pvp_rounds :: "fighter \<Rightarrow> fighter \<Rightarrow> rng \<Rightarrow> nat \<Rightarrow> nat \<Rightarrow> int \<Rightarrow> int \<Rightarrow> int \<times> int \<times> bool" where
  "pvp_rounds a v r k 0 aHP vHP = (aHP, vHP, False)"
| "pvp_rounds a v r k (Suc n) aHP vHP =
     (let vHP1 = wrap64 (vHP - fst (Damage (ft_Atk a) (ft_Def v) (ft_Luck a) r k)) in
      if vHP1 \<le> 0 then (aHP, vHP1, True)
      else
        (let aHP1 = wrap64 (aHP - fst (Damage (ft_Atk v) (ft_Def a) (ft_Luck v) r (k + 2))) in
         if aHP1 \<le> 0 then (aHP1, vHP1, False) else pvp_rounds a v r (k + 4) n aHP1 vHP1))"

text \<open>\<open>float64(hp)/float64(max)\<close> of positive hit points; \<open>None\<close> is the infinity a zero maximum gives.\<close>

definition hp_ratio :: "int \<Rightarrow> int \<Rightarrow> rat option" where
  "hp_ratio hp mx = (if mx = 0 then None else Some (fl (fl (of_int hp) / fl (of_int mx))))"

definition ratio_greater :: "rat option \<Rightarrow> rat option \<Rightarrow> bool" where
  "ratio_greater x y = (case (x, y) of (Some a, Some b) \<Rightarrow> a > b | (None, Some _) \<Rightarrow> True | _ \<Rightarrow> False)"

definition pvp_outcome :: "fighter \<Rightarrow> fighter \<Rightarrow> rng \<Rightarrow> int \<Rightarrow> int \<Rightarrow> int \<Rightarrow> int \<Rightarrow> int \<times> int \<times> bool" where
  "pvp_outcome a v r aHP0 aMax vHP0 vMax =
     (case pvp_rounds a v r 0 30 aHP0 vHP0 of (aHP, vHP, won) \<Rightarrow>
        (aHP, vHP, if aHP > 0 \<and> vHP > 0 then ratio_greater (hp_ratio aHP aMax) (hp_ratio vHP vMax) else won))"

section \<open>Loot\<close>

definition loot_fraction :: "rng \<Rightarrow> nat \<Rightarrow> rat" where
  "loot_fraction r k = fl (1 / 4 + fl (Float64 r k * (1 / 4)))"

definition loot_share :: "rat \<Rightarrow> int \<Rightarrow> int" where
  "loot_share fr qty = float_to_int (round_away (fl (fl (of_int qty) * fr)))"

fun join_comma :: "string list \<Rightarrow> string" where
  "join_comma [] = []"
| "join_comma [p] = p"
| "join_comma (p # q # ps) = p @ '', '' @ join_comma (q # ps)"

definition loot_part :: "pvpLootItem \<Rightarrow> string" where
  "loot_part i = show_int (li_Qty i) @ ''x '' @ goodName (li_ItemID i)"

text \<open>The closure \<open>take\<close>: the i-th item taken; a failed statement is not noticed.\<close>

definition take_loot :: "io \<Rightarrow> string \<Rightarrow> string \<Rightarrow> int \<Rightarrow> game \<times> pvpLootItem list \<Rightarrow> game \<times> pvpLootItem list" where
  "take_loot io victimID itemID n w =
     (case w of (s, its) \<Rightarrow>
        (if io (length its + 2) then s else takeGoods victimID itemID n s, its @ [\<lparr>li_ItemID = itemID, li_Qty = n\<rparr>]))"

fun take_lines :: "io \<Rightarrow> string \<Rightarrow> rat \<Rightarrow> invLine list \<Rightarrow> game \<times> pvpLootItem list \<Rightarrow> game \<times> pvpLootItem list" where
  "take_lines io victimID fr [] w = w"
| "take_lines io victimID fr (l # ls) w =
     take_lines io victimID fr ls
       (let n = loot_share fr (il_Qty l) in if n > 0 then take_loot io victimID (il_ItemID l) n w else w)"

text \<open>The counter \<open>took\<close>.\<close>

definition loot_total :: "pvpLootItem list \<Rightarrow> int" where
  "loot_total its = foldl (\<lambda>took i. wrap64 (took + li_Qty i)) 0 its"

definition stealLoot :: "row_order \<Rightarrow> io \<Rightarrow> string \<Rightarrow> rng \<Rightarrow> nat \<Rightarrow> game \<Rightarrow> game \<times> string \<times> pvpLootItem list" where
  "stealLoot ord io victimID r k s =
     (let goods = sort_key (\<lambda>l. - goodWeight (il_ItemID l)) (listGoods ord (io 0) victimID s) in
      case (case take_lines io victimID (loot_fraction r k) goods (s, []) of
              (s1, its) \<Rightarrow> if loot_total its = 0 \<and> goods \<noteq> [] then take_loot io victimID (il_ItemID (hd goods)) 1 (s1, its) else (s1, its)) of
        (s2, its) \<Rightarrow>
          (sweepGoods (io 1) victimID s2, if its = [] then ''nothing worth carrying'' else join_comma (map loot_part its), its))"

fun give_loot :: "io \<Rightarrow> nat \<Rightarrow> string \<Rightarrow> pvpLootItem list \<Rightarrow> game \<Rightarrow> game" where
  "give_loot io k gid [] s = s"
| "give_loot io k gid (i # its) s = give_loot io (Suc k) gid its (fst (addGoods (io k) gid (li_ItemID i) (li_Qty i) s))"

definition transferLoot :: "row_order \<Rightarrow> io \<Rightarrow> io \<Rightarrow> string \<Rightarrow> string \<Rightarrow> rng \<Rightarrow> nat \<Rightarrow> game \<Rightarrow> game \<times> string \<times> pvpLootItem list" where
  "transferLoot ord io io' victimID attackerID r k s =
     (case stealLoot ord io victimID r k s of (s1, desc, its) \<Rightarrow> (give_loot io' 0 attackerID its s1, desc, its))"

section \<open>Results\<close>

definition enc_loot :: "pvpLootItem \<Rightarrow> json" where
  "enc_loot i = JObj [(''item_id'', JStr (li_ItemID i)), (''qty'', JInt (li_Qty i))]"

definition resolved_event :: "string \<Rightarrow> string \<Rightarrow> string \<Rightarrow> bool \<Rightarrow> pvpLootItem list \<Rightarrow> int \<Rightarrow> json" where
  "resolved_event reqID attackerID victimID won its now =
     (let outcome = (if won then ''win'' else ''loss'') in
      JObj [(''attacker_global_id'', JStr attackerID), (''day_index'', JInt (serverDay now)), (''loot'', JArr (map enc_loot its)),
        (''outcome'', JStr outcome), (''request_id'', JStr reqID), (''resolved_at'', JInt now), (''result_text'', JStr outcome),
        (''victim_died'', JBool False), (''victim_global_id'', JStr victimID),
        (''winner_global_id'', JStr (if won then attackerID else victimID))])"

definition log_attack :: "bool \<Rightarrow> int \<Rightarrow> string \<Rightarrow> string \<Rightarrow> string \<Rightarrow> bool \<Rightarrow> string \<Rightarrow> game \<Rightarrow> game" where
  "log_attack fault now attackerID attackerName victimID won desc s =
     (if fault then s
      else s\<lparr>k_log := k_log s @ [\<lparr>lg_attacker_id = attackerID, lg_attacker_name = attackerName, lg_victim_id = victimID,
        lg_day_index = serverDay now, lg_attacker_won = won, lg_loot_desc = desc, lg_seen = False, lg_created_at = now\<rparr>]\<rparr>)"

text \<open>An attack on a player of this node.\<close>

definition resolvePvP :: "row_order \<Rightarrow> 'c input \<Rightarrow> Player \<Rightarrow> Player \<Rightarrow> charState \<times> game \<Rightarrow> 'c input list
    \<Rightarrow> (charState \<times> game) \<times> 'c input list \<times> notice" where
  "resolvePvP ord x player victim cs xs =
     (case cs of (c, s) \<Rightarrow>
        case SpendAttack (i_io x ''SpendAttack'' 0) (p_GlobalID player) s of
          (s0, Some _) \<Rightarrow> ((c, s0), xs, Bad ''You're out of attacks for today.'')
        | (s0, None) \<Rightarrow>
            (case loadChar (i_io x ''loadChar'' 0) (p_GlobalID victim) s0 of
               Inl _ \<Rightarrow> ((c, s0), xs, Plain ''Your quarry has slipped the Low entirely.'')
             | Inr vc \<Rightarrow>
                 (case pvp_outcome (fighter_of c) (fighter_of vc) (i_rng x) (ch_HP c) (ch_MaxHP c) (ch_HP vc) (ch_MaxHP vc) of
                    (aHP, vHP, won) \<Rightarrow>
                      (let c1 = c\<lparr>ch_HP := if aHP < 1 then 1 else aHP\<rparr>; vc1 = vc\<lparr>ch_HP := if vHP < 1 then 1 else vHP\<rparr>;
                           s1 = fst (saveChar (i_io x ''saveChar'' 0) c1 s0);
                           s2 = fst (saveChar (i_io x ''saveChar'' 1) vc1 s1)
                       in case (if won then transferLoot ord (i_io x ''stealLoot'') (i_io x ''addGoods'') (p_GlobalID victim)
                                  (p_GlobalID player) (i_rng x) 120 s2
                                else (s2, ''nothing'', [])) of
                            (s3, desc, its) \<Rightarrow>
                              (let s4 = log_attack (i_io x ''log'' 0) (i_now x) (p_GlobalID player) (p_Name player)
                                          (p_GlobalID victim) won desc s3;
                                   reqID = ''local:'' @ p_GlobalID player @ '':'' @ p_GlobalID victim @ '':'' @ show_int (i_now x);
                                   s5 = fst (Emit (i_io x ''Emit'' 0) (i_now x) ''pvp.resolved''
                                          (resolved_event reqID (p_GlobalID player) (p_GlobalID victim) won its (i_now x)) s4)
                               in ((c1, s5), tl xs,
                                   if won then Win ''You melt back into the Lanternmarket crowd.''
                                   else Bad ''You nurse your pride among the lanterns.''))))))"

section \<open>Attacks across nodes\<close>

record attackerPayload =
  ap_Name :: string
  ap_Level :: int
  ap_HP :: int
  ap_MaxHP :: int
  ap_Strength :: int
  ap_Defense :: int
  ap_Luck :: int
  ap_Weapon :: string
  ap_Armor :: string

definition enc_attackerPayload :: "attackerPayload \<Rightarrow> json" where
  "enc_attackerPayload a = JObj
     [(''name'', JStr (ap_Name a)), (''level'', JInt (ap_Level a)), (''hp'', JInt (ap_HP a)), (''max_hp'', JInt (ap_MaxHP a)),
      (''strength'', JInt (ap_Strength a)), (''defense'', JInt (ap_Defense a)), (''luck'', JInt (ap_Luck a)),
      (''weapon'', JStr (ap_Weapon a)), (''armor'', JStr (ap_Armor a))]"

definition dec_attackerPayload :: "json \<Rightarrow> attackerPayload \<times> bool" where
  "dec_attackerPayload j =
     (let n = fld unm_string ''name'' j []; l = fld unm_int ''level'' j 0; hp = fld unm_int ''hp'' j 0; mh = fld unm_int ''max_hp'' j 0;
          st = fld unm_int ''strength'' j 0; df = fld unm_int ''defense'' j 0; lk = fld unm_int ''luck'' j 0;
          wp = fld unm_string ''weapon'' j []; ar = fld unm_string ''armor'' j []
      in (\<lparr>ap_Name = fst n, ap_Level = fst l, ap_HP = fst hp, ap_MaxHP = fst mh, ap_Strength = fst st, ap_Defense = fst df,
           ap_Luck = fst lk, ap_Weapon = fst wp, ap_Armor = fst ar\<rparr>,
          snd n \<and> snd l \<and> snd hp \<and> snd mh \<and> snd st \<and> snd df \<and> snd lk \<and> snd wp \<and> snd ar))"

definition payload_of :: "Player \<Rightarrow> charState \<Rightarrow> attackerPayload" where
  "payload_of p c = \<lparr>ap_Name = p_Name p, ap_Level = p_Level p, ap_HP = ch_HP c, ap_MaxHP = ch_MaxHP c, ap_Strength = ch_Strength c,
     ap_Defense = ch_Defense c, ap_Luck = ch_Luck c, ap_Weapon = ch_Weapon c, ap_Armor = ch_Armor c\<rparr>"

text \<open>At the attacker's node. \<open>attack\<close> is \<open>Context.CrossNodeAttack\<close>, \<open>None\<close> without a hub; its state is the hub's,
  and it reports whether it failed.\<close>

definition resolvePvPRemote :: "('c \<Rightarrow> string \<Rightarrow> string \<Rightarrow> raw \<Rightarrow> 'h \<Rightarrow> 'h \<times> bool) option \<Rightarrow> 'c input \<Rightarrow> Player \<Rightarrow> Player
    \<Rightarrow> charState \<Rightarrow> game \<times> 'h \<Rightarrow> 'c input list \<Rightarrow> (game \<times> 'h) \<times> 'c input list \<times> notice" where
  "resolvePvPRemote attack x player victim c w xs =
     (case attack of
        None \<Rightarrow> (w, xs, Bad ''The hub is unreachable. Your attack can't be routed.'')
      | Some f \<Rightarrow>
          (case w of (s, h) \<Rightarrow>
             case SpendAttack (i_io x ''SpendAttack'' 0) (p_GlobalID player) s of
               (s0, Some _) \<Rightarrow> ((s0, h), xs, Bad ''You're out of attacks for today.'')
             | (s0, None) \<Rightarrow>
                 (case f (i_call x) (p_GlobalID player) (p_GlobalID victim) (Some (enc_attackerPayload (payload_of player c))) h of
                    (h1, True) \<Rightarrow>
                      ((s0, h1), xs, Plain ''Your attack was dispatched but the network stumbled. The Low will sort it out.'')
                  | (h1, False) \<Rightarrow>
                      ((log_attack (i_io x ''log'' 0) (i_now x) (p_GlobalID player) (p_Name player) (p_GlobalID victim) False
                          ''pending'' s0, h1), tl xs, Plain ''The Low carries your intent. The answer comes when it comes.''))))"

text \<open>At the victim's node: the resolution of a queued attack. The fault schedule numbers the statements;
  the looting has its own block, from 10 on.\<close>

definition IncomingPvP :: "row_order \<Rightarrow> int \<Rightarrow> rng \<Rightarrow> io \<Rightarrow> string \<Rightarrow> string \<Rightarrow> string \<Rightarrow> raw \<Rightarrow> game \<Rightarrow> game \<times> eng_err option" where
  "IncomingPvP ord now r io reqID attackerID victimID payload s =
     (case payload of
        None \<Rightarrow> (s, Some EJSON)
      | Some j \<Rightarrow>
          (case dec_attackerPayload j of (atk, ok) \<Rightarrow>
             if \<not> ok then (s, Some EJSON)
             else case loadChar (io 0) victimID s of
               Inl _ \<Rightarrow> Emit (io 1) now ''pvp.resolved'' (resolved_event reqID attackerID victimID False [] now) s
             | Inr vc \<Rightarrow>
                 (let a = \<lparr>ft_Atk = wrap64 (ap_Strength atk + itemBonus (ap_Weapon atk)),
                           ft_Def = wrap64 (ap_Defense atk + itemBonus (ap_Armor atk)), ft_Luck = ap_Luck atk\<rparr>
                  in case pvp_outcome a (fighter_of vc) r (ap_HP atk) (ap_MaxHP atk) (ch_HP vc) (ch_MaxHP vc) of
                    (aHP, vHP, won) \<Rightarrow>
                      (let s1 = fst (saveChar (io 2) (vc\<lparr>ch_HP := if vHP < 1 then 1 else vHP\<rparr>) s)
                       in case (if won then stealLoot ord (\<lambda>k. io (k + 10)) victimID r 120 s1 else (s1, ''nothing'', [])) of
                            (s2, desc, its) \<Rightarrow>
                              Emit (io 1) now ''pvp.resolved'' (resolved_event reqID attackerID victimID won its now)
                                (log_attack (io 3) now attackerID (ap_Name atk) victimID won desc s2)))))"

definition dec_loot :: "json \<Rightarrow> pvpLootItem \<times> bool" where
  "dec_loot j = (let i = fld unm_string ''item_id'' j []; q = fld unm_int ''qty'' j 0
     in (\<lparr>li_ItemID = fst i, li_Qty = fst q\<rparr>, snd i \<and> snd q))"

text \<open>Back at the attacker's node: the handler of \<open>pvp.resolved\<close> events. It never reports an error.\<close>

definition on_pvp_resolved :: "string \<Rightarrow> game handler" where
  "on_pvp_resolved nodeID io e s =
     (case v_Payload e of
        None \<Rightarrow> (s, None)
      | Some j \<Rightarrow>
          (let req = fld unm_string ''request_id'' j []; a = fld unm_string ''attacker_global_id'' j [];
               v = fld unm_string ''victim_global_id'' j []; out = fld unm_string ''outcome'' j [];
               loot = fld (unm_list dec_loot) ''loot'' j []
           in if \<not> (snd req \<and> snd a \<and> snd v \<and> snd out \<and> snd loot) then (s, None)
              else if fst req = [] \<or> has_prefix (fst req) ''local:'' \<or> \<not> has_prefix (fst a) (nodeID @ '':'') then (s, None)
              else
                (let s1 = give_loot io 1 (fst a) (fst loot) s;
                     desc = (if fst loot = [] then ''nothing'' else join_comma (map loot_part (fst loot)))
                 in (if io 0 then s1
                     else s1\<lparr>k_log := upd_where (\<lambda>l. lg_attacker_id l = fst a \<and> lg_victim_id l = fst v \<and> lg_loot_desc l = ''pending'')
                       (\<lambda>l. l\<lparr>lg_attacker_won := (fst out = ''win''), lg_loot_desc := desc\<rparr>) (k_log s1)\<rparr>, None))))"

definition RegisterGameHandlers :: "string \<Rightarrow> game registry \<Rightarrow> game registry" where
  "RegisterGameHandlers nodeID H = OnEvent ''pvp.resolved'' (on_pvp_resolved nodeID) H"

section \<open>Inbox\<close>

text \<open>Unread attacks are shown (one page, one key) and marked as seen.\<close>

definition showPvpInbox :: "'c input \<Rightarrow> string \<Rightarrow> game \<Rightarrow> 'c input list \<Rightarrow> game \<times> 'c input list" where
  "showPvpInbox x gid s xs =
     (if i_io x ''inbox'' 0 \<or> rows_where (\<lambda>l. lg_victim_id l = gid \<and> \<not> lg_seen l) (k_log s) = 0 then (s, xs)
      else (if i_io x ''inbox'' 1 then s
            else s\<lparr>k_log := upd_where (\<lambda>l. lg_victim_id l = gid \<and> \<not> lg_seen l) (\<lambda>l. l\<lparr>lg_seen := True\<rparr>) (k_log s)\<rparr>, tl xs))"

text \<open>The menu of attacks.\<close>

fun attack_loop :: "row_order \<Rightarrow> ('c \<Rightarrow> string \<Rightarrow> string \<Rightarrow> raw \<Rightarrow> 'h \<Rightarrow> 'h \<times> bool) option \<Rightarrow> string \<Rightarrow> Player \<Rightarrow> Player list
    \<Rightarrow> charState \<times> game \<times> 'h \<Rightarrow> 'c input list \<Rightarrow> (charState \<times> game \<times> 'h) \<times> 'c input list \<times> notice" where
  "attack_loop ord attack nodeID player others w [] = (w, [], Plain ''You think better of it.'')"
| "attack_loop ord attack nodeID player others (c, s, h) (x # xs) =
     (case digit_index (i_key x) of
        Some i \<Rightarrow>
          if i < length others then
            (case canAttackVictim (i_io x ''canAttackVictim'') (i_now x) nodeID player (others ! i) s of
               Some _ \<Rightarrow> attack_loop ord attack nodeID player others (c, s, h) xs
             | None \<Rightarrow>
                 if p_HomeNode (others ! i) \<noteq> nodeID then
                   (case resolvePvPRemote attack x player (others ! i) c (s, h) xs of ((s1, h1), ys, n) \<Rightarrow> ((c, s1, h1), ys, n))
                 else
                   (case resolvePvP ord x player (others ! i) (c, s) xs of ((c1, s1), ys, n) \<Rightarrow> ((c1, s1, h), ys, n)))
          else attack_loop ord attack nodeID player others (c, s, h) xs
      | None \<Rightarrow>
          if is_key (i_key x) CHR ''b'' CHR ''B'' then ((c, s, h), xs, Plain ''You let them sleep. For now.'')
          else attack_loop ord attack nodeID player others (c, s, h) xs)"

definition attackMenu :: "row_order \<Rightarrow> ('c \<Rightarrow> string \<Rightarrow> string \<Rightarrow> raw \<Rightarrow> 'h \<Rightarrow> 'h \<times> bool) option \<Rightarrow> string \<Rightarrow> Player \<Rightarrow> 'c input
    \<Rightarrow> charState \<times> game \<times> 'h \<Rightarrow> 'c input list \<Rightarrow> (charState \<times> game \<times> 'h) \<times> 'c input list \<times> notice" where
  "attackMenu ord attack nodeID player x w xs =
     (case Players (i_io x ''Players'' 0) (p_GlobalID player) (fst (snd w)) of
        Inr (o1 # os) \<Rightarrow> attack_loop ord attack nodeID player (o1 # os) w xs
      | _ \<Rightarrow> (w, xs, Plain ''No one else walks the Low tonight. You keep your edge sheathed.''))"

section \<open>Keys are used up\<close>

lemma resolvePvP_keys: "resolvePvP ord x p v cs xs = (cs', ys, n) \<Longrightarrow> length ys \<le> length xs"
  by (auto simp: resolvePvP_def Let_def split: prod.splits option.splits sum.splits)

lemma resolvePvPRemote_keys: "resolvePvPRemote f x p v c w xs = (w', ys, n) \<Longrightarrow> length ys \<le> length xs"
  by (auto simp: resolvePvPRemote_def split: prod.splits option.splits bool.splits)

lemma attack_loop_keys: "attack_loop ord f nodeID p os w xs = (w', ys, n) \<Longrightarrow> length ys \<le> length xs"
proof (induction ord f nodeID p os w xs rule: attack_loop.induct)
  case (2 ord attack nodeID player others c s h x xs)
  then show ?case
    by (auto split: option.splits if_splits prod.splits intro: le_SucI dest!: resolvePvP_keys resolvePvPRemote_keys)
qed simp

lemma attackMenu_keys: "attackMenu ord f nodeID p x w xs = (w', ys, n) \<Longrightarrow> length ys \<le> length xs"
  by (auto simp: attackMenu_def split: sum.splits list.splits dest!: attack_loop_keys)

end
