(* ===== verification/Game_Session.thy ===== *)
theory Game_Session
  imports Game_PvP
begin

text \<open>
  A whole session of the reference game: the menus of \<open>internal/game/module.go\<close> as loops over the keys
  the player presses. The engine's \<open>Context\<close> gives the player, the node and the two functions that
  reach the hub, whose state is a type of its own.
\<close>

record ('c, 'h) Context =
  x_Player :: Player
  x_NodeID :: string
  x_Order :: row_order
  x_CrossNodeAttack :: "('c \<Rightarrow> string \<Rightarrow> string \<Rightarrow> raw \<Rightarrow> 'h \<Rightarrow> 'h \<times> bool) option"
  x_Travel :: "('c \<Rightarrow> int \<Rightarrow> io \<Rightarrow> string \<Rightarrow> string \<Rightarrow> game \<times> 'h \<Rightarrow> (game \<times> 'h) \<times> bool) option"

text \<open>The state of a session: the character in memory, the store and the hub.\<close>

type_synonym 'h sess = "charState \<times> game \<times> 'h"

definition x_gid :: "('c, 'h) Context \<Rightarrow> string" where
  "x_gid X = p_GlobalID (x_Player X)"

section \<open>Travel\<close>

text \<open>The nodes of the roster other than this one, each once, in order.\<close>

fun other_nodes :: "string \<Rightarrow> string list \<Rightarrow> Player list \<Rightarrow> string list" where
  "other_nodes nodeID seen [] = []"
| "other_nodes nodeID seen (p # ps) =
     (if p_HomeNode p \<noteq> nodeID \<and> p_HomeNode p \<notin> set seen then p_HomeNode p # other_nodes nodeID (p_HomeNode p # seen) ps
      else other_nodes nodeID seen ps)"

definition call_travel :: "('c, 'h) Context \<Rightarrow> 'c input \<Rightarrow> string \<Rightarrow> game \<times> 'h \<Rightarrow> (game \<times> 'h) \<times> bool" where
  "call_travel X x dest w = (case x_Travel X of None \<Rightarrow> (w, True) | Some f \<Rightarrow> f (i_call x) (i_now x) (i_io x ''Travel'') (x_gid X) dest w)"

fun travel_loop :: "('c, 'h) Context \<Rightarrow> string list \<Rightarrow> game \<times> 'h \<Rightarrow> 'c input list \<Rightarrow> (game \<times> 'h) \<times> 'c input list" where
  "travel_loop X nodes w [] = (w, [])"
| "travel_loop X nodes w (x # xs) =
     (case digit_index (i_key x) of
        Some i \<Rightarrow>
          if i < length nodes then
            (case call_travel X x (nodes ! i) w of (w1, failed) \<Rightarrow> if failed then travel_loop X nodes w1 xs else (w1, tl xs))
          else travel_loop X nodes w xs
      | None \<Rightarrow> if is_key (i_key x) CHR ''b'' CHR ''B'' then (w, xs) else travel_loop X nodes w xs)"

fun departScreen :: "('c, 'h) Context \<Rightarrow> game \<times> 'h \<Rightarrow> 'c input list \<Rightarrow> (game \<times> 'h) \<times> 'c input list" where
  "departScreen X w [] = (w, [])"
| "departScreen X w (x # xs) =
     (if is_key (i_key x) CHR ''r'' CHR ''R'' then
        (case call_travel X x (p_HomeNode (x_Player X)) w of (w1, failed) \<Rightarrow> if failed then departScreen X w1 xs else (w1, tl xs))
      else if is_key (i_key x) CHR ''b'' CHR ''B'' then (w, xs)
      else departScreen X w xs)"

definition travelScreen :: "('c, 'h) Context \<Rightarrow> 'c input \<Rightarrow> game \<times> 'h \<Rightarrow> 'c input list \<Rightarrow> (game \<times> 'h) \<times> 'c input list" where
  "travelScreen X x w xs =
     (if x_Travel X = None then (w, tl xs)
      else if p_HomeNode (x_Player X) \<noteq> x_NodeID X then departScreen X w xs
      else
        (let nodes = other_nodes (x_NodeID X) []
               (case Players (i_io x ''Players'' 0) (x_gid X) (fst w) of Inl _ \<Rightarrow> [] | Inr ps \<Rightarrow> ps)
         in if nodes = [] then (w, tl xs) else travel_loop X nodes w xs))"

lemma travel_loop_keys: "travel_loop X nodes w xs = (w', ys) \<Longrightarrow> length ys \<le> length xs"
  by (induction X nodes w xs rule: travel_loop.induct) (auto split: option.splits if_splits prod.splits intro: le_SucI)

lemma departScreen_keys: "departScreen X w xs = (w', ys) \<Longrightarrow> length ys \<le> length xs"
  by (induction X w xs rule: departScreen.induct) (auto split: if_splits prod.splits intro: le_SucI)

lemma travelScreen_keys: "travelScreen X x w xs = (w', ys) \<Longrightarrow> length ys \<le> length xs"
  by (auto simp: travelScreen_def Let_def split: if_splits dest!: travel_loop_keys departScreen_keys)

section \<open>The Lanternmarket\<close>

text \<open>One key of the market's menu: the state and the keys left, \<open>None\<close> for the way back. A character who
  died today may not explore or attack.\<close>

definition low_key :: "('c, 'h) Context \<Rightarrow> 'c input \<Rightarrow> 'h sess \<Rightarrow> 'c input list \<Rightarrow> ('h sess \<times> 'c input list) option" where
  "low_key X x w xs =
     (case w of (c, s, h) \<Rightarrow>
        (let k = i_key x; gid = x_gid X; dead = isDeadToday c (turn_of (i_io x ''dead'' 0) gid s);
             local = (\<lambda>r. case fst r of (c1, s1) \<Rightarrow> Some ((c1, s1, h), xs));
             ex = (\<lambda>deep. if dead then Some (w, xs)
               else case explore x gid deep (c, s) xs of ((c1, s1), ys, _) \<Rightarrow> Some ((c1, s1, h), ys))
         in if is_key k CHR ''e'' CHR ''E'' then ex False
            else if is_key k CHR ''d'' CHR ''D'' then ex True
            else if is_key k CHR ''t'' CHR ''T'' then
              (case trade (x_Order X) gid (c, s) xs of ((c1, s1), ys, _) \<Rightarrow> Some ((c1, s1, h), ys))
            else if is_key k CHR ''r'' CHR ''R'' then local (rest x gid (c, s))
            else if is_key k CHR ''b'' CHR ''B'' then local (bonesetter (x_Order X) x gid (c, s))
            else if is_key k CHR ''a'' CHR ''A'' then
              (if dead then Some (w, xs)
               else case attackMenu (x_Order X) (x_CrossNodeAttack X) (x_NodeID X) (x_Player X) x w xs of
                 (w1, ys, _) \<Rightarrow> Some (w1, ys))
            else if is_key k CHR ''l'' CHR ''L'' then None
            else Some (w, xs)))"

lemma low_key_keys: "low_key X x w xs = Some (w', ys) \<Longrightarrow> length ys \<le> length xs"
  by (auto simp: low_key_def Let_def split: if_splits prod.splits dest!: explore_keys trade_keys attackMenu_keys)

function theLow :: "('c, 'h) Context \<Rightarrow> 'h sess \<Rightarrow> 'c input list \<Rightarrow> 'h sess \<times> 'c input list" where
  "theLow X w [] = (w, [])"
| "theLow X w (x # xs) = (case low_key X x w xs of None \<Rightarrow> (w, xs) | Some (w1, ys) \<Rightarrow> theLow X w1 ys)"
  by pat_completeness auto
termination
  by (relation "measure (\<lambda>(X, w, xs). length xs)") (auto dest: low_key_keys)

lemma theLow_keys: "length (snd (theLow X w xs)) \<le> length xs"
proof (induction X w xs rule: theLow.induct)
  case (2 X w x xs)
  show ?case
  proof (cases "low_key X x w xs")
    case (Some r)
    obtain w1 ys where r: "r = (w1, ys)" by (cases r)
    have "length (snd (theLow X w1 ys)) \<le> length ys"
      using 2 Some r by simp
    then show ?thesis
      using low_key_keys [of X x w xs w1 ys] Some r by simp
  qed simp
qed simp

section \<open>The Threshold\<close>

text \<open>The information pages wait for one key each.\<close>

function threshold :: "('c, 'h) Context \<Rightarrow> 'h sess \<Rightarrow> 'c input list \<Rightarrow> 'h sess" where
  "threshold X w [] = w"
| "threshold X w (x # xs) =
     (let k = i_key x in
      if is_key k CHR ''e'' CHR ''E'' then (case theLow X w xs of (w1, ys) \<Rightarrow> threshold X w1 ys)
      else if is_key k CHR ''c'' CHR ''C'' \<or> is_key k CHR ''n'' CHR ''N'' \<or> is_key k CHR ''w'' CHR ''W''
          \<or> is_key k CHR ''i'' CHR ''I'' then threshold X w (tl xs)
      else if is_key k CHR ''v'' CHR ''V'' then
        (case travelScreen X x (snd w) xs of (sh, ys) \<Rightarrow> threshold X (fst w, sh) ys)
      else if is_key k CHR ''q'' CHR ''Q'' then w
      else threshold X w xs)"
  by pat_completeness auto
termination
proof (relation "measure (\<lambda>(X, w, xs). length xs)", goal_cases)
  case (2 X w x xs k w1 ys)
  then show ?case using theLow_keys [of X w xs] by (simp add: eq_fst_iff case_prod_beta)
next
  case (4 X w x xs k sh ys)
  then have "length ys \<le> length xs" using travelScreen_keys [of X x "snd w" xs sh ys] by simp
  then show ?case by simp
qed auto

section \<open>The session\<close>

text \<open>
  \<open>Run\<close>: the character is loaded, or made first; a new day refreshes the turn budget and heals; the first
  visit shows the arrival page; then the inbox and the menus until the player leaves. \<open>x0\<close> is the
  environment before the first key and \<open>zone\<close> the server's time zone. An error ends the session.
\<close>

definition load_or_new :: "'c input \<Rightarrow> string \<Rightarrow> game \<Rightarrow> game \<times> (eng_err + charState)" where
  "load_or_new x0 gid s =
     (case loadChar (i_io x0 ''loadChar'' 0) gid s of
        Inr c \<Rightarrow> (s, Inr c)
      | Inl _ \<Rightarrow>
          (case NewCharacter (i_io x0 ''NewCharacter'' 0) gid s of
             (s1, Some e) \<Rightarrow> (s1, Inl e)
           | (s1, None) \<Rightarrow> (s1, loadChar (i_io x0 ''loadChar'' 1) gid s1)))"

definition wake_up :: "(int \<Rightarrow> int) \<Rightarrow> 'c input \<Rightarrow> string \<Rightarrow> charState \<times> game \<Rightarrow> charState \<times> game" where
  "wake_up zone x0 gid cs =
     (case cs of (c, s) \<Rightarrow>
        case ResetIfNewDay zone (i_io x0 ''ResetIfNewDay'') (i_now x0) gid s of
          (s1, True, _) \<Rightarrow> (let c1 = c\<lparr>ch_HP := ch_MaxHP c\<rparr> in (c1, fst (saveChar (i_io x0 ''saveChar'' 0) c1 s1)))
        | (s1, False, _) \<Rightarrow> (c, s1))"

definition arrive :: "'c input \<Rightarrow> charState \<times> game \<Rightarrow> 'c input list \<Rightarrow> (charState \<times> game) \<times> 'c input list" where
  "arrive x0 cs xs =
     (case cs of (c, s) \<Rightarrow>
        if ch_TutorialDone c then ((c, s), xs)
        else (let c1 = c\<lparr>ch_TutorialDone := True\<rparr> in ((c1, fst (saveChar (i_io x0 ''saveChar'' 1) c1 s)), tl xs)))"

definition Game_Run :: "(int \<Rightarrow> int) \<Rightarrow> ('c, 'h) Context \<Rightarrow> 'c input \<Rightarrow> game \<times> 'h \<Rightarrow> 'c input list \<Rightarrow> (game \<times> 'h) \<times> eng_err option" where
  "Game_Run zone X x0 w xs =
     (case w of (s, h) \<Rightarrow>
        case load_or_new x0 (x_gid X) s of
          (s1, Inl e) \<Rightarrow> ((s1, h), Some e)
        | (s1, Inr c) \<Rightarrow>
            (case arrive x0 (wake_up zone x0 (x_gid X) (c, s1)) xs of ((c2, s2), ys) \<Rightarrow>
               (case showPvpInbox x0 (x_gid X) s2 ys of (s3, zs) \<Rightarrow>
                  (case threshold X (c2, s3, h) zs of (_, sh) \<Rightarrow> (sh, None)))))"

end
