(* ===== verification/Game_Goods.thy ===== *)
theory Game_Goods
  imports Game_Session Engine_Ledger
begin

text \<open>
  Goods are neither made nor lost by the inventory operations: what a payment in goods is worth, what
  loot moves, and what travel carries along.
\<close>

section \<open>The inventory as a function\<close>

definition ikey :: "inv_row \<Rightarrow> string \<times> string" where
  "ikey r = (iv_global_id r, iv_item_id r)"

text \<open>How many units of an item a player holds.\<close>

definition held :: "game \<Rightarrow> string \<Rightarrow> string \<Rightarrow> int" where
  "held s g i = (case find (\<lambda>r. ikey r = (g, i)) (k_inv s) of None \<Rightarrow> 0 | Some r \<Rightarrow> iv_qty r)"

text \<open>One row per player and item, with a sensible number of units, and a sensible number of rows.\<close>

definition inv_ok :: "game \<Rightarrow> bool" where
  "inv_ok s \<longleftrightarrow> distinct (map ikey (k_inv s)) \<and> length (k_inv s) < 2 ^ 16 \<and> (\<forall>r \<in> set (k_inv s). 0 \<le> iv_qty r \<and> iv_qty r < 2 ^ 40)"

lemma find_del_where:
  "distinct (map key xs) \<Longrightarrow> find (\<lambda>r. key r = k) (del_where P xs)
     = (case find (\<lambda>r. key r = k) xs of None \<Rightarrow> None | Some r \<Rightarrow> if P r then None else Some r)"
proof (induction xs)
  case (Cons x xs)
  have "find (\<lambda>r. key r = k) xs = None" if "key x = k"
    using Cons.prems that by (simp add: find_None_iff) (metis image_eqI)
  then show ?case
    using Cons by (cases "key x = k") (auto simp: del_where_def)
qed (simp add: del_where_def)

lemma find_Some_key: "find (\<lambda>r. key r = k) xs = Some r \<Longrightarrow> r \<in> set xs \<and> key r = k"
  by (auto dest: find_Some_D)

lemma held_take:
  assumes "n = 0 \<or> held s g i \<noteq> 0"
  shows "held (takeGoods g i n s) g' i' = held s g' i' - (if (g', i') = (g, i) then n else 0)"
proof -
  have eq: "(\<lambda>r. iv_global_id r = g \<and> iv_item_id r = i) = (\<lambda>r. ikey r = (g, i))"
    by (simp add: ikey_def fun_eq_iff)
  have "find (\<lambda>r. ikey r = (g', i')) (upd_where (\<lambda>r. ikey r = (g, i)) (\<lambda>r. r\<lparr>iv_qty := iv_qty r - n\<rparr>) (k_inv s))
      = map_option (\<lambda>r. if ikey r = (g, i) then r\<lparr>iv_qty := iv_qty r - n\<rparr> else r) (find (\<lambda>r. ikey r = (g', i')) (k_inv s))"
    by (rule find_map_upd) (simp add: ikey_def)
  then show ?thesis
    using assms by (auto simp: held_def takeGoods_def eq split: option.splits dest: find_Some_key)
qed

lemma held_add:
  "held (fst (addGoods f g i n s)) g' i' = held s g' i' + (if (g', i') = (g, i) \<and> \<not> f \<and> 0 < n then n else 0)"
proof (cases "f \<or> n \<le> 0")
  case True
  then show ?thesis by (auto simp: addGoods_def)
next
  case False
  let ?new = "\<lparr>iv_global_id = g, iv_item_id = i, iv_qty = n\<rparr>"
  have k: "(\<lambda>r. (iv_global_id r, iv_item_id r)) = ikey"
    by (simp add: ikey_def fun_eq_iff)
  have new: "ikey ?new = (g, i)"
    by (simp add: ikey_def)
  have inv: "k_inv (fst (addGoods f g i n s)) = upsert ikey (\<lambda>old new. old\<lparr>iv_qty := iv_qty old + n\<rparr>) ?new (k_inv s)"
    using False by (simp add: addGoods_def k)
  show ?thesis
  proof (cases "(g, i) \<in> ikey ` set (k_inv s)")
    case True
    have "find (\<lambda>r. ikey r = (g', i')) (upd_where (\<lambda>r. ikey r = (g, i)) (\<lambda>r. r\<lparr>iv_qty := iv_qty r + n\<rparr>) (k_inv s))
        = map_option (\<lambda>r. if ikey r = (g, i) then r\<lparr>iv_qty := iv_qty r + n\<rparr> else r) (find (\<lambda>r. ikey r = (g', i')) (k_inv s))"
      by (rule find_map_upd) (simp add: ikey_def)
    moreover have "(g', i') = (g, i) \<Longrightarrow> find (\<lambda>r. ikey r = (g', i')) (k_inv s) \<noteq> None"
      using True by (auto simp: find_None_iff)
    moreover have "ikey r = (g', i')" if "find (\<lambda>r. ikey r = (g', i')) (k_inv s) = Some r" for r
      using that find_Some_key by metis
    ultimately show ?thesis
      using True False unfolding held_def inv
      by (cases "find (\<lambda>r. ikey r = (g', i')) (k_inv s)") (auto simp: upsert_def new)
  next
    case notin: False
    then have "find (\<lambda>r. ikey r = (g, i)) (k_inv s) = None"
      by (force simp: find_None_iff)
    then show ?thesis
      using notin False unfolding held_def inv by (auto simp: upsert_def new find_append ikey_def split: option.split)
  qed
qed

lemma held_sweep:
  assumes "distinct (map ikey (k_inv s))" and "\<forall>r \<in> set (k_inv s). 0 \<le> iv_qty r"
  shows "held (sweepGoods f g s) g' i' = held s g' i'"
proof -
  have "iv_qty r = 0" if "find (\<lambda>r. ikey r = (g', i')) (k_inv s) = Some r" "iv_qty r \<le> 0" for r
    using assms(2) that find_Some_D [OF that(1)] by (metis order_antisym)
  then show ?thesis
    by (auto simp: sweepGoods_def held_def find_del_where [OF assms(1)] split: option.split)
qed

lemma held_nonneg: "inv_ok s \<Longrightarrow> 0 \<le> held s g i"
  by (auto simp: inv_ok_def held_def split: option.split dest: find_Some_key)

lemma held_row:
  assumes "distinct (map ikey (k_inv s))" and "r \<in> set (k_inv s)"
  shows "held s (iv_global_id r) (iv_item_id r) = iv_qty r"
  using find_key_Some [OF assms] by (simp add: held_def ikey_def)

text \<open>Keys stay distinct.\<close>

lemma keys_take [simp]: "map ikey (k_inv (takeGoods g i n s)) = map ikey (k_inv s)"
  by (simp add: takeGoods_def map_upd_where ikey_def)

lemma keys_sweep: "distinct (map ikey (k_inv s)) \<Longrightarrow> distinct (map ikey (k_inv (sweepGoods f g s)))"
  by (simp add: sweepGoods_def distinct_map_key)

section \<open>What is listed\<close>

text \<open>What the code relies on of the order of rows: it is a permutation.\<close>

definition is_order :: "row_order \<Rightarrow> bool" where
  "is_order ord \<longleftrightarrow> (\<forall>ls. mset (ord ls) = mset ls)"

lemma goods_rows_mem:
  assumes "inv_ok s"
  shows "l \<in> set (goods_rows g s) \<longleftrightarrow> 0 < il_Qty l \<and> held s g (il_ItemID l) = il_Qty l"
proof
  have d: "distinct (map ikey (k_inv s))"
    using assms by (simp add: inv_ok_def)
  show "0 < il_Qty l \<and> held s g (il_ItemID l) = il_Qty l" if "l \<in> set (goods_rows g s)"
    using that held_row [OF d] by (auto simp: goods_rows_def)
  assume l: "0 < il_Qty l \<and> held s g (il_ItemID l) = il_Qty l"
  then obtain r where r: "r \<in> set (k_inv s)" "ikey r = (g, il_ItemID l)" "iv_qty r = il_Qty l"
    by (auto simp: held_def split: option.splits dest: find_Some_key)
  then have "in_int64 (iv_qty r)"
    using assms by (auto simp: inv_ok_def in_int64_def)
  then show "l \<in> set (goods_rows g s)"
    using r l by (auto simp: goods_rows_def ikey_def image_iff intro!: bexI [of _ r])
qed

lemma goods_rows_distinct:
  assumes "inv_ok s"
  shows "distinct (map il_ItemID (goods_rows g s))"
proof -
  let ?rows = "filter (\<lambda>r. iv_global_id r = g \<and> iv_qty r > 0 \<and> in_int64 (iv_qty r)) (k_inv s)"
  have "distinct (map ikey ?rows)"
    using assms by (simp add: inv_ok_def distinct_map_filter)
  moreover have "map ikey ?rows = map (\<lambda>i. (g, i)) (map iv_item_id ?rows)"
    by (auto simp: ikey_def)
  ultimately have "distinct (map (\<lambda>i. (g, i)) (map iv_item_id ?rows))"
    by (simp only:)
  then have "distinct (map iv_item_id ?rows)"
    unfolding distinct_map [of "\<lambda>i. (g, i)"] by blast
  then show ?thesis
    by (simp add: goods_rows_def comp_def)
qed

text \<open>The lines as the operations see them, in the order of a key.\<close>

lemma listed_goods:
  assumes "inv_ok s" and "is_order ord" and "gs = sort_key f (listGoods ord False g s)"
  shows "set gs = {l. 0 < il_Qty l \<and> held s g (il_ItemID l) = il_Qty l}" "distinct (map il_ItemID gs)" "mset gs = mset (goods_rows g s)"
    "length gs < 2 ^ 16" "\<forall>l \<in> set gs. il_Qty l < 2 ^ 40"
proof -
  show ms: "mset gs = mset (goods_rows g s)"
    using assms(2) by (simp add: assms(3) listGoods_def is_order_def)
  then have set: "set gs = set (goods_rows g s)"
    using mset_eq_setD by blast
  then show "set gs = {l. 0 < il_Qty l \<and> held s g (il_ItemID l) = il_Qty l}"
    using goods_rows_mem [OF assms(1)] by auto
  have "mset (map il_ItemID gs) = mset (map il_ItemID (goods_rows g s))"
    using ms by simp
  then show "distinct (map il_ItemID gs)"
    using goods_rows_distinct [OF assms(1)] mset_eq_imp_distinct_iff by blast
  have "length gs = length (goods_rows g s)"
    using ms by (metis size_mset)
  also have "\<dots> \<le> length (k_inv s)"
    by (simp add: goods_rows_def)
  finally show "length gs < 2 ^ 16"
    using assms(1) by (simp add: inv_ok_def)
  show "\<forall>l \<in> set gs. il_Qty l < 2 ^ 40"
    using assms(1) unfolding set by (auto simp: goods_rows_def inv_ok_def)
qed

section \<open>Loot\<close>

lemma loot_fraction_bounds: "1 / 4 * (1 - 1 / 2 ^ 53) \<le> loot_fraction r k" "loot_fraction r k \<le> 1 / 2 * (1 + 3 / 2 ^ 53)"
proof -
  let ?e = "1 / 2 ^ 53 :: rat"
  have u: "0 \<le> Float64 r k * (1 / 4)" "Float64 r k * (1 / 4) \<le> 1 / 4"
    using Float64_bounds [of r k] by simp_all
  have f: "0 \<le> fl (Float64 r k * (1 / 4))" "fl (Float64 r k * (1 / 4)) \<le> 1 / 4 * (1 + ?e)"
    using fl_nonneg [OF u(1)] fl_between(2) [OF u(1)] mult_right_mono [OF u(2), of "1 + ?e"] by simp_all
  let ?s = "1 / 4 + fl (Float64 r k * (1 / 4))"
  have s: "1 / 4 \<le> ?s" "?s \<le> 1 / 4 + 1 / 4 * (1 + ?e)"
    using f by linarith+
  then have "0 \<le> ?s"
    by (intro order_trans [OF _ s(1)]) simp
  note v = fl_between [OF this]
  show "1 / 4 * (1 - ?e) \<le> loot_fraction r k"
    using v(1) mult_right_mono [OF s(1), of "1 - ?e"] unfolding loot_fraction_def by simp
  show "loot_fraction r k \<le> 1 / 2 * (1 + 3 / 2 ^ 53)"
    using v(2) mult_right_mono [OF s(2), of "1 + ?e"] unfolding loot_fraction_def by simp
qed

text \<open>The share taken of a line: between a quarter and a half, rounded.\<close>

lemma loot_share_bounds:
  fixes r k q
  assumes "0 < q" "q < 2 ^ 40"
  defines "n \<equiv> loot_share (loot_fraction r k) q"
  shows "0 \<le> n" "2 * n \<le> q + 1" "q - 2 \<le> 4 * n"
proof -
  let ?x = "fl (fl (of_int q) * loot_fraction r k)" and ?e = "1 / 2 ^ 53 :: rat"
  have q0: "(0 :: rat) \<le> of_int q" and q40: "(of_int q :: rat) \<le> 2 ^ 40"
    using assms(1,2) by (simp, metis less_imp_le of_int_le_iff of_int_numeral of_int_power)
  note f = fl_between [OF q0] fl_nonneg [OF q0] and v = loot_fraction_bounds [of r k]
  have v0: "0 \<le> loot_fraction r k"
    using v(1) by (rule order_trans [rotated]) simp
  have p0: "0 \<le> fl (of_int q) * loot_fraction r k"
    using f(3) v0 by simp
  have p: "of_int q * (1 - ?e) * (1 / 4 * (1 - ?e)) \<le> fl (of_int q) * loot_fraction r k"
    "fl (of_int q) * loot_fraction r k \<le> of_int q * (1 + ?e) * (1 / 2 * (1 + 3 / 2 ^ 53))"
    by (rule mult_mono [OF f(1) v(1)], simp add: f(3), simp, rule mult_mono [OF f(2) v(2)], simp_all add: q0 v0 del: of_int_0_le_iff)
  have lo: "of_int q * (1 / 4 * (1 - 4 / 2 ^ 53)) \<le> ?x"
  proof -
    have "of_int q * (1 / 4 * (1 - 4 / 2 ^ 53)) \<le> of_int q * ((1 - ?e) * (1 / 4 * (1 - ?e)) * (1 - ?e))"
      by (rule mult_left_mono [OF _ q0]) simp
    also have "\<dots> = of_int q * (1 - ?e) * (1 / 4 * (1 - ?e)) * (1 - ?e)"
      by (simp only: mult.assoc)
    also have "\<dots> \<le> fl (of_int q) * loot_fraction r k * (1 - ?e)"
      by (rule mult_right_mono [OF p(1)]) simp
    also have "\<dots> \<le> ?x"
      by (rule fl_between(1) [OF p0])
    finally show ?thesis .
  qed
  have up: "?x \<le> of_int q * (1 / 2 * (1 + 8 / 2 ^ 53))"
  proof -
    have "?x \<le> fl (of_int q) * loot_fraction r k * (1 + ?e)"
      by (rule fl_between(2) [OF p0])
    also have "\<dots> \<le> of_int q * (1 + ?e) * (1 / 2 * (1 + 3 / 2 ^ 53)) * (1 + ?e)"
      by (rule mult_right_mono [OF p(2)]) simp
    also have "\<dots> = of_int q * ((1 + ?e) * (1 / 2 * (1 + 3 / 2 ^ 53)) * (1 + ?e))"
      by (simp only: mult.assoc)
    also have "\<dots> \<le> of_int q * (1 / 2 * (1 + 8 / 2 ^ 53))"
      by (rule mult_left_mono [OF _ q0]) simp
    finally show ?thesis .
  qed
  note d = round_away_nonneg [OF fl_nonneg [OF p0]]
  let ?d = "round_away ?x"
  have "of_int (2 * ?d) < (of_int (q + 2) :: rat)"
    using d(1) up q40 by simp
  then have h: "2 * ?d \<le> q + 1"
    by (simp only: of_int_less_iff)
  have "(of_int (q - 3) :: rat) < of_int (4 * ?d)"
    using d(2) lo q40 by simp
  then have l: "q - 2 \<le> 4 * ?d"
    by (simp only: of_int_less_iff)
  have "float_to_int ?d = ?d"
    using h assms(2) d(3) by (simp add: float_to_int_def in_int64_def)
  then show "0 \<le> n" "2 * n \<le> q + 1" "q - 2 \<le> 4 * n"
    using h l d(3) by (simp_all add: n_def loot_share_def)
qed

text \<open>How much of an item a list of loot holds.\<close>

definition share_of :: "pvpLootItem list \<Rightarrow> string \<Rightarrow> int" where
  "share_of its i = (\<Sum>x\<leftarrow>filter (\<lambda>x. li_ItemID x = i) its. li_Qty x)"

definition lost_to :: "string \<Rightarrow> (string \<Rightarrow> int) \<Rightarrow> game \<Rightarrow> game \<Rightarrow> bool" where
  "lost_to v t s s1 \<longleftrightarrow> (\<forall>g i. held s1 g i = held s g i - (if g = v then t i else 0)) \<and> map ikey (k_inv s1) = map ikey (k_inv s)"

lemma share_of_simps [simp]:
  "share_of [] i = 0" "share_of (x # its) i = (if li_ItemID x = i then li_Qty x else 0) + share_of its i"
  by (simp_all add: share_of_def)

definition shares :: "rat \<Rightarrow> invLine list \<Rightarrow> pvpLootItem list" where
  "shares fr ls = map (\<lambda>l. \<lparr>li_ItemID = il_ItemID l, li_Qty = loot_share fr (il_Qty l)\<rparr>) (filter (\<lambda>l. 0 < loot_share fr (il_Qty l)) ls)"

lemma take_one:
  assumes "held s v i \<noteq> 0"
  shows "take_loot no_io v i n (s, its) = (takeGoods v i n s, its @ [\<lparr>li_ItemID = i, li_Qty = n\<rparr>])"
    and "lost_to v (\<lambda>j. if j = i then n else 0) s (takeGoods v i n s)"
  using assms by (auto simp: take_loot_def lost_to_def held_take)

lemma lost_trans:
  assumes "lost_to v t s s1" and "lost_to v u s1 s2" and "\<And>i. w i = t i + u i"
  shows "lost_to v w s s2"
  using assms by (simp add: lost_to_def)

lemma distinct_Cons_neq: "distinct (map f (x # xs)) \<Longrightarrow> y \<in> set xs \<Longrightarrow> f y \<noteq> f x"
  by (simp) (metis image_eqI)

lemma take_lines_spec:
  assumes "\<forall>l \<in> set ls. held s v (il_ItemID l) \<noteq> 0" and "distinct (map il_ItemID ls)"
  shows "\<exists>s1. take_lines no_io v fr ls (s, its) = (s1, its @ shares fr ls) \<and> lost_to v (share_of (shares fr ls)) s s1"
  using assms
proof (induction ls arbitrary: s its)
  case Nil
  then show ?case by (simp add: shares_def lost_to_def)
next
  case (Cons l ls)
  let ?n = "loot_share fr (il_Qty l)" and ?i = "il_ItemID l"
  show ?case
  proof (cases "0 < ?n")
    case False
    then show ?thesis
      using Cons by (simp add: shares_def)
  next
    case True
    let ?s = "takeGoods v ?i ?n s"
    have nz: "held s v ?i \<noteq> 0"
      using Cons.prems(1) by simp
    have other: "il_ItemID l' \<noteq> ?i" if "l' \<in> set ls" for l'
      using distinct_Cons_neq [OF Cons.prems(2) that] .
    have "\<forall>l' \<in> set ls. held ?s v (il_ItemID l') \<noteq> 0"
      using Cons.prems(1) other by (simp add: held_take nz)
    moreover have "distinct (map il_ItemID ls)"
      using Cons.prems(2) by simp
    ultimately obtain s1 where s1: "take_lines no_io v fr ls (?s, its @ [\<lparr>li_ItemID = ?i, li_Qty = ?n\<rparr>])
        = (s1, (its @ [\<lparr>li_ItemID = ?i, li_Qty = ?n\<rparr>]) @ shares fr ls)" "lost_to v (share_of (shares fr ls)) ?s s1"
      using Cons.IH [of ?s "its @ [\<lparr>li_ItemID = ?i, li_Qty = ?n\<rparr>]"] by blast
    have sh: "shares fr (l # ls) = \<lparr>li_ItemID = ?i, li_Qty = ?n\<rparr> # shares fr ls"
      using True by (simp add: shares_def)
    have "take_lines no_io v fr (l # ls) (s, its) = (s1, its @ shares fr (l # ls))"
      using s1(1) take_one(1) [OF nz, of ?n its] True unfolding sh by (simp add: Let_def)
    moreover have "lost_to v (share_of (shares fr (l # ls))) s s1"
      using take_one(2) [OF nz] s1(2) unfolding sh by (rule lost_trans) simp
    ultimately show ?thesis by blast
  qed
qed

lemma share_of_shares:
  assumes "distinct (map il_ItemID ls)" and "l \<in> set ls"
  shows "share_of (shares fr ls) (il_ItemID l) = (if 0 < loot_share fr (il_Qty l) then loot_share fr (il_Qty l) else 0)"
  using assms
proof (induction ls)
  case (Cons m ls)
  have none: "share_of (shares fr ls) i = 0" if "\<forall>l \<in> set ls. il_ItemID l \<noteq> i" for i ls
    using that by (induction ls) (simp_all add: shares_def)
  have sh: "shares fr (m # ls) = (if 0 < loot_share fr (il_Qty m) then [\<lparr>li_ItemID = il_ItemID m, li_Qty = loot_share fr (il_Qty m)\<rparr>] else [])
      @ shares fr ls"
    by (simp add: shares_def)
  show ?case
  proof (cases "l = m")
    case True
    have "\<forall>x \<in> set ls. il_ItemID x \<noteq> il_ItemID m"
      using distinct_Cons_neq [OF Cons.prems(1)] by blast
    then show ?thesis using True none by (simp add: sh)
  next
    case False
    then have "il_ItemID m \<noteq> il_ItemID l"
      using distinct_Cons_neq [OF Cons.prems(1), of l] Cons.prems(2) by simp
    then show ?thesis using Cons False by (simp add: sh)
  qed
qed simp

lemma share_of_notin: "i \<notin> il_ItemID ` set ls \<Longrightarrow> share_of (shares fr ls) i = 0"
  by (induction ls) (auto simp: shares_def)

lemma loot_total_pos:
  assumes "\<forall>x \<in> set its. 0 < li_Qty x \<and> li_Qty x < 2 ^ 40" and "length its < 2 ^ 16" and "its \<noteq> []"
  shows "loot_total its \<noteq> 0"
proof -
  have "foldl (\<lambda>took i. wrap64 (took + li_Qty i)) a its = a + (\<Sum>x\<leftarrow>its. li_Qty x) \<and> 0 \<le> (\<Sum>x\<leftarrow>its. li_Qty x)"
    if "0 \<le> a" "a + 2 ^ 40 * int (length its) \<le> 2 ^ 60" "\<forall>x \<in> set its. 0 < li_Qty x \<and> li_Qty x < 2 ^ 40" for a its
    using that
  proof (induction its arbitrary: a)
    case (Cons x its)
    have "wrap64 (a + li_Qty x) = a + li_Qty x"
      using Cons.prems by (intro wrap64_id) (simp add: in_int64_def algebra_simps)
    then show ?case
      using Cons.IH [of "a + li_Qty x"] Cons.prems by (simp add: algebra_simps)
  qed simp
  from this [of 0 its] have "loot_total its = (\<Sum>x\<leftarrow>its. li_Qty x)"
    using assms(1,2) by (simp add: loot_total_def)
  moreover have "0 < (\<Sum>x\<leftarrow>its. li_Qty x)"
    using assms(1,3) by (cases its) (auto intro!: add_pos_nonneg sum_list_nonneg simp: less_imp_le)
  ultimately show ?thesis by simp
qed

lemma lost_sweep:
  assumes "lost_to v t s s1" and "inv_ok s" and "\<forall>i. t i \<le> held s v i"
  shows "\<forall>g i. held (sweepGoods f v s1) g i = held s g i - (if g = v then t i else 0)"
    "distinct (map ikey (k_inv (sweepGoods f v s1)))"
proof -
  have d: "distinct (map ikey (k_inv s1))"
    using assms(1,2) by (simp add: lost_to_def inv_ok_def)
  have "0 \<le> iv_qty r" if "r \<in> set (k_inv s1)" for r
  proof -
    have "iv_qty r = held s1 (iv_global_id r) (iv_item_id r)"
      using held_row [OF d that] by simp
    also have "\<dots> \<ge> 0"
      using assms(1,3) held_nonneg [OF assms(2)] by (simp add: lost_to_def)
    finally show ?thesis .
  qed
  then show "\<forall>g i. held (sweepGoods f v s1) g i = held s g i - (if g = v then t i else 0)"
    using assms(1) held_sweep [OF d] by (simp add: lost_to_def)
  show "distinct (map ikey (k_inv (sweepGoods f v s1)))"
    using d by (rule keys_sweep)
qed

text \<open>What stealing does: the loot is exactly what the victim loses, at most half of each item (rounded up),
  and something if there is anything.\<close>

definition loot_ok :: "string \<Rightarrow> game \<Rightarrow> pvpLootItem list \<Rightarrow> bool" where
  "loot_ok v s its \<longleftrightarrow> (\<forall>x \<in> set its. 0 < li_Qty x) \<and> (its = [] \<longleftrightarrow> (\<forall>i. held s v i = 0))
     \<and> (\<forall>i. 0 \<le> share_of its i \<and> share_of its i \<le> held s v i \<and> 2 * share_of its i \<le> held s v i + 1)"

lemma shares_ok:
  assumes "inv_ok s" and "is_order ord" and "gs = sort_key f (listGoods ord False v s)"
  shows "0 \<le> share_of (shares (loot_fraction r k) gs) i" "share_of (shares (loot_fraction r k) gs) i \<le> held s v i"
    "2 * share_of (shares (loot_fraction r k) gs) i \<le> held s v i + 1"
proof -
  note gs = listed_goods [OF assms]
  let ?t = "share_of (shares (loot_fraction r k) gs) i"
  have "0 \<le> ?t \<and> ?t \<le> held s v i \<and> 2 * ?t \<le> held s v i + 1"
  proof (cases "i \<in> il_ItemID ` set gs")
    case True
    then obtain l where l: "l \<in> set gs" "il_ItemID l = i" by blast
    then have q: "0 < il_Qty l" "il_Qty l < 2 ^ 40" "held s v i = il_Qty l"
      using gs(1,5) by auto
    show ?thesis
      using share_of_shares [OF gs(2) l(1), of "loot_fraction r k"] loot_share_bounds [OF q(1,2), of r k] q(1,3) l(2) by auto
  next
    case False
    then show ?thesis
      using share_of_notin [OF False] held_nonneg [OF assms(1)] by simp
  qed
  then show "0 \<le> ?t" "?t \<le> held s v i" "2 * ?t \<le> held s v i + 1"
    by blast+
qed

lemma shares_pos: "x \<in> set (shares fr ls) \<Longrightarrow> 0 < li_Qty x"
  by (auto simp: shares_def)

lemma shares_total:
  assumes "inv_ok s" and "is_order ord" and "gs = sort_key f (listGoods ord False v s)"
  shows "loot_total (shares (loot_fraction r k) gs) = 0 \<longleftrightarrow> shares (loot_fraction r k) gs = []"
proof -
  note gs = listed_goods [OF assms]
  let ?its = "shares (loot_fraction r k) gs"
  have "length ?its \<le> length gs"
    by (simp add: shares_def)
  moreover have "0 < li_Qty x \<and> li_Qty x < 2 ^ 40" if x: "x \<in> set ?its" for x
  proof -
    obtain l where l: "l \<in> set gs" "li_Qty x = loot_share (loot_fraction r k) (il_Qty l)"
      using x by (auto simp: shares_def)
    then have q: "0 < il_Qty l" "il_Qty l < 2 ^ 40"
      using gs(1,5) by auto
    then show ?thesis
      using shares_pos [OF x] loot_share_bounds(2) [OF q, of r k] l(2) by simp
  qed
  ultimately show ?thesis
    using loot_total_pos [of ?its] gs(4) by (auto simp: loot_total_def)
qed

lemma stealLoot_spec:
  assumes "inv_ok s" and "is_order ord" and "stealLoot ord no_io v r k s = (s1, desc, its)"
  shows "loot_ok v s its" "\<forall>g i. held s1 g i = held s g i - (if g = v then share_of its i else 0)" "distinct (map ikey (k_inv s1))"
proof -
  define gs where "gs = sort_key (\<lambda>l. - goodWeight (il_ItemID l)) (listGoods ord False v s)"
  let ?its = "shares (loot_fraction r k) gs"
  note gs = listed_goods [OF assms(1,2) gs_def] and sh = shares_ok [OF assms(1,2) gs_def, of r k]
    and tot = shares_total [OF assms(1,2) gs_def, of r k]
  have nz: "\<forall>l \<in> set gs. held s v (il_ItemID l) \<noteq> 0"
    using gs(1) by auto
  obtain s2 where s2: "take_lines no_io v (loot_fraction r k) gs (s, []) = (s2, [] @ ?its)" "lost_to v (share_of ?its) s s2"
    using take_lines_spec [OF nz gs(2)] by blast
  have empty: "gs = [] \<longleftrightarrow> (\<forall>i. held s v i = 0)"
  proof
    assume "gs = []"
    then have no: "\<forall>l :: invLine. \<not> (0 < il_Qty l \<and> held s v (il_ItemID l) = il_Qty l)"
      using gs(1) by simp
    have "\<not> (0 < q \<and> held s v i = q)" for i q
      using spec [OF no, of "\<lparr>il_ItemID = i, il_Qty = q\<rparr>"] by simp
    then show "\<forall>i. held s v i = 0"
      using held_nonneg [OF assms(1), of v] by (metis order_le_less)
  qed (use gs(1) in \<open>cases gs, auto\<close>)
  obtain s3 where s3: "(case take_lines no_io v (loot_fraction r k) gs (s, []) of (s1, its) \<Rightarrow>
      if loot_total its = 0 \<and> gs \<noteq> [] then take_loot no_io v (il_ItemID (hd gs)) 1 (s1, its) else (s1, its)) = (s3, its)"
      and s1: "s1 = sweepGoods False v s3"
    using assms(3) by (auto simp: stealLoot_def Let_def simp flip: gs_def split: prod.splits if_splits)
  have "loot_ok v s its \<and> lost_to v (share_of its) s s3"
  proof (cases "?its = [] \<and> gs \<noteq> []")
    case True
    let ?i = "il_ItemID (hd gs)"
    have l: "hd gs \<in> set gs"
      using True by simp
    then have i: "held s v ?i \<noteq> 0" "1 \<le> held s v ?i"
      using gs(1) by auto
    have "lost_to v (\<lambda>_. 0) s s2"
      using s2(2) True by (simp add: lost_to_def)
    then have "held s2 v ?i \<noteq> 0"
      using i(1) by (simp add: lost_to_def)
    note one = take_one(1) [OF this, of 1 "[]"] take_one(2) [OF this, of 1]
    have res: "s3 = takeGoods v ?i 1 s2" "its = [\<lparr>li_ItemID = ?i, li_Qty = 1\<rparr>]"
      using s3 s2(1) True tot one(1) by simp_all
    have "lost_to v (share_of its) s s3"
      using one(2) \<open>lost_to v (\<lambda>_. 0) s s2\<close> by (auto simp: lost_to_def res)
    moreover have "loot_ok v s its"
      using i held_nonneg [OF assms(1)] by (auto simp: loot_ok_def res intro: exI [of _ ?i])
    ultimately show ?thesis by blast
  next
    case False
    then have res: "s3 = s2" "its = ?its"
      using s3 s2(1) tot by auto
    have "its = [] \<longleftrightarrow> (\<forall>i. held s v i = 0)"
      using False empty by (auto simp: res shares_def)
    then show ?thesis
      using s2(2) sh shares_pos unfolding loot_ok_def res by blast
  qed
  then show "loot_ok v s its" "\<forall>g i. held s1 g i = held s g i - (if g = v then share_of its i else 0)" "distinct (map ikey (k_inv s1))"
    using lost_sweep [OF _ assms(1), of v "share_of its" s3 False] by (simp_all add: loot_ok_def s1)
qed

lemma held_give:
  "(\<forall>x \<in> set its. 0 < li_Qty x) \<Longrightarrow> held (give_loot no_io k a its s) g i = held s g i + (if g = a then share_of its i else 0)"
  by (induction its arbitrary: k s) (auto simp: held_add)

text \<open>C17: loot changes hands and nothing else. In a won attack on a player of the same node the attacker
  gains, item by item, exactly what the victim loses; that is never more than half of the victim's
  units of an item (rounded up), it is something unless the victim has nothing, and nobody else's goods
  change.\<close>

theorem loot_conserved:
  assumes "inv_ok s" "is_order ord" "victim \<noteq> attacker"
    and "transferLoot ord no_io no_io victim attacker r k s = (s1, desc, its)"
  shows "(\<forall>i. held s1 attacker i - held s attacker i = held s victim i - held s1 victim i)
    \<and> (\<forall>i. 0 \<le> held s1 victim i \<and> held s1 victim i \<le> held s victim i \<and> held s victim i - 1 \<le> 2 * held s1 victim i)
    \<and> ((\<exists>i. held s victim i \<noteq> 0) \<longrightarrow> its \<noteq> [])
    \<and> (\<forall>g i. g \<noteq> victim \<and> g \<noteq> attacker \<longrightarrow> held s1 g i = held s g i)"
proof -
  obtain s2 where s2: "stealLoot ord no_io victim r k s = (s2, desc, its)" "s1 = give_loot no_io 0 attacker its s2"
    using assms(4) by (auto simp: transferLoot_def split: prod.splits)
  note steal = stealLoot_spec [OF assms(1,2) s2(1)]
  have its: "\<forall>x \<in> set its. 0 < li_Qty x"
    using steal(1) by (simp add: loot_ok_def)
  have h: "held s1 g i = held s g i - (if g = victim then share_of its i else 0) + (if g = attacker then share_of its i else 0)" for g i
    using steal(2) held_give [OF its] by (simp add: s2(2))
  have "held s victim i - 1 \<le> 2 * (held s victim i - share_of its i)" "0 \<le> share_of its i" "share_of its i \<le> held s victim i" for i
    using steal(1) by (simp_all add: loot_ok_def algebra_simps)
  moreover have "its \<noteq> []" if "held s victim i \<noteq> 0" for i
    using steal(1) that by (auto simp: loot_ok_def)
  ultimately show ?thesis
    using assms(3) by (auto simp: h)
qed

end
