(* ===== verification/Game_Barter.thy ===== *)
theory Game_Barter
  imports Game_Goods
begin

text \<open>
  Paying with goods (\<open>consumeForCost\<close>) and carrying them along (\<open>ExportState\<close>, \<open>ImportState\<close>): a payment
  credits exactly the value of the goods that disappear and overshoots by less than one unit of the
  dearest good; an import adds to what is already there.
\<close>

section \<open>Worth\<close>

definition worth_on :: "string set \<Rightarrow> game \<Rightarrow> string \<Rightarrow> int" where
  "worth_on A s g = (\<Sum>i\<in>A. held s g i * goodWeight i)"

lemma sum_lines:
  fixes f :: "string \<Rightarrow> int"
  assumes "distinct (map il_ItemID ls)"
  shows "(\<Sum>l\<leftarrow>ls. f (il_ItemID l)) = (\<Sum>i\<in>il_ItemID ` set ls. f i)"
  using assms by (induction ls) auto

lemma foldl_wrap_sum:
  fixes f :: "'x \<Rightarrow> int"
  assumes "0 \<le> a" "a + 2 ^ 44 * int (length xs) \<le> 2 ^ 61" "\<forall>x \<in> set xs. 0 \<le> f x \<and> f x < 2 ^ 44"
  shows "foldl (\<lambda>t x. wrap64 (t + wrap64 (f x))) a xs = a + (\<Sum>x\<leftarrow>xs. f x)"
  using assms
proof (induction xs arbitrary: a)
  case (Cons x xs)
  have "wrap64 (f x) = f x" "wrap64 (a + f x) = a + f x"
    using Cons.prems by (auto intro!: wrap64_id simp: in_int64_def algebra_simps)
  then show ?case
    using Cons.IH [of "a + f x"] Cons.prems by (simp add: algebra_simps)
qed simp

lemma goodsValue_worth:
  assumes "inv_ok s" and "is_order ord" and "finite A" and "\<forall>i. held s g i \<noteq> 0 \<longrightarrow> i \<in> A"
  shows "goodsValue ord False g s = worth_on A s g"
proof -
  define gs where "gs = sort_key (\<lambda>_. 0 :: int) (listGoods ord False g s)"
  have eq: "gs = listGoods ord False g s"
    by (simp add: gs_def sort_key_const)
  note gs = listed_goods [OF assms(1,2) gs_def]
  let ?v = "\<lambda>l. il_Qty l * goodWeight (il_ItemID l)"
  have "0 \<le> ?v l \<and> ?v l < 2 ^ 44" if "l \<in> set gs" for l
  proof -
    have "0 < il_Qty l" "il_Qty l < 2 ^ 40"
      using that gs(1,5) by auto
    then show ?thesis
      using goodWeight_bounds [of "il_ItemID l"] mult_mono [of "il_Qty l" "2 ^ 40" "goodWeight (il_ItemID l)" 9] by simp
  qed
  then have "goodsValue ord False g s = (\<Sum>l\<leftarrow>gs. ?v l)"
    using foldl_wrap_sum [of 0 gs ?v] gs(4) by (simp add: goodsValue_def flip: eq)
  also have "\<dots> = (\<Sum>l\<leftarrow>gs. held s g (il_ItemID l) * goodWeight (il_ItemID l))"
    using gs(1) by (intro arg_cong [where f = sum_list] map_cong) auto
  also have "\<dots> = (\<Sum>i\<in>il_ItemID ` set gs. held s g i * goodWeight i)"
    by (rule sum_lines [OF gs(2)])
  also have "\<dots> = worth_on A s g"
    unfolding worth_on_def
  proof (rule sum.mono_neutral_left [OF assms(3)])
    show "il_ItemID ` set gs \<subseteq> A"
      using gs(1) assms(4) by auto
    have "i \<in> il_ItemID ` set gs" if "held s g i \<noteq> 0" for i
      using that held_nonneg [OF assms(1), of g i]
      by (intro image_eqI [of _ _ "\<lparr>il_ItemID = i, il_Qty = held s g i\<rparr>"]) (simp_all add: gs(1))
    then show "\<forall>i \<in> A - il_ItemID ` set gs. held s g i * goodWeight i = 0"
      by auto
  qed
  finally show ?thesis .
qed

section \<open>Consuming\<close>

lemma consume_units_spec:
  assumes "int n \<le> held s g i" and "0 \<le> consumed" "cost \<le> 2 ^ 40" "consumed < 2 ^ 41"
  shows "\<exists>m k' s'. consume_units no_io g i cost n (k, consumed, s) = (k', consumed + int m * goodWeight i, s') \<and> m \<le> n
    \<and> lost_to g (\<lambda>j. if j = i then int m else 0) s s' \<and> (m < n \<longrightarrow> cost \<le> consumed + int m * goodWeight i)
    \<and> (consumed + int m * goodWeight i < cost + 9 \<or> m = 0)"
  using assms
proof (induction n arbitrary: k consumed s)
  case 0
  show ?case by (simp add: lost_to_def)
next
  case (Suc n)
  show ?case
  proof (cases "consumed < cost")
    case False
    then have "consume_units no_io g i cost (Suc n) (k, consumed, s) = (k, consumed + int 0 * goodWeight i, s)"
      by simp
    moreover have "lost_to g (\<lambda>j. if j = i then int 0 else 0) s s"
      by (simp add: lost_to_def)
    ultimately show ?thesis using False
      by (metis (no_types, lifting) linorder_not_less mult_zero_left of_nat_0 add_0_right zero_le)
  next
    case True
    let ?s = "takeGoods g i 1 s" and ?c = "consumed + goodWeight i"
    have nz: "held s g i \<noteq> 0" using Suc.prems(1) by simp
    have w: "wrap64 ?c = ?c" "0 \<le> ?c" "?c < 2 ^ 41" "?c < cost + 9"
      using True Suc.prems goodWeight_bounds [of i] by (auto intro!: wrap64_id simp: in_int64_def)
    have "int n \<le> held ?s g i"
      using Suc.prems(1) by (simp add: held_take nz)
    then obtain m k' s' where m: "consume_units no_io g i cost n (Suc k, ?c, ?s) = (k', ?c + int m * goodWeight i, s')" "m \<le> n"
        "lost_to g (\<lambda>j. if j = i then int m else 0) ?s s'" "m < n \<longrightarrow> cost \<le> ?c + int m * goodWeight i"
        "?c + int m * goodWeight i < cost + 9 \<or> m = 0"
      using Suc.IH [of ?s ?c "Suc k"] w(2,3) Suc.prems(3) by blast
    have "lost_to g (\<lambda>j. if j = i then int (Suc m) else 0) s s'"
      using take_one(2) [OF nz, of 1] m(3) by (rule lost_trans) simp
    moreover have "consume_units no_io g i cost (Suc n) (k, consumed, s) = (k', consumed + int (Suc m) * goodWeight i, s')"
      using True m(1) w(1) by (simp add: algebra_simps)
    moreover have "Suc m \<le> Suc n" "Suc m < Suc n \<longrightarrow> cost \<le> consumed + int (Suc m) * goodWeight i"
      "consumed + int (Suc m) * goodWeight i < cost + 9"
      using m(2,4,5) w(4) True goodWeight_bounds [of i] by (auto simp: algebra_simps)
    ultimately show ?thesis by blast
  qed
qed

lemma consume_lines_spec:
  assumes "\<forall>l \<in> set ls. 0 < il_Qty l \<and> held s g (il_ItemID l) = il_Qty l" and "distinct (map il_ItemID ls)"
    and "0 \<le> consumed" "cost \<le> 2 ^ 40" "consumed < 2 ^ 41"
  shows "\<exists>t k' s' total. consume_lines no_io g cost ls (k, consumed, s) = (k', total, s') \<and> lost_to g t s s'
    \<and> total = consumed + (\<Sum>l\<leftarrow>ls. t (il_ItemID l) * goodWeight (il_ItemID l)) \<and> (\<forall>i. 0 \<le> t i \<and> t i \<le> held s g i \<or> t i = 0)
    \<and> (\<forall>i. i \<notin> il_ItemID ` set ls \<longrightarrow> t i = 0) \<and> (total < cost \<longrightarrow> (\<forall>l \<in> set ls. t (il_ItemID l) = il_Qty l))
    \<and> (total < cost + 9 \<or> total = consumed)"
  using assms
proof (induction ls arbitrary: k consumed s)
  case Nil
  show ?case by (rule exI [of _ "\<lambda>_. 0"]) (simp add: lost_to_def)
next
  case (Cons l ls)
  let ?i = "il_ItemID l" and ?w = "goodWeight (il_ItemID l)"
  have q: "int (nat (il_Qty l)) \<le> held s g ?i" "0 < il_Qty l" "held s g ?i = il_Qty l"
    using Cons.prems(1) by simp_all
  obtain m k1 s1 where m: "consume_units no_io g ?i cost (nat (il_Qty l)) (k, consumed, s) = (k1, consumed + int m * ?w, s1)"
      "m \<le> nat (il_Qty l)" "lost_to g (\<lambda>j. if j = ?i then int m else 0) s s1"
      "m < nat (il_Qty l) \<longrightarrow> cost \<le> consumed + int m * ?w" "consumed + int m * ?w < cost + 9 \<or> m = 0"
    using consume_units_spec [OF q(1) Cons.prems(3-5)] by blast
  have neq: "il_ItemID x \<noteq> ?i" if "x \<in> set ls" for x
    by (rule distinct_Cons_neq [OF Cons.prems(2) that])
  let ?c = "consumed + int m * ?w"
  have c: "0 \<le> ?c" "?c < 2 ^ 41"
    using Cons.prems(3-5) m(5) goodWeight_bounds [of ?i] by (auto intro: add_nonneg_nonneg mult_nonneg_nonneg)
  have "\<forall>x \<in> set ls. 0 < il_Qty x \<and> held s1 g (il_ItemID x) = il_Qty x"
    using Cons.prems(1) m(3) neq by (simp add: lost_to_def)
  moreover have "distinct (map il_ItemID ls)"
    using Cons.prems(2) by simp
  ultimately obtain t k' s' total where t: "consume_lines no_io g cost ls (k1, ?c, s1) = (k', total, s')" "lost_to g t s1 s'"
      "total = ?c + (\<Sum>l\<leftarrow>ls. t (il_ItemID l) * goodWeight (il_ItemID l))" "\<forall>i. 0 \<le> t i \<and> t i \<le> held s1 g i \<or> t i = 0"
      "\<forall>i. i \<notin> il_ItemID ` set ls \<longrightarrow> t i = 0" "total < cost \<longrightarrow> (\<forall>l \<in> set ls. t (il_ItemID l) = il_Qty l)"
      "total < cost + 9 \<or> total = ?c"
    using Cons.IH [of s1 ?c k1] c Cons.prems(4) by blast
  define u where "u = t(?i := int m)"
  have ti: "t ?i = 0"
    using t(5) neq by (metis (no_types, lifting) image_iff)
  have sum: "(\<Sum>l\<leftarrow>ls. u (il_ItemID l) * goodWeight (il_ItemID l)) = (\<Sum>l\<leftarrow>ls. t (il_ItemID l) * goodWeight (il_ItemID l))"
    using neq by (intro arg_cong [where f = sum_list] map_cong) (auto simp: u_def)
  have nonneg: "0 \<le> (\<Sum>l\<leftarrow>ls. t (il_ItemID l) * goodWeight (il_ItemID l))"
  proof (rule sum_list_nonneg)
    fix x assume "x \<in> set (map (\<lambda>l. t (il_ItemID l) * goodWeight (il_ItemID l)) ls)"
    then obtain y :: invLine where "x = t (il_ItemID y) * goodWeight (il_ItemID y)" by auto
    then show "0 \<le> x" using t(4) goodWeight_bounds(1) by (metis mult_nonneg_nonneg order_refl)
  qed
  have "consume_lines no_io g cost (l # ls) (k, consumed, s) = (k', total, s')"
    using m(1) t(1) by simp
  moreover have "lost_to g u s s'"
    using m(3) t(2) by (rule lost_trans) (simp add: u_def ti)
  moreover have "total = consumed + (\<Sum>l\<leftarrow>l # ls. u (il_ItemID l) * goodWeight (il_ItemID l))"
    using t(3) sum by (simp add: u_def)
  moreover have "0 \<le> u i \<and> u i \<le> held s g i \<or> u i = 0" for i
    using t(4) [rule_format, of i] m(2,3) q(2,3) by (auto simp: u_def lost_to_def)
  moreover have "u i = 0" if "i \<notin> il_ItemID ` set (l # ls)" for i
    using t(5) that by (simp add: u_def)
  moreover have "\<forall>x \<in> set (l # ls). u (il_ItemID x) = il_Qty x" if "total < cost"
  proof -
    have "\<not> m < nat (il_Qty l)"
      using m(4) that t(3) nonneg by linarith
    then show ?thesis
      using t(6) that m(2) q(2) neq by (auto simp: u_def)
  qed
  moreover have "total < cost + 9 \<or> total = consumed"
    using t(7) m(5) by auto
  ultimately show ?case by blast
qed

lemma lost_inv_ok:
  assumes "lost_to g t s s1" and "inv_ok s" and "\<forall>i. 0 \<le> t i \<and> t i \<le> held s g i"
  shows "inv_ok (sweepGoods f g s1)"
proof -
  have d: "distinct (map ikey (k_inv s1))" and len: "length (k_inv s1) = length (k_inv s)" and keys: "ikey ` set (k_inv s1) = ikey ` set (k_inv s)"
    using assms(1,2) by (simp_all add: lost_to_def inv_ok_def) (metis length_map, metis list.set_map)
  have "0 \<le> iv_qty r \<and> iv_qty r < 2 ^ 40" if r: "r \<in> set (k_inv s1)" for r
  proof -
    obtain r0 where r0: "r0 \<in> set (k_inv s)" "ikey r0 = ikey r"
      using keys r by (metis (no_types, lifting) image_iff)
    have "iv_qty r0 = held s (iv_global_id r) (iv_item_id r)"
      using held_row [OF _ r0(1)] r0(2) assms(2) by (simp add: inv_ok_def ikey_def)
    moreover have "iv_qty r = held s1 (iv_global_id r) (iv_item_id r)"
      using held_row [OF d r] by simp
    ultimately show ?thesis
      using assms r0(1) held_nonneg [OF assms(2)] by (auto simp: lost_to_def inv_ok_def split: if_splits) (smt (verit))
  qed
  moreover have "length (k_inv (sweepGoods f g s1)) \<le> length (k_inv s1)" "set (k_inv (sweepGoods f g s1)) \<subseteq> set (k_inv s1)"
    by (auto simp: sweepGoods_def del_where_def)
  ultimately show ?thesis
    using assms(2) len keys_sweep [OF d] by (auto simp: inv_ok_def)
qed

text \<open>C18: paying in goods is exact. A payment takes from the payer goods worth exactly what it reports as
  consumed: everything if the goods are worth less than the cost, and otherwise at least the cost and
  less than 9 units more (the weight of the dearest good). Nobody else's goods change.\<close>

theorem barter_exact:
  assumes "inv_ok s" "is_order ord" "0 \<le> cost" "cost \<le> 2 ^ 40" and "consumeForCost ord no_io g cost s = (s1, consumed)"
  shows "goodsValue ord False g s1 = goodsValue ord False g s - consumed
    \<and> (if goodsValue ord False g s < cost then consumed = goodsValue ord False g s else cost \<le> consumed \<and> consumed < cost + 9)
    \<and> (\<forall>g' i. g' \<noteq> g \<longrightarrow> held s1 g' i = held s g' i) \<and> inv_ok s1"
proof -
  define gs where "gs = sort_key (\<lambda>l. goodWeight (il_ItemID l)) (listGoods ord False g s)"
  note gs = listed_goods [OF assms(1,2) gs_def]
  have rows: "\<forall>l \<in> set gs. 0 < il_Qty l \<and> held s g (il_ItemID l) = il_Qty l"
    using gs(1) by auto
  obtain t k' s2 where t: "consume_lines no_io g cost gs (2, 0, s) = (k', consumed, s2)" "lost_to g t s s2"
      "consumed = 0 + (\<Sum>l\<leftarrow>gs. t (il_ItemID l) * goodWeight (il_ItemID l))" "\<forall>i. 0 \<le> t i \<and> t i \<le> held s g i \<or> t i = 0"
      "\<forall>i. i \<notin> il_ItemID ` set gs \<longrightarrow> t i = 0" "consumed < cost \<longrightarrow> (\<forall>l \<in> set gs. t (il_ItemID l) = il_Qty l)"
      "consumed < cost + 9 \<or> consumed = 0" and s1: "s1 = sweepGoods False g s2"
    using consume_lines_spec [OF rows gs(2), of 0 cost 2] assms(4,5)
    by (force simp: consumeForCost_def Let_def simp flip: gs_def split: prod.splits)
  have t4: "\<forall>i. 0 \<le> t i \<and> t i \<le> held s g i"
    using t(4) held_nonneg [OF assms(1), of g] by (metis order_refl)
  note sw = lost_sweep [OF t(2) assms(1), of False]
  have h: "held s1 g' i = held s g' i - (if g' = g then t i else 0)" for g' i
    using sw(1) t4 by (simp add: s1)
  have ok: "inv_ok s1"
    using lost_inv_ok [OF t(2) assms(1) t4] by (simp add: s1)
  let ?A = "il_ItemID ` set gs"
  have in_A: "\<forall>i. held s g i \<noteq> 0 \<longrightarrow> i \<in> ?A"
  proof (intro allI impI)
    fix i assume "held s g i \<noteq> 0"
    then show "i \<in> ?A"
      using held_nonneg [OF assms(1), of g i]
      by (intro image_eqI [of _ _ "\<lparr>il_ItemID = i, il_Qty = held s g i\<rparr>"]) (simp_all add: gs(1))
  qed
  have V: "goodsValue ord False g s = worth_on ?A s g"
    by (rule goodsValue_worth [OF assms(1,2) _ in_A]) simp
  have "\<forall>i. held s1 g i \<noteq> 0 \<longrightarrow> i \<in> ?A"
    using in_A h t(5) by auto
  then have V1: "goodsValue ord False g s1 = worth_on ?A s1 g"
    by (intro goodsValue_worth [OF ok assms(2)]) simp_all
  have c: "consumed = (\<Sum>i\<in>?A. t i * goodWeight i)"
    using t(3) sum_lines [OF gs(2), of "\<lambda>i. t i * goodWeight i"] by simp
  have diff: "goodsValue ord False g s1 = goodsValue ord False g s - consumed"
    unfolding V V1 c worth_on_def by (simp add: h sum_subtractf left_diff_distrib)
  have V1_nonneg: "0 \<le> goodsValue ord False g s1"
    unfolding V1 worth_on_def using held_nonneg [OF ok] goodWeight_bounds(1) by (intro sum_nonneg) simp
  have "goodsValue ord False g s1 = 0" if "consumed < cost"
    unfolding V1 worth_on_def using t(6) that rows by (intro sum.neutral) (auto simp: h)
  then have "if goodsValue ord False g s < cost then consumed = goodsValue ord False g s else cost \<le> consumed \<and> consumed < cost + 9"
    using diff V1_nonneg t(7) assms(3) by (cases "consumed < cost") auto
  then show ?thesis
    using diff h ok by simp
qed

section \<open>Carrying goods to another node\<close>

lemma held_chars [simp]: "held (s\<lparr>k_chars := cs\<rparr>) g i = held s g i"
  by (simp add: held_def)

lemma add_all_held:
  assumes "\<forall>l \<in> set ls. 0 < il_Qty l" and "distinct (map il_ItemID ls)"
  shows "\<exists>s1. add_all no_io k g ls s = (s1, None) \<and> k_chars s1 = k_chars s
    \<and> (\<forall>g' i. held s1 g' i = held s g' i + (if g' = g then (case find (\<lambda>l. il_ItemID l = i) ls of None \<Rightarrow> 0 | Some l \<Rightarrow> il_Qty l) else 0))"
  using assms
proof (induction ls arbitrary: k s)
  case (Cons l ls)
  obtain s0 where s0: "addGoods False g (il_ItemID l) (il_Qty l) s = (s0, None)" "k_chars s0 = k_chars s"
    using Cons.prems(1) by (simp add: addGoods_def)
  have h0: "held s0 g' i = held s g' i + (if (g', i) = (g, il_ItemID l) then il_Qty l else 0)" for g' i
    using held_add [of False g "il_ItemID l" "il_Qty l" s g' i] s0(1) Cons.prems(1) by simp
  have none: "find (\<lambda>x. il_ItemID x = il_ItemID l) ls = None"
    using distinct_Cons_neq [OF Cons.prems(2)] by (simp add: find_None_iff)
  have "\<forall>x \<in> set ls. 0 < il_Qty x" "distinct (map il_ItemID ls)"
    using Cons.prems by simp_all
  from Cons.IH [OF this, of "Suc k" s0] show ?case
    using s0 none by (auto simp: h0)
qed simp

lemma enc_char_dec:
  assumes "list_all in_int64 [ch_HP c, ch_MaxHP c, ch_Strength c, ch_Defense c, ch_Luck c, ch_DepthRecord c, ch_RestsToday c, ch_RestDay c, ch_DeadDay c]"
  shows "dec_charState (enc_charState c) z = (c, True)"
proof -
  define kvs where "kvs = [(''GlobalID'', JStr (ch_GlobalID c)), (''HP'', JInt (ch_HP c)), (''MaxHP'', JInt (ch_MaxHP c)),
    (''Strength'', JInt (ch_Strength c)), (''Defense'', JInt (ch_Defense c)), (''Luck'', JInt (ch_Luck c)),
    (''Weapon'', JStr (ch_Weapon c)), (''Armor'', JStr (ch_Armor c)), (''DepthRecord'', JInt (ch_DepthRecord c)),
    (''Blooded'', JBool (ch_Blooded c)), (''TutorialDone'', JBool (ch_TutorialDone c)), (''RestsToday'', JInt (ch_RestsToday c)),
    (''RestDay'', JInt (ch_RestDay c)), (''DeadDay'', JInt (ch_DeadDay c))]"
  have d: "distinct (map go_fold (map fst kvs))"
  proof -
    have "map fst kvs = [''GlobalID'', ''HP'', ''MaxHP'', ''Strength'', ''Defense'', ''Luck'', ''Weapon'', ''Armor'', ''DepthRecord'', ''Blooded'', ''TutorialDone'', ''RestsToday'', ''RestDay'', ''DeadDay'']"
      by (simp add: kvs_def)
    moreover have "distinct (map go_fold [''GlobalID'', ''HP'', ''MaxHP'', ''Strength'', ''Defense'', ''Luck'', ''Weapon'', ''Armor'', ''DepthRecord'', ''Blooded'', ''TutorialDone'', ''RestsToday'', ''RestDay'', ''DeadDay''])"
      by (simp add: go_fold_Nil go_fold_ascii ascii_up_def)
    ultimately show ?thesis by (simp only:)
  qed
  have "(''GlobalID'', JStr (ch_GlobalID c)) \<in> set kvs"
    "(''HP'', JInt (ch_HP c)) \<in> set kvs"
    "(''MaxHP'', JInt (ch_MaxHP c)) \<in> set kvs"
    "(''Strength'', JInt (ch_Strength c)) \<in> set kvs"
    "(''Defense'', JInt (ch_Defense c)) \<in> set kvs"
    "(''Luck'', JInt (ch_Luck c)) \<in> set kvs"
    "(''Weapon'', JStr (ch_Weapon c)) \<in> set kvs"
    "(''Armor'', JStr (ch_Armor c)) \<in> set kvs"
    "(''DepthRecord'', JInt (ch_DepthRecord c)) \<in> set kvs"
    "(''Blooded'', JBool (ch_Blooded c)) \<in> set kvs"
    "(''TutorialDone'', JBool (ch_TutorialDone c)) \<in> set kvs"
    "(''RestsToday'', JInt (ch_RestsToday c)) \<in> set kvs"
    "(''RestDay'', JInt (ch_RestDay c)) \<in> set kvs"
    "(''DeadDay'', JInt (ch_DeadDay c)) \<in> set kvs"
    by (simp_all add: kvs_def)
  note f = this [THEN fld_mem [OF d]]
  have e: "enc_charState c = JObj kvs"
    by (simp add: enc_charState_def kvs_def)
  have b: "unm_bool (JBool x) y = (x, True)" for x y
    by (simp add: unm_bool_def)
  show ?thesis
    using assms by (simp add: dec_charState_def e f b unm_string_simps unm_int_simps Let_def)
qed

lemma enc_line_dec: "in_int64 (il_Qty l) \<Longrightarrow> dec_invLine (enc_invLine l) = (l, True)"
  by (simp add: dec_invLine_def enc_invLine_def body_simps Let_def)

lemma blob_dec:
  assumes "list_all in_int64 [ch_HP c, ch_MaxHP c, ch_Strength c, ch_Defense c, ch_Luck c, ch_DepthRecord c, ch_RestsToday c, ch_RestDay c, ch_DeadDay c]"
    and "\<forall>l \<in> set gs. in_int64 (il_Qty l)"
  shows "fld dec_charState ''char'' (enc_stateBlob c gs) zero_char = (c, True)"
    "fld (unm_list dec_invLine) ''goods'' (enc_stateBlob c gs) [] = (gs, True)"
proof -
  show "fld dec_charState ''char'' (enc_stateBlob c gs) zero_char = (c, True)"
    by (simp add: enc_stateBlob_def body_simps enc_char_dec [OF assms(1)])
  have "map (fst \<circ> dec_invLine) (map enc_invLine gs) = gs" "list_all (snd \<circ> dec_invLine) (map enc_invLine gs)"
    using assms(2) by (auto simp: enc_line_dec map_idI list_all_iff)
  then show "fld (unm_list dec_invLine) ''goods'' (enc_stateBlob c gs) [] = (gs, True)"
    by (simp add: enc_stateBlob_def body_simps)
qed

text \<open>C21: what travel carries. A character exported from one node and imported at another arrives with every
  attribute it had, and its goods are added to what the destination already holds for the player. At a
  node that has never seen the player that is a faithful copy; at the home node, which keeps its rows
  while the player is away, the goods the player left with are there twice.\<close>

theorem import_adds_goods:
  assumes "inv_ok s" "is_order ord" "c \<in> set (k_chars s)" "distinct (map ch_GlobalID (k_chars s))" "ch_GlobalID c = g" "p_GlobalID p = g"
    and "list_all in_int64 [ch_HP c, ch_MaxHP c, ch_Strength c, ch_Defense c, ch_Luck c, ch_DepthRecord c, ch_RestsToday c, ch_RestDay c, ch_DeadDay c]"
    and "ExportState ord no_io g s = Inr blob"
  shows "\<exists>d1. ImportState no_io p blob d = (d1, None) \<and> loadChar False g d1 = Inr c
    \<and> (\<forall>i. held d1 g i = held d g i + held s g i) \<and> (\<forall>g' i. g' \<noteq> g \<longrightarrow> held d1 g' i = held d g' i)"
proof -
  define gs where "gs = sort_key (\<lambda>_. 0 :: int) (listGoods ord False g s)"
  note gs = listed_goods [OF assms(1,2) gs_def]
  have eq: "gs = listGoods ord False g s"
    by (simp add: gs_def sort_key_const)
  have "loadChar False g s = Inr c"
    using find_key_Some [OF assms(4,3)] assms(5) by (simp add: loadChar_def)
  then have blob: "blob = Some (enc_stateBlob c gs)"
    using assms(8) by (simp add: ExportState_def eq)
  have q: "\<forall>l \<in> set gs. 0 < il_Qty l" "\<forall>l \<in> set gs. in_int64 (il_Qty l)"
    using gs(1,5) by (auto simp: in_int64_def)
  let ?d = "d\<lparr>k_chars := upsert ch_GlobalID (\<lambda>_ new. new) (c\<lparr>ch_GlobalID := g\<rparr>) (k_chars d)\<rparr>"
  obtain d1 where d1: "add_all no_io 1 g gs ?d = (d1, None)" "k_chars d1 = k_chars ?d"
      "\<forall>g' i. held d1 g' i = held ?d g' i + (if g' = g then (case find (\<lambda>l. il_ItemID l = i) gs of None \<Rightarrow> 0 | Some l \<Rightarrow> il_Qty l) else 0)"
    using add_all_held [OF q(1) gs(2)] by blast
  have "ImportState no_io p blob d = (d1, None)"
    using d1(1) assms(6) by (simp add: ImportState_def blob blob_dec [OF assms(7) q(2)])
  moreover have c: "c\<lparr>ch_GlobalID := g\<rparr> = c"
    using assms(5) by auto
  have "loadChar False g d1 = Inr c"
    using find_upsert [of ch_GlobalID g c "k_chars d"] d1(2) assms(5) unfolding c by (simp add: loadChar_def)
  moreover have "(case find (\<lambda>l. il_ItemID l = i) gs of None \<Rightarrow> 0 | Some l \<Rightarrow> il_Qty l) = held s g i" for i
  proof (cases "find (\<lambda>l. il_ItemID l = i) gs")
    case None
    then have "\<lparr>il_ItemID = i, il_Qty = held s g i\<rparr> \<notin> set gs"
      by (auto simp: find_None_iff)
    then show ?thesis
      using None held_nonneg [OF assms(1), of g i] by (simp add: gs(1))
  next
    case (Some l)
    then show ?thesis
      using gs(1) by (auto dest: find_Some_D)
  qed
  ultimately show ?thesis
    using d1(3) by auto
qed

end
