(* ===== verification/Fed_Client.thy ===== *)
theory Fed_Client
  imports Hub_Safety Engine_Events
begin

text \<open>
  The node's HTTP client \<open>internal/fed/fed.go\<close>, talking to the hub of \<open>Hub_Server\<close>. The state of a
  call is the hub's database. A call of type \<open>call\<close> says what happens to it on the way: what other
  clients did to the hub since the last call (\<open>cl_pre\<close>), the environment in which the hub serves
  it, and whether the request is lost, the response is lost after the hub has acted, or its body is
  cut short. Identifiers the client puts into a path are the hub's own, single path segments.
\<close>

section \<open>Calls\<close>

datatype fed_err = FNet | FStatus int | FDecode | FStore eng_err | FWrap string fed_err

record call =
  cl_pre :: "hub \<Rightarrow> hub"
  cl_env :: henv
  cl_lost :: bool
  cl_dropped :: bool
  cl_cut :: bool

text \<open>The hub is fixed by its server record; the base URL only says where it is.\<close>

record Client =
  c_Hub :: Server
  c_APIKey :: string

definition client_req :: "Client \<Rightarrow> string \<Rightarrow> string list \<Rightarrow> (string \<times> string) list \<Rightarrow> raw \<Rightarrow> http_req" where
  "client_req c method path query body =
     \<lparr>r_method = method, r_path = path, r_query = query,
      r_auth = (if c_APIKey c \<noteq> [] then ''Bearer '' @ c_APIKey c else []), r_body = body\<rparr>"

text \<open>\<open>do\<close> up to the decoding of the response: the raw body of a 2xx answer, \<open>None\<close> when it does not
  parse. A call without a result ignores the body.\<close>

definition client_do :: "call \<Rightarrow> Client \<Rightarrow> string \<Rightarrow> string list \<Rightarrow> (string \<times> string) list \<Rightarrow> raw \<Rightarrow> hub \<Rightarrow> hub \<times> (fed_err + raw)" where
  "client_do cl c method path query body h =
     (let h1 = cl_pre cl h in
      if cl_lost cl then (h1, Inl FNet)
      else case Handler (c_Hub c) (cl_env cl) (client_req c method path query body) h1 of (h2, resp) \<Rightarrow>
        if cl_dropped cl then (h2, Inl FNet)
        else if p_code resp div 100 \<noteq> 2 then (h2, Inl (FStatus (p_code resp)))
        else (h2, Inr (if cl_cut cl then None else p_body resp)))"

definition do_ok :: "hub \<times> (fed_err + raw) \<Rightarrow> hub \<times> fed_err option" where
  "do_ok r = (case r of (h, Inl e) \<Rightarrow> (h, Some e) | (h, Inr _) \<Rightarrow> (h, None))"

definition do_out :: "(json \<Rightarrow> 'b \<times> bool) \<Rightarrow> hub \<times> (fed_err + raw) \<Rightarrow> hub \<times> (fed_err + 'b)" where
  "do_out dec r =
     (case r of
        (h, Inl e) \<Rightarrow> (h, Inl e)
      | (h, Inr None) \<Rightarrow> (h, Inl FDecode)
      | (h, Inr (Some j)) \<Rightarrow> (case dec j of (v, ok) \<Rightarrow> if ok then (h, Inr v) else (h, Inl FDecode)))"

section \<open>Membership\<close>

definition Client_Register :: "call \<Rightarrow> Client \<Rightarrow> string \<Rightarrow> string \<Rightarrow> string \<Rightarrow> string \<Rightarrow> string \<Rightarrow> string list \<Rightarrow> hub
    \<Rightarrow> hub \<times> (fed_err + string)" where
  "Client_Register cl c regToken nodeID gameID gameVersion advertise gameTitle h =
     do_out (\<lambda>j. fld unm_string ''api_key'' j [])
       (client_do cl c ''POST'' [''v1'', ''register''] [] (Some (JObj
          ([(''advertise_addr'', JStr advertise), (''game_id'', JStr gameID)]
           @ (case gameTitle of t # _ \<Rightarrow> if t \<noteq> [] then [(''game_title'', JStr t)] else [] | [] \<Rightarrow> [])
           @ [(''game_version'', JStr gameVersion), (''node_id'', JStr nodeID),
              (''protocol_version'', JStr ProtocolVersion), (''registration_token'', JStr regToken)]))) h)"

definition Client_Heartbeat :: "call \<Rightarrow> Client \<Rightarrow> string \<Rightarrow> int \<Rightarrow> int \<Rightarrow> string \<Rightarrow> hub \<Rightarrow> hub \<times> fed_err option" where
  "Client_Heartbeat cl c nodeID players uptimeS gameVersion h =
     do_ok (client_do cl c ''POST'' [''v1'', ''heartbeat''] [] (Some (JObj
       [(''game_version'', JStr gameVersion), (''node_id'', JStr nodeID), (''player_count'', JInt players),
        (''uptime_s'', JInt uptimeS)])) h)"

section \<open>Events\<close>

definition enc_wireEvent :: "Event \<Rightarrow> json" where
  "enc_wireEvent e = JObj
     [(''event_id'', JStr (v_EventID e)), (''source_node'', JStr (v_SourceNode e)), (''seq'', JInt (v_Seq e)),
      (''type'', JStr (v_Type e)), (''ts'', JInt (v_TS e)), (''payload'', raw_json (v_Payload e))]"

definition push_body :: "Event list \<Rightarrow> json" where
  "push_body events = JObj [(''events'', JArr (map enc_wireEvent events))]"

definition Client_Push :: "call \<Rightarrow> Client \<Rightarrow> Event list \<Rightarrow> hub \<Rightarrow> hub \<times> (fed_err + (int \<times> int))" where
  "Client_Push cl c events h =
     do_out (\<lambda>j. let a = fld unm_int ''accepted'' j 0; l = fld unm_int ''last_hub_seq'' j 0
                 in ((fst a, fst l), snd a \<and> snd l))
       (client_do cl c ''POST'' [''v1'', ''events''] [] (Some (push_body events)) h)"

record Pulled =
  pl_HubSeq :: int
  pl_Event :: Event

definition dec_feedEvent :: "json \<Rightarrow> Pulled \<times> bool" where
  "dec_feedEvent j =
     (let q = fld unm_int ''hub_seq'' j 0; i = fld unm_string ''event_id'' j []; s = fld unm_string ''source_node'' j [];
          n = fld unm_int ''seq'' j 0; t = fld unm_string ''type'' j []; ts = fld unm_int ''ts'' j 0;
          p = fld unm_raw ''payload'' j None
      in (\<lparr>pl_HubSeq = fst q, pl_Event = \<lparr>v_EventID = fst i, v_SourceNode = fst s, v_Seq = fst n, v_Type = fst t,
             v_TS = fst ts, v_Payload = fst p\<rparr>\<rparr>,
          snd q \<and> snd i \<and> snd s \<and> snd n \<and> snd t \<and> snd ts \<and> snd p))"

definition Client_Pull :: "call \<Rightarrow> Client \<Rightarrow> int \<Rightarrow> bool \<Rightarrow> hub \<Rightarrow> hub \<times> (fed_err + (Pulled list \<times> int))" where
  "Client_Pull cl c after excludeSelf h =
     do_out (\<lambda>j. let hd' = fld unm_int ''head'' j 0; es = fld (unm_list dec_feedEvent) ''events'' j []
                 in ((fst es, fst hd'), snd hd' \<and> snd es))
       (client_do cl c ''GET'' [''v1'', ''events'']
          ([(''after'', show_int after), (''limit'', ''500'')] @ (if excludeSelf then [(''exclude_self'', ''true'')] else []))
          None h)"

section \<open>Attacks\<close>

record PvPPending =
  pp_RequestID :: string
  pp_AttackerID :: string
  pp_VictimID :: string
  pp_AttackerPayload :: raw

definition Client_QueuePvP :: "call \<Rightarrow> Client \<Rightarrow> string \<Rightarrow> string \<Rightarrow> raw \<Rightarrow> hub \<Rightarrow> hub \<times> (fed_err + string)" where
  "Client_QueuePvP cl c attackerID victimID payload h =
     do_out (\<lambda>j. fld unm_string ''request_id'' j [])
       (client_do cl c ''POST'' [''v1'', ''pvp''] [] (Some (JObj
          [(''attacker'', raw_json payload), (''attacker_id'', JStr attackerID), (''victim_id'', JStr victimID)])) h)"

definition dec_PvPPending :: "json \<Rightarrow> PvPPending \<times> bool" where
  "dec_PvPPending j =
     (let r = fld unm_string ''request_id'' j []; a = fld unm_string ''attacker_id'' j [];
          v = fld unm_string ''victim_id'' j []; p = fld unm_raw ''attacker'' j None
      in (\<lparr>pp_RequestID = fst r, pp_AttackerID = fst a, pp_VictimID = fst v, pp_AttackerPayload = fst p\<rparr>,
          snd r \<and> snd a \<and> snd v \<and> snd p))"

definition Client_PendingPvP :: "call \<Rightarrow> Client \<Rightarrow> hub \<Rightarrow> hub \<times> (fed_err + PvPPending list)" where
  "Client_PendingPvP cl c h =
     do_out (\<lambda>j. fld (unm_list dec_PvPPending) ''requests'' j [])
       (client_do cl c ''GET'' [''v1'', ''pvp'', ''pending''] [] None h)"

definition Client_CompletePvP :: "call \<Rightarrow> Client \<Rightarrow> string \<Rightarrow> hub \<Rightarrow> hub \<times> fed_err option" where
  "Client_CompletePvP cl c requestID h =
     do_ok (client_do cl c ''POST'' [''v1'', ''pvp'', requestID, ''result''] [] (Some (JObj [])) h)"

definition Client_BlockPvP :: "call \<Rightarrow> Client \<Rightarrow> string \<Rightarrow> string \<Rightarrow> hub \<Rightarrow> hub \<times> fed_err option" where
  "Client_BlockPvP cl c requestID reason h =
     do_ok (client_do cl c ''POST'' [''v1'', ''pvp'', requestID, ''blocked''] [] (Some (JObj [(''error'', JStr reason)])) h)"

section \<open>Travel\<close>

record TravelPending =
  tp_TravelID :: string
  tp_GlobalID :: string
  tp_HomeNode :: string
  tp_FromNode :: string
  tp_DestNode :: string
  tp_Snapshot :: raw

definition Client_SubmitTravel :: "call \<Rightarrow> Client \<Rightarrow> string \<Rightarrow> string \<Rightarrow> string \<Rightarrow> raw \<Rightarrow> hub \<Rightarrow> hub \<times> (fed_err + string)" where
  "Client_SubmitTravel cl c globalID homeNode destNode snapshot h =
     do_out (\<lambda>j. fld unm_string ''travel_id'' j [])
       (client_do cl c ''POST'' [''v1'', ''travel''] [] (Some (JObj
          [(''global_id'', JStr globalID), (''home_node'', JStr homeNode), (''dest_node'', JStr destNode),
           (''snapshot'', raw_json snapshot)])) h)"

definition dec_TravelPending :: "json \<Rightarrow> TravelPending \<times> bool" where
  "dec_TravelPending j =
     (let t = fld unm_string ''travel_id'' j []; g = fld unm_string ''global_id'' j [];
          m = fld unm_string ''home_node'' j []; f = fld unm_string ''from_node'' j [];
          d = fld unm_string ''dest_node'' j []; s = fld unm_raw ''snapshot'' j None
      in (\<lparr>tp_TravelID = fst t, tp_GlobalID = fst g, tp_HomeNode = fst m, tp_FromNode = fst f, tp_DestNode = fst d,
           tp_Snapshot = fst s\<rparr>, snd t \<and> snd g \<and> snd m \<and> snd f \<and> snd d \<and> snd s))"

definition Client_PendingTravel :: "call \<Rightarrow> Client \<Rightarrow> hub \<Rightarrow> hub \<times> (fed_err + TravelPending list)" where
  "Client_PendingTravel cl c h =
     do_out (\<lambda>j. fld (unm_list dec_TravelPending) ''arrivals'' j [])
       (client_do cl c ''GET'' [''v1'', ''travel'', ''pending''] [] None h)"

definition Client_ArriveTravel :: "call \<Rightarrow> Client \<Rightarrow> string \<Rightarrow> hub \<Rightarrow> hub \<times> fed_err option" where
  "Client_ArriveTravel cl c travelID h =
     do_ok (client_do cl c ''POST'' [''v1'', ''travel'', travelID, ''arrived''] [] (Some (JObj [])) h)"

definition Client_BlockTravel :: "call \<Rightarrow> Client \<Rightarrow> string \<Rightarrow> string \<Rightarrow> hub \<Rightarrow> hub \<times> fed_err option" where
  "Client_BlockTravel cl c travelID reason h =
     do_ok (client_do cl c ''POST'' [''v1'', ''travel'', travelID, ''blocked''] [] (Some (JObj [(''error'', JStr reason)])) h)"

section \<open>Roster\<close>

definition enc_rosterEntry :: "Player \<Rightarrow> json" where
  "enc_rosterEntry p = JObj
     [(''global_id'', JStr (p_GlobalID p)), (''node_id'', JStr []), (''name'', JStr (p_Name p)), (''level'', JInt (p_Level p)),
      (''status'', JStr (p_Status p)), (''last_seen'', JInt (p_LastSeen p))]"

definition Client_PushRoster :: "call \<Rightarrow> Client \<Rightarrow> Player list \<Rightarrow> hub \<Rightarrow> hub \<times> fed_err option" where
  "Client_PushRoster cl c players h =
     do_ok (client_do cl c ''POST'' [''v1'', ''roster''] [] (Some (JObj [(''entries'', JArr (map enc_rosterEntry players))])) h)"

definition zero_time :: int where
  "zero_time = -62135596800"

definition dec_rosterEntry :: "json \<Rightarrow> Player \<times> bool" where
  "dec_rosterEntry j =
     (let g = fld unm_string ''global_id'' j []; n = fld unm_string ''node_id'' j [];
          m = fld unm_string ''name'' j []; l = fld unm_int ''level'' j 0;
          s = fld unm_string ''status'' j []; t = fld unm_int ''last_seen'' j 0
      in (\<lparr>p_GlobalID = fst g, p_Name = fst m, p_HomeNode = fst n, p_Level = fst l, p_Standing = 0, p_Status = fst s,
           p_CreatedAt = zero_time, p_LastSeen = fst t\<rparr>,
          snd g \<and> snd n \<and> snd m \<and> snd l \<and> snd s \<and> snd t))"

definition Client_PullRoster :: "call \<Rightarrow> Client \<Rightarrow> hub \<Rightarrow> hub \<times> (fed_err + Player list)" where
  "Client_PullRoster cl c h =
     do_out (\<lambda>j. fld (unm_list dec_rosterEntry) ''entries'' j [])
       (client_do cl c ''GET'' [''v1'', ''roster''] [(''exclude_self'', ''true'')] None h)"

end
