(* ===== verification/Fed_Sync.thy ===== *)
theory Fed_Sync
  imports Fed_Client
begin

text \<open>
  The sync loop of \<open>internal/fed/fed.go\<close> (\<open>Syncer.Tick\<close>) and the closures \<open>cmd/node/main.go\<close> gives
  it: the import of arriving players and the start of a journey. The state is the node's store and
  the hub's database; \<open>tick_io\<close> collects what the environment does to one tick: the fate of every
  call and the faults of every statement, by name and loop index. The node's own sessions do not
  run during a tick.
\<close>

section \<open>Snapshots on the wire\<close>

text \<open>
  A time in JSON is its RFC 3339 text in the server's zone, which depends on the zone database of
  the machine: \<open>tj_fmt\<close> and \<open>tj_parse\<close> are \<open>MarshalJSON\<close> (which fails for years it cannot write) and
  \<open>UnmarshalJSON\<close> of \<open>time.Time\<close>, in Unix seconds.
\<close>

record time_json =
  tj_fmt :: "int \<Rightarrow> string option"
  tj_parse :: "string \<Rightarrow> int option"

definition unm_time :: "time_json \<Rightarrow> json \<Rightarrow> int \<Rightarrow> int \<times> bool" where
  "unm_time tj j t =
     (case j of JStr s \<Rightarrow> (case tj_parse tj s of Some t' \<Rightarrow> (t', True) | None \<Rightarrow> (t, False))
      | JNull \<Rightarrow> (t, True) | _ \<Rightarrow> (t, False))"

definition enc_Player :: "time_json \<Rightarrow> Player \<Rightarrow> json option" where
  "enc_Player tj p =
     (case (tj_fmt tj (p_CreatedAt p), tj_fmt tj (p_LastSeen p)) of
        (Some created, Some seen) \<Rightarrow> Some (JObj
          [(''GlobalID'', JStr (p_GlobalID p)), (''Name'', JStr (p_Name p)), (''HomeNode'', JStr (p_HomeNode p)),
           (''Level'', JInt (p_Level p)), (''Standing'', JInt (p_Standing p)), (''Status'', JStr (p_Status p)),
           (''CreatedAt'', JStr created), (''LastSeen'', JStr seen)])
      | _ \<Rightarrow> None)"

definition dec_Player :: "time_json \<Rightarrow> json \<Rightarrow> Player \<Rightarrow> Player \<times> bool" where
  "dec_Player tj j p =
     (let g = fld unm_string ''GlobalID'' j (p_GlobalID p); n = fld unm_string ''Name'' j (p_Name p);
          m = fld unm_string ''HomeNode'' j (p_HomeNode p); l = fld unm_int ''Level'' j (p_Level p);
          st = fld unm_int ''Standing'' j (p_Standing p); s = fld unm_string ''Status'' j (p_Status p);
          c = fld (unm_time tj) ''CreatedAt'' j (p_CreatedAt p); t = fld (unm_time tj) ''LastSeen'' j (p_LastSeen p)
      in (\<lparr>p_GlobalID = fst g, p_Name = fst n, p_HomeNode = fst m, p_Level = fst l, p_Standing = fst st, p_Status = fst s,
           p_CreatedAt = fst c, p_LastSeen = fst t\<rparr>,
          snd g \<and> snd n \<and> snd m \<and> snd l \<and> snd st \<and> snd s \<and> snd c \<and> snd t))"

definition enc_Snapshot :: "time_json \<Rightarrow> Snapshot \<Rightarrow> json option" where
  "enc_Snapshot tj snap =
     map_option (\<lambda>p. JObj [(''version'', JInt (sn_Version snap)), (''player'', p), (''pw_hash'', JStr (sn_PwHash snap)),
        (''game_id'', JStr (sn_GameID snap)), (''game_state'', raw_json (sn_GameState snap))])
       (enc_Player tj (sn_Player snap))"

definition zero_player :: Player where
  "zero_player = \<lparr>p_GlobalID = [], p_Name = [], p_HomeNode = [], p_Level = 0, p_Standing = 0, p_Status = [],
     p_CreatedAt = zero_time, p_LastSeen = zero_time\<rparr>"

definition dec_Snapshot :: "time_json \<Rightarrow> json \<Rightarrow> Snapshot \<times> bool" where
  "dec_Snapshot tj j =
     (let v = fld unm_int ''version'' j 0; p = fld (dec_Player tj) ''player'' j zero_player;
          h = fld unm_string ''pw_hash'' j []; g = fld unm_string ''game_id'' j []; s = fld unm_raw ''game_state'' j None
      in (\<lparr>sn_Version = fst v, sn_Player = fst p, sn_PwHash = fst h, sn_GameID = fst g, sn_GameState = fst s\<rparr>,
          snd v \<and> snd p \<and> snd h \<and> snd g \<and> snd s))"

section \<open>The closures of the node\<close>

text \<open>What \<open>cmd/node/main.go\<close> wires up: the node's game, the JSON form of times, and the hash of a
  snapshot's JSON text.\<close>

record 's wiring =
  w_game :: "'s Game"
  w_time :: time_json
  w_hash :: "Snapshot \<Rightarrow> string"

definition TravelImport :: "'a eng_scheme wiring \<Rightarrow> io \<Rightarrow> int \<Rightarrow> Snapshot \<Rightarrow> string \<Rightarrow> string \<Rightarrow> 'a eng_scheme
    \<Rightarrow> 'a eng_scheme \<times> eng_err option" where
  "TravelImport W io now snap fromNode destNode st =
     (case ImportPlayer io now (w_game W) snap st of
        (st1, Some e) \<Rightarrow> (st1, Some e)
      | (st1, None) \<Rightarrow>
          (let p = sn_Player snap;
               st2 = (if p_HomeNode p = g_nodeID st1 then fst (SetPlayerStatus (io 2) (p_GlobalID p) ''active'' st1) else st1)
           in Emit (io 3) now ''player.traveled'' (JObj
                [(''dest_node'', JStr destNode), (''global_id'', JStr (p_GlobalID p)), (''snapshot_hash'', JStr (w_hash W snap)),
                 (''src_node'', JStr fromNode), (''timestamp'', JInt now)]) st2))"

text \<open>The function behind \<open>Context.Travel\<close>: export, mark as travelling, hand to the hub; the mark is
  taken back when the submission fails.\<close>

definition Travel :: "'a eng_scheme wiring \<Rightarrow> io \<Rightarrow> call \<Rightarrow> Client \<Rightarrow> string \<Rightarrow> string \<Rightarrow> 'a eng_scheme \<times> hub
    \<Rightarrow> ('a eng_scheme \<times> hub) \<times> fed_err option" where
  "Travel W io cl c globalID destNode w =
     (case w of (st, h) \<Rightarrow>
        case ExportPlayer (\<lambda>k. io (k + 2)) (w_game W) globalID st of
          Inl e \<Rightarrow> ((st, h), Some (FStore e))
        | Inr snap \<Rightarrow>
            (case enc_Snapshot (w_time W) snap of
               None \<Rightarrow> ((st, h), Some FDecode)
             | Some j \<Rightarrow>
                 (case SetPlayerStatus (io 0) globalID ''traveling'' st of
                    (st1, Some e) \<Rightarrow> ((st1, h), Some (FStore e))
                  | (st1, None) \<Rightarrow>
                      (case Client_SubmitTravel cl c globalID (p_HomeNode (sn_Player snap)) destNode (Some j) h of
                         (h1, Inl e) \<Rightarrow> ((fst (SetPlayerStatus (io 1) globalID ''active'' st1), h1), Some e)
                       | (h1, Inr _) \<Rightarrow> ((st1, h1), None)))))"

section \<open>One tick\<close>

text \<open>The syncer; \<open>None\<close> for a hook the node does not have. A hook gets the faults of its own statements, the
  clock and the random numbers it draws.\<close>

record hook_env =
  he_io :: io
  he_now :: int
  he_rng :: "nat \<Rightarrow> int"

record 's Syncer =
  sy_Client :: Client
  sy_NodeID :: string
  sy_GameVersion :: string
  sy_Handlers :: "'s registry"
  sy_Time :: time_json
  sy_PvPResolve :: "(hook_env \<Rightarrow> string \<Rightarrow> string \<Rightarrow> string \<Rightarrow> raw \<Rightarrow> 's \<Rightarrow> 's \<times> eng_err option) option"
  sy_TravelImport :: "(hook_env \<Rightarrow> Snapshot \<Rightarrow> string \<Rightarrow> string \<Rightarrow> 's \<Rightarrow> 's \<times> eng_err option) option"

record tick_io =
  ti_now :: int
  ti_net :: "string \<Rightarrow> nat \<Rightarrow> call"
  ti_db :: "string \<Rightarrow> nat \<Rightarrow> bool"
  ti_apply :: "nat \<Rightarrow> apply_io"
  ti_hook :: "string \<Rightarrow> nat \<Rightarrow> hook_env"

type_synonym 'a world = "'a eng_scheme \<times> hub"

definition tick_heartbeat :: "'a eng_scheme Syncer \<Rightarrow> tick_io \<Rightarrow> 'a world \<Rightarrow> 'a world \<times> fed_err option" where
  "tick_heartbeat S t w =
     (case w of (st, h) \<Rightarrow>
        (let players = (case LocalPlayers (ti_db t ''LocalPlayers'' 0) st of Inl _ \<Rightarrow> [] | Inr ps \<Rightarrow> ps) in
         case Client_Heartbeat (ti_net t ''heartbeat'' 0) (sy_Client S) (sy_NodeID S) (int (length players)) 0
                (sy_GameVersion S) h of
           (h1, Some e) \<Rightarrow> ((st, h1), Some (FWrap ''heartbeat'' e))
         | (h1, None) \<Rightarrow> ((st, h1), None)))"

definition tick_push :: "'a eng_scheme Syncer \<Rightarrow> tick_io \<Rightarrow> int \<Rightarrow> 'a world \<Rightarrow> 'a world \<times> fed_err option" where
  "tick_push S t lastPushed w =
     (case w of (st, h) \<Rightarrow>
        case EventsSince (ti_db t ''EventsSince'' 0) (sy_NodeID S) lastPushed st of
          Inl e \<Rightarrow> ((st, h), Some (FStore e))
        | Inr out \<Rightarrow>
            if out = [] then ((st, h), None)
            else (case Client_Push (ti_net t ''push'' 0) (sy_Client S) out h of
                    (h1, Inl e) \<Rightarrow> ((st, h1), Some e)
                  | (h1, Inr _) \<Rightarrow>
                      (case SetPushCursor (ti_db t ''SetPushCursor'' 0) (v_Seq (last out)) st of
                         (st1, Some e) \<Rightarrow> ((st1, h1), Some (FStore e))
                       | (st1, None) \<Rightarrow> ((st1, h1), None))))"

text \<open>The loop over the pulled events, from index k.\<close>

fun apply_pulled :: "'a eng_scheme Syncer \<Rightarrow> tick_io \<Rightarrow> nat \<Rightarrow> Pulled list \<Rightarrow> 'a eng_scheme \<Rightarrow> 'a eng_scheme \<times> fed_err option" where
  "apply_pulled S t k [] st = (st, None)"
| "apply_pulled S t k (p # ps) st =
     (case ApplyEvent (sy_Handlers S) (ti_apply t k) (ti_now t) (pl_Event p) st of
        (st1, _, Some e) \<Rightarrow> (st1, Some (FStore e))
      | (st1, _, None) \<Rightarrow>
          (case SetHubCursor (ti_db t ''SetHubCursor'' k) (pl_HubSeq p) st1 of
             (st2, Some e) \<Rightarrow> (st2, Some (FStore e))
           | (st2, None) \<Rightarrow> apply_pulled S t (Suc k) ps st2))"

definition tick_pull :: "'a eng_scheme Syncer \<Rightarrow> tick_io \<Rightarrow> int \<Rightarrow> 'a world \<Rightarrow> 'a world \<times> fed_err option" where
  "tick_pull S t hubCursor w =
     (case w of (st, h) \<Rightarrow>
        case Client_Pull (ti_net t ''pull'' 0) (sy_Client S) hubCursor True h of
          (h1, Inl e) \<Rightarrow> ((st, h1), Some e)
        | (h1, Inr (pulled, _)) \<Rightarrow> (case apply_pulled S t 0 pulled st of (st1, e) \<Rightarrow> ((st1, h1), e)))"

text \<open>The two queues. An error of one item is logged and the loop goes on.\<close>

fun drain_pvp :: "Client \<Rightarrow> tick_io \<Rightarrow> (hook_env \<Rightarrow> string \<Rightarrow> string \<Rightarrow> string \<Rightarrow> raw \<Rightarrow> 's \<Rightarrow> 's \<times> eng_err option) \<Rightarrow> nat
    \<Rightarrow> PvPPending list \<Rightarrow> 's \<times> hub \<Rightarrow> 's \<times> hub" where
  "drain_pvp c t res k [] w = w"
| "drain_pvp c t res k (q # qs) w =
     drain_pvp c t res (Suc k) qs
       (case w of (st, h) \<Rightarrow>
          if \<not> rawObject (pp_AttackerPayload q) then
            (st, fst (Client_BlockPvP (ti_net t ''pvp'' k) c (pp_RequestID q) ''malformed attacker payload'' h))
          else case res (ti_hook t ''pvp'' k) (pp_RequestID q) (pp_AttackerID q) (pp_VictimID q) (pp_AttackerPayload q) st of
            (st1, Some _) \<Rightarrow> (st1, h)
          | (st1, None) \<Rightarrow> (st1, fst (Client_CompletePvP (ti_net t ''pvp'' k) c (pp_RequestID q) h)))"

text \<open>The text of a decoding error is not modelled beyond its prefix.\<close>

fun drain_travel :: "Client \<Rightarrow> tick_io \<Rightarrow> time_json \<Rightarrow> (hook_env \<Rightarrow> Snapshot \<Rightarrow> string \<Rightarrow> string \<Rightarrow> 's \<Rightarrow> 's \<times> eng_err option) \<Rightarrow> nat
    \<Rightarrow> TravelPending list \<Rightarrow> 's \<times> hub \<Rightarrow> 's \<times> hub" where
  "drain_travel c t tj imp k [] w = w"
| "drain_travel c t tj imp k (a # as) w =
     drain_travel c t tj imp (Suc k) as
       (case w of (st, h) \<Rightarrow>
          if \<not> rawObject (tp_Snapshot a) then
            (st, fst (Client_BlockTravel (ti_net t ''travel'' k) c (tp_TravelID a) ''malformed travel snapshot'' h))
          else case dec_Snapshot tj (raw_json (tp_Snapshot a)) of (snap, ok) \<Rightarrow>
            if \<not> ok then
              (st, fst (Client_BlockTravel (ti_net t ''travel'' k) c (tp_TravelID a) ''invalid travel snapshot: '' h))
            else case imp (ti_hook t ''travel'' k) snap (tp_FromNode a) (tp_DestNode a) st of
              (st1, Some _) \<Rightarrow> (st1, h)
            | (st1, None) \<Rightarrow> (st1, fst (Client_ArriveTravel (ti_net t ''travel'' k) c (tp_TravelID a) h)))"

definition tick_pvp :: "'a eng_scheme Syncer \<Rightarrow> tick_io \<Rightarrow> 'a world \<Rightarrow> 'a world \<times> fed_err option" where
  "tick_pvp S t w =
     (case sy_PvPResolve S of
        None \<Rightarrow> (w, None)
      | Some res \<Rightarrow>
          (case w of (st, h) \<Rightarrow>
             case Client_PendingPvP (ti_net t ''pending_pvp'' 0) (sy_Client S) h of
               (h1, Inl e) \<Rightarrow> ((st, h1), Some e)
             | (h1, Inr qs) \<Rightarrow> (drain_pvp (sy_Client S) t res 0 qs (st, h1), None)))"

definition tick_travel :: "'a eng_scheme Syncer \<Rightarrow> tick_io \<Rightarrow> 'a world \<Rightarrow> 'a world \<times> fed_err option" where
  "tick_travel S t w =
     (case sy_TravelImport S of
        None \<Rightarrow> (w, None)
      | Some imp \<Rightarrow>
          (case w of (st, h) \<Rightarrow>
             case Client_PendingTravel (ti_net t ''pending_travel'' 0) (sy_Client S) h of
               (h1, Inl e) \<Rightarrow> ((st, h1), Some e)
             | (h1, Inr as) \<Rightarrow> (drain_travel (sy_Client S) t (sy_Time S) imp 0 as (st, h1), None)))"

definition tick_roster :: "'a eng_scheme Syncer \<Rightarrow> tick_io \<Rightarrow> 'a world \<Rightarrow> 'a world \<times> fed_err option" where
  "tick_roster S t w =
     (case w of (st, h) \<Rightarrow>
        case LocalPlayers (ti_db t ''LocalPlayers'' 1) st of
          Inl e \<Rightarrow> ((st, h), Some (FStore e))
        | Inr locals \<Rightarrow>
            (case Client_PushRoster (ti_net t ''push_roster'' 0) (sy_Client S) locals h of
               (h1, Some e) \<Rightarrow> ((st, h1), Some e)
             | (h1, None) \<Rightarrow>
                 (case Client_PullRoster (ti_net t ''pull_roster'' 0) (sy_Client S) h1 of
                    (h2, Inl e) \<Rightarrow> ((st, h2), Some e)
                  | (h2, Inr remotes) \<Rightarrow>
                      (case UpsertRemoteRoster (he_io (ti_hook t ''roster'' 0)) remotes st of
                         (st1, e) \<Rightarrow> ((st1, h2), map_option FStore e)))))"

text \<open>\<open>if err != nil { return err }\<close> between two steps.\<close>

definition and_then :: "'w \<times> 'e option \<Rightarrow> ('w \<Rightarrow> 'w \<times> 'e option) \<Rightarrow> 'w \<times> 'e option" where
  "and_then r f = (case r of (w, Some e) \<Rightarrow> (w, Some e) | (w, None) \<Rightarrow> f w)"

definition Tick :: "'a eng_scheme Syncer \<Rightarrow> tick_io \<Rightarrow> 'a world \<Rightarrow> 'a world \<times> fed_err option" where
  "Tick S t w =
     and_then (tick_heartbeat S t w) (\<lambda>w.
       case SyncState (ti_db t ''SyncState'' 0) (fst w) of
         Inl e \<Rightarrow> (w, Some (FStore e))
       | Inr (hubCursor, lastPushed, _) \<Rightarrow>
           and_then (tick_push S t lastPushed w) (\<lambda>w.
           and_then (tick_pull S t hubCursor w) (\<lambda>w.
           and_then (tick_pvp S t w) (\<lambda>w.
           and_then (tick_travel S t w) (tick_roster S t)))))"

text \<open>\<open>Run\<close>: one tick per interval until it is cancelled; the error of a tick is only logged.\<close>

fun Run :: "'a eng_scheme Syncer \<Rightarrow> tick_io list \<Rightarrow> 'a world \<Rightarrow> 'a world" where
  "Run S [] w = w"
| "Run S (t # ts) w = Run S ts (fst (Tick S t w))"

end
