(* ===== verification/Fed_Safety.thy ===== *)
theory Fed_Safety
  imports Fed_Sync
begin

text \<open>
  The sync loop is safe against every loss: whatever requests, responses and statements fail,
  whatever other nodes do to the hub in between, the push cursor never passes an event the hub does
  not have and the pull cursor never passes an event the node has not stored.
\<close>

section \<open>How the hub may change\<close>

definition node_keys :: "hub \<Rightarrow> (string \<times> string) set" where
  "node_keys h = (\<lambda>r. (n_NodeID r, n_api_key_hash r)) ` set (h_nodes h)"

text \<open>The feed only grows at its end, beyond the high-water mark, and nodes keep their keys.\<close>

definition grows :: "hub \<Rightarrow> hub \<Rightarrow> bool" where
  "grows h g \<longleftrightarrow> hub_inv g \<and> h_evseq h \<le> h_evseq g \<and> node_keys h \<subseteq> node_keys g
     \<and> (\<exists>new. h_events g = h_events h @ new \<and> (\<forall>p \<in> set new. h_evseq h < fst p))"

definition honest :: "(hub \<Rightarrow> hub) \<Rightarrow> bool" where
  "honest f \<longleftrightarrow> (\<forall>h. hub_inv h \<longrightarrow> grows h (f h))"

lemma grows_refl: "hub_inv h \<Longrightarrow> grows h h"
  by (simp add: grows_def)

lemma grows_trans:
  assumes "grows h g" and "grows g k"
  shows "grows h k"
proof -
  obtain a b where a: "h_events g = h_events h @ a" "\<forall>p \<in> set a. h_evseq h < fst p"
      and b: "h_events k = h_events g @ b" "\<forall>p \<in> set b. h_evseq g < fst p"
    using assms by (auto simp: grows_def)
  have "h_events k = h_events h @ (a @ b)" "\<forall>p \<in> set (a @ b). h_evseq h < fst p"
    using a b assms(1) by (auto simp: grows_def intro: le_less_trans)
  then show ?thesis
    using assms by (auto simp: grows_def)
qed

lemma append_loop_evseq: "h_evseq h \<le> h_evseq (fst (append_loop burn io k es h))"
proof (induction es arbitrary: k h)
  case (Cons e es)
  have "h_evseq h \<le> h_evseq (fst (append_loop burn io (Suc k) es (fst (insert_event burn e h))))"
    using insert_event_evseq Cons.IH by (rule order_trans)
  then show ?case
    by (simp add: case_prod_beta)
qed simp

lemma Handler_evseq: "h_evseq h \<le> h_evseq (fst (Handler s env r h))"
proof -
  have "h_evseq (fst (RegisterNode io now n k h)) = h_evseq h" "h_evseq (fst (Heartbeat io now i p u v h)) = h_evseq h"
    "h_evseq (fst (UpsertRoster io now i rs h)) = h_evseq h" "h_evseq (fst (QueuePvP io q h)) = h_evseq h"
    "h_evseq (fst (CompletePvP io now i w h)) = h_evseq h" "h_evseq (fst (BlockPvP io now i w y h)) = h_evseq h"
    "h_evseq (fst (SubmitTravel io now t h)) = h_evseq h" "h_evseq (fst (ArriveTravel io now i w h)) = h_evseq h"
    "h_evseq (fst (BlockTravel io now i w y h)) = h_evseq h" for io now n k i p u v rs q w y t
    by (auto simp: RegisterNode_def Heartbeat_def UpsertRoster_def QueuePvP_def CompletePvP_def BlockPvP_def SubmitTravel_def
        ArriveTravel_def BlockTravel_def split: option.split)
  then show ?thesis
    unfolding Handler_def
    by (intro serve_effect [where P = "\<lambda>g. h_evseq h \<le> h_evseq g"])
      (simp_all add: AppendEvents_fst append_loop_evseq MaterializeEvents_def)
qed

lemma node_keys_map: "node_keys h = set (map (\<lambda>r. (n_NodeID r, n_api_key_hash r)) (h_nodes h))"
  by (simp add: node_keys_def)

lemma Handler_keys: "node_keys h \<subseteq> node_keys (fst (Handler s env r h))"
proof -
  have keep: "h_nodes (fst (UpsertRoster io now i rs h)) = h_nodes h" "h_nodes (fst (QueuePvP io q h)) = h_nodes h"
    "h_nodes (fst (CompletePvP io now i w h)) = h_nodes h" "h_nodes (fst (BlockPvP io now i w y h)) = h_nodes h"
    "h_nodes (fst (SubmitTravel io now t h)) = h_nodes h" "h_nodes (fst (ArriveTravel io now i w h)) = h_nodes h"
    "h_nodes (fst (BlockTravel io now i w y h)) = h_nodes h" for io now i rs q w y t
    by (auto simp: UpsertRoster_def QueuePvP_def CompletePvP_def BlockPvP_def SubmitTravel_def
        ArriveTravel_def BlockTravel_def split: option.split)
  have "node_keys h \<subseteq> node_keys (fst (RegisterNode io now n k h))" for io now n k
    by (auto simp: RegisterNode_def node_keys_def)
  moreover have "node_keys h \<subseteq> node_keys (fst (Heartbeat io now i p u v h))" for io now i p u v
    by (simp add: Heartbeat_def node_keys_map map_upd_where del: set_map list.set_map)
  ultimately show ?thesis
    unfolding Handler_def
    by (intro serve_effect [where P = "\<lambda>g. node_keys h \<subseteq> node_keys g"])
      (simp_all add: node_keys_map keep AppendEvents_frame MaterializeEvents_def)
qed

lemma Handler_grows: "hub_inv h \<Longrightarrow> grows h (fst (Handler s env r h))"
  using Handler_inv [of h s env r] Handler_evseq [of h s env r] Handler_keys [of h s env r] feed_extends [of s env r h]
  by (simp add: grows_def)

text \<open>Requests of other clients, in any number, are honest.\<close>

lemma honest_id: "honest (\<lambda>h. h)"
  by (simp add: honest_def grows_refl)

lemma honest_Handler: "honest f \<Longrightarrow> honest (\<lambda>h. fst (Handler s env r (f h)))"
  unfolding honest_def
proof (intro allI impI)
  fix h
  assume "\<forall>h. hub_inv h \<longrightarrow> grows h (f h)" "hub_inv h"
  then have "grows h (f h)" by blast
  moreover from this have "hub_inv (f h)" by (simp add: grows_def)
  ultimately show "grows h (fst (Handler s env r (f h)))"
    using Handler_grows grows_trans by blast
qed

lemma client_do_grows:
  assumes "honest (cl_pre cl)" and "hub_inv h"
  shows "grows h (fst (client_do cl c m p q b h))"
proof -
  let ?h1 = "cl_pre cl h"
  have 1: "grows h ?h1"
    using assms by (simp add: honest_def)
  then have "grows ?h1 (fst (Handler (c_Hub c) (cl_env cl) (client_req c m p q b) ?h1))"
    by (intro Handler_grows) (simp add: grows_def)
  then show ?thesis
    using 1 grows_trans [OF 1] by (auto simp: client_do_def Let_def split: prod.split)
qed

lemma do_fst [simp]: "fst (do_ok x) = fst x" "fst (do_out dec x) = fst x"
  by (auto simp: do_ok_def do_out_def split: prod.split sum.split option.split)

lemmas client_defs = Client_Register_def Client_Heartbeat_def Client_Push_def Client_Pull_def Client_QueuePvP_def
  Client_PendingPvP_def Client_CompletePvP_def Client_BlockPvP_def Client_SubmitTravel_def Client_PendingTravel_def
  Client_ArriveTravel_def Client_BlockTravel_def Client_PushRoster_def Client_PullRoster_def

lemma client_grows:
  assumes "honest (cl_pre cl)" and "hub_inv h"
  shows "grows h (fst (Client_Heartbeat cl c n p u v h))" "grows h (fst (Client_Push cl c es h))"
    "grows h (fst (Client_Pull cl c a x h))" "grows h (fst (Client_PendingPvP cl c h))"
    "grows h (fst (Client_CompletePvP cl c i h))" "grows h (fst (Client_BlockPvP cl c i y h))"
    "grows h (fst (Client_PendingTravel cl c h))" "grows h (fst (Client_ArriveTravel cl c i h))"
    "grows h (fst (Client_BlockTravel cl c i y h))" "grows h (fst (Client_PushRoster cl c ps h))"
    "grows h (fst (Client_PullRoster cl c h))" "grows h (fst (Client_SubmitTravel cl c i n d j h))"
  by (simp_all add: client_defs client_do_grows [OF assms])

section \<open>How the store may change\<close>

text \<open>What handlers and hooks do to the store: they add events (their own with fresh numbers) and keep
  the sync state.\<close>

definition store_ext :: "'a eng_scheme \<Rightarrow> 'a eng_scheme \<Rightarrow> bool" where
  "store_ext s t \<longleftrightarrow> g_nodeID t = g_nodeID s \<and> g_sync t = g_sync s \<and> g_seq s \<le> g_seq t
     \<and> (\<exists>es. g_events t = g_events s @ es
          \<and> (\<forall>e \<in> set es. v_SourceNode e = g_nodeID s \<longrightarrow> g_seq s < v_Seq e \<and> v_Seq e \<le> g_seq t))"

lemma store_ext_refl [simp]: "store_ext s s"
  by (simp add: store_ext_def)

lemma store_ext_trans [trans]:
  assumes "store_ext s t" and "store_ext t u"
  shows "store_ext s u"
proof -
  obtain a b where a: "g_events t = g_events s @ a"
      "\<forall>e \<in> set a. v_SourceNode e = g_nodeID s \<longrightarrow> g_seq s < v_Seq e \<and> v_Seq e \<le> g_seq t"
      and b: "g_events u = g_events t @ b"
      "\<forall>e \<in> set b. v_SourceNode e = g_nodeID s \<longrightarrow> g_seq t < v_Seq e \<and> v_Seq e \<le> g_seq u"
    using assms by (auto simp: store_ext_def)
  have "g_events u = g_events s @ (a @ b)"
    "\<forall>e \<in> set (a @ b). v_SourceNode e = g_nodeID s \<longrightarrow> g_seq s < v_Seq e \<and> v_Seq e \<le> g_seq u"
    using a b assms by (force simp: store_ext_def)+
  then show ?thesis
    using assms by (auto simp: store_ext_def)
qed

text \<open>An update outside the event log and the sync state.\<close>

lemma store_ext_frame:
  "g_nodeID t = g_nodeID s \<Longrightarrow> g_sync t = g_sync s \<Longrightarrow> g_seq t = g_seq s \<Longrightarrow> g_events t = g_events s \<Longrightarrow> store_ext s t"
  by (simp add: store_ext_def)

lemma Emit_ext: "store_ext s (fst (Emit f now ty b s))"
  by (auto simp: Emit_def Let_def store_ext_def)

lemma markHandler_ext: "store_ext s (fst (markHandler f now i k st m s))"
  by (simp add: markHandler_def store_ext_frame)

lemma store_event_ext: "v_SourceNode e \<noteq> g_nodeID s \<Longrightarrow> store_ext s (fst (store_event e s))"
  by (auto simp: store_event_def store_ext_def)

lemma run_handlers_ext:
  assumes "\<And>h io e s. h \<in> set hs \<Longrightarrow> store_ext s (fst (h io e s))"
  shows "store_ext s (fst (run_handlers retry io now i hs e s))"
  using assms
proof (induction hs arbitrary: i s)
  case (Cons h hs)
  have IH: "store_ext t (fst (run_handlers retry io now j hs e t))" for j t
    using Cons.prems by (intro Cons.IH) simp
  obtain s1 r where s1: "h (ai_handler io i) e s = (s1, r)"
    by (cases "h (ai_handler io i) e s")
  then have 1: "store_ext s s1"
    using Cons.prems [of h s "ai_handler io i" e] by simp
  have mark: "store_ext s (fst (markHandler f now k j st m s1))" for f k j st m
    using 1 markHandler_ext by (rule store_ext_trans)
  obtain s2 r2 where s2: "markHandler (ai_mark io i) now (v_EventID e) i ''applied'' None s1 = (s2, r2)"
    by (cases "markHandler (ai_mark io i) now (v_EventID e) i ''applied'' None s1")
  then have 2: "store_ext s s2"
    using mark [of "ai_mark io i" "v_EventID e" i "''applied''" None] by simp
  then have 3: "store_ext s (fst (run_handlers retry io now j hs e s2))" for j
    using IH store_ext_trans by blast
  show ?case
    using s1 s2 mark 2 3 IH by (cases r; cases r2; cases retry) simp_all
qed simp

lemma ApplyEvent_ext:
  assumes "\<And>h io e s. h \<in> set (H (v_Type e')) \<Longrightarrow> store_ext s (fst (h io e s))" and "v_SourceNode e' \<noteq> g_nodeID s"
  shows "store_ext s (fst (ApplyEvent H io now e' s))"
proof -
  obtain t new where t: "store_event e' s = (t, new)"
    by (cases "store_event e' s")
  then have 1: "store_ext s t"
    using store_event_ext [OF assms(2)] by simp
  have "store_ext t (fst (run_handlers (\<not> new) io now 0 (H (v_Type e')) e' t))"
    using assms(1) by (rule run_handlers_ext)
  then show ?thesis
    using 1 store_ext_trans [OF 1] by (auto simp: ApplyEvent_def t split: prod.split)
qed

text \<open>An intake without error leaves the event stored.\<close>

lemma ApplyEvent_stored:
  assumes "\<And>h io e s. h \<in> set (H (v_Type e')) \<Longrightarrow> store_ext s (fst (h io e s))" and "ApplyEvent H io now e' s = (s1, b, None)"
  shows "v_EventID e' \<in> v_EventID ` set (g_events s1)"
proof -
  obtain t new where t: "store_event e' s = (t, new)" "run_handlers (\<not> new) io now 0 (H (v_Type e')) e' t = (s1, None)"
    using assms(2) by (auto simp: ApplyEvent_def split: if_splits prod.splits)
  have "v_EventID e' \<in> v_EventID ` set (g_events t)"
    using t(1) by (auto simp: store_event_def split: if_splits)
  moreover have "store_ext t (fst (run_handlers (\<not> new) io now 0 (H (v_Type e')) e' t))"
    using assms(1) by (rule run_handlers_ext)
  then have "store_ext t s1"
    using t(2) by simp
  ultimately show ?thesis
    by (auto simp: store_ext_def)
qed

section \<open>Events on the wire\<close>

lemmas wire_simps = json_simps key_match_def ascii_up_def

lemma dec_pushed: "e_EventID (fst (dec_WireEvent (enc_wireEvent e))) = v_EventID e"
  by (simp add: dec_WireEvent_def enc_wireEvent_def wire_simps Let_def)

lemma push_body_ids:
  assumes "dec_eventsPushReq (push_body events) = (es, True)"
  shows "map e_EventID es = map v_EventID events"
proof -
  have "es = map (fst \<circ> dec_WireEvent) (map enc_wireEvent events)"
    using assms by (simp add: dec_eventsPushReq_def push_body_def wire_simps)
  then show ?thesis
    by (simp add: dec_pushed comp_def)
qed

definition of_feed :: "Pulled \<Rightarrow> FeedEvent \<Rightarrow> bool" where
  "of_feed p x \<longleftrightarrow> pl_HubSeq p = fst x \<and> in_int64 (fst x) \<and> v_EventID (pl_Event p) = e_EventID (snd x)
     \<and> v_SourceNode (pl_Event p) = e_SourceNode (snd x) \<and> v_Type (pl_Event p) = e_Type (snd x)
     \<and> v_Payload (pl_Event p) = Some (raw_json (e_Payload (snd x)))"

lemma dec_pulled: "snd (dec_feedEvent (enc_FeedEvent x)) \<Longrightarrow> of_feed (fst (dec_feedEvent (enc_FeedEvent x))) x"
  by (simp add: dec_feedEvent_def enc_FeedEvent_def wire_simps Let_def of_feed_def unm_int_def split: if_splits)

lemma dec_pulled_list:
  assumes "unm_list dec_feedEvent (JArr (map enc_FeedEvent xs)) [] = (ps, True)"
  shows "list_all2 of_feed ps xs"
  using assms dec_pulled by (auto simp: wire_simps list_all2_map1 list_all2_same list_all_iff comp_def)

section \<open>Answered calls\<close>

text \<open>The client's key is the key of node n.\<close>

definition key_of :: "(string \<Rightarrow> nat list) \<Rightarrow> Client \<Rightarrow> string \<Rightarrow> hub \<Rightarrow> bool" where
  "key_of sha c n h \<longleftrightarrow> n \<noteq> [] \<and> c_APIKey c \<noteq> [] \<and> (n, hex_encode (sha (c_APIKey c))) \<in> node_keys h"

lemma key_of_grows: "key_of sha c n h \<Longrightarrow> grows h g \<Longrightarrow> key_of sha c n g"
  by (auto simp: key_of_def grows_def)

lemma client_bearer: "c_APIKey c \<noteq> [] \<Longrightarrow> bearer (client_req c m p q b) = c_APIKey c"
  by (rule bearer_token) (simp add: client_req_def)

lemma client_caller:
  assumes "key_of (v_sha256 env) c n h" and "hub_inv h" and "caller env (client_req c m p q b) h = Some nd"
  shows "n_NodeID nd = n"
proof -
  obtain row where row: "row \<in> set (h_nodes h)" "n_api_key_hash row = hashKey env (c_APIKey c)" "nd = scan_node row"
    using assms(1,3) caller_node [OF assms(3)] client_bearer by (metis key_of_def)
  obtain r where r: "r \<in> set (h_nodes h)" "n_NodeID r = n" "n_api_key_hash r = hashKey env (c_APIKey c)"
    using assms(1) by (auto simp: key_of_def node_keys_def hashKey_def)
  have "row = r"
    using distinct_key_unique [of n_api_key_hash "h_nodes h" row r] row r assms(2) by (simp add: hub_inv_defs)
  then show ?thesis
    using row(3) r(2) by (simp add: scan_node_def)
qed

text \<open>An authenticated call that was answered: the hub's handler ran and said 2xx.\<close>

lemma client_answered:
  assumes "client_do cl c m p q b h = (h1, Inr j)"
    and "Handler (c_Hub c) (cl_env cl) (client_req c m p q b) (cl_pre cl h)
       = auth (cl_env cl) nxt (client_req c m p q b) (cl_pre cl h)"
  obtains nd where "caller (cl_env cl) (client_req c m p q b) (cl_pre cl h) = Some nd"
    "h1 = fst (nxt nd (client_req c m p q b) (cl_pre cl h))"
    "p_code (snd (nxt nd (client_req c m p q b) (cl_pre cl h))) div 100 = 2"
    "j = (if cl_cut cl then None else p_body (snd (nxt nd (client_req c m p q b) (cl_pre cl h))))"
proof (cases "caller (cl_env cl) (client_req c m p q b) (cl_pre cl h)")
  case None
  then have "p_code (snd (auth (cl_env cl) nxt (client_req c m p q b) (cl_pre cl h))) \<in> {401, 403}"
    using auth_caller(2) by blast
  then show ?thesis
    using assms by (auto simp: client_do_def Let_def split: if_splits prod.splits)
next
  case (Some nd)
  then show ?thesis
    using assms that auth_caller(1) [OF Some] by (auto simp: client_do_def Let_def split: if_splits prod.splits)
qed

lemma push_codes: "p_code (snd (handleEventsPush env n r h)) div 100 = 2 \<Longrightarrow> p_code (snd (handleEventsPush env n r h)) = 200"
  by (auto simp: handleEventsPush_def split: option.splits prod.splits hub_err.splits sum.splits if_splits)

text \<open>After a push that was answered the whole batch is in the feed.\<close>

lemma Client_Push_ok:
  assumes "Client_Push cl c es h = (h1, Inr r)"
  shows "v_EventID ` set es \<subseteq> set (feed_ids h1)"
proof -
  let ?r = "client_req c ''POST'' [''v1'', ''events''] [] (Some (push_body es))"
  obtain j where do: "client_do cl c ''POST'' [''v1'', ''events''] [] (Some (push_body es)) h = (h1, Inr j)"
    using assms by (auto simp: Client_Push_def do_out_def split: prod.splits sum.splits option.splits if_splits)
  have H: "Handler (c_Hub c) (cl_env cl) ?r g = auth (cl_env cl) (handleEventsPush (cl_env cl)) ?r g" for g
    by (simp add: Handler_def serve_def Route_def route_post_def client_req_def)
  obtain nd where nd: "h1 = fst (handleEventsPush (cl_env cl) nd ?r (cl_pre cl h))"
      "p_code (snd (handleEventsPush (cl_env cl) nd ?r (cl_pre cl h))) div 100 = 2"
    by (rule client_answered [OF do H])
  obtain ws where ws: "dec_eventsPushReq (push_body es) = (ws, True)" "e_EventID ` set ws \<subseteq> set (feed_ids h1)"
    by (rule handleEventsPush_200 [OF push_codes [OF nd(2)]]) (simp add: nd(1) client_req_def)
  have "set (map v_EventID es) = set (map e_EventID ws)"
    using push_body_ids [OF ws(1)] by simp
  then show ?thesis
    using ws(2) by simp
qed

lemma handleEventsPull_body:
  assumes "p_code (snd (handleEventsPull env n r h)) div 100 = 2"
  shows "handleEventsPull env n r h = (h, writeJSON 200 (JObj
    [(''events'', JArr (map enc_FeedEvent (feed_page (queryInt r ''limit'' 500)
        (if query_get r ''exclude_self'' = ''true'' then n_NodeID n else []) (queryInt r ''after'' 0) h))),
     (''head'', JInt (head h))]))"
  using assms by (auto simp: handleEventsPull_def feed_page_def FeedSince_def Let_def split: if_splits)

lemma query_500: "parse_int ''500'' = Some 500"
  by code_simp

lemma pull_query:
  fixes c :: Client
  assumes "in_int64 a"
  defines "r \<equiv> client_req c ''GET'' [''v1'', ''events''] [(''after'', show_int a), (''limit'', ''500''), (''exclude_self'', ''true'')] None"
  shows "queryInt r ''after'' 0 = a" "queryInt r ''limit'' 500 = 500" "query_get r ''exclude_self'' = ''true''"
proof -
  have "show_int a \<noteq> []"
    by (simp add: show_int_def)
  then show "queryInt r ''after'' 0 = a" "queryInt r ''limit'' 500 = 500" "query_get r ''exclude_self'' = ''true''"
    using parse_show_int [OF assms(1)] query_500 by (simp_all add: r_def queryInt_def query_get_def client_req_def Let_def)
qed

text \<open>A pull that was answered returns the page of the feed after the cursor.\<close>

lemma Client_Pull_ok:
  assumes "Client_Pull cl c a True h = (h1, Inr (ps, hs))" and "in_int64 a"
    and "key_of (v_sha256 (cl_env cl)) c n (cl_pre cl h)" and "hub_inv (cl_pre cl h)"
  shows "h1 = cl_pre cl h" "list_all2 of_feed ps (feed_page 500 n a h1)"
proof -
  let ?q = "[(''after'', show_int a), (''limit'', ''500''), (''exclude_self'', ''true'')]"
  let ?r = "client_req c ''GET'' [''v1'', ''events''] ?q None"
  obtain j where do: "client_do cl c ''GET'' [''v1'', ''events''] ?q None h = (h1, Inr (Some j))"
      and dec: "fld (unm_list dec_feedEvent) ''events'' j [] = (ps, True)"
    using assms(1) by (auto simp: Client_Pull_def do_out_def Let_def prod_eq_iff split: prod.splits sum.splits option.splits if_splits)
  have H: "Handler (c_Hub c) (cl_env cl) ?r g = auth (cl_env cl) (handleEventsPull (cl_env cl)) ?r g" for g
    by (simp add: Handler_def serve_def Route_def route_get_def client_req_def)
  obtain nd where nd: "caller (cl_env cl) ?r (cl_pre cl h) = Some nd"
      "h1 = fst (handleEventsPull (cl_env cl) nd ?r (cl_pre cl h))"
      "p_code (snd (handleEventsPull (cl_env cl) nd ?r (cl_pre cl h))) div 100 = 2"
      "Some j = (if cl_cut cl then None else p_body (snd (handleEventsPull (cl_env cl) nd ?r (cl_pre cl h))))"
    by (rule client_answered [OF do H])
  have n: "n_NodeID nd = n"
    by (rule client_caller [OF assms(3,4) nd(1)])
  note body = handleEventsPull_body [OF nd(3), unfolded pull_query [OF assms(2)] n]
  show h1: "h1 = cl_pre cl h"
    using nd(2) body by simp
  have j: "j = JObj [(''events'', JArr (map enc_FeedEvent (feed_page 500 n a h1))), (''head'', JInt (head h1))]"
    using nd(4) body h1 by (simp add: writeJSON_def split: if_splits)
  then have "unm_list dec_feedEvent (JArr (map enc_FeedEvent (feed_page 500 n a h1))) [] = (ps, True)"
    using dec by (simp add: wire_simps)
  then show "list_all2 of_feed ps (feed_page 500 n a h1)"
    by (rule dec_pulled_list)
qed

end
