(* ===== verification/Game_Safety.thy ===== *)
theory Game_Safety
  imports Game_Barter Fed_Safety
begin

text \<open>
  What a session keeps, whatever keys are pressed and whatever statements fail: characters stay
  between one and their maximum of hit points, turn budgets stay within the daily allowance and the
  tables keep their keys. And a fight that is fought is decided.
\<close>

section \<open>Characters\<close>

definition char_ok :: "charState \<Rightarrow> bool" where
  "char_ok c \<longleftrightarrow> 1 \<le> ch_HP c \<and> ch_HP c \<le> ch_MaxHP c \<and> ch_MaxHP c \<le> 2 ^ 31 \<and> 0 \<le> ch_Strength c \<and> ch_Strength c \<le> 2 ^ 31
     \<and> 0 \<le> ch_Defense c \<and> ch_Defense c \<le> 2 ^ 31 \<and> 0 \<le> ch_RestsToday c \<and> ch_RestsToday c \<le> restsPerDay"

text \<open>The columns a session never writes.\<close>

definition fixed :: "charState \<Rightarrow> string \<times> int \<times> int \<times> int \<times> int" where
  "fixed c = (ch_GlobalID c, ch_MaxHP c, ch_Strength c, ch_Defense c, ch_Luck c)"

lemma fixed_eq: "fixed c = fixed d \<longleftrightarrow> ch_GlobalID c = ch_GlobalID d \<and> ch_MaxHP c = ch_MaxHP d \<and> ch_Strength c = ch_Strength d
    \<and> ch_Defense c = ch_Defense d \<and> ch_Luck c = ch_Luck d"
  by (auto simp: fixed_def)

definition game_ok :: "game \<Rightarrow> bool" where
  "game_ok s \<longleftrightarrow> eng_wf s \<and> distinct (map ch_GlobalID (k_chars s)) \<and> (\<forall>c \<in> set (k_chars s). char_ok c) \<and> distinct (map ikey (k_inv s))"

text \<open>The session's copy of the character agrees with its row on those columns.\<close>

definition sess_ok :: "string \<Rightarrow> charState \<times> game \<Rightarrow> bool" where
  "sess_ok g cs \<longleftrightarrow> (case cs of (c, s) \<Rightarrow> game_ok s \<and> char_ok c \<and> ch_GlobalID c = g \<and> fixed c \<in> fixed ` set (k_chars s))"

text \<open>A step on the store that keeps it in order, and the fixed columns.\<close>

definition good_step :: "game \<Rightarrow> game \<Rightarrow> bool" where
  "good_step s s1 \<longleftrightarrow> (game_ok s \<longrightarrow> game_ok s1) \<and> map fixed (k_chars s1) = map fixed (k_chars s)"

lemma good_refl [simp]: "good_step s s"
  by (simp add: good_step_def)

lemma good_trans [trans]: "good_step s t \<Longrightarrow> good_step t u \<Longrightarrow> good_step s u"
  by (simp add: good_step_def)

lemma sess_step: "sess_ok g (c, s) \<Longrightarrow> good_step s s1 \<Longrightarrow> sess_ok g (c, s1)"
  by (simp add: sess_ok_def good_step_def) (metis list.set_map)

lemma sess_char:
  "sess_ok g (c, s) \<Longrightarrow> char_ok c1 \<Longrightarrow> fixed c1 = fixed c \<Longrightarrow> sess_ok g (c1, s)"
  by (auto simp: sess_ok_def fixed_eq)

lemma saved_fixed: "fixed (saved c r) = fixed r"
  by (simp add: fixed_def saved_def)

lemma save_good:
  assumes "sess_ok g (c, s)"
  shows "good_step s (fst (saveChar f c s))"
proof (cases f)
  case False
  let ?P = "\<lambda>r. ch_GlobalID r = ch_GlobalID c"
  have ok: "game_ok s" "char_ok c"
    using assms by (simp_all add: sess_ok_def)
  obtain r0 where r0: "r0 \<in> set (k_chars s)" "fixed r0 = fixed c"
    using assms by (auto simp: sess_ok_def)
  have "char_ok (saved c r)" if "r \<in> set (k_chars s)" "?P r" for r
  proof -
    have "r = r0"
      using that r0 ok(1) distinct_key_unique [of ch_GlobalID "k_chars s" r r0] by (simp add: game_ok_def fixed_eq)
    then show ?thesis
      using r0 ok by (auto simp: char_ok_def saved_def fixed_eq game_ok_def)
  qed
  moreover have "map ch_GlobalID (upd_where ?P (saved c) (k_chars s)) = map ch_GlobalID (k_chars s)"
    by (rule map_upd_where) (simp add: saved_def)
  moreover have "map fixed (upd_where ?P (saved c) (k_chars s)) = map fixed (k_chars s)"
    by (rule map_upd_where) (simp only: saved_fixed)
  ultimately show ?thesis
    using False ok(1) by (auto simp: saveChar_def good_step_def game_ok_def eng_wf_def table_simps)
qed (simp add: saveChar_def)

lemma save_sess: "sess_ok g (c, s) \<Longrightarrow> sess_ok g (c, fst (saveChar f c s))"
  using sess_step save_good by blast

section \<open>The store's operations\<close>

lemma good_engine:
  assumes "eng_wf s \<Longrightarrow> eng_wf s1" and "k_chars s1 = k_chars s" and "k_inv s1 = k_inv s"
  shows "good_step s s1"
  using assms by (simp add: good_step_def game_ok_def)

lemma tables_Emit: "k_chars (fst (Emit f now ty b s)) = k_chars s" "k_inv (fst (Emit f now ty b s)) = k_inv s"
  by (simp_all add: Emit_def Let_def)

lemma tables_CreateObligation:
  "k_chars (fst (CreateObligation io now a d k t w s)) = k_chars s" "k_inv (fst (CreateObligation io now a d k t w s)) = k_inv s"
  by (simp_all add: CreateObligation_fst Let_def tables_Emit)

lemma tables_resolve: "k_chars (fst (resolve io k now i r s)) = k_chars s" "k_inv (fst (resolve io k now i r s)) = k_inv s"
  by (simp_all add: resolve_def tables_Emit)

lemma tables_pay_loop: "k_chars (fst (pay_loop io k now ds a b s)) = k_chars s \<and> k_inv (fst (pay_loop io k now ds a b s)) = k_inv s"
proof (induction ds arbitrary: k a b s)
  case (Cons d ds)
  have "k_chars s1 = k_chars s \<and> k_inv s1 = k_inv s" if "resolve io k now i r s = (s1, x)" for i r s1 x
    using tables_resolve [of io k now i r s] that by simp
  moreover have "k_chars s1 = k_chars s \<and> k_inv s1 = k_inv s"
    if "Emit f now ty b (s\<lparr>g_obligations := os\<rparr>) = (s1, x)" for f ty b os s1 x
    using tables_Emit [of f now ty b "s\<lparr>g_obligations := os\<rparr>"] that by simp
  ultimately show ?case
    using Cons.IH by (auto simp: Let_def split: prod.split option.split)
qed simp

lemma tables_PayDebt: "k_chars (fst (PayDebt io now d a s)) = k_chars s" "k_inv (fst (PayDebt io now d a s)) = k_inv s"
  by (cases "OpenDebts (io 0) d s"; simp add: PayDebt_def tables_pay_loop)+

lemma good_ops:
  "good_step s (fst (Emit f now ty b s))" "good_step s (fst (CreateObligation io now a d k t w s))"
  "good_step s (fst (PayDebt io now d n s))" "0 \<le> n \<Longrightarrow> good_step s (fst (SpendActions f g n s))"
  "good_step s (fst (SpendAttack f g s))" "good_step s (fst (SetPlayerStatus f g st s))"
  "good_step s (fst (ResetIfNewDay zone io now g s))"
proof -
  have "k_chars (fst (SpendActions f g n s)) = k_chars s" "k_inv (fst (SpendActions f g n s)) = k_inv s"
    "k_chars (fst (SpendAttack f g s)) = k_chars s" "k_inv (fst (SpendAttack f g s)) = k_inv s"
    "k_chars (fst (SetPlayerStatus f g st s)) = k_chars s" "k_inv (fst (SetPlayerStatus f g st s)) = k_inv s"
    "k_chars (fst (ResetIfNewDay zone io now g s)) = k_chars s" "k_inv (fst (ResetIfNewDay zone io now g s)) = k_inv s"
    by (simp_all add: SpendActions_def SpendAttack_def SetPlayerStatus_def ResetIfNewDay_def Let_def split: sum.split)
  then show "good_step s (fst (Emit f now ty b s))" "good_step s (fst (CreateObligation io now a d k t w s))"
    "good_step s (fst (PayDebt io now d n s))" "0 \<le> n \<Longrightarrow> good_step s (fst (SpendActions f g n s))"
    "good_step s (fst (SpendAttack f g s))" "good_step s (fst (SetPlayerStatus f g st s))"
    "good_step s (fst (ResetIfNewDay zone io now g s))"
    using tables_Emit tables_CreateObligation tables_PayDebt
    by (auto intro!: good_engine Emit_wf CreateObligation_wf PayDebt_wf SpendActions_wf SpendAttack_wf SetPlayerStatus_wf ResetIfNewDay_wf)
qed

text \<open>An update of the inventory that keeps its keys distinct, or of the log.\<close>

lemma good_inv:
  assumes "distinct (map ikey (k_inv s)) \<Longrightarrow> distinct (map ikey iv)"
  shows "good_step s (s\<lparr>k_inv := iv\<rparr>)"
  using assms by (auto simp: good_step_def game_ok_def eng_wf_def)

lemma good_log: "good_step s (s\<lparr>k_log := ls\<rparr>)"
  by (auto simp: good_step_def game_ok_def eng_wf_def)

lemma good_take: "good_step s (takeGoods g i n s)"
proof -
  have "map ikey (upd_where (\<lambda>r. iv_global_id r = g \<and> iv_item_id r = i) (\<lambda>r. r\<lparr>iv_qty := iv_qty r - n\<rparr>) (k_inv s)) = map ikey (k_inv s)"
    using keys_take [of g i n s] by (simp add: takeGoods_def)
  then show ?thesis
    unfolding takeGoods_def by (intro good_inv) simp
qed

lemma good_sweep: "good_step s (sweepGoods f g s)"
  by (auto simp: sweepGoods_def intro!: good_inv distinct_map_key)

lemma good_add: "good_step s (fst (addGoods f g i n s))"
proof -
  have k: "(\<lambda>r. (iv_global_id r, iv_item_id r)) = ikey"
    by (simp add: ikey_def fun_eq_iff)
  have "distinct (map ikey (upsert ikey (\<lambda>old new. old\<lparr>iv_qty := iv_qty old + n\<rparr>) \<lparr>iv_global_id = g, iv_item_id = i, iv_qty = n\<rparr> xs))"
    if "distinct (map ikey xs)" for xs
  proof (cases "(g, i) \<in> ikey ` set xs")
    case True
    have "map ikey (upd_where (\<lambda>x. ikey x = (g, i)) (\<lambda>x. x\<lparr>iv_qty := iv_qty x + n\<rparr>) xs) = map ikey xs"
      by (rule map_upd_where) (simp add: ikey_def)
    then show ?thesis using that True by (simp add: upsert_def ikey_def)
  next
    case False
    then show ?thesis using that by (simp add: upsert_def ikey_def)
  qed
  then show ?thesis
    by (simp add: addGoods_def k good_inv)
qed

lemma good_consume_units: "good_step s (snd (snd (consume_units io g i cost n (k, c, s))))"
proof (induction n arbitrary: k c s)
  case (Suc n)
  have "good_step s (snd (snd (consume_units io g i cost n (Suc k, c', if io k then s else takeGoods g i 1 s))))" for c'
    by (rule good_trans [OF _ Suc.IH]) (simp add: good_take)
  then show ?case by simp
qed simp

lemma good_consume_lines: "good_step s (snd (snd (consume_lines io g cost ls (k, c, s))))"
proof (induction ls arbitrary: k c s)
  case (Cons l ls)
  obtain k1 c1 s1 where u: "consume_units io g (il_ItemID l) cost (nat (il_Qty l)) (k, c, s) = (k1, c1, s1)"
    by (cases "consume_units io g (il_ItemID l) cost (nat (il_Qty l)) (k, c, s)") auto
  then have "good_step s s1"
    using good_consume_units [of s io g "il_ItemID l" cost "nat (il_Qty l)" k c] by simp
  then show ?case
    using u good_trans [OF _ Cons.IH] by simp
qed simp

lemma good_consume: "good_step s (fst (consumeForCost ord io g cost s))"
proof -
  obtain k c s1 where l: "consume_lines io g cost (sort_key (\<lambda>l. goodWeight (il_ItemID l)) (listGoods ord (io 0) g s)) (2, 0, s) = (k, c, s1)"
    by (metis prod_cases3)
  then have "good_step s s1"
    using good_consume_lines [of s io g cost "sort_key (\<lambda>l. goodWeight (il_ItemID l)) (listGoods ord (io 0) g s)" 2 0] by simp
  then show ?thesis
    using l good_trans [OF _ good_sweep] by (simp add: consumeForCost_def Let_def)
qed

lemma good_take_loot: "good_step s (fst (take_loot io v i n (s, its)))"
  by (simp add: take_loot_def good_take)

lemma good_take_lines: "good_step s (fst (take_lines io v fr ls (s, its)))"
proof (induction ls arbitrary: s its)
  case (Cons l ls)
  show ?case
    using Cons.IH good_trans [OF good_take Cons.IH] by (simp add: take_loot_def Let_def)
qed simp

lemma good_steal: "good_step s (fst (stealLoot ord io v r k s))"
proof -
  define gs where "gs = sort_key (\<lambda>l. - goodWeight (il_ItemID l)) (listGoods ord (io 0) v s)"
  obtain s1 its where l: "take_lines io v (loot_fraction r k) gs (s, []) = (s1, its)"
    by (cases "take_lines io v (loot_fraction r k) gs (s, [])")
  then have 1: "good_step s s1"
    using good_take_lines [of s io v "loot_fraction r k" gs "[]"] by simp
  define w where "w = (if loot_total its = 0 \<and> gs \<noteq> [] then take_loot io v (il_ItemID (hd gs)) 1 (s1, its) else (s1, its))"
  have "good_step s1 (fst w)"
    by (simp add: w_def good_take_loot)
  then have "good_step s (sweepGoods (io 1) v (fst w))"
    using 1 good_trans good_sweep by blast
  moreover have "fst (stealLoot ord io v r k s) = sweepGoods (io 1) v (fst w)"
    using l by (simp add: stealLoot_def Let_def case_prod_beta w_def flip: gs_def)
  ultimately show ?thesis by simp
qed

lemma good_give: "good_step s (give_loot io k a its s)"
proof (induction its arbitrary: k s)
  case (Cons i its)
  show ?case
    using good_trans [OF good_add Cons.IH] by simp
qed simp

lemma good_transfer: "good_step s (fst (transferLoot ord io io' v a r k s))"
  using good_trans [OF good_steal [of s ord io v r k] good_give [of _ io' 0 a "snd (snd (stealLoot ord io v r k s))"]]
  by (simp add: transferLoot_def case_prod_beta)

lemma good_log_attack: "good_step s (log_attack f now a an v w d s)"
  by (simp add: log_attack_def good_log)

section \<open>The rules\<close>

lemma small: "0 \<le> i \<Longrightarrow> i \<le> 2 ^ 40 \<Longrightarrow> wrap64 i = i" for i :: int
  by (simp add: wrap64_id in_int64_def)

lemma rest_sess:
  assumes "sess_ok g (c, s)"
  shows "sess_ok g (fst (rest x g (c, s)))"
proof -
  define day where "day = tn_DayIndex (turn_of (i_io x ''LoadTurn'' 0) g s)"
  define c1 where "c1 = (if ch_RestDay c \<noteq> day then c\<lparr>ch_RestDay := day, ch_RestsToday := 0\<rparr> else c)"
  have c: "char_ok c"
    using assms by (simp add: sess_ok_def)
  have 1: "sess_ok g (c1, s)"
    using c by (intro sess_char [OF assms]) (auto simp: c1_def char_ok_def fixed_def restsPerDay_def)
  then have c1: "char_ok c1"
    by (simp add: sess_ok_def)
  define hp where "hp = wrap64 (ch_HP c1 + go_quo (wrap64 (ch_MaxHP c1 * 30)) 100)"
  have m: "0 \<le> ch_MaxHP c1" "ch_MaxHP c1 \<le> 2 ^ 31" "1 \<le> ch_HP c1" "ch_HP c1 \<le> 2 ^ 31"
    using c1 by (simp_all add: char_ok_def)
  have "wrap64 (ch_MaxHP c1 * 30) = ch_MaxHP c1 * 30"
    using m by (intro small) simp_all
  moreover have "0 \<le> ch_MaxHP c1 * 30 div 100" "ch_MaxHP c1 * 30 div 100 \<le> ch_MaxHP c1"
    using m(1) zdiv_mono1 [of "ch_MaxHP c1 * 30" "ch_MaxHP c1 * 100" 100] by simp_all
  ultimately have hp: "1 \<le> hp"
    using m by (simp add: hp_def go_quo_nonneg small)
  define c2 where "c2 = c1\<lparr>ch_RestsToday := wrap64 (ch_RestsToday c1 + 1), ch_HP := if hp > ch_MaxHP c1 then ch_MaxHP c1 else hp\<rparr>"
  have "sess_ok g (c2, s)" if "ch_RestsToday c1 < restsPerDay"
    using c1 hp that by (intro sess_char [OF 1]) (auto simp: c2_def char_ok_def fixed_def small restsPerDay_def)
  then have "sess_ok g (c2, fst (saveChar f c2 s))" if "ch_RestsToday c1 < restsPerDay" for f
    using that save_sess by blast
  then show ?thesis
    using 1 unfolding rest_def Let_def prod.case day_def [symmetric] c1_def [symmetric] hp_def [symmetric] c2_def [symmetric]
    by (simp add: not_le)
qed

lemma heal_ok: "char_ok c \<Longrightarrow> char_ok (c\<lparr>ch_HP := ch_MaxHP c\<rparr>)"
  by (simp add: char_ok_def)

lemma bonesetter_sess:
  assumes "sess_ok g (c, s)"
  shows "sess_ok g (fst (bonesetter ord x g (c, s)))"
proof -
  have s1: "sess_ok g (c, fst (consumeForCost ord io g v s))" for io v
    using assms good_consume by (rule sess_step)
  have s2: "sess_ok g (c, fst (CreateObligation io' now a d k t w (fst (consumeForCost ord io g v s))))" for io io' now a d k t w v
    using s1 good_ops(2) by (rule sess_step)
  have heal: "sess_ok g (c\<lparr>ch_HP := ch_MaxHP c\<rparr>, fst (saveChar f (c\<lparr>ch_HP := ch_MaxHP c\<rparr>) t))" if "sess_ok g (c, t)" for f t
    using that by (intro save_sess sess_char [OF that]) (auto simp: sess_ok_def heal_ok fixed_def)
  show ?thesis
    using assms heal [OF s1] heal [OF s2] by (auto simp: bonesetter_def Let_def)
qed

lemma struck_bounds:
  assumes "char_ok c" and "0 \<le> def" "def \<le> 2 ^ 32" and "cr = creatureForBand b r0 k0"
  shows "ch_HP (struck def (ch_HP c) cr c r k) < ch_HP c" "fixed (struck def (ch_HP c) cr c r k) = fixed c"
    "0 < ch_HP (struck def (ch_HP c) cr c r k) \<Longrightarrow> char_ok (struck def (ch_HP c) cr c r k)"
    "char_ok ((struck def (ch_HP c) cr c r k)\<lparr>ch_HP := 1\<rparr>)"
proof -
  note cr = creature_bounds [of b r0 k0, folded assms(4)]
  have "1 \<le> fst (Damage (cr_Strength cr) def 0 r k)" "fst (Damage (cr_Strength cr) def 0 r k) \<le> 2 ^ 42"
    using Damage_pos [of "cr_Strength cr" "def" 0 r k] cr assms(2,3) by simp_all
  then have hp: "ch_HP (struck def (ch_HP c) cr c r k) = ch_HP c - fst (Damage (cr_Strength cr) def 0 r k)"
      "ch_HP (struck def (ch_HP c) cr c r k) < ch_HP c"
    using assms(1) by (auto simp: struck_def char_ok_def wrap64_id in_int64_def)
  show "ch_HP (struck def (ch_HP c) cr c r k) < ch_HP c" "fixed (struck def (ch_HP c) cr c r k) = fixed c"
    using hp by (simp_all add: struck_def fixed_def)
  show "0 < ch_HP (struck def (ch_HP c) cr c r k) \<Longrightarrow> char_ok (struck def (ch_HP c) cr c r k)"
    "char_ok ((struck def (ch_HP c) cr c r k)\<lparr>ch_HP := 1\<rparr>)"
    using hp(2) assms(1) by (auto simp: struck_def char_ok_def)
qed

lemma die_good: "good_step s (die x g cr b s)"
  by (simp add: die_def good_ops(1))

lemma fight_loop_sess:
  assumes "sess_ok g cs" and "0 \<le> def" "def \<le> 2 ^ 32" and "cr = creatureForBand b r0 k0"
    and "fight_loop g cr band atk def y hp cs xs = (res, cs', y', ys)"
  shows "sess_ok g cs'"
  using assms(1,5)
proof (induction xs arbitrary: y hp cs)
  case (Cons x xs)
  obtain c s where cs: "cs = (c, s)" by (cases cs)
  have c: "char_ok c"
    using Cons.prems(1) by (simp add: sess_ok_def cs)
  note st = struck_bounds [OF c assms(2,3,4)]
  have alive: "sess_ok g (struck def (ch_HP c) cr c r k, s)" if "0 < ch_HP (struck def (ch_HP c) cr c r k)" for r k
    using Cons.prems(1) st(3) [OF that] st(2) unfolding cs by (rule sess_char)
  have dead: "sess_ok g ((struck def (ch_HP c) cr c r k)\<lparr>ch_HP := 1\<rparr>, die x g cr band s)" for r k
    by (rule sess_step [OF sess_char [OF Cons.prems(1) [unfolded cs] st(4)] die_good]) (use st(2) in \<open>simp add: fixed_def struck_def\<close>)
  show ?case
    using Cons.prems(2) Cons.prems(1) alive dead unfolding cs
    by (auto simp: Let_def not_le split: if_splits intro: Cons.IH)
qed simp

lemma powers_ok:
  assumes "char_ok c"
  shows "0 \<le> wrap64 (ch_Strength c + itemBonus (ch_Weapon c))" "wrap64 (ch_Strength c + itemBonus (ch_Weapon c)) \<le> 2 ^ 32"
    "0 \<le> wrap64 (ch_Defense c + itemBonus (ch_Armor c))" "wrap64 (ch_Defense c + itemBonus (ch_Armor c)) \<le> 2 ^ 32"
  using assms itemBonus_bounds [of "ch_Weapon c"] itemBonus_bounds [of "ch_Armor c"] by (simp_all add: char_ok_def small)

lemma tn_nonneg:
  assumes "game_ok s"
  shows "0 \<le> tn_Actions (turn_of f g s)"
proof -
  have "0 \<le> tn_Actions t" if "t \<in> set (g_turns s)" for t
    using assms that by (simp add: game_ok_def eng_wf_def)
  then show ?thesis
    by (auto simp: turn_of_def LoadTurn_def Turn.truncate_def split: option.split dest: find_Some_D)
qed

lemma explore_sess:
  assumes "sess_ok g (c, s)"
  shows "sess_ok g (fst (explore x g deep (c, s) xs))"
proof -
  obtain s0 e where s0: "SpendActions (i_io x ''SpendActions'' 0) g 1 s = (s0, e)"
    by (cases "SpendActions (i_io x ''SpendActions'' 0) g 1 s")
  then have 0: "sess_ok g (c, s0)"
    using sess_step [OF assms good_ops(4) [of 1 s "i_io x ''SpendActions'' 0" g]] by simp
  show ?thesis
  proof (cases e)
    case (Some err)
    then show ?thesis using s0 0 by (simp add: explore_def)
  next
    case None
    define band where "band = (if deep then if wrap64 (ch_DepthRecord c + 1) < 2 then 2 else wrap64 (ch_DepthRecord c + 1) else 1)"
    define cr where "cr = creatureForBand band (i_rng x) 0"
    obtain res c1 s1 y ys where f: "fight g cr band x (c, s0) xs = (res, (c1, s1), y, ys)"
      by (metis prod_cases4 surj_pair)
    have "sess_ok g (c1, s1)"
      using fight_loop_sess [OF 0 _ _ cr_def f [unfolded fight_def Let_def]] powers_ok 0 by (simp add: sess_ok_def)
    then have 2: "sess_ok g (c1\<lparr>ch_Blooded := b\<rparr>, s1)" "sess_ok g (c1\<lparr>ch_Blooded := b, ch_DepthRecord := d\<rparr>, s1)"
      "sess_ok g (c1\<lparr>ch_Blooded := b, ch_DeadDay := d\<rparr>, s1)" for b d
      by (auto simp: sess_ok_def char_ok_def fixed_eq)
    note add = sess_step [OF _ good_add] and save = save_sess
    have spend: "sess_ok g (c', fst (SpendActions f g (tn_Actions (turn_of f' g s1)) t))" if "sess_ok g (c', t)" for c' t f f'
      using that 2(1) by (intro sess_step [OF that good_ops(4)] tn_nonneg) (simp add: sess_ok_def)
    show ?thesis
      using f s0 None unfolding explore_def
      by (cases res) (auto simp: Let_def addGood_def simp flip: band_def cr_def intro!: save add spend 2)
  qed
qed

lemma gear_good: "good_step s (s\<lparr>k_chars := upd_where (\<lambda>r. ch_GlobalID r = g) (\<lambda>r. r\<lparr>ch_Weapon := w, ch_Armor := a\<rparr>) (k_chars s)\<rparr>)"
proof -
  have "map ch_GlobalID (upd_where (\<lambda>r. ch_GlobalID r = g) (\<lambda>r. r\<lparr>ch_Weapon := w, ch_Armor := a\<rparr>) (k_chars s)) = map ch_GlobalID (k_chars s)"
    "map fixed (upd_where (\<lambda>r. ch_GlobalID r = g) (\<lambda>r. r\<lparr>ch_Weapon := w, ch_Armor := a\<rparr>) (k_chars s)) = map fixed (k_chars s)"
    by (rule map_upd_where, simp add: fixed_def)+
  then show ?thesis
    by (auto simp: good_step_def game_ok_def eng_wf_def table_simps char_ok_def)
qed

lemma buy_sess:
  assumes "sess_ok g (c, s)"
  shows "sess_ok g (fst (buy ord x g w (c, s)))"
proof -
  obtain s1 n where s1: "consumeForCost ord (i_io x ''consumeForCost'') g (wa_Price w) s = (s1, n)"
    by (cases "consumeForCost ord (i_io x ''consumeForCost'') g (wa_Price w) s")
  then have 1: "sess_ok g (c, s1)"
    using sess_step [OF assms good_consume, of ord "i_io x ''consumeForCost''" g "wa_Price w"] by simp
  have 2: "sess_ok g (c, fst (CreateObligation io now a d k t v s1))" for io now a d k t v
    using 1 good_ops(2) by (rule sess_step)
  have gear: "sess_ok g (c\<lparr>ch_Weapon := p\<rparr>, t)" "sess_ok g (c\<lparr>ch_Armor := p\<rparr>, t)" if "sess_ok g (c, t)" for p t
    using that by (auto simp: sess_ok_def char_ok_def fixed_eq)
  note equip = sess_step [OF _ gear_good]
  show ?thesis
    using s1 1 2 by (auto simp: buy_def Let_def intro!: equip gear)
qed

lemma payDebt_good: "good_step s (fst (payDebt ord x g s))"
proof -
  have "good_step s (fst (PayDebt io' now g (snd (consumeForCost ord io g v s)) (fst (consumeForCost ord io g v s))))" for io' now io v
    using good_consume good_ops(3) by (rule good_trans)
  then show ?thesis
    by (simp add: payDebt_def Let_def case_prod_beta)
qed

lemma trade_sess: "sess_ok g cs \<Longrightarrow> sess_ok g (fst (trade ord g cs xs))"
proof (induction xs arbitrary: cs)
  case (Cons x xs)
  obtain c s where cs: "cs = (c, s)" by (cases cs)
  have "sess_ok g (fst (buy ord x g w cs))" for w
    using Cons.prems buy_sess cs by simp
  moreover have "sess_ok g (fst cs, fst (payDebt ord x g (snd cs)))"
    using sess_step [OF Cons.prems [unfolded cs] payDebt_good] cs by simp
  ultimately show ?case
    using Cons by (simp split: option.split)
qed simp

end
