(* ===== verification/Game_Invariant.thy ===== *)
theory Game_Invariant
  imports Game_Safety Fed_Sync
begin

text \<open>
  The invariant of a whole session, and of the fight as a loop: attacks on other players, the menus and
  the journey, and the proof that a fight which is fought is decided.
\<close>

section \<open>Attacks\<close>

definition fighter_ok :: "fighter \<Rightarrow> bool" where
  "fighter_ok f \<longleftrightarrow> 0 \<le> ft_Atk f \<and> ft_Atk f \<le> 2 ^ 32 \<and> 0 \<le> ft_Def f \<and> ft_Def f \<le> 2 ^ 32"

lemma fighter_of_ok: "char_ok c \<Longrightarrow> fighter_ok (fighter_of c)"
  using powers_ok by (simp add: fighter_ok_def fighter_of_def)

text \<open>The rounds only take hit points away.\<close>

lemma pvp_rounds_le:
  assumes "fighter_ok a" "fighter_ok v" and "aHP \<le> 2 ^ 31" "vHP \<le> 2 ^ 31" "0 < aHP" "0 < vHP"
    and "pvp_rounds a v r k n aHP vHP = (aHP', vHP', won)"
  shows "aHP' \<le> aHP \<and> vHP' \<le> vHP"
  using assms(3-)
proof (induction n arbitrary: k aHP vHP)
  case (Suc n)
  let ?d = "fst (Damage (ft_Atk a) (ft_Def v) (ft_Luck a) r k)" and ?d' = "fst (Damage (ft_Atk v) (ft_Def a) (ft_Luck v) r (k + 2))"
  have d: "1 \<le> ?d" "?d \<le> 2 ^ 42" "1 \<le> ?d'" "?d' \<le> 2 ^ 42"
    using assms(1,2) Damage_pos unfolding fighter_ok_def by blast+
  then have w: "wrap64 (vHP - ?d) = vHP - ?d" "wrap64 (aHP - ?d') = aHP - ?d'"
    using Suc.prems by (auto intro!: wrap64_id simp: in_int64_def)
  show ?case
  proof (cases "0 < vHP - ?d \<and> 0 < aHP - ?d'")
    case True
    then have "pvp_rounds a v r (k + 4) n (aHP - ?d') (vHP - ?d) = (aHP', vHP', won)"
      using Suc.prems(5) w by (simp add: Let_def)
    then show ?thesis
      using Suc.IH [of "aHP - ?d'" "vHP - ?d" "k + 4"] True d Suc.prems by simp
  next
    case False
    then show ?thesis
      using Suc.prems w d by (auto simp: Let_def split: if_splits)
  qed
qed simp

lemma capped_ok:
  "char_ok c \<Longrightarrow> hp \<le> ch_HP c \<Longrightarrow> char_ok (c\<lparr>ch_HP := if hp < 1 then 1 else hp\<rparr>)"
  by (auto simp: char_ok_def)

lemma loadChar_row: "loadChar f g s = Inr c \<Longrightarrow> c \<in> set (k_chars s) \<and> ch_GlobalID c = g"
  by (auto simp: loadChar_def split: if_splits option.splits dest: find_Some_D)

lemma loaded_sess: "game_ok s \<Longrightarrow> loadChar f g s = Inr c \<Longrightarrow> sess_ok g (c, s)"
  using loadChar_row [of f g s c] by (auto simp: sess_ok_def game_ok_def)

lemma hp_sess:
  assumes "sess_ok g (c, s)" and "hp \<le> ch_HP c"
  shows "sess_ok g (c\<lparr>ch_HP := if hp < 1 then 1 else hp\<rparr>, s)"
  by (rule sess_char [OF assms(1)]) (use assms in \<open>simp_all add: sess_ok_def fixed_def capped_ok del: if_split\<close>)

lemma resolvePvP_sess:
  assumes "sess_ok (p_GlobalID p) (c, s)"
  shows "sess_ok (p_GlobalID p) (fst (resolvePvP ord x p v (c, s) xs))"
proof -
  let ?g = "p_GlobalID p"
  obtain s0 e where s0: "SpendAttack (i_io x ''SpendAttack'' 0) ?g s = (s0, e)"
    by (cases "SpendAttack (i_io x ''SpendAttack'' 0) ?g s")
  then have 0: "sess_ok ?g (c, s0)"
    using sess_step [OF assms good_ops(5) [of s "i_io x ''SpendAttack'' 0" ?g]] by simp
  show ?thesis
  proof (cases "e = None \<and> (\<exists>vc. loadChar (i_io x ''loadChar'' 0) (p_GlobalID v) s0 = Inr vc)")
    case False
    then show ?thesis
      using s0 0 by (cases "loadChar (i_io x ''loadChar'' 0) (p_GlobalID v) s0"; cases e) (simp_all add: resolvePvP_def)
  next
    case True
    then obtain vc where vc: "loadChar (i_io x ''loadChar'' 0) (p_GlobalID v) s0 = Inr vc" by blast
    have ok: "game_ok s0" "char_ok c"
      using 0 by (simp_all add: sess_ok_def)
    have V: "sess_ok (p_GlobalID v) (vc, s0)"
      using loaded_sess [OF ok(1) vc] .
    then have vok: "char_ok vc"
      by (simp add: sess_ok_def)
    obtain aHP vHP won where o: "pvp_outcome (fighter_of c) (fighter_of vc) (i_rng x) (ch_HP c) (ch_MaxHP c) (ch_HP vc) (ch_MaxHP vc)
        = (aHP, vHP, won)"
      by (metis prod_cases3)
    then have le: "aHP \<le> ch_HP c" "vHP \<le> ch_HP vc"
      using pvp_rounds_le [OF fighter_of_ok [OF ok(2)] fighter_of_ok [OF vok], of "ch_HP c" "ch_HP vc" "i_rng x" 0 30] ok(2) vok
      by (auto simp: pvp_outcome_def char_ok_def split: prod.splits)
    define c1 where "c1 = c\<lparr>ch_HP := if aHP < 1 then 1 else aHP\<rparr>"
    define vc1 where "vc1 = vc\<lparr>ch_HP := if vHP < 1 then 1 else vHP\<rparr>"
    define s1 where "s1 = fst (saveChar (i_io x ''saveChar'' 0) c1 s0)"
    define s2 where "s2 = fst (saveChar (i_io x ''saveChar'' 1) vc1 s1)"
    have 1: "sess_ok ?g (c1, s0)" "good_step s0 s1"
      using hp_sess [OF 0 le(1)] save_good by (simp_all add: c1_def s1_def)
    have "sess_ok (p_GlobalID v) (vc1, s1)"
      unfolding vc1_def by (rule sess_step [OF hp_sess [OF V le(2)] 1(2)])
    then have 2: "good_step s1 s2"
      by (simp add: s2_def save_good)
    obtain s3 d its where s3: "(if won then transferLoot ord (i_io x ''stealLoot'') (i_io x ''addGoods'') (p_GlobalID v) ?g (i_rng x) 120 s2
        else (s2, ''nothing'', [])) = (s3, d, its)"
      by (metis prod_cases3)
    then have 3: "good_step s2 s3"
      using good_transfer [of s2 ord "i_io x ''stealLoot''" "i_io x ''addGoods''" "p_GlobalID v" ?g "i_rng x" 120] by (auto split: if_splits)
    have "good_step s3 (fst (Emit f now ty b (log_attack f' now' a an u w l s3)))" for f now ty b f' now' a an u w l
      using good_log_attack good_ops(1) by (rule good_trans)
    then have "good_step s0 (fst (Emit f now ty b (log_attack f' now' a an u w l s3)))" for f now ty b f' now' a an u w l
      by (rule good_trans [OF good_trans [OF good_trans [OF 1(2) 2] 3]])
    then have "sess_ok ?g (c1, fst (Emit f now ty b (log_attack f' now' a an u w l s3)))" for f now ty b f' now' a an u w l
      using 1(1) sess_step by blast
    then show ?thesis
      using s0 True vc o s3 by (cases won) (simp_all add: resolvePvP_def Let_def del: One_nat_def flip: c1_def vc1_def s1_def s2_def)
  qed
qed

lemma resolvePvPRemote_good: "good_step s (fst (fst (resolvePvPRemote f x p v c (s, h) xs)))"
proof (cases f)
  case (Some f')
  obtain s0 e where s0: "SpendAttack (i_io x ''SpendAttack'' 0) (p_GlobalID p) s = (s0, e)"
    by (cases "SpendAttack (i_io x ''SpendAttack'' 0) (p_GlobalID p) s")
  then have 0: "good_step s s0"
    using good_ops(5) [of s "i_io x ''SpendAttack'' 0" "p_GlobalID p"] by simp
  then show ?thesis
    using s0 Some good_trans [OF 0 good_log_attack] by (simp add: resolvePvPRemote_def split: option.split prod.split bool.split)
qed (simp add: resolvePvPRemote_def)

lemma attack_loop_sess:
  "sess_ok (p_GlobalID p) (c, s) \<Longrightarrow> attack_loop ord f n p os (c, s, h) xs = ((c1, s1, h1), ys, m) \<Longrightarrow> sess_ok (p_GlobalID p) (c1, s1)"
proof (induction xs)
  case (Cons x xs)
  note stay = Cons.IH [OF Cons.prems(1)]
  have local: "sess_ok (p_GlobalID p) (c2, s2)" if "resolvePvP ord x p v (c, s) xs = ((c2, s2), ys', m')" for v c2 s2 ys' m'
    using resolvePvP_sess [OF Cons.prems(1), of ord x v xs] that by simp
  have remote: "sess_ok (p_GlobalID p) (c, s2)" if "resolvePvPRemote f x p v c (s, h) xs = ((s2, h2), ys', m')" for v s2 h2 ys' m'
    using sess_step [OF Cons.prems(1) resolvePvPRemote_good, of f x p v c h xs] that by simp
  show ?case
    using Cons.prems stay local remote by (auto split: option.splits if_splits prod.splits)
qed simp

lemma attackMenu_sess:
  assumes "sess_ok (p_GlobalID p) (c, s)" and "attackMenu ord f n p x (c, s, h) xs = ((c1, s1, h1), ys, m)"
  shows "sess_ok (p_GlobalID p) (c1, s1)"
  using assms attack_loop_sess by (auto simp: attackMenu_def split: sum.splits list.splits)

section \<open>Sessions\<close>

definition world_ok :: "string \<Rightarrow> 'h sess \<Rightarrow> bool" where
  "world_ok g w \<longleftrightarrow> sess_ok g (fst w, fst (snd w))"

lemma low_key_ok:
  assumes "world_ok (x_gid X) w" and "low_key X x w xs = Some (w1, ys)"
  shows "world_ok (x_gid X) w1"
proof -
  obtain c s h where w: "w = (c, s, h)" by (metis prod_cases3)
  have ok: "sess_ok (p_GlobalID (x_Player X)) (c, s)"
    using assms(1) w by (simp add: world_ok_def x_gid_def)
  have ex: "sess_ok (p_GlobalID (x_Player X)) r" if "explore x (p_GlobalID (x_Player X)) b (c, s) xs = (r, zs, n)" for b r zs n
    using explore_sess [OF ok, of x b xs] that by simp
  have tr: "sess_ok (p_GlobalID (x_Player X)) r" if "trade (x_Order X) (p_GlobalID (x_Player X)) (c, s) xs = (r, zs, n)" for r zs n
    using trade_sess [OF ok, of "x_Order X" xs] that by simp
  have re: "sess_ok (p_GlobalID (x_Player X)) r" if "fst (rest x (p_GlobalID (x_Player X)) (c, s)) = r" for r
    using rest_sess [OF ok, of x] that by simp
  have bo: "sess_ok (p_GlobalID (x_Player X)) r" if "fst (bonesetter (x_Order X) x (p_GlobalID (x_Player X)) (c, s)) = r" for r
    using bonesetter_sess [OF ok, of "x_Order X" x] that by simp
  have at: "sess_ok (p_GlobalID (x_Player X)) (c1, s1)"
    if "attackMenu (x_Order X) (x_CrossNodeAttack X) (x_NodeID X) (x_Player X) x (c, s, h) xs = ((c1, s1, h1), zs, n)" for c1 s1 h1 zs n
    using attackMenu_sess [OF ok that] .
  show ?thesis
    using assms(2) ok unfolding w
    by (auto simp: low_key_def Let_def world_ok_def x_gid_def split: if_splits prod.splits dest: ex tr re bo at)
qed

lemma theLow_ok: "world_ok (x_gid X) w \<Longrightarrow> world_ok (x_gid X) (fst (theLow X w xs))"
proof (induction X w xs rule: theLow.induct)
  case (2 X w x xs)
  then show ?case
    by (cases "low_key X x w xs") (auto dest: low_key_ok)
qed simp

lemma NewCharacter_ok: "game_ok s \<Longrightarrow> game_ok (fst (NewCharacter f g s))"
proof -
  have "char_ok (new_char g)" "ch_GlobalID (new_char g) = g"
    by (simp_all add: new_char_def char_ok_def restsPerDay_def)
  moreover have "eng_wf (s\<lparr>k_chars := cs\<rparr>) = eng_wf s" for cs
    by (simp add: eng_wf_def)
  ultimately show "game_ok s \<Longrightarrow> game_ok (fst (NewCharacter f g s))"
    by (auto simp: NewCharacter_def game_ok_def)
qed

text \<open>What a session relies on of the link to other nodes: starting a journey keeps the tables in order.\<close>

locale travel_link =
  fixes X :: "('c, 'h) Context"
  assumes travel_good: "x_Travel X = Some f \<Longrightarrow> good_step s (fst (fst (f cl now io g d (s, h))))"
begin

lemma call_good: "good_step (fst w) (fst (fst (call_travel X x d w)))"
  using travel_good by (cases w) (auto simp: call_travel_def split: option.split)

lemma travel_loop_good: "good_step (fst w) (fst (fst (travel_loop X nodes w xs)))"
proof (induction xs arbitrary: w)
  case (Cons x xs)
  have "good_step (fst w) (fst w1)" if "call_travel X x d w = (w1, b)" for d w1 b
    using call_good [of w x d] that by simp
  then show ?case
    using Cons.IH good_trans by (auto split: option.split prod.split) blast+
qed simp

lemma departScreen_good: "good_step (fst w) (fst (fst (departScreen X w xs)))"
proof (induction xs arbitrary: w)
  case (Cons x xs)
  have "good_step (fst w) (fst w1)" if "call_travel X x d w = (w1, b)" for d w1 b
    using call_good [of w x d] that by simp
  then show ?case
    using Cons.IH good_trans by (auto split: prod.split) blast+
qed simp

lemma travelScreen_good: "good_step (fst w) (fst (fst (travelScreen X x w xs)))"
  by (simp add: travelScreen_def Let_def travel_loop_good departScreen_good)

lemma threshold_ok: "world_ok (x_gid X) w \<Longrightarrow> world_ok (x_gid X) (threshold X w xs)"
proof (induction "length xs" arbitrary: w xs rule: less_induct)
  case less
  show ?case
  proof (cases xs)
    case (Cons x ys)
    obtain w1 zs where low: "theLow X w ys = (w1, zs)" by (cases "theLow X w ys")
    obtain sh us where tr: "travelScreen X x (snd w) ys = (sh, us)" by (cases "travelScreen X x (snd w) ys")
    have 1: "world_ok (x_gid X) w1" "length zs < length xs"
      using theLow_ok [OF less.prems, of ys] theLow_keys [of X w ys] low Cons by simp_all
    have "good_step (fst (snd w)) (fst sh)"
      using travelScreen_good [of "snd w" x ys] tr by simp
    then have 2: "world_ok (x_gid X) (fst w, sh)" "length us < length xs"
      using less.prems sess_step travelScreen_keys [OF tr] Cons by (auto simp: world_ok_def)
    have 3: "length ys < length xs" "length (tl ys) < length xs"
      using Cons by simp_all
    show ?thesis
      using less.hyps [OF 1(2) 1(1)] less.hyps [OF 2(2) 2(1)] less.hyps [OF 3(1) less.prems] less.hyps [OF 3(2) less.prems] less.prems low tr
      by (simp add: Cons Let_def)
  qed (use less.prems in simp)
qed

lemma load_or_new_ok:
  assumes "game_ok s" and "load_or_new x0 g s = (s1, r)"
  shows "game_ok s1" "r = Inr c \<Longrightarrow> sess_ok g (c, s1)"
proof -
  have new: "game_ok s2" if "NewCharacter f g s = (s2, None)" for f s2
    using NewCharacter_ok [OF assms(1), of f g] that by simp
  have err: "game_ok s2" if "NewCharacter f g s = (s2, Some e)" for f s2 e
    using NewCharacter_ok [OF assms(1), of f g] that by simp
  show 1: "game_ok s1"
    using assms new err by (auto simp: load_or_new_def split: sum.splits prod.splits option.splits)
  show "sess_ok g (c, s1)" if "r = Inr c"
  proof -
    have "\<exists>f. loadChar f g s1 = Inr c"
      using assms(2) that by (auto simp: load_or_new_def split: sum.splits prod.splits option.splits)
    then show ?thesis
      using loaded_sess [OF 1] by blast
  qed
qed

lemma wake_up_ok:
  assumes "sess_ok g (c, s)"
  shows "sess_ok g (wake_up zone x0 g (c, s))"
proof -
  obtain s1 b r where s1: "ResetIfNewDay zone (i_io x0 ''ResetIfNewDay'') (i_now x0) g s = (s1, b, r)"
    by (metis prod_cases3)
  have 1: "sess_ok g (c, s1)"
    using sess_step [OF assms good_ops(7)] s1 by (metis fst_conv)
  have "sess_ok g (c\<lparr>ch_HP := ch_MaxHP c\<rparr>, s1)"
    using 1 by (intro sess_char [OF 1]) (auto simp: sess_ok_def heal_ok fixed_def)
  then show ?thesis
    using s1 1 save_sess by (cases b) (auto simp: wake_up_def Let_def)
qed

lemma arrive_ok:
  assumes "sess_ok g (c, s)"
  shows "sess_ok g (fst (arrive x0 (c, s) xs))"
proof -
  have "sess_ok g (c\<lparr>ch_TutorialDone := True\<rparr>, s)"
    by (rule sess_char [OF assms]) (use assms in \<open>auto simp: sess_ok_def char_ok_def fixed_def\<close>)
  then show ?thesis
    using assms save_sess by (auto simp: arrive_def Let_def)
qed

lemma inbox_good: "good_step s (fst (showPvpInbox x g s xs))"
  by (simp add: showPvpInbox_def good_log)

text \<open>A session keeps the tables in order, whatever is pressed and whatever fails.\<close>

lemma run_keeps:
  assumes "game_ok s"
  shows "game_ok (fst (fst (Game_Run zone X x0 (s, h) xs)))"
proof -
  obtain s1 r where l: "load_or_new x0 (x_gid X) s = (s1, r)"
    by (cases "load_or_new x0 (x_gid X) s")
  note ok = load_or_new_ok [OF assms l]
  show ?thesis
  proof (cases r)
    case (Inl e)
    then show ?thesis using l ok(1) by (simp add: Game_Run_def)
  next
    case (Inr c)
    obtain c2 s2 ys where a: "arrive x0 (wake_up zone x0 (x_gid X) (c, s1)) xs = ((c2, s2), ys)"
      by (metis surj_pair)
    obtain c0 s0 where wu: "wake_up zone x0 (x_gid X) (c, s1) = (c0, s0)"
      by (cases "wake_up zone x0 (x_gid X) (c, s1)")
    have "sess_ok (x_gid X) (c2, s2)"
      using wake_up_ok [OF ok(2) [OF Inr], of zone x0] arrive_ok [of "x_gid X" c0 s0 x0 xs] a wu by simp
    moreover obtain s3 zs where i: "showPvpInbox x0 (x_gid X) s2 ys = (s3, zs)"
      by (cases "showPvpInbox x0 (x_gid X) s2 ys")
    ultimately have "world_ok (x_gid X) (c2, s3, h)"
      using sess_step [OF _ inbox_good] by (metis fst_conv snd_conv world_ok_def)
    then have "world_ok (x_gid X) (threshold X (c2, s3, h) zs)"
      by (rule threshold_ok)
    then show ?thesis
      using l Inr a i by (simp add: Game_Run_def world_ok_def sess_ok_def case_prod_beta)
  qed
qed

end

section \<open>Fights end\<close>

lemma strikes_decide:
  assumes "0 \<le> atk" "atk \<le> 2 ^ 32" "0 \<le> def" "def \<le> 2 ^ 32" and "cr = creatureForBand b r0 k0"
    and "char_ok c" "1 \<le> hp" "hp \<le> int n" "hp \<le> 2 ^ 31" "n \<le> length xs" "list_all (\<lambda>x. is_key (i_key x) CHR ''a'' CHR ''A'') (take n xs)"
    and "fight_loop g cr band atk def y hp (c, s) xs = (res, cs', y', ys)"
  shows "res \<noteq> fightFled \<and> length xs \<le> length ys + n"
  using assms(6-)
proof (induction n arbitrary: c s hp xs y)
  case (Suc n)
  obtain x xs' where xs: "xs = x # xs'" "is_key (i_key x) CHR ''a'' CHR ''A''"
    using Suc.prems(5,6) by (cases xs) simp_all
  let ?d = "fst (Damage atk (cr_Defense cr) (ch_Luck c) (i_rng x) 0)"
  have "1 \<le> ?d" "?d \<le> 2 ^ 42"
    using Damage_pos [of atk "cr_Defense cr" "ch_Luck c" "i_rng x" 0] assms(1,2) creature_bounds(5,6) [of b r0 k0, folded assms(5)]
    by simp_all
  then have w: "wrap64 (hp - ?d) = hp - ?d" "hp - ?d \<le> int n" "hp - ?d \<le> 2 ^ 31"
    using Suc.prems(2-4) by (auto simp: wrap64_id in_int64_def)
  let ?c = "struck def (ch_HP c) cr c (i_rng x) 2"
  note st = struck_bounds [OF Suc.prems(1) assms(3,4,5), of "i_rng x" 2]
  show ?case
  proof (cases "hp - ?d \<le> 0 \<or> ch_HP ?c \<le> 0")
    case True
    then show ?thesis
      using Suc.prems(7) w(1) xs by (auto simp: Let_def split: if_splits)
  next
    case False
    then have rec: "fight_loop g cr band atk def x (hp - ?d) (?c, s) xs' = (res, cs', y', ys)"
      using Suc.prems(7) w(1) xs by (auto simp: Let_def)
    have ok: "char_ok ?c" "1 \<le> hp - ?d" "n \<le> length xs'" "list_all (\<lambda>x. is_key (i_key x) CHR ''a'' CHR ''A'') (take n xs')"
      using False st(3) Suc.prems(5,6) xs(1) by simp_all
    show ?thesis
      using Suc.IH [OF ok(1,2) w(2,3) ok(3,4) rec] xs(1) by simp
  qed
qed simp

text \<open>C19: fights end. A player who keeps striking settles the fight, by the creature's death or their own,
  within as many strikes as the creature has hit points, of which no creature has more than 52; only
  fleeing or leaving the terminal ends it otherwise.\<close>

theorem fight_decided:
  assumes "char_ok c" and "cr = creatureForBand b r0 k0" and "nat (cr_HP cr) \<le> length xs"
    and "list_all (\<lambda>x. is_key (i_key x) CHR ''a'' CHR ''A'') (take (nat (cr_HP cr)) xs)"
    and "fight g cr band y (c, s) xs = (res, cs', y', ys)"
  shows "res \<noteq> fightFled \<and> length xs \<le> length ys + 52"
proof -
  note cr = creature_bounds(1,2) [of b r0 k0, folded assms(2)] and pw = powers_ok [OF assms(1)]
  have "1 \<le> cr_HP cr" "cr_HP cr \<le> int (nat (cr_HP cr))" "cr_HP cr \<le> 2 ^ 31"
    using cr by simp_all
  from strikes_decide [OF pw assms(2,1) this assms(3,4) assms(5) [unfolded fight_def Let_def fst_conv]]
  show ?thesis
    using cr by linarith
qed

end
