(* ===== verification/Fed_Loop.thy ===== *)
theory Fed_Loop
  imports Fed_Safety
begin

text \<open>
  The invariant of the sync loop and the contract its handlers and hooks owe it, stated as the locale
  \<open>sync_hooks\<close>; the node's own handlers and hooks are shown to meet it where they are defined.
\<close>

section \<open>The invariant\<close>

text \<open>Every own event up to the push cursor is in the feed.\<close>

definition pushed_ok :: "string \<Rightarrow> 'a eng_scheme \<Rightarrow> hub \<Rightarrow> bool" where
  "pushed_ok n s h \<longleftrightarrow> (\<forall>e \<in> set (g_events s). v_SourceNode e = n \<and> v_Seq e \<le> y_last_pushed (g_sync s)
     \<longrightarrow> v_EventID e \<in> set (feed_ids h))"

text \<open>Every foreign feed entry up to the pull cursor is stored.\<close>

definition pulled_ok :: "string \<Rightarrow> 'a eng_scheme \<Rightarrow> hub \<Rightarrow> bool" where
  "pulled_ok n s h \<longleftrightarrow> (\<forall>x \<in> set (h_events h). e_SourceNode (snd x) \<noteq> n \<and> fst x \<le> y_hub_cursor (g_sync s)
     \<longrightarrow> e_EventID (snd x) \<in> v_EventID ` set (g_events s))"

definition cursors_ok :: "string \<Rightarrow> 'a eng_scheme \<Rightarrow> hub \<Rightarrow> bool" where
  "cursors_ok n s h \<longleftrightarrow> y_last_pushed (g_sync s) \<le> g_seq s \<and> in_int64 (y_hub_cursor (g_sync s)) \<and> y_hub_cursor (g_sync s) \<le> h_evseq h
     \<and> (\<forall>e \<in> set (g_events s). v_SourceNode e = n \<longrightarrow> v_Seq e \<le> g_seq s)"

definition sync_inv :: "(string \<Rightarrow> nat list) \<Rightarrow> Client \<Rightarrow> string \<Rightarrow> 'a world \<Rightarrow> bool" where
  "sync_inv sha c n w \<longleftrightarrow> (case w of (s, h) \<Rightarrow> g_nodeID s = n \<and> hub_inv h \<and> key_of sha c n h
     \<and> cursors_ok n s h \<and> pushed_ok n s h \<and> pulled_ok n s h)"

text \<open>The calls of a tick: other clients are honest, and the hub hashes keys with \<open>sha\<close>.\<close>

definition calls_ok :: "(string \<Rightarrow> nat list) \<Rightarrow> tick_io \<Rightarrow> bool" where
  "calls_ok sha t \<longleftrightarrow> (\<forall>nm k. honest (cl_pre (ti_net t nm k)) \<and> v_sha256 (cl_env (ti_net t nm k)) = sha)"

lemma sync_grows:
  assumes "sync_inv sha c n (s, h)" and "grows h g"
  shows "sync_inv sha c n (s, g)"
proof -
  obtain new where new: "h_events g = h_events h @ new" "\<forall>p \<in> set new. h_evseq h < fst p"
    using assms(2) by (auto simp: grows_def)
  have "pulled_ok n s g"
    using assms(1) new by (fastforce simp: sync_inv_def pulled_ok_def cursors_ok_def)
  moreover have "pushed_ok n s g" "cursors_ok n s g"
    using assms new(1) by (auto simp: sync_inv_def pushed_ok_def cursors_ok_def grows_def)
  ultimately show ?thesis
    using assms key_of_grows by (auto simp: sync_inv_def grows_def)
qed

lemma sync_ext:
  assumes "sync_inv sha c n (s, h)" and "store_ext s t"
  shows "sync_inv sha c n (t, h)"
proof -
  obtain es where es: "g_events t = g_events s @ es"
      "\<forall>e \<in> set es. v_SourceNode e = n \<longrightarrow> g_seq s < v_Seq e \<and> v_Seq e \<le> g_seq t" "g_sync t = g_sync s" "g_seq s \<le> g_seq t"
    using assms by (auto simp: store_ext_def sync_inv_def)
  have "pushed_ok n t h"
    using assms(1) es by (fastforce simp: sync_inv_def pushed_ok_def cursors_ok_def)
  moreover have "cursors_ok n t h"
    using assms(1) es by (fastforce simp: sync_inv_def cursors_ok_def)
  moreover have "pulled_ok n t h"
    using assms(1) es by (auto simp: sync_inv_def pulled_ok_def image_Un)
  ultimately show ?thesis
    using assms by (auto simp: sync_inv_def store_ext_def)
qed

text \<open>How the world may change outside pushing and pulling: the store and the hub both only grow.\<close>

definition world_ext :: "'a world \<Rightarrow> 'a world \<Rightarrow> bool" where
  "world_ext w v \<longleftrightarrow> store_ext (fst w) (fst v) \<and> grows (snd w) (snd v)"

lemma world_refl: "hub_inv (snd w) \<Longrightarrow> world_ext w w"
  by (simp add: world_ext_def grows_refl)

lemma world_trans: "world_ext u v \<Longrightarrow> world_ext v w \<Longrightarrow> world_ext u w"
  unfolding world_ext_def using store_ext_trans grows_trans by blast

lemma world_grows: "world_ext w (s, h) \<Longrightarrow> grows h g \<Longrightarrow> world_ext w (s, g)"
  unfolding world_ext_def using grows_trans by auto

lemma world_more: "world_ext w (s, h) \<Longrightarrow> store_ext s t \<Longrightarrow> world_ext w (t, h)"
  unfolding world_ext_def using store_ext_trans by auto

lemma sync_world: "sync_inv sha c n w \<Longrightarrow> world_ext w v \<Longrightarrow> sync_inv sha c n v"
  unfolding world_ext_def using sync_grows sync_ext by (metis prod.collapse)

lemma and_then_inv:
  assumes "P (fst r)" and "\<And>w. P w \<Longrightarrow> P (fst (f w))"
  shows "P (fst (and_then r f))"
  using assms by (auto simp: and_then_def split: prod.split option.split)

section \<open>Pushing\<close>

lemma sorted_le_last: "sorted xs \<Longrightarrow> x \<in> set xs \<Longrightarrow> x \<le> last xs" for xs :: "int list"
proof (induction xs)
  case (Cons y ys)
  then show ?case by (cases "ys = []") auto
qed simp

lemma EventsSince_Inr:
  assumes "EventsSince f n a s = Inr out" and "out \<noteq> []"
  shows "set out = {e \<in> set (g_events s). v_SourceNode e = n \<and> a < v_Seq e}" "\<forall>e \<in> set out. v_Seq e \<le> v_Seq (last out)"
proof -
  have out: "out = sort_key v_Seq (filter (\<lambda>e. v_SourceNode e = n \<and> a < v_Seq e) (g_events s))"
    using assms(1) by (simp add: EventsSince_def split: if_splits)
  show "set out = {e \<in> set (g_events s). v_SourceNode e = n \<and> a < v_Seq e}"
    by (simp add: out)
  have "sorted (map v_Seq out)"
    by (simp add: out)
  then have "\<forall>x \<in> set (map v_Seq out). x \<le> last (map v_Seq out)"
    using sorted_le_last by blast
  then show "\<forall>e \<in> set out. v_Seq e \<le> v_Seq (last out)"
    using assms(2) by (simp add: last_map)
qed

lemma tick_push_inv:
  assumes "sync_inv sha c n w" and "calls_ok sha t" and "sy_Client S = c" "sy_NodeID S = n"
    and "a = y_last_pushed (g_sync (fst w))"
  shows "sync_inv sha c n (fst (tick_push S t a w)) \<and>
    y_hub_cursor (g_sync (fst (fst (tick_push S t a w)))) = y_hub_cursor (g_sync (fst w))"
proof -
  obtain s h where w: "w = (s, h)" by (cases w)
  have inv: "sync_inv sha c n (s, h)"
    using assms(1) w by simp
  show ?thesis
  proof (cases "\<exists>out h1 r. EventsSince (ti_db t ''EventsSince'' 0) n a s = Inr out \<and> out \<noteq> []
      \<and> Client_Push (ti_net t ''push'' 0) c out h = (h1, r)")
    case True
    then obtain out h1 r where out: "EventsSince (ti_db t ''EventsSince'' 0) n a s = Inr out" "out \<noteq> []"
        "Client_Push (ti_net t ''push'' 0) c out h = (h1, r)"
      by blast
    have "grows h h1"
      using client_grows(2) [of "ti_net t ''push'' 0" h c out] assms(2) inv out(3) by (simp add: calls_ok_def sync_inv_def)
    then have inv1: "sync_inv sha c n (s, h1)"
      by (rule sync_grows [OF inv])
    show ?thesis
    proof (cases "\<exists>x. r = Inr x \<and> \<not> ti_db t ''SetPushCursor'' 0")
      case False
      then have "fst (tick_push S t a w) = (s, h1)"
        using out assms(3,4) w by (auto simp: tick_push_def SetPushCursor_def split: sum.split)
      then show ?thesis using inv1 w by simp
    next
      case True
      let ?s = "s\<lparr>g_sync := (g_sync s)\<lparr>y_last_pushed := v_Seq (last out)\<rparr>\<rparr>"
      have res: "fst (tick_push S t a w) = (?s, h1)"
        using True out assms(3,4) w by (auto simp: tick_push_def SetPushCursor_def)
      note o = EventsSince_Inr [OF out(1,2)]
      have ids: "v_EventID ` set out \<subseteq> set (feed_ids h1)"
        using True out(3) Client_Push_ok by blast
      have "pushed_ok n ?s h1"
        unfolding pushed_ok_def
      proof (intro ballI impI)
        fix e assume e: "e \<in> set (g_events ?s)" "v_SourceNode e = n \<and> v_Seq e \<le> y_last_pushed (g_sync ?s)"
        show "v_EventID e \<in> set (feed_ids h1)"
        proof (cases "a < v_Seq e")
          case True
          then have "e \<in> set out" using e o(1) by simp
          then show ?thesis using ids by blast
        next
          case False
          then show ?thesis
            using e inv1 assms(5) w by (simp add: sync_inv_def pushed_ok_def)
        qed
      qed
      moreover have "last out \<in> set out"
        using out(2) by simp
      then have "cursors_ok n ?s h1"
        using inv1 o(1) by (simp add: sync_inv_def cursors_ok_def)
      moreover have "pulled_ok n ?s h1"
        using inv1 by (simp add: sync_inv_def pulled_ok_def)
      ultimately show ?thesis
        using inv1 res w by (simp add: sync_inv_def)
    qed
  next
    case False
    then have "fst (tick_push S t a w) = (s, h)"
      using assms(3,4) w
      by (cases "EventsSince (ti_db t ''EventsSince'' 0) n a s") (auto simp: tick_push_def split: prod.splits)
    then show ?thesis using inv w by simp
  qed
qed

section \<open>Pulling\<close>

text \<open>The pulled events from position c on: in increasing order, and nothing visible up to the last of
  them is left out.\<close>

definition covers :: "string \<Rightarrow> hub \<Rightarrow> int \<Rightarrow> Pulled list \<Rightarrow> bool" where
  "covers n h c ps \<longleftrightarrow> sorted_wrt (<) (map pl_HubSeq ps)
     \<and> (\<forall>p \<in> set ps. c < pl_HubSeq p \<and> in_int64 (pl_HubSeq p) \<and> pl_HubSeq p \<le> h_evseq h \<and> v_SourceNode (pl_Event p) \<noteq> n)
     \<and> (\<forall>x \<in> set (visible n h). c < fst x \<longrightarrow> (\<exists>p \<in> set ps. of_feed p x) \<or> (\<forall>p \<in> set ps. pl_HubSeq p < fst x))"

lemma covers_Cons:
  assumes "covers n h c (p # ps)"
  shows "covers n h (pl_HubSeq p) ps" "c < pl_HubSeq p" "in_int64 (pl_HubSeq p) \<and> pl_HubSeq p \<le> h_evseq h" "v_SourceNode (pl_Event p) \<noteq> n"
    "\<And>x. x \<in> set (visible n h) \<Longrightarrow> c < fst x \<Longrightarrow> fst x \<le> pl_HubSeq p \<Longrightarrow> of_feed p x"
proof -
  have lt: "\<forall>q \<in> set ps. pl_HubSeq p < pl_HubSeq q"
    using assms by (simp add: covers_def)
  show "c < pl_HubSeq p" "in_int64 (pl_HubSeq p) \<and> pl_HubSeq p \<le> h_evseq h" "v_SourceNode (pl_Event p) \<noteq> n"
    using assms by (simp_all add: covers_def)
  show "of_feed p x" if "x \<in> set (visible n h)" "c < fst x" "fst x \<le> pl_HubSeq p" for x
    using assms that lt by (fastforce simp: covers_def of_feed_def)
  show "covers n h (pl_HubSeq p) ps"
    using assms lt unfolding covers_def by (fastforce simp: of_feed_def)
qed

lemma sorted_take_later:
  fixes f :: "'x \<Rightarrow> int"
  assumes "sorted_wrt (<) (map f xs)" and "x \<in> set xs" "x \<notin> set (take k xs)" "y \<in> set (take k xs)"
  shows "f y < f x"
proof -
  have "x \<in> set (drop k xs)"
    using assms(2,3) by (metis Un_iff append_take_drop_id set_append)
  moreover have "sorted_wrt (<) (map f (take k xs) @ map f (drop k xs))"
    using assms(1) by (metis append_take_drop_id map_append)
  ultimately show ?thesis
    using assms(4) unfolding sorted_wrt_append by simp
qed

lemma of_feed_seqs: "list_all2 of_feed ps xs \<Longrightarrow> map pl_HubSeq ps = map fst xs"
  by (induction rule: list_all2_induct) (simp_all add: of_feed_def)

lemma of_feed_rel:
  "list_all2 of_feed ps xs \<Longrightarrow> (\<forall>p \<in> set ps. \<exists>x \<in> set xs. of_feed p x) \<and> (\<forall>x \<in> set xs. \<exists>p \<in> set ps. of_feed p x)"
  by (induction rule: list_all2_induct) auto

lemma page_covers:
  assumes "hub_inv h" and "list_all2 of_feed ps (feed_page limit n c h)" and "n \<noteq> []"
  shows "covers n h c ps"
proof -
  let ?page = "feed_page limit n c h"
  have wf: "feed_wf h"
    using assms(1) by (simp add: hub_inv_defs)
  obtain k where k: "?page = take k (filter (\<lambda>x. c < fst x) (visible n h))"
    using hubpull.page_prefix [OF wf] by blast
  have srt: "sorted_wrt (<) (map fst (filter (\<lambda>x. c < fst x) (visible n h)))"
    using feed_sorted_visible [OF wf, of n] by (simp add: sorted_wrt_map sorted_wrt_filter)
  have seqs: "map pl_HubSeq ps = map fst ?page"
    using assms(2) by (rule of_feed_seqs)
  have rel: "\<forall>p \<in> set ps. \<exists>x \<in> set ?page. of_feed p x" "\<forall>x \<in> set ?page. \<exists>p \<in> set ps. of_feed p x"
    using of_feed_rel [OF assms(2)] by simp_all
  have page: "x \<in> set (visible n h) \<and> c < fst x" if "x \<in> set ?page" for x
    using that hubpull.page_sound [OF wf, of limit n c] by auto
  have later: "fst y < fst x" if "x \<in> set (filter (\<lambda>x. c < fst x) (visible n h))" "x \<notin> set ?page" "y \<in> set ?page" for x y
    using sorted_take_later [OF srt that(1)] that(2,3) unfolding k by blast
  have "sorted_wrt (<) (map pl_HubSeq ps)"
    using srt unfolding seqs by (simp add: k sorted_wrt_take flip: take_map)
  moreover have "c < pl_HubSeq p \<and> in_int64 (pl_HubSeq p) \<and> pl_HubSeq p \<le> h_evseq h \<and> v_SourceNode (pl_Event p) \<noteq> n" if p: "p \<in> set ps" for p
  proof -
    obtain x where x: "x \<in> set ?page" "of_feed p x"
      using rel(1) p by blast
    have "x \<in> set (h_events h)" "e_SourceNode (snd x) \<noteq> n" "c < fst x"
      using page [OF x(1)] assms(3) by (auto simp: visible_def)
    then show ?thesis
      using x(2) wf by (auto simp: of_feed_def feed_wf_def)
  qed
  moreover have "(\<exists>p \<in> set ps. of_feed p x) \<or> (\<forall>p \<in> set ps. pl_HubSeq p < fst x)"
    if x: "x \<in> set (visible n h)" "c < fst x" for x
  proof (cases "x \<in> set ?page")
    case True
    then show ?thesis using rel(2) by blast
  next
    case False
    have "pl_HubSeq p < fst x" if "p \<in> set ps" for p
      using rel(1) that later [OF _ False] x by (auto simp: of_feed_def)
    then show ?thesis by blast
  qed
  ultimately show ?thesis
    unfolding covers_def by blast
qed

text \<open>The first half of a tick, up to the pull; the second half only adds to the world.\<close>

definition pulls :: "'a eng_scheme Syncer \<Rightarrow> tick_io \<Rightarrow> 'a world \<Rightarrow> 'a world \<times> fed_err option" where
  "pulls S t w =
     and_then (tick_heartbeat S t w) (\<lambda>w.
       case SyncState (ti_db t ''SyncState'' 0) (fst w) of
         Inl e \<Rightarrow> (w, Some (FStore e))
       | Inr (hubCursor, lastPushed, _) \<Rightarrow>
           and_then (tick_push S t lastPushed w) (tick_pull S t hubCursor))"

lemma and_then_assoc: "and_then (and_then r f) g = and_then r (\<lambda>w. and_then (f w) g)"
  by (simp add: and_then_def split: prod.split option.split)

lemma and_then_err [simp]: "and_then (w, Some e) f = (w, Some e)"
  by (simp add: and_then_def)

lemma Tick_halves:
  "Tick S t w = and_then (pulls S t w) (\<lambda>w. and_then (tick_pvp S t w) (\<lambda>w. and_then (tick_travel S t w) (tick_roster S t)))"
  unfolding Tick_def pulls_def and_then_assoc
  by (intro arg_cong [where f = "and_then (tick_heartbeat S t w)"] ext)
    (simp add: and_then_err and_then_assoc split: sum.split)

text \<open>The contract of the handlers and hooks of a syncer.\<close>

locale sync_hooks =
  fixes S :: "'a eng_scheme Syncer"
  assumes handlers_ext: "hd' \<in> set (sy_Handlers S ty) \<Longrightarrow> store_ext s (fst (hd' io e s))"
    and pvp_ext: "sy_PvPResolve S = Some f \<Longrightarrow> store_ext s (fst (f env i a v p s))"
    and travel_ext: "sy_TravelImport S = Some g \<Longrightarrow> store_ext s (fst (g env snap x y s))"
begin

lemma apply_pulled_inv:
  assumes "sync_inv sha c n (s, h)" and "covers n h (y_hub_cursor (g_sync s)) ps"
  shows "sync_inv sha c n (fst (apply_pulled S t k ps s), h)"
  using assms
proof (induction ps arbitrary: k s)
  case (Cons p ps)
  note cov = covers_Cons [OF Cons.prems(2)]
  obtain s1 b r where ap: "ApplyEvent (sy_Handlers S) (ti_apply t k) (ti_now t) (pl_Event p) s = (s1, b, r)"
    by (metis prod_cases3)
  have nid: "g_nodeID s = n"
    using Cons.prems(1) by (simp add: sync_inv_def)
  have ext: "store_ext s s1"
    using ApplyEvent_ext [of "sy_Handlers S" "pl_Event p" s "ti_apply t k" "ti_now t"] handlers_ext cov(4) nid ap by simp
  have inv1: "sync_inv sha c n (s1, h)"
    by (rule sync_ext [OF Cons.prems(1) ext])
  show ?case
  proof (cases "r = None \<and> \<not> ti_db t ''SetHubCursor'' k")
    case False
    then show ?thesis
      using ap inv1 by (auto simp: SetHubCursor_def split: option.split)
  next
    case True
    let ?s = "s1\<lparr>g_sync := (g_sync s1)\<lparr>y_hub_cursor := pl_HubSeq p\<rparr>\<rparr>"
    have stored: "v_EventID (pl_Event p) \<in> v_EventID ` set (g_events s1)"
      using ApplyEvent_stored [of "sy_Handlers S" "pl_Event p"] handlers_ext ap True by blast
    have sync: "g_sync s1 = g_sync s"
      using ext by (simp add: store_ext_def)
    have "pulled_ok n ?s h"
      unfolding pulled_ok_def
    proof (intro ballI impI)
      fix x assume x: "x \<in> set (h_events h)" "e_SourceNode (snd x) \<noteq> n \<and> fst x \<le> y_hub_cursor (g_sync ?s)"
      show "e_EventID (snd x) \<in> v_EventID ` set (g_events ?s)"
      proof (cases "y_hub_cursor (g_sync s) < fst x")
        case True
        then have "of_feed p x"
          using x by (intro cov(5)) (simp_all add: visible_def)
        then show ?thesis using stored by (simp add: of_feed_def)
      next
        case False
        then show ?thesis
          using inv1 x sync by (simp add: sync_inv_def pulled_ok_def)
      qed
    qed
    moreover have "cursors_ok n ?s h" "pushed_ok n ?s h"
      using inv1 cov(2,3) sync by (auto simp: sync_inv_def cursors_ok_def pushed_ok_def)
    ultimately have "sync_inv sha c n (?s, h)"
      using inv1 by (simp add: sync_inv_def)
    moreover have "covers n h (y_hub_cursor (g_sync ?s)) ps"
      using cov(1) by simp
    ultimately have "sync_inv sha c n (fst (apply_pulled S t (Suc k) ps ?s), h)"
      by (rule Cons.IH)
    then show ?thesis
      using ap True by (simp add: SetHubCursor_def)
  qed
qed simp

lemma tick_pull_inv:
  assumes "sync_inv sha c n w" and "calls_ok sha t" and "sy_Client S = c"
    and "a = y_hub_cursor (g_sync (fst w))"
  shows "sync_inv sha c n (fst (tick_pull S t a w))"
proof -
  obtain s h where w: "w = (s, h)" by (cases w)
  let ?cl = "ti_net t ''pull'' 0"
  obtain h1 r where cp: "Client_Pull ?cl c a True h = (h1, r)"
    by (cases "Client_Pull ?cl c a True h")
  have inv: "sync_inv sha c n (s, h)" and call: "honest (cl_pre ?cl)" "v_sha256 (cl_env ?cl) = sha"
    using assms(1,2) w by (simp_all add: calls_ok_def)
  have pre: "grows h (cl_pre ?cl h)"
    using inv call(1) by (simp add: honest_def sync_inv_def)
  have inv1: "sync_inv sha c n (s, h1)"
    using client_grows(3) [OF call(1), of h c a True] inv cp by (intro sync_grows [OF inv]) (simp add: sync_inv_def)
  show ?thesis
  proof (cases r)
    case (Inl e)
    then show ?thesis using cp inv1 assms(3) w by (simp add: tick_pull_def)
  next
    case (Inr x)
    then obtain ps hs where x: "Client_Pull ?cl c a True h = (h1, Inr (ps, hs))"
      using cp by (cases x) simp
    have key: "key_of (v_sha256 (cl_env ?cl)) c n (cl_pre ?cl h)" "hub_inv (cl_pre ?cl h)" "in_int64 a" "n \<noteq> []"
      using sync_grows [OF inv pre] call(2) inv assms(4) w by (auto simp: sync_inv_def cursors_ok_def key_of_def)
    note ok = Client_Pull_ok [OF x key(3,1,2)]
    have "covers n h1 a ps"
      using page_covers [OF _ ok(2) key(4)] key(2) ok(1) by simp
    then have "sync_inv sha c n (fst (apply_pulled S t 0 ps s), h1)"
      using assms(4) w by (intro apply_pulled_inv [OF inv1]) simp
    then show ?thesis
      using x assms(3) w by (cases "apply_pulled S t 0 ps s") (simp add: tick_pull_def)
  qed
qed

lemma drain_pvp_ext:
  assumes "world_ext w0 w" and "calls_ok sha t" and "sy_PvPResolve S = Some f"
  shows "world_ext w0 (drain_pvp c t f k qs w)"
  using assms(1)
proof (induction qs arbitrary: k w)
  case (Cons q qs)
  obtain s h where w: "w = (s, h)" by (cases w)
  have call: "honest (cl_pre (ti_net t ''pvp'' k))" and hub: "hub_inv h"
    using assms(2) Cons.prems w by (simp_all add: calls_ok_def world_ext_def grows_def)
  note g = client_grows(5,6) [OF call hub]
  have blocked: "world_ext w0 (s, fst (Client_BlockPvP (ti_net t ''pvp'' k) c i y h))" for i y
    using Cons.prems w by (intro world_grows [OF _ g(2)]) simp
  have res: "world_ext w0 (s1, h) \<and> world_ext w0 (s1, fst (Client_CompletePvP (ti_net t ''pvp'' k) c i h))"
    if "f (ti_hook t ''pvp'' k) i a v p s = (s1, e)" for s1 e i a v p
  proof -
    have "store_ext s s1"
      using pvp_ext [OF assms(3), of s "ti_hook t ''pvp'' k" i a v p] that by simp
    then have "world_ext w0 (s1, h)"
      using Cons.prems w world_more by blast
    then show ?thesis using world_grows [OF _ g(1)] by blast
  qed
  obtain s1 e where f: "f (ti_hook t ''pvp'' k) (pp_RequestID q) (pp_AttackerID q) (pp_VictimID q) (pp_AttackerPayload q) s = (s1, e)"
    by (cases "f (ti_hook t ''pvp'' k) (pp_RequestID q) (pp_AttackerID q) (pp_VictimID q) (pp_AttackerPayload q) s")
  show ?case
    unfolding drain_pvp.simps w
    by (rule Cons.IH) (cases e; cases "rawObject (pp_AttackerPayload q)"; simp add: f blocked res [OF f])
qed simp

lemma drain_travel_ext:
  assumes "world_ext w0 w" and "calls_ok sha t" and "sy_TravelImport S = Some f"
  shows "world_ext w0 (drain_travel c t tj f k as w)"
  using assms(1)
proof (induction as arbitrary: k w)
  case (Cons a as)
  obtain s h where w: "w = (s, h)" by (cases w)
  have call: "honest (cl_pre (ti_net t ''travel'' k))" and hub: "hub_inv h"
    using assms(2) Cons.prems w by (simp_all add: calls_ok_def world_ext_def grows_def)
  note g = client_grows(8,9) [OF call hub]
  have blocked: "world_ext w0 (s, fst (Client_BlockTravel (ti_net t ''travel'' k) c i y h))" for i y
    using Cons.prems w by (intro world_grows [OF _ g(2)]) simp
  have res: "world_ext w0 (s1, h) \<and> world_ext w0 (s1, fst (Client_ArriveTravel (ti_net t ''travel'' k) c i h))"
    if "f (ti_hook t ''travel'' k) snap x y s = (s1, e)" for s1 e i snap x y
  proof -
    have "store_ext s s1"
      using travel_ext [OF assms(3), of s "ti_hook t ''travel'' k" snap x y] that by simp
    then have "world_ext w0 (s1, h)"
      using Cons.prems w world_more by blast
    then show ?thesis using world_grows [OF _ g(1)] by blast
  qed
  obtain snap ok where d: "dec_Snapshot tj (raw_json (tp_Snapshot a)) = (snap, ok)"
    by (cases "dec_Snapshot tj (raw_json (tp_Snapshot a))")
  obtain s1 e where f: "f (ti_hook t ''travel'' k) snap (tp_FromNode a) (tp_DestNode a) s = (s1, e)"
    by (cases "f (ti_hook t ''travel'' k) snap (tp_FromNode a) (tp_DestNode a) s")
  show ?case
    unfolding drain_travel.simps w
    by (rule Cons.IH) (cases e; cases "rawObject (tp_Snapshot a)"; cases ok; simp add: d f blocked res [OF f])
qed simp

lemma tick_heartbeat_ext:
  assumes "world_ext w0 w" and "calls_ok sha t" and "sy_Client S = c"
  shows "world_ext w0 (fst (tick_heartbeat S t w))" "fst (fst (tick_heartbeat S t w)) = fst w"
proof -
  obtain s h where w: "w = (s, h)" by (cases w)
  have "grows h (fst (Client_Heartbeat (ti_net t ''heartbeat'' 0) c i p u v h))" for i p u v
    using assms(1,2) w by (intro client_grows(1)) (simp_all add: calls_ok_def world_ext_def grows_def)
  then have "world_ext w0 (s, fst (Client_Heartbeat (ti_net t ''heartbeat'' 0) c i p u v h))" for i p u v
    using assms(1) w world_grows by blast
  then have "world_ext w0 (s, h1)" if "Client_Heartbeat (ti_net t ''heartbeat'' 0) c i p u v h = (h1, r)" for i p u v h1 r
    using that by (metis fst_conv)
  then show "world_ext w0 (fst (tick_heartbeat S t w))" "fst (fst (tick_heartbeat S t w)) = fst w"
    using assms(3) w by (auto simp: tick_heartbeat_def Let_def split: prod.split option.split)
qed

lemma tick_pvp_ext:
  assumes "world_ext w0 w" and "calls_ok sha t" and "sy_Client S = c"
  shows "world_ext w0 (fst (tick_pvp S t w))"
proof (cases "sy_PvPResolve S")
  case None
  then show ?thesis using assms(1) by (simp add: tick_pvp_def)
next
  case (Some f)
  obtain s h where w: "w = (s, h)" by (cases w)
  obtain h1 r where p: "Client_PendingPvP (ti_net t ''pending_pvp'' 0) c h = (h1, r)"
    by (cases "Client_PendingPvP (ti_net t ''pending_pvp'' 0) c h")
  have "grows h h1"
    using client_grows(4) [of "ti_net t ''pending_pvp'' 0" h c] assms(1,2) w p by (simp add: calls_ok_def world_ext_def grows_def)
  then have "world_ext w0 (s, h1)"
    using assms(1) w world_grows by blast
  then show ?thesis
    using Some p w assms(2,3) drain_pvp_ext by (cases r) (simp_all add: tick_pvp_def)
qed

lemma tick_travel_ext:
  assumes "world_ext w0 w" and "calls_ok sha t" and "sy_Client S = c"
  shows "world_ext w0 (fst (tick_travel S t w))"
proof (cases "sy_TravelImport S")
  case None
  then show ?thesis using assms(1) by (simp add: tick_travel_def)
next
  case (Some f)
  obtain s h where w: "w = (s, h)" by (cases w)
  obtain h1 r where p: "Client_PendingTravel (ti_net t ''pending_travel'' 0) c h = (h1, r)"
    by (cases "Client_PendingTravel (ti_net t ''pending_travel'' 0) c h")
  have "grows h h1"
    using client_grows(7) [of "ti_net t ''pending_travel'' 0" h c] assms(1,2) w p by (simp add: calls_ok_def world_ext_def grows_def)
  then have "world_ext w0 (s, h1)"
    using assms(1) w world_grows by blast
  then show ?thesis
    using Some p w assms(2,3) drain_travel_ext by (cases r) (simp_all add: tick_travel_def)
qed

lemma UpsertRemoteRoster_ext: "store_ext s (fst (UpsertRemoteRoster io es s))"
  by (auto simp: UpsertRemoteRoster_def store_ext_frame split: option.split)

lemma tick_roster_ext:
  assumes "world_ext w0 w" and "calls_ok sha t" and "sy_Client S = c"
  shows "world_ext w0 (fst (tick_roster S t w))"
proof -
  obtain s h where w: "w = (s, h)" by (cases w)
  have call: "honest (cl_pre (ti_net t nm k))" for nm k
    using assms(2) by (simp add: calls_ok_def)
  have inv: "world_ext w0 (s, h)" "hub_inv h"
    using assms(1) w by (simp_all add: world_ext_def grows_def)
  have 1: "world_ext w0 (s, h1) \<and> hub_inv h1" if "Client_PushRoster (ti_net t ''push_roster'' 0) c ps h = (h1, r)" for ps h1 r
    using client_grows(10) [OF call inv(2), of "''push_roster''" 0 c ps] world_grows [OF inv(1)] that by (auto simp: grows_def)
  have 2: "world_ext w0 (s, h2)" if "Client_PullRoster (ti_net t ''pull_roster'' 0) c h1 = (h2, r)" "world_ext w0 (s, h1) \<and> hub_inv h1"
    for h1 h2 r
    using client_grows(11) [OF call, of h1 "''pull_roster''" 0 c] world_grows [of w0 s h1] that by auto
  have 3: "world_ext w0 (s1, h2)" if "UpsertRemoteRoster io es s = (s1, e)" "world_ext w0 (s, h2)" for io es s1 e h2
    using UpsertRemoteRoster_ext [of s io es] world_more [of w0 s h2] that by auto
  obtain h1 r where p1: "Client_PushRoster (ti_net t ''push_roster'' 0) c (case LocalPlayers (ti_db t ''LocalPlayers'' 1) s of Inl _ \<Rightarrow> [] | Inr l \<Rightarrow> l) h = (h1, r)"
    by fastforce
  obtain h2 r2 where p2: "Client_PullRoster (ti_net t ''pull_roster'' 0) c h1 = (h2, r2)"
    by (cases "Client_PullRoster (ti_net t ''pull_roster'' 0) c h1")
  obtain s1 e where p3: "UpsertRemoteRoster (he_io (ti_hook t ''roster'' 0)) (case r2 of Inl _ \<Rightarrow> [] | Inr l \<Rightarrow> l) s = (s1, e)"
    by fastforce
  note 1 = 1 [OF p1]
  note 2 = 2 [OF p2 1]
  show ?thesis
    using p1 p2 p3 1 2 3 [OF p3 2] inv(1) assms(3) w
    by (cases "LocalPlayers (ti_db t ''LocalPlayers'' 1) s"; cases r; cases r2) (simp_all add: tick_roster_def)
qed

lemma world_inv:
  assumes "sync_inv sha c n w" and "\<And>w0. world_ext w0 w \<Longrightarrow> world_ext w0 v"
  shows "sync_inv sha c n v"
proof -
  have "hub_inv (snd w)"
    using assms(1) by (cases w) (simp add: sync_inv_def)
  then show ?thesis
    by (rule sync_world [OF assms(1) assms(2) [OF world_refl]])
qed

lemma tick_heartbeat_inv:
  assumes "sync_inv sha c n w" and "calls_ok sha t" and "sy_Client S = c"
  shows "sync_inv sha c n (fst (tick_heartbeat S t w))" "fst (fst (tick_heartbeat S t w)) = fst w"
proof -
  have hub: "hub_inv (snd w)"
    using assms(1) by (cases w) (simp add: sync_inv_def)
  show "fst (fst (tick_heartbeat S t w)) = fst w"
    by (rule tick_heartbeat_ext(2) [OF world_refl [OF hub] assms(2,3)])
  show "sync_inv sha c n (fst (tick_heartbeat S t w))"
    by (rule world_inv [OF assms(1) tick_heartbeat_ext(1) [OF _ assms(2,3)]])
qed

lemma tick_pvp_inv:
  assumes "sync_inv sha c n w" and "calls_ok sha t" and "sy_Client S = c"
  shows "sync_inv sha c n (fst (tick_pvp S t w))"
  by (rule world_inv [OF assms(1) tick_pvp_ext [OF _ assms(2,3)]])

lemma tick_travel_inv:
  assumes "sync_inv sha c n w" and "calls_ok sha t" and "sy_Client S = c"
  shows "sync_inv sha c n (fst (tick_travel S t w))"
  by (rule world_inv [OF assms(1) tick_travel_ext [OF _ assms(2,3)]])

lemma tick_roster_inv:
  assumes "sync_inv sha c n w" and "calls_ok sha t" and "sy_Client S = c"
  shows "sync_inv sha c n (fst (tick_roster S t w))"
  by (rule world_inv [OF assms(1) tick_roster_ext [OF _ assms(2,3)]])

lemma pulls_cases:
  assumes "sync_inv sha c n w" and "calls_ok sha t" and "sy_Client S = c" "sy_NodeID S = n"
  obtains "sync_inv sha c n (fst (pulls S t w))" "fst (fst (pulls S t w)) = fst w" "snd (pulls S t w) \<noteq> None"
      "world_ext w (fst (pulls S t w))"
    | w1 where "tick_heartbeat S t w = (w1, None)" "fst w1 = fst w" "world_ext w w1" "sync_inv sha c n w1"
      "pulls S t w = and_then (tick_push S t (y_last_pushed (g_sync (fst w))) w1) (tick_pull S t (y_hub_cursor (g_sync (fst w))))"
proof -
  have hub: "hub_inv (snd w)"
    using assms(1) by (cases w) (simp add: sync_inv_def)
  obtain w1 r where w1: "tick_heartbeat S t w = (w1, r)"
    by (cases "tick_heartbeat S t w")
  then have ext: "world_ext w w1" "fst w1 = fst w" "sync_inv sha c n w1"
    using tick_heartbeat_ext [OF world_refl [OF hub] assms(2,3)] tick_heartbeat_inv(1) [OF assms(1-3)] by simp_all
  then show ?thesis
    using w1 that by (cases r; cases "ti_db t ''SyncState'' 0") (simp_all add: pulls_def and_then_def [of "(_, _)"] SyncState_def)
qed

text \<open>A tick keeps the invariant, whatever fails in it, and so does any number of ticks.\<close>

lemma pulls_inv:
  assumes "sync_inv sha c n w" and "calls_ok sha t" and "sy_Client S = c" "sy_NodeID S = n"
  shows "sync_inv sha c n (fst (pulls S t w))"
  using assms
proof (cases rule: pulls_cases)
  case (2 w1)
  note push = tick_push_inv [OF 2(4) assms(2-4) refl]
  show ?thesis
    using 2(2,5) push tick_pull_inv [OF _ assms(2,3), of n "fst (tick_push S t (y_last_pushed (g_sync (fst w))) w1)"]
    by (auto simp: and_then_def split: prod.split option.split)
qed

lemma Tick_ext:
  assumes "hub_inv (snd (fst (pulls S t w)))" and "calls_ok sha t" and "sy_Client S = c"
  shows "world_ext (fst (pulls S t w)) (fst (Tick S t w))"
proof -
  let ?P = "world_ext (fst (pulls S t w))"
  have "?P (fst (and_then (tick_travel S t v) (tick_roster S t)))" if "?P v" for v
    using tick_travel_ext [OF that assms(2,3)] tick_roster_ext [OF _ assms(2,3)] by (rule and_then_inv)
  then have "?P (fst (and_then (tick_pvp S t v) (\<lambda>w. and_then (tick_travel S t w) (tick_roster S t))))" if "?P v" for v
    using tick_pvp_ext [OF that assms(2,3)] by (metis (no_types, lifting) and_then_inv)
  then show ?thesis
    unfolding Tick_halves using world_refl [OF assms(1)] by (metis (no_types, lifting) and_then_inv)
qed

lemma Tick_inv:
  assumes "sync_inv sha c n w" and "calls_ok sha t" and "sy_Client S = c" "sy_NodeID S = n"
  shows "sync_inv sha c n (fst (Tick S t w))"
proof -
  have inv: "sync_inv sha c n (fst (pulls S t w))"
    by (rule pulls_inv [OF assms])
  moreover have "hub_inv (snd (fst (pulls S t w)))"
    using inv by (cases "fst (pulls S t w)") (simp add: sync_inv_def)
  ultimately show ?thesis
    using sync_world Tick_ext [OF _ assms(2,3)] by blast
qed

lemma Run_inv:
  assumes "sync_inv sha c n w" and "\<forall>t \<in> set ts. calls_ok sha t" and "sy_Client S = c" "sy_NodeID S = n"
  shows "sync_inv sha c n (Run S ts w)"
  using assms(1,2)
proof (induction ts arbitrary: w)
  case (Cons t ts)
  then have "sync_inv sha c n (fst (Tick S t w))"
    using Tick_inv assms(3,4) by simp
  then show ?case
    using Cons by simp
qed simp

end

end
