(* ===== verification/Fed_Progress.thy ===== *)
theory Fed_Progress
  imports Fed_Loop
begin

text \<open>
  The sync loop catches up: every tick whose pull goes through stores up to 500 of the foreign feed
  entries the node has not read, and no tick, failed or not, ever moves the pull cursor back. The
  measure is the number of foreign entries between the cursor and a fixed position of the feed.
\<close>

section \<open>The measure\<close>

text \<open>The entries node n has still to read, up to position H.\<close>

definition behind :: "int \<Rightarrow> string \<Rightarrow> 'a world \<Rightarrow> nat" where
  "behind H n w = length (filter (\<lambda>x. y_hub_cursor (g_sync (fst w)) < fst x \<and> fst x \<le> H) (visible n (snd w)))"

text \<open>The ticks whose pull goes through.\<close>

fun through :: "'a eng_scheme Syncer \<Rightarrow> tick_io list \<Rightarrow> 'a world \<Rightarrow> nat" where
  "through S [] w = 0"
| "through S (t # ts) w = (if snd (pulls S t w) = None then 1 else 0) + through S ts (fst (Tick S t w))"

text \<open>What the hub adds lies beyond the position.\<close>

lemma behind_grows:
  assumes "grows (snd w) h" and "H \<le> h_evseq (snd w)" and "y_hub_cursor (g_sync s) = y_hub_cursor (g_sync (fst w))"
  shows "behind H n (s, h) = behind H n w"
proof -
  obtain new where "h_events h = h_events (snd w) @ new" "\<forall>p \<in> set new. h_evseq (snd w) < fst p"
    using assms(1) by (auto simp: grows_def)
  moreover from this have "filter (\<lambda>x. c < fst x \<and> fst x \<le> H) (visible n h) = filter (\<lambda>x. c < fst x \<and> fst x \<le> H) (visible n (snd w))" for c
    using assms(2) by (auto simp: visible_def filter_empty_conv)
  ultimately show ?thesis
    using assms(3) by (simp add: behind_def)
qed

lemma behind_ext: "world_ext w v \<Longrightarrow> H \<le> h_evseq (snd w) \<Longrightarrow> behind H n v = behind H n w"
  using behind_grows [of w "snd v" H "fst v" n] by (simp add: world_ext_def store_ext_def)

lemma length_filter_imp: "(\<And>x. P x \<Longrightarrow> Q x) \<Longrightarrow> length (filter P xs) \<le> length (filter Q xs)"
  by (induction xs) (auto simp: le_Suc_eq)

lemma filter_drop_sorted:
  fixes f :: "'x \<Rightarrow> int"
  assumes "sorted_wrt (<) (map f L)"
  shows "length (filter (\<lambda>x. f x \<le> H) (drop k L)) \<le> length (filter (\<lambda>x. f x \<le> H) L) - k"
  using assms
proof (induction L arbitrary: k)
  case (Cons x L)
  show ?case
  proof (cases k)
    case (Suc j)
    have "\<forall>y \<in> set L. H < f y" if "\<not> f x \<le> H"
      using Cons.prems that by fastforce
    then have "filter (\<lambda>x. f x \<le> H) (drop j L) = []" if "\<not> f x \<le> H"
      using that set_drop_subset [of j L] by (fastforce simp: filter_empty_conv)
    moreover have "length (filter (\<lambda>x. f x \<le> H) (drop j L)) \<le> length (filter (\<lambda>x. f x \<le> H) L) - j"
      using Cons by simp
    ultimately show ?thesis
      by (cases "f x \<le> H") (simp_all add: Suc)
  qed simp
qed simp

text \<open>A page of the feed read to its end.\<close>

lemma behind_page:
  assumes "hub_inv h" and "page = feed_page 500 n (y_hub_cursor (g_sync s)) h"
    and "y_hub_cursor (g_sync u) = (if page = [] then y_hub_cursor (g_sync s) else fst (last page))"
  shows "behind H n (u, h) \<le> behind H n (s, h) - 500"
proof -
  let ?a = "y_hub_cursor (g_sync s)" and ?b = "y_hub_cursor (g_sync u)"
  let ?L = "filter (\<lambda>x. ?a < fst x) (visible n h)"
  have wf: "feed_wf h"
    using assms(1) by (simp add: hub_inv_defs)
  have page: "page = take 500 ?L"
    using feed_page_take [OF wf, of 500 n ?a] assms(2) by (simp add: clamp_limit_def)
  have "filter (\<lambda>x. ?b < fst x) (visible n h) = drop 500 ?L"
  proof (cases "page = []")
    case True
    then have "?L = []" using page by simp
    then show ?thesis using True assms(3) by simp
  next
    case False
    have "page @ filter (\<lambda>x. ?b < fst x) (visible n h) = ?L"
      using hubpull.page_then_rest [OF wf, of 500 n ?a] False assms(2,3) by simp
    then have "page @ filter (\<lambda>x. ?b < fst x) (visible n h) = page @ drop 500 ?L"
      unfolding page by (simp only: append_take_drop_id)
    then show ?thesis by (simp only: same_append_eq)
  qed
  then have "filter (\<lambda>x. ?b < fst x \<and> fst x \<le> H) (visible n h) = filter (\<lambda>x. fst x \<le> H) (drop 500 ?L)"
    by (simp flip: filter_filter)
  moreover have "sorted_wrt (<) (map fst ?L)"
    using feed_sorted_visible [OF wf, of n] by (simp add: sorted_wrt_map sorted_wrt_filter)
  ultimately show ?thesis
    using filter_drop_sorted [of fst ?L H 500] by (simp add: behind_def)
qed

section \<open>The pull\<close>

lemma last_seqs:
  assumes "list_all2 of_feed ps xs"
  shows "(if ps = [] then a else pl_HubSeq (last ps)) = (if xs = [] then a else fst (last xs))"
proof -
  have "map pl_HubSeq ps = map fst xs"
    using assms by (rule of_feed_seqs)
  then show ?thesis
    by (metis (no_types, lifting) last_map list.map_disc_iff)
qed

lemma sync_inv_hub: "sync_inv sha c n w \<Longrightarrow> hub_inv (snd w)"
  by (cases w) (simp add: sync_inv_def)

lemma tick_push_grows:
  assumes "hub_inv (snd w)" and "calls_ok sha t" and "sy_Client S = c"
  shows "grows (snd w) (snd (fst (tick_push S t a w)))"
proof -
  obtain s h where w: "w = (s, h)" by (cases w)
  have "grows h (fst (Client_Push (ti_net t ''push'' 0) c es h))" for es
    using client_grows(2) [of "ti_net t ''push'' 0" h c es] assms(1,2) w by (simp add: calls_ok_def)
  then have "grows h h1" if "Client_Push (ti_net t ''push'' 0) c es h = (h1, r)" for es h1 r
    using that by (metis fst_conv)
  then show ?thesis
    using w assms(1,3) by (auto simp: tick_push_def grows_refl SetPushCursor_def split: sum.split prod.split)
qed

lemma tick_pull_grows:
  assumes "hub_inv (snd w)" and "calls_ok sha t" and "sy_Client S = c"
  shows "grows (snd w) (snd (fst (tick_pull S t a w)))"
proof -
  obtain s h where w: "w = (s, h)" by (cases w)
  have "grows h (fst (Client_Pull (ti_net t ''pull'' 0) c a True h))"
    using client_grows(3) [of "ti_net t ''pull'' 0" h c] assms(1,2) w by (simp add: calls_ok_def)
  then show ?thesis
    using w assms(3) by (auto simp: tick_pull_def split: sum.split prod.split)
qed

context sync_hooks begin

lemma apply_pulled_cursor:
  assumes "covers n h (y_hub_cursor (g_sync s)) ps" and "n = g_nodeID s" and "apply_pulled S t k ps s = (u, e)"
  shows "y_hub_cursor (g_sync s) \<le> y_hub_cursor (g_sync u) \<and>
    (e = None \<longrightarrow> y_hub_cursor (g_sync u) = (if ps = [] then y_hub_cursor (g_sync s) else pl_HubSeq (last ps)))"
  using assms
proof (induction ps arbitrary: k s)
  case (Cons p ps)
  note cov = covers_Cons [OF Cons.prems(1)]
  obtain s1 b r where ap: "ApplyEvent (sy_Handlers S) (ti_apply t k) (ti_now t) (pl_Event p) s = (s1, b, r)"
    by (metis prod_cases3)
  have ext: "store_ext s s1"
    using ApplyEvent_ext [of "sy_Handlers S" "pl_Event p" s "ti_apply t k" "ti_now t"] handlers_ext cov(4) Cons.prems(2) ap by simp
  show ?case
  proof (cases "r = None \<and> \<not> ti_db t ''SetHubCursor'' k")
    case False
    then show ?thesis
      using ap ext Cons.prems(3) by (auto simp: SetHubCursor_def store_ext_def split: option.splits)
  next
    case True
    let ?s = "s1\<lparr>g_sync := (g_sync s1)\<lparr>y_hub_cursor := pl_HubSeq p\<rparr>\<rparr>"
    have "apply_pulled S t (Suc k) ps ?s = (u, e)"
      using Cons.prems(3) ap True by (simp add: SetHubCursor_def)
    moreover have "n = g_nodeID ?s"
      using ext Cons.prems(2) by (simp add: store_ext_def)
    ultimately have "y_hub_cursor (g_sync ?s) \<le> y_hub_cursor (g_sync u) \<and>
        (e = None \<longrightarrow> y_hub_cursor (g_sync u) = (if ps = [] then y_hub_cursor (g_sync ?s) else pl_HubSeq (last ps)))"
      using cov(1) by (intro Cons.IH) simp_all
    then show ?thesis
      using cov(2) by auto
  qed
qed simp

lemma tick_pull_behind:
  assumes "sync_inv sha c n (s, h)" and "calls_ok sha t" and "sy_Client S = c" and "H \<le> h_evseq h"
    and "tick_pull S t (y_hub_cursor (g_sync s)) (s, h) = (w1, e)"
  shows "behind H n w1 \<le> behind H n (s, h) - (if e = None then 500 else 0)" "h_evseq h \<le> h_evseq (snd w1)"
proof -
  let ?cl = "ti_net t ''pull'' 0" and ?a = "y_hub_cursor (g_sync s)"
  obtain h1 r where cp: "Client_Pull ?cl c ?a True h = (h1, r)"
    by (cases "Client_Pull ?cl c ?a True h")
  have call: "honest (cl_pre ?cl)" "v_sha256 (cl_env ?cl) = sha" and hub: "hub_inv h"
    using assms(1,2) by (simp_all add: calls_ok_def sync_inv_def)
  have g: "grows h h1"
    using client_grows(3) [OF call(1) hub, of c ?a True] cp by simp
  have same: "behind H n (s, h1) = behind H n (s, h)"
    using behind_grows [of "(s, h)" h1 H s n] g assms(4) by simp
  have "behind H n w1 \<le> behind H n (s, h) - (if e = None then 500 else 0) \<and> snd w1 = h1"
  proof (cases r)
    case (Inl x)
    then show ?thesis using cp assms(3,5) same by (auto simp: tick_pull_def)
  next
    case (Inr x)
    then obtain ps hs where x: "Client_Pull ?cl c ?a True h = (h1, Inr (ps, hs))"
      using cp by (cases x) simp
    obtain u where u: "apply_pulled S t 0 ps s = (u, e)" "w1 = (u, h1)"
      using x assms(3,5) by (auto simp: tick_pull_def split: prod.splits)
    have pre: "grows h (cl_pre ?cl h)"
      using hub call(1) by (simp add: honest_def)
    have key: "key_of (v_sha256 (cl_env ?cl)) c n (cl_pre ?cl h)" "hub_inv (cl_pre ?cl h)" "in_int64 ?a" "n \<noteq> []" "n = g_nodeID s"
      using sync_grows [OF assms(1) pre] call(2) by (auto simp: sync_inv_def cursors_ok_def key_of_def)
    note ok = Client_Pull_ok [OF x key(3,1,2)]
    have cov: "covers n h1 ?a ps"
      using page_covers [OF _ ok(2) key(4)] key(2) ok(1) by simp
    note cur = apply_pulled_cursor [OF cov key(5) u(1)]
    have "behind H n w1 \<le> behind H n (s, h1) - 500" if "e = None"
    proof -
      have "y_hub_cursor (g_sync u) = (if feed_page 500 n ?a h1 = [] then ?a else fst (last (feed_page 500 n ?a h1)))"
        using conjunct2 [OF cur] that last_seqs [OF ok(2), of ?a] by simp
      then show ?thesis
        using behind_page [of h1 "feed_page 500 n ?a h1" n s u H] key(2) ok(1) u(2) by simp
    qed
    moreover have "behind H n w1 \<le> behind H n (s, h1)"
      using conjunct1 [OF cur] u(2) unfolding behind_def
      by (auto intro!: length_filter_imp)
    ultimately show ?thesis
      using same u(2) by simp
  qed
  then show "behind H n w1 \<le> behind H n (s, h) - (if e = None then 500 else 0)" "h_evseq h \<le> h_evseq (snd w1)"
    using g by (auto simp: grows_def)
qed

lemma pulls_grows:
  assumes "sync_inv sha c n w" and "calls_ok sha t" and "sy_Client S = c" "sy_NodeID S = n"
  shows "grows (snd w) (snd (fst (pulls S t w)))"
  using assms
proof (cases rule: pulls_cases)
  case 1
  then show ?thesis by (simp add: world_ext_def)
next
  case (2 w1)
  let ?q = "tick_push S t (y_last_pushed (g_sync (fst w))) w1"
  have 1: "grows (snd w) (snd (fst ?q))"
    using 2(3) tick_push_grows [OF sync_inv_hub [OF 2(4)] assms(2,3)] grows_trans unfolding world_ext_def by blast
  then have hub: "hub_inv (snd (fst ?q))"
    by (simp add: grows_def)
  have 2: "grows (snd w) (snd (fst (tick_pull S t a (fst ?q))))" for a
    by (rule grows_trans [OF 1 tick_pull_grows [OF hub assms(2,3)]])
  obtain v r where q: "?q = (v, r)"
    by (cases ?q)
  show ?thesis
    unfolding \<open>pulls S t w = _\<close> using 1 2 [of "y_hub_cursor (g_sync (fst w))"] by (cases r) (simp_all add: and_then_def q)
qed

lemma pulls_behind:
  assumes "sync_inv sha c n w" and "calls_ok sha t" and "sy_Client S = c" "sy_NodeID S = n" and "H \<le> h_evseq (snd w)"
  shows "behind H n (fst (pulls S t w)) \<le> behind H n w - (if snd (pulls S t w) = None then 500 else 0)
    \<and> H \<le> h_evseq (snd (fst (pulls S t w)))"
  using assms(1-4)
proof (cases rule: pulls_cases)
  case 1
  then show ?thesis
    using behind_ext [OF 1(4) assms(5)] assms(5) by (auto simp: world_ext_def grows_def)
next
  case (2 w1)
  let ?b = "y_hub_cursor (g_sync (fst w))"
  have H1: "H \<le> h_evseq (snd w1)" "behind H n w1 = behind H n w"
    using behind_ext [OF 2(3) assms(5)] assms(5) 2(3) by (auto simp: world_ext_def grows_def)
  obtain s2 h2 e where p: "tick_push S t (y_last_pushed (g_sync (fst w))) w1 = ((s2, h2), e)"
    by (metis prod.exhaust)
  have inv2: "sync_inv sha c n (s2, h2)" "y_hub_cursor (g_sync s2) = ?b"
    using tick_push_inv [OF 2(4) assms(2-4) refl] p 2(2) by simp_all
  have g: "grows (snd w1) h2"
    using tick_push_grows [OF _ assms(2,3)] 2(4) p by (metis fst_conv snd_conv sync_inv_hub)
  have same: "behind H n (s2, h2) = behind H n w" "H \<le> h_evseq h2"
    using behind_grows [OF g H1(1), of s2 n] inv2(2) 2(2) H1 g by (simp_all add: grows_def)
  show ?thesis
  proof (cases e)
    case (Some x)
    then show ?thesis using 2(5) p same by (simp add: and_then_def)
  next
    case None
    obtain w3 e3 where q: "tick_pull S t ?b (s2, h2) = (w3, e3)"
      by (cases "tick_pull S t ?b (s2, h2)")
    then show ?thesis
      using tick_pull_behind [OF inv2(1) assms(2,3) same(2), of w3 e3] inv2(2) same 2(5) p None by (simp add: and_then_def)
  qed
qed

lemma Run_behind:
  assumes "sync_inv sha c n w" and "\<forall>t \<in> set ts. calls_ok sha t" and "sy_Client S = c" "sy_NodeID S = n" and "H \<le> h_evseq (snd w)"
  shows "behind H n (Run S ts w) \<le> behind H n w - 500 * through S ts w"
  using assms(1,2,5)
proof (induction ts arbitrary: w)
  case (Cons t ts)
  have ok: "calls_ok sha t"
    using Cons.prems(2) by simp
  let ?p = "pulls S t w" and ?w = "fst (Tick S t w)"
  note pb = pulls_behind [OF Cons.prems(1) ok assms(3,4) Cons.prems(3)]
  have "hub_inv (snd (fst ?p))"
    using pulls_inv [OF Cons.prems(1) ok assms(3,4)] by (rule sync_inv_hub)
  then have ext: "world_ext (fst ?p) ?w"
    by (rule Tick_ext [OF _ ok assms(3)])
  have "behind H n (Run S ts ?w) \<le> behind H n ?w - 500 * through S ts ?w"
    using Cons.prems pb ext by (intro Cons.IH Tick_inv [OF Cons.prems(1) ok assms(3,4)]) (auto simp: world_ext_def grows_def)
  moreover have "behind H n ?w = behind H n (fst ?p)"
    using behind_ext [OF ext] pb by simp
  ultimately show ?case
    using pb by (auto split: if_splits)
qed simp

lemma Run_grows:
  assumes "sync_inv sha c n w" and "\<forall>t \<in> set ts. calls_ok sha t" and "sy_Client S = c" "sy_NodeID S = n"
  shows "grows (snd w) (snd (Run S ts w))"
  using assms(1,2)
proof (induction ts arbitrary: w)
  case Nil
  then show ?case by (simp add: grows_refl sync_inv_hub [OF Nil(1)])
next
  case (Cons t ts)
  have ok: "calls_ok sha t"
    using Cons.prems(2) by simp
  have "grows (snd w) (snd (fst (pulls S t w)))"
    by (rule pulls_grows [OF Cons.prems(1) ok assms(3,4)])
  moreover have "grows (snd (fst (pulls S t w))) (snd (fst (Tick S t w)))"
    using Tick_ext [OF sync_inv_hub [OF pulls_inv [OF Cons.prems(1) ok assms(3,4)]] ok assms(3)] by (simp add: world_ext_def)
  moreover have "grows (snd (fst (Tick S t w))) (snd (Run S ts (fst (Tick S t w))))"
    using Cons.prems(2) by (intro Cons.IH Tick_inv [OF Cons.prems(1) ok assms(3,4)]) simp
  ultimately show ?case
    using grows_trans by (metis Run.simps(2))
qed

text \<open>Enough ticks that go through and everything in the feed at the start is stored.\<close>

lemma Run_catches_up:
  assumes "sync_inv sha c n w" and "\<forall>t \<in> set ts. calls_ok sha t" and "sy_Client S = c" "sy_NodeID S = n"
    and "behind (h_evseq (snd w)) n w \<le> 500 * through S ts w"
    and "x \<in> set (h_events (snd w))" and "e_SourceNode (snd x) \<noteq> n"
  shows "e_EventID (snd x) \<in> v_EventID ` set (g_events (fst (Run S ts w)))"
proof -
  let ?v = "Run S ts w"
  have inv: "sync_inv sha c n ?v"
    by (rule Run_inv [OF assms(1-4)])
  have "behind (h_evseq (snd w)) n ?v = 0"
    using Run_behind [OF assms(1-4) order_refl] assms(5) by simp
  moreover have "grows (snd w) (snd ?v)"
    by (rule Run_grows [OF assms(1-4)])
  then have "x \<in> set (h_events (snd ?v))"
    using assms(6) by (auto simp: grows_def)
  moreover have "fst x \<le> h_evseq (snd w)"
    using assms(6) sync_inv_hub [OF assms(1)] by (auto simp: hub_inv_defs feed_wf_def)
  ultimately have "fst x \<le> y_hub_cursor (g_sync (fst ?v))"
    using assms(7) by (auto simp: behind_def visible_def filter_empty_conv not_less)
  then show ?thesis
    using inv \<open>x \<in> set (h_events (snd ?v))\<close> assms(7) by (auto simp: sync_inv_def pulled_ok_def split: prod.splits)
qed

end

end
