(* ===== verification/Node_Wiring.thy ===== *)
theory Node_Wiring
  imports Game_Invariant Fed_Progress
begin

text \<open>
  The whole node: \<open>cmd/node/main.go\<close> puts the engine's store, the reference game, the hub client and the
  sync loop together. The interfaces of the sync loop and of the game's travel link are met by the
  node's own handlers and closures.
\<close>

section \<open>Start-up\<close>

definition game_Version :: string where
  "game_Version = ''1.0.0''"

text \<open>Joining a hub: the stored API key, or a registration whose key is stored; \<open>None\<close> when the program stops.\<close>

definition join_hub :: "call \<Rightarrow> io \<Rightarrow> Server \<Rightarrow> string \<Rightarrow> string \<Rightarrow> string \<Rightarrow> game \<times> hub \<Rightarrow> (game \<times> hub) \<times> Client option" where
  "join_hub cl io srv regToken nodeID advertise w =
     (case w of (s, h) \<Rightarrow>
        case SyncState (io 0) s of
          Inl _ \<Rightarrow> ((s, h), None)
        | Inr (_, _, apiKey) \<Rightarrow>
            if apiKey \<noteq> [] then ((s, h), Some \<lparr>c_Hub = srv, c_APIKey = apiKey\<rparr>)
            else if regToken = [] then ((s, h), None)
            else
              (case Client_Register cl \<lparr>c_Hub = srv, c_APIKey = []\<rparr> regToken nodeID ''ledger_of_the_low'' game_Version advertise
                     [''Ledger of the Low''] h of
                 (h1, Inl _) \<Rightarrow> ((s, h1), None)
               | (h1, Inr key) \<Rightarrow>
                   (case SetAPIKey (io 1) key s of
                      (s1, Some _) \<Rightarrow> ((s1, h1), None)
                    | (s1, None) \<Rightarrow> ((s1, h1), Some \<lparr>c_Hub = srv, c_APIKey = key\<rparr>))))"

text \<open>The handlers, the game, and the syncer of a node.\<close>

definition node_registry :: "string \<Rightarrow> game registry" where
  "node_registry nodeID = RegisterGameHandlers nodeID (RegisterDebtHandlers (\<lambda>_. []))"

definition node_wiring :: "row_order \<Rightarrow> time_json \<Rightarrow> (Snapshot \<Rightarrow> string) \<Rightarrow> game wiring" where
  "node_wiring ord tj hash = \<lparr>w_game = ledger_game ord, w_time = tj, w_hash = hash\<rparr>"

definition node_syncer :: "row_order \<Rightarrow> time_json \<Rightarrow> (Snapshot \<Rightarrow> string) \<Rightarrow> Client \<Rightarrow> string \<Rightarrow> game Syncer" where
  "node_syncer ord tj hash c nodeID =
     \<lparr>sy_Client = c, sy_NodeID = nodeID, sy_GameVersion = game_Version, sy_Handlers = node_registry nodeID, sy_Time = tj,
      sy_PvPResolve = Some (\<lambda>e. IncomingPvP ord (he_now e) (he_rng e) (he_io e)),
      sy_TravelImport = Some (\<lambda>e. TravelImport (node_wiring ord tj hash) (he_io e) (he_now e))\<rparr>"

text \<open>The context of a session: \<open>SetCrossNodeAttack\<close> and \<open>SetTravelFn\<close>; a flag says that the call failed.\<close>

definition node_attack :: "Client \<Rightarrow> call \<Rightarrow> string \<Rightarrow> string \<Rightarrow> raw \<Rightarrow> hub \<Rightarrow> hub \<times> bool" where
  "node_attack c cl attackerID victimID payload h =
     (case Client_QueuePvP cl c attackerID victimID payload h of (h1, Inl _) \<Rightarrow> (h1, True) | (h1, Inr _) \<Rightarrow> (h1, False))"

definition node_travel :: "game wiring \<Rightarrow> Client \<Rightarrow> call \<Rightarrow> int \<Rightarrow> io \<Rightarrow> string \<Rightarrow> string \<Rightarrow> game \<times> hub \<Rightarrow> (game \<times> hub) \<times> bool" where
  "node_travel W c cl now io globalID destNode w =
     (case Travel W io cl c globalID destNode w of (w1, e) \<Rightarrow> (w1, e \<noteq> None))"

definition node_context :: "row_order \<Rightarrow> time_json \<Rightarrow> (Snapshot \<Rightarrow> string) \<Rightarrow> Client \<Rightarrow> string \<Rightarrow> Player \<Rightarrow> (call, hub) Context" where
  "node_context ord tj hash c nodeID p =
     \<lparr>x_Player = p, x_NodeID = nodeID, x_Order = ord, x_CrossNodeAttack = Some (node_attack c),
      x_Travel = Some (node_travel (node_wiring ord tj hash) c)\<rparr>"

section \<open>Sessions at a node\<close>

lemma Travel_good: "good_step s (fst (fst (Travel W io cl c g d (s, h))))"
proof -
  have st: "good_step s s1" if "SetPlayerStatus f g st s = (s1, e)" for f st s s1 e
    using good_ops(6) [of s f g st] that by simp
  have again: "good_step s (fst (SetPlayerStatus f' g st' s1))" if "SetPlayerStatus f g st s = (s1, e)" for f st s1 e f' st'
    using st [OF that] good_ops(6) by (rule good_trans)
  show ?thesis
    by (auto simp: Travel_def split: sum.split option.split prod.split dest: st again)
qed

interpretation node_link: travel_link "node_context ord tj hash c nodeID p"
  by unfold_locales (auto simp: node_context_def node_travel_def Travel_good case_prod_beta)

text \<open>Sessions are safe. At a node with a hub, whatever keys a player presses, whatever random numbers are
  drawn, whatever statements fail and whatever happens to the calls to the hub, a session leaves every
  character with between one and its maximum of hit points, attributes in range and at most three rests
  a day, every turn budget within the daily allowance, and all tables with unique keys.\<close>

theorem session_keeps_types:
  assumes "game_ok s"
  shows "game_ok (fst (fst (Game_Run zone (node_context ord tj hash c nodeID p) x0 (s, h) xs)))"
  using assms by (rule node_link.run_keeps)

section \<open>The syncer of a node\<close>

text \<open>The part of the store the sync invariant speaks of.\<close>

definition base :: "'a eng_scheme \<Rightarrow> string \<times> sync_row \<times> int \<times> Event list" where
  "base s = (g_nodeID s, g_sync s, g_seq s, g_events s)"

lemma base_ext: "base t = base s \<Longrightarrow> store_ext s t"
  by (simp add: base_def store_ext_frame)

lemma base_game [simp]:
  "base (s\<lparr>k_chars := cs\<rparr>) = base s" "base (s\<lparr>k_inv := iv\<rparr>) = base s" "base (s\<lparr>k_log := ls\<rparr>) = base s"
  by (simp_all add: base_def)

lemma base_engine [simp]:
  "base (s\<lparr>g_players := ps\<rparr>) = base s" "base (s\<lparr>g_turns := ts\<rparr>) = base s" "base (s\<lparr>g_obligations := os\<rparr>) = base s"
  by (simp_all add: base_def)

lemma base_ops [simp]:
  "base (fst (addGoods f g i n s)) = base s" "base (fst (saveChar f c s)) = base s" "base (takeGoods g i n s) = base s"
  "base (sweepGoods f g s) = base s" "base (log_attack f now a an v w d s) = base s" "base (fst (SetPlayerStatus f g st s)) = base s"
  by (simp_all add: addGoods_def saveChar_def takeGoods_def sweepGoods_def log_attack_def SetPlayerStatus_def)

lemma base_give [simp]: "base (give_loot io k a its s) = base s"
  by (induction its arbitrary: k s) simp_all

lemma base_take_lines: "base (fst (take_lines io v fr ls (s, its))) = base s"
proof (induction ls arbitrary: s its)
  case (Cons l ls)
  then show ?case by (simp add: take_loot_def Let_def)
qed simp

lemma base_steal [simp]: "base (fst (stealLoot ord io v r k s)) = base s"
proof -
  define gs where "gs = sort_key (\<lambda>l. - goodWeight (il_ItemID l)) (listGoods ord (io 0) v s)"
  obtain s1 its where "take_lines io v (loot_fraction r k) gs (s, []) = (s1, its)"
    by (cases "take_lines io v (loot_fraction r k) gs (s, [])")
  then show ?thesis
    using base_take_lines [of io v "loot_fraction r k" gs s "[]"]
    by (simp add: stealLoot_def Let_def case_prod_beta take_loot_def flip: gs_def)
qed

lemma IncomingPvP_ext: "store_ext s (fst (IncomingPvP ord now r io rq a v p s))"
proof -
  have emit: "store_ext s (fst (Emit f now ty b t))" if "base t = base s" for f ty b t
    using base_ext [OF that] Emit_ext by (rule store_ext_trans)
  have steal: "base s2 = base t" if "stealLoot ord io' v r k t = (s2, d, its)" for io' k t s2 d its
    using base_steal [of ord io' v r k t] that by simp
  show ?thesis
    by (auto simp: IncomingPvP_def Let_def split: option.split prod.split sum.split intro!: emit dest: steal)
qed

lemma handlers_node:
  assumes "h \<in> set (node_registry nodeID ty)"
  shows "base (fst (h io e s)) = base s \<and> g_hstate (fst (h io e s)) = g_hstate s"
proof -
  have "h \<in> {on_debt_created, on_debt_resolved, on_debt_adjusted, on_pvp_resolved nodeID}"
    using assms by (auto simp: node_registry_def RegisterGameHandlers_def RegisterDebtHandlers_def OnEvent_def split: if_splits)
  moreover have "g_hstate (give_loot io k a its s) = g_hstate s" for k a its
    by (induction its arbitrary: k s) (simp_all add: addGoods_def)
  ultimately show ?thesis
    by (auto simp: on_debt_created_def on_debt_resolved_def on_debt_adjusted_def on_pvp_resolved_def Let_def split: option.split)
qed

lemma ledger_import: "base (fst (ImportState io p state s)) = base s"
proof -
  have add: "base (fst (add_all io k g ls t)) = base t" for k g ls t
  proof (induction ls arbitrary: k t)
    case (Cons l ls)
    obtain t1 e where a: "addGoods (io k) g (il_ItemID l) (il_Qty l) t = (t1, e)"
      by (cases "addGoods (io k) g (il_ItemID l) (il_Qty l) t")
    then have "base t1 = base t"
      using base_ops(1) [of "io k" g "il_ItemID l" "il_Qty l" t] by simp
    then show ?case
      using a Cons.IH by (simp split: option.split)
  qed simp
  show ?thesis
    by (auto simp: ImportState_def add split: option.split prod.split)
qed

lemma import_base: "base (fst (ImportPlayer io now (ledger_game ord) snap s)) = base s"
  by (auto simp: ImportPlayer_def Let_def ledger_game_def ledger_import split: option.split)

lemma TravelImport_ext: "store_ext s (fst (TravelImport (node_wiring ord tj hash) io now snap f d s))"
proof -
  obtain s1 e where i: "ImportPlayer io now (ledger_game ord) snap s = (s1, e)"
    by (cases "ImportPlayer io now (ledger_game ord) snap s")
  then have b: "base s1 = base s"
    using import_base [of io now ord snap s] by simp
  have emit: "store_ext s (fst (Emit f now ty b t))" if "base t = base s" for f ty b t
    using base_ext [OF that] Emit_ext by (rule store_ext_trans)
  show ?thesis
    using i b base_ext [OF b] by (auto simp: TravelImport_def node_wiring_def Let_def split: option.split intro!: emit)
qed

interpretation node_events: event_handlers "node_registry nodeID"
  by unfold_locales (use handlers_node in \<open>simp_all add: base_def\<close>)

interpretation node_sync: sync_hooks "node_syncer ord tj hash c nodeID"
proof unfold_locales
  show "store_ext s (fst (h io e s))" if "h \<in> set (sy_Handlers (node_syncer ord tj hash c nodeID) ty)" for h ty io e s
    using that handlers_node [of h nodeID ty io e s] base_ext [of "fst (h io e s)" s] by (simp add: node_syncer_def)
  show "store_ext s (fst (f env i a v p s))" if "sy_PvPResolve (node_syncer ord tj hash c nodeID) = Some f" for f env i a v p s
    using that IncomingPvP_ext by (auto simp: node_syncer_def)
  show "store_ext s (fst (g env snap x y s))" if "sy_TravelImport (node_syncer ord tj hash c nodeID) = Some g" for g env snap x y s
    using that TravelImport_ext by (auto simp: node_syncer_def)
qed

text \<open>C16: the sync loop loses nothing. However many ticks run, whatever requests, responses and statements
  fail in them and whatever other nodes do to the hub in between, a node's push cursor never passes an
  own event the hub's feed does not have, and its pull cursor never passes a foreign event of the feed
  that the node has not stored.\<close>

theorem sync_loses_nothing:
  assumes "sync_inv sha c n w" and "list_all (calls_ok sha) ts"
  shows "sync_inv sha c n (Run (node_syncer ord tj hash c n) ts w)"
  using assms by (intro node_sync.Run_inv) (simp_all add: node_syncer_def list_all_iff)

end
