(* ===== verification/Node_Examples.thy ===== *)
theory Node_Examples
  imports Node_Wiring Engine_Examples Hub_Examples
begin

text \<open>
  A node of the reference game with two characters, one of them with goods, on which the properties of
  the game and of the sync loop are applied.
\<close>

section \<open>The example\<close>

definition ex_inv_row :: "string \<Rightarrow> string \<Rightarrow> int \<Rightarrow> inv_row" where
  "ex_inv_row g i n = \<lparr>iv_global_id = g, iv_item_id = i, iv_qty = n\<rparr>"

definition ex_node :: "string \<Rightarrow> charState list \<Rightarrow> inv_row list \<Rightarrow> game" where
  "ex_node n cs iv = \<lparr>g_nodeID = n, g_seq = 0, g_oseq = 0, g_players = [], g_turns = [], g_events = [], g_hstate = [],
     g_obligations = [], g_sync = \<lparr>y_hub_cursor = 0, y_last_pushed = 0, y_api_key = ''k''\<rparr>, g_remote = [],
     k_chars = cs, k_inv = iv, k_log = []\<rparr>"

definition ex_game :: game where
  "ex_game = ex_node ''a'' [new_char ''a:p_1'', new_char ''a:p_2'']
     [ex_inv_row ''a:p_1'' ''trd_chalk_dust'' 1, ex_inv_row ''a:p_2'' ''trd_brass_fittings'' 5, ex_inv_row ''a:p_2'' ''trd_chalk_dust'' 3]"

definition ex_away :: game where
  "ex_away = ex_node ''b'' [] [ex_inv_row ''a:p_2'' ''trd_chalk_dust'' 4]"

definition ex_rng :: rng where
  "ex_rng k = 0"

definition ex_player :: "string \<Rightarrow> Player" where
  "ex_player g = \<lparr>p_GlobalID = g, p_Name = ''joe'', p_HomeNode = ''a'', p_Level = 1, p_Standing = 0, p_Status = ''active'',
     p_CreatedAt = 1, p_LastSeen = 1\<rparr>"

definition ex_in :: "char \<Rightarrow> unit input" where
  "ex_in k = \<lparr>i_key = k, i_now = 90000, i_io = (\<lambda>_. no_io), i_rng = ex_rng, i_call = ()\<rparr>"

definition ex_time :: time_json where
  "ex_time = \<lparr>tj_fmt = (\<lambda>t. Some (show_int t)), tj_parse = (\<lambda>_. Some 0)\<rparr>"

definition ex_digest :: "Snapshot \<Rightarrow> string" where
  "ex_digest sn = []"

definition ex_call :: call where
  "ex_call = \<lparr>cl_pre = id, cl_env = ex_env, cl_lost = False, cl_dropped = False, cl_cut = False\<rparr>"

definition ex_key :: "char \<Rightarrow> call input" where
  "ex_key k = \<lparr>i_key = k, i_now = 90000, i_io = (\<lambda>_. no_io), i_rng = ex_rng, i_call = ex_call\<rparr>"

definition ex_hook :: hook_env where
  "ex_hook = \<lparr>he_io = no_io, he_now = 90000, he_rng = ex_rng\<rparr>"

definition ex_tick :: tick_io where
  "ex_tick = \<lparr>ti_now = 90000, ti_net = (\<lambda>_ _. ex_call), ti_db = (\<lambda>_ _. False), ti_apply = (\<lambda>_. apply_calm),
     ti_hook = (\<lambda>_ _. ex_hook)\<rparr>"

section \<open>Facts about it\<close>

lemma ex_game_proj [simp]:
  "k_chars ex_game = [new_char ''a:p_1'', new_char ''a:p_2'']"
  "k_inv ex_game = [ex_inv_row ''a:p_1'' ''trd_chalk_dust'' 1, ex_inv_row ''a:p_2'' ''trd_brass_fittings'' 5, ex_inv_row ''a:p_2'' ''trd_chalk_dust'' 3]"
  by (simp_all add: ex_game_def ex_node_def)

lemma ex_inv_ok: "inv_ok ex_game"
  by (simp add: inv_ok_def ex_inv_row_def ikey_def)

lemma id_order: "is_order id"
  by (simp add: is_order_def)

lemma ex_game_ok: "game_ok ex_game"
proof -
  have "eng_wf ex_game"
    by (simp add: ex_game_def eng_wf_def ex_node_def)
  then show ?thesis
    by (simp add: game_ok_def ex_inv_row_def ikey_def new_char_def char_ok_def restsPerDay_def)
qed

lemma ex_evseq: "h_evseq ex_hub = 1"
  by (simp add: ex_hub_def)

section \<open>The properties applied\<close>

theorem damage_in_range_witness:
  "\<exists>base. 1 \<le> base \<and> 4 * 11 - 2 \<le> 5 * base \<and> 5 * base \<le> 6 * 11 + 2 \<and> (13 :: int) = base * 3 div 2"
proof -
  have "Damage 13 4 5 (\<lambda>_. 0) 0 = (13, True)"
    by code_simp
  then show ?thesis
    using damage_in_range [of 13 4 11 5 "\<lambda>_. 0" 0 13 True] by simp
qed

theorem loot_conserved_witness:
  "(case transferLoot id no_io no_io ''a:p_2'' ''a:p_1'' ex_rng 0 ex_game of (s1, desc, its) \<Rightarrow>
      its \<noteq> [] \<and> held s1 ''a:p_1'' ''trd_brass_fittings'' = 5 - held s1 ''a:p_2'' ''trd_brass_fittings'')"
proof -
  obtain s1 desc its where t: "transferLoot id no_io no_io ''a:p_2'' ''a:p_1'' ex_rng 0 ex_game = (s1, desc, its)"
    by (metis prod_cases3)
  have h: "held ex_game ''a:p_1'' ''trd_brass_fittings'' = 0" "held ex_game ''a:p_2'' ''trd_brass_fittings'' = 5"
    by (simp_all add: held_def ikey_def ex_inv_row_def)
  have "''a:p_2'' \<noteq> ''a:p_1''"
    by simp
  note l = loot_conserved [OF ex_inv_ok id_order this t]
  have "held s1 ''a:p_1'' ''trd_brass_fittings'' = 5 - held s1 ''a:p_2'' ''trd_brass_fittings''"
    using conjunct1 [OF l, THEN spec, of "''trd_brass_fittings''"] unfolding h by simp
  moreover have "\<exists>i. held ex_game ''a:p_2'' i \<noteq> 0"
    by (rule exI [of _ "''trd_brass_fittings''"]) (simp add: h)
  then have "its \<noteq> []"
    using l by blast
  ultimately show ?thesis
    by (simp add: t)
qed

theorem barter_exact_witness:
  "snd (consumeForCost id no_io ''a:p_2'' 10 ex_game) = 14
   \<and> goodsValue id False ''a:p_2'' (fst (consumeForCost id no_io ''a:p_2'' 10 ex_game)) = 32"
proof -
  have c: "snd (consumeForCost id no_io ''a:p_2'' 10 ex_game) = 14" "goodsValue id False ''a:p_2'' ex_game = 46"
    by code_simp+
  then obtain s1 where t: "consumeForCost id no_io ''a:p_2'' 10 ex_game = (s1, 14)"
    by (metis prod.collapse)
  show ?thesis
    using barter_exact [OF ex_inv_ok id_order _ _ t] c(2) by (simp add: t)
qed

theorem import_adds_goods_witness:
  "(case ExportState id no_io ''a:p_2'' ex_game of Inr blob \<Rightarrow>
     (case ImportState no_io (ex_player ''a:p_2'') blob ex_away of (d1, e) \<Rightarrow>
        e = None \<and> held d1 ''a:p_2'' ''trd_chalk_dust'' = 7 \<and> held d1 ''a:p_2'' ''trd_brass_fittings'' = 5))"
proof -
  obtain blob where b: "ExportState id no_io ''a:p_2'' ex_game = Inr blob"
    by (simp add: ExportState_def loadChar_def new_char_def)
  have "held ex_game ''a:p_2'' ''trd_brass_fittings'' = 5" "held ex_game ''a:p_2'' ''trd_chalk_dust'' = 3"
    "held ex_away ''a:p_2'' ''trd_chalk_dust'' = 4" "held ex_away ''a:p_2'' ''trd_brass_fittings'' = 0"
    by (simp_all add: held_def ikey_def ex_inv_row_def ex_away_def ex_node_def)
  then show ?thesis
    using import_adds_goods [OF ex_inv_ok id_order, of "new_char ''a:p_2''" "''a:p_2''" "ex_player ''a:p_2''" blob ex_away] b
    by (auto simp: new_char_def in_int64_def ex_player_def)
qed

theorem fight_decided_witness:
  "fst (fight ''a:p_1'' (creatureForBand 1 ex_rng 0) 1 (ex_in CHR ''e'') (new_char ''a:p_1'', ex_game)
     (replicate 60 (ex_in CHR ''a''))) \<noteq> fightFled"
proof -
  let ?xs = "replicate 60 (ex_in CHR ''a'')"
  obtain res cs' y' ys where f: "fight ''a:p_1'' (creatureForBand 1 ex_rng 0) 1 (ex_in CHR ''e'') (new_char ''a:p_1'', ex_game) ?xs = (res, cs', y', ys)"
    by (metis prod_cases4)
  have c: "char_ok (fst (new_char ''a:p_1'', ex_game))"
    by (simp add: new_char_def char_ok_def restsPerDay_def)
  have l: "nat (cr_HP (creatureForBand 1 ex_rng 0)) \<le> length ?xs"
    using creature_bounds(2) [of 1 ex_rng 0] by simp
  have k: "list_all (\<lambda>x. is_key (i_key x) CHR ''a'' CHR ''A'') (take n ?xs)" for n
    by (simp add: list_all_iff ex_in_def is_key_def)
  show ?thesis
    using fight_decided [OF c [unfolded fst_conv] refl l k f] by (simp add: f)
qed

theorem session_keeps_types_witness:
  "game_ok (fst (fst (Game_Run (\<lambda>_. 0) (node_context id ex_time ex_digest \<lparr>c_Hub = ex_s, c_APIKey = ''k''\<rparr> ''a'' (ex_player ''a:p_1''))
     (ex_key CHR ''e'') (ex_game, ex_hub) (map ex_key ''eeaaaaaaaabq''))))"
  using ex_game_ok by (rule session_keeps_types)

theorem sync_loses_nothing_witness:
  "sync_inv (\<lambda>s. [length s]) \<lparr>c_Hub = ex_s, c_APIKey = ''k''\<rparr> ''a''
     (Run (node_syncer id ex_time ex_digest \<lparr>c_Hub = ex_s, c_APIKey = ''k''\<rparr> ''a'') [ex_tick, ex_tick]
        (ex_game\<lparr>g_seq := 1\<rparr>, ex_hub))"
proof -
  let ?c = "\<lparr>c_Hub = ex_s, c_APIKey = ''k''\<rparr>"
  have "sync_inv (\<lambda>s. [length s]) ?c ''a'' (ex_game\<lparr>g_seq := 1\<rparr>, ex_hub)"
    by (simp add: sync_inv_def ex_inv key_of_def node_keys_def ex_row_def ex_hash cursors_ok_def pushed_ok_def pulled_ok_def
        ex_game_def ex_node_def in_int64_def ex_evseq)
  moreover have "list_all (calls_ok (\<lambda>s. [length s])) [ex_tick, ex_tick]"
    by (simp add: calls_ok_def ex_tick_def ex_call_def ex_env_def honest_def grows_refl)
  ultimately show ?thesis
    by (rule sync_loses_nothing)
qed

end
