(* ===== verification/Engine_Server.thy ===== *)
theory Engine_Server
  imports Engine_Term Engine_Ledger
begin

text \<open>
  The front door of a node (\<open>internal/engine/server.go\<close>): the menu before the game, where a client logs in
  or creates an account, and the hand-over to the game. The game is a parameter with two of its
  functions; the locale \<open>door\<close> says what the front door relies on. The SSH transport is not modelled.
\<close>

section \<open>The game\<close>

record ('c, 's, 'h) Door =
  dr_NewCharacter :: "bool \<Rightarrow> string \<Rightarrow> 's \<Rightarrow> 's \<times> eng_err option"
  dr_Run :: "Player \<Rightarrow> 'c input \<Rightarrow> 's \<times> 'h \<Rightarrow> 'c input list \<Rightarrow> ('s \<times> 'h) \<times> eng_err option"

section \<open>Logging in\<close>

text \<open>Where a player comes in the last input read comes along: it carries the environment until the next key.\<close>

type_synonym 'c entry = "Player \<times> 'c input"

definition doLogin :: "bcrypt \<Rightarrow> 'a eng_scheme \<Rightarrow> 'c input list \<Rightarrow> 'c entry option \<times> 'c input list" where
  "doLogin bc s xs =
     (case ReadLine True xs of
        (None, _, ys) \<Rightarrow> (None, ys)
      | (Some (name, _), _, ys) \<Rightarrow>
          (case ReadLine False ys of
             (None, _, zs) \<Rightarrow> (None, zs)
           | (Some (pw, x), _, zs) \<Rightarrow>
               (case Authenticate bc (i_io x ''Authenticate'' 0) name pw s of
                  None \<Rightarrow> (None, tl zs)
                | Some p \<Rightarrow> if p_Status p = ''traveling'' then (None, tl zs) else (Some (p, x), zs))))"

text \<open>Five random bytes.\<close>

definition draw_id :: "(nat \<Rightarrow> int) \<Rightarrow> string" where
  "draw_id r = (let b = (\<lambda>k. nat (r k mod 256)) in newID (b 0) (b 1) (b 2) (b 3) (b 4))"

text \<open>A failed \<open>NewCharacter\<close> is only logged: the game makes up for it at its start.\<close>

definition doCreate :: "bcrypt \<Rightarrow> ('c, 'a eng_scheme, 'h) Door \<Rightarrow> 'a eng_scheme \<Rightarrow> 'c input list
    \<Rightarrow> 'a eng_scheme \<times> 'c entry option \<times> 'c input list" where
  "doCreate bc D s xs =
     (case ReadLine True xs of
        (None, _, ys) \<Rightarrow> (s, None, ys)
      | (Some (name, _), _, ys) \<Rightarrow>
          (case ReadLine False ys of
             (None, _, zs) \<Rightarrow> (s, None, zs)
           | (Some (pw, x), _, zs) \<Rightarrow>
               (case CreateAccount bc (i_io x ''CreateAccount'') (i_now x) (draw_id (i_rng x)) name pw s of
                  (s1, Inl _) \<Rightarrow> (s1, None, tl zs)
                | (s1, Inr p) \<Rightarrow> (fst (dr_NewCharacter D (i_io x ''NewCharacter'' 1) (p_GlobalID p) s1), Some (p, x), zs))))"

lemma doLogin_keys: "doLogin bc s xs = (r, ys) \<Longrightarrow> length ys \<le> length xs"
  by (auto simp: doLogin_def split: prod.splits option.splits if_splits dest!: ReadLine_keys)

lemma doCreate_keys: "doCreate bc D s xs = (s1, r, ys) \<Longrightarrow> length ys \<le> length xs"
  by (auto simp: doCreate_def split: prod.splits option.splits sum.splits dest!: ReadLine_keys)

datatype app_err = ErrQuit | ErrInput | ErrGame eng_err

function login :: "bcrypt \<Rightarrow> ('c, 'a eng_scheme, 'h) Door \<Rightarrow> 'a eng_scheme \<Rightarrow> 'c input list
    \<Rightarrow> 'a eng_scheme \<times> (app_err + 'c entry) \<times> 'c input list" where
  "login bc D s [] = (s, Inl ErrInput, [])"
| "login bc D s (x # xs) =
     (if i_key x = CHR ''l'' \<or> i_key x = CHR ''L'' then
        (case doLogin bc s xs of (Some p, ys) \<Rightarrow> (s, Inr p, ys) | (None, ys) \<Rightarrow> login bc D s ys)
      else if i_key x = CHR ''c'' \<or> i_key x = CHR ''C'' then
        (case doCreate bc D s xs of (s1, Some p, ys) \<Rightarrow> (s1, Inr p, ys) | (s1, None, ys) \<Rightarrow> login bc D s1 ys)
      else if i_key x = CHR ''q'' \<or> i_key x = CHR ''Q'' then (s, Inl ErrQuit, xs)
      else login bc D s xs)"
  by pat_completeness auto
termination
  by (relation "measure (\<lambda>(bc, D, s, xs). length xs)") (auto dest: doLogin_keys [OF sym] doCreate_keys [OF sym])

definition runApp :: "bcrypt \<Rightarrow> ('c, 'a eng_scheme, 'h) Door \<Rightarrow> 'a eng_scheme \<times> 'h \<Rightarrow> 'c input list
    \<Rightarrow> ('a eng_scheme \<times> 'h) \<times> app_err option" where
  "runApp bc D w xs =
     (case login bc D (fst w) xs of
        (s1, Inl e, _) \<Rightarrow> ((s1, snd w), Some e)
      | (s1, Inr (p, x), ys) \<Rightarrow>
          (let s2 = fst (TouchLastSeen (i_io x ''TouchLastSeen'' 0) (i_now x) (p_GlobalID p) s1) in
           case dr_Run D p x (s2, snd w) ys of (w3, e) \<Rightarrow> (w3, map_option ErrGame e)))"

section \<open>Who comes in\<close>

text \<open>A typed password: the line a masked \<open>ReadLine\<close> gives at some point of the input.\<close>

definition typed :: "string \<Rightarrow> 'c input \<Rightarrow> 'c input list \<Rightarrow> bool" where
  "typed pw x xs \<longleftrightarrow> (\<exists>ys. suffix ys xs \<and> fst (ReadLine False ys) = Some (pw, x))"

text \<open>p is in the table under a password hash that the password typed before x matches, and not away.\<close>

definition came_in :: "bcrypt \<Rightarrow> 'a eng_scheme \<Rightarrow> 'c input list \<Rightarrow> 'c entry \<Rightarrow> bool" where
  "came_in bc s xs px \<longleftrightarrow> (\<exists>row \<in> set (g_players s). Player.truncate row = fst px \<and> p_Status (fst px) \<noteq> ''traveling''
     \<and> (\<exists>pw. typed pw (snd px) xs \<and> bc_cmp bc (p_pw_hash row) pw))"

text \<open>The table of accounts only grows at the door, by active accounts of this node.\<close>

definition grown :: "'a eng_scheme \<Rightarrow> 'a eng_scheme \<Rightarrow> bool" where
  "grown s t \<longleftrightarrow> g_nodeID t = g_nodeID s \<and>
     (\<exists>new. g_players t = g_players s @ new \<and> (\<forall>p \<in> set new. p_HomeNode p = g_nodeID s \<and> p_Status p = ''active''))"

lemma grown_refl: "grown s s"
  by (simp add: grown_def)

lemma grown_trans: "grown s t \<Longrightarrow> grown t u \<Longrightarrow> grown s u"
  unfolding grown_def by (metis (no_types, lifting) append_assoc Un_iff set_append)

lemma CreateAccount_grown: "grown s (fst (CreateAccount bc io now i n pw s))"
proof (cases "snd (CreateAccount bc io now i n pw s)")
  case (Inl e)
  then show ?thesis
    by (auto simp: CreateAccount_def InsertPlayer_def Let_def grown_refl split: option.splits prod.splits if_splits)
next
  case (Inr p)
  then obtain s1 where c: "CreateAccount bc io now i n pw s = (s1, Inr p)"
    by (metis prod.collapse)
  have "g_nodeID s1 = g_nodeID s"
    using c by (auto simp: CreateAccount_def InsertPlayer_def Emit_def Let_def split: option.splits prod.splits if_splits)
  moreover obtain h where "p_HomeNode p = g_nodeID s" "p_Status p = ''active''" "g_players s1 = g_players s @ [Player.extend p \<lparr>p_pw_hash = h\<rparr>]"
    by (rule CreateAccount_Inr [OF c])
  ultimately show ?thesis
    by (simp add: grown_def c Player.defs)
qed

lemma typed_suffix: "typed pw x ys \<Longrightarrow> suffix ys xs \<Longrightarrow> typed pw x xs"
  unfolding typed_def by (meson suffix_order.trans)

lemma came_in_suffix: "came_in bc s ys px \<Longrightarrow> suffix ys xs \<Longrightarrow> came_in bc s xs px"
  unfolding came_in_def using typed_suffix by blast

lemma read_line_suffix: "suffix (snd (snd (read_line echo sb out xs))) xs"
  by (induction echo sb out xs rule: read_line.induct) (auto simp: Let_def suffix_ConsI suffix_Cons)

lemma ReadLine_suffix: "ReadLine echo xs = (r, o', ys) \<Longrightarrow> suffix ys xs"
  using read_line_suffix [of echo "[]" "[]" xs] by (simp add: ReadLine_def)

lemma suffix_tl: "suffix ys xs \<Longrightarrow> suffix (tl ys) xs"
  by (meson suffix_order.trans suffix_tl)

lemma Authenticate_row:
  assumes "Authenticate bc f n pw s = Some p"
  shows "\<exists>row \<in> set (g_players s). Player.truncate row = p \<and> bc_cmp bc (p_pw_hash row) pw"
proof -
  obtain row where "find (\<lambda>p. nocase (p_Name p) = nocase (trim_space n)) (g_players s) = Some row" "p = Player.truncate row"
      "bc_cmp bc (p_pw_hash row) pw"
    using assms by (auto simp: Authenticate_def PlayerByName_def split: sum.splits if_splits option.splits)
  then show ?thesis
    by (metis find_Some_iff nth_mem)
qed

lemma ReadLine_cases:
  obtains (eof) o1 ys where "ReadLine echo xs = (None, o1, ys)" "suffix ys xs"
  | (line) l x o1 ys where "ReadLine echo xs = (Some (l, x), o1, ys)" "suffix ys xs"
  by (cases "ReadLine echo xs") (metis ReadLine_suffix not_None_eq surj_pair)

lemma doLogin_came:
  assumes "doLogin bc s xs = (r, ys)"
  shows "suffix ys xs \<and> (case r of Some px \<Rightarrow> came_in bc s xs px | None \<Rightarrow> True)"
proof (cases rule: ReadLine_cases [of True xs])
  case (line name x0 o1 zs)
  show ?thesis
  proof (cases rule: ReadLine_cases [of False zs])
    case eof
    then show ?thesis using assms line suffix_order.trans by (auto simp: doLogin_def)
  next
    case (line pw x o2 us)
    have us: "suffix us xs" "suffix (tl us) xs"
      using line(2) \<open>suffix zs xs\<close> suffix_tl suffix_order.trans by blast+
    have "typed pw x xs"
      using line(1) \<open>suffix zs xs\<close> unfolding typed_def by (intro exI [of _ zs]) simp
    then show ?thesis
      using assms us \<open>ReadLine True xs = _\<close> line(1) Authenticate_row
      by (auto simp: doLogin_def came_in_def split: option.splits if_splits) blast
  qed
qed (use assms in \<open>auto simp: doLogin_def\<close>)

lemma came_in_players: "g_players t = g_players s \<Longrightarrow> came_in bc t xs px = came_in bc s xs px"
  by (simp add: came_in_def)

lemma grown_players: "g_players t = g_players s \<Longrightarrow> g_nodeID t = g_nodeID s \<Longrightarrow> grown r s \<Longrightarrow> grown r t"
  by (simp add: grown_def)

lemma came_in_Cons: "came_in bc s xs px \<Longrightarrow> came_in bc s (x # xs) px"
  by (erule came_in_suffix) (simp add: suffix_ConsI)

text \<open>What the front door relies on: creating the game's character leaves the accounts alone. (That the
  password library recognises the hashes it made is a hypothesis of the lemmas.)\<close>

locale door =
  fixes D :: "('c, 'a eng_scheme, 'h) Door"
  assumes NewCharacter_keeps: "g_players (fst (dr_NewCharacter D f i s)) = g_players s" "g_nodeID (fst (dr_NewCharacter D f i s)) = g_nodeID s"
begin

lemma doCreate_came:
  assumes "doCreate bc D s xs = (s1, r, ys)" and gen_cmp: "\<And>pw h. bc_gen bc pw = Some h \<Longrightarrow> bc_cmp bc h pw"
  shows "grown s s1 \<and> suffix ys xs \<and> (case r of Some px \<Rightarrow> came_in bc s1 xs px | None \<Rightarrow> True)"
proof (cases rule: ReadLine_cases [of True xs])
  case (line name x0 o1 zs)
  show ?thesis
  proof (cases rule: ReadLine_cases [of False zs])
    case eof
    then show ?thesis using assms(1) line suffix_order.trans by (auto simp: doCreate_def grown_refl)
  next
    case (line pw x o2 us)
    have us: "suffix us xs" "suffix (tl us) xs"
      using line(2) \<open>suffix zs xs\<close> suffix_tl suffix_order.trans by blast+
    have t: "typed pw x xs"
      using line(1) \<open>suffix zs xs\<close> unfolding typed_def by (intro exI [of _ zs]) simp
    obtain s2 q where c: "CreateAccount bc (i_io x ''CreateAccount'') (i_now x) (draw_id (i_rng x)) name pw s = (s2, q)"
      by fastforce
    then have g: "grown s s2"
      using CreateAccount_grown by (metis fst_conv)
    show ?thesis
    proof (cases q)
      case (Inl e)
      then show ?thesis
        using assms(1) us g \<open>ReadLine True xs = _\<close> line(1) c by (auto simp: doCreate_def)
    next
      case (Inr p)
      obtain h where "bc_gen bc pw = Some h" "p_Status p = ''active''" "g_players s2 = g_players s @ [Player.extend p \<lparr>p_pw_hash = h\<rparr>]"
        using c Inr by (auto elim: CreateAccount_Inr)
      then have "came_in bc s2 xs (p, x)"
        using gen_cmp t by (auto simp: came_in_def Player.defs)
      then show ?thesis
        using assms(1) us g \<open>ReadLine True xs = _\<close> line(1) c Inr
        by (auto simp: doCreate_def came_in_players [OF NewCharacter_keeps(1)] NewCharacter_keeps intro: grown_players)
    qed
  qed
qed (use assms(1) in \<open>auto simp: doCreate_def grown_refl\<close>)

lemma login_came:
  assumes "login bc D s xs = (s1, r, ys)" and gen_cmp: "\<And>pw h. bc_gen bc pw = Some h \<Longrightarrow> bc_cmp bc h pw"
  shows "grown s s1 \<and> (case r of Inr px \<Rightarrow> came_in bc s1 xs px | Inl _ \<Rightarrow> True)"
  using assms(1)
proof (induction "length xs" arbitrary: s xs rule: less_induct)
  case less
  show ?case
  proof (cases xs)
    case (Cons x us)
    have later: "grown s s1 \<and> (case r of Inr px \<Rightarrow> came_in bc s1 xs px | Inl _ \<Rightarrow> True)"
      if "login bc D t zs = (s1, r, ys)" "suffix zs us" "grown s t" for t zs
    proof -
      have "length zs < length xs"
        using that(2) Cons by (auto dest: suffix_length_le)
      then have "grown t s1 \<and> (case r of Inr px \<Rightarrow> came_in bc s1 zs px | Inl _ \<Rightarrow> True)"
        using less that(1) by blast
      moreover have "suffix zs xs"
        using that(2) Cons by (simp add: suffix_ConsI)
      ultimately show ?thesis
        using that(3) grown_trans came_in_suffix by (auto split: sum.splits)
    qed
    obtain q zs where l: "doLogin bc s us = (q, zs)" by fastforce
    obtain t q' zs' where c: "doCreate bc D s us = (t, q', zs')" by (metis prod_cases3)
    note l1 = doLogin_came [OF l] and c1 = doCreate_came [OF c gen_cmp]
    consider (l) "i_key x = CHR ''l'' \<or> i_key x = CHR ''L''" | (c) "i_key x = CHR ''c'' \<or> i_key x = CHR ''C''"
      | (q) "i_key x = CHR ''q'' \<or> i_key x = CHR ''Q''"
      | (o) "\<not> (i_key x = CHR ''l'' \<or> i_key x = CHR ''L'')" "\<not> (i_key x = CHR ''c'' \<or> i_key x = CHR ''C'')"
          "\<not> (i_key x = CHR ''q'' \<or> i_key x = CHR ''Q'')"
      by blast
    then show ?thesis
    proof cases
      case l
      then show ?thesis
        using less.prems l1 later grown_refl came_in_Cons unfolding Cons by (cases q) (auto simp: \<open>doLogin bc s us = _\<close>)
    next
      case c
      then show ?thesis
        using less.prems c1 later came_in_Cons unfolding Cons by (cases q') (auto simp: \<open>doCreate bc D s us = _\<close>)
    next
      case q
      then show ?thesis
        using less.prems unfolding Cons by (auto simp: grown_refl)
    next
      case o
      then show ?thesis
        using less.prems later [of s us] unfolding Cons by (simp add: grown_refl)
    qed
  qed (use less.prems in \<open>auto simp: grown_refl\<close>)
qed

end

text \<open>A property of the store that every step of the front door and of the game keeps.\<close>

locale kept_door = door D for D :: "('c, 'a eng_scheme, 'h) Door" +
  fixes ok :: "'a eng_scheme \<Rightarrow> bool"
  assumes ok_account: "ok s \<Longrightarrow> ok (fst (CreateAccount bc io now i n pw s))"
    and ok_touch: "ok s \<Longrightarrow> ok (fst (TouchLastSeen f now i s))"
    and ok_new: "ok s \<Longrightarrow> ok (fst (dr_NewCharacter D f i s))"
    and ok_run: "ok s \<Longrightarrow> ok (fst (fst (dr_Run D p x (s, h) xs)))"
begin

lemma doCreate_keeps:
  assumes "ok s"
  shows "ok (fst (doCreate bc D s xs))"
proof -
  have "ok s1" if "CreateAccount bc io now i n pw s = (s1, e)" for io now i n pw s1 e
    using ok_account [OF assms, of bc io now i n pw] that by simp
  then show ?thesis
    using assms ok_new by (auto simp: doCreate_def split: prod.split option.split sum.split)
qed

lemma login_keeps: "ok s \<Longrightarrow> ok (fst (login bc D s xs))"
proof (induction "length xs" arbitrary: s xs rule: less_induct)
  case less
  show ?case
  proof (cases xs)
    case (Cons x us)
    have "ok (fst (login bc D t zs))" if "length zs \<le> length us" "ok t" for t zs
      using less that Cons by simp
    moreover obtain q zs where l: "doLogin bc s us = (q, zs)" by fastforce
    moreover obtain t q' zs' where c: "doCreate bc D s us = (t, q', zs')" by (metis prod_cases3)
    ultimately show ?thesis
      using less.prems doLogin_keys [OF l] doCreate_keys [OF c] doCreate_keeps [OF less.prems, of bc us] unfolding Cons
      by (cases q; cases q') auto
  qed (use less.prems in simp)
qed

lemma runApp_keeps:
  assumes "ok s"
  shows "ok (fst (fst (runApp bc D (s, h) xs)))"
proof -
  obtain s1 r ys where l: "login bc D s xs = (s1, r, ys)"
    by (metis prod_cases3)
  then have "ok s1"
    using login_keeps [OF assms] by (metis fst_conv)
  then show ?thesis
    using l ok_run ok_touch by (auto simp: runApp_def Let_def case_prod_beta split: sum.split)
qed

end

end
