(* ===== verification/Engine_Slots.thy ===== *)
theory Engine_Slots
  imports Go_Prelude
begin

text \<open>
  The session slots of the SSH server (\<open>internal/engine/server.go\<close>): every connection has a handler that
  takes its channels one after the other, and every accepted channel a session of its own; all run
  concurrently. A step relation lists what each of them can do next. The count \<open>sessions\<close> is read before
  the channel is accepted and raised after.
\<close>

section \<open>State\<close>

text \<open>A session waits for the shell request or runs the game; the flag says that the client is still there.\<close>

datatype phase = Waiting | Running

record slots =
  sl_passed :: "nat set"
  sl_count :: int
  sl_live :: "nat \<rightharpoonup> phase \<times> bool"

definition no_slots :: slots where
  "no_slots = \<lparr>sl_passed = {}, sl_count = 0, sl_live = Map.empty\<rparr>"

text \<open>The check of \<open>handleConn\<close>; a channel that fails it is rejected, and nothing changes.\<close>

definition slot_free :: "int \<Rightarrow> slots \<Rightarrow> bool" where
  "slot_free maxSessions s \<longleftrightarrow> \<not> (maxSessions > 0 \<and> sl_count s \<ge> maxSessions)"

section \<open>Steps\<close>

text \<open>
  c is a connection and i a session. \<open>check\<close> passes a new channel; \<open>refused\<close> and \<open>accepted\<close> are the two
  ends of \<open>Accept\<close>; \<open>shell\<close> is the client's request and \<open>hangup\<close> the end of the channel, by the client or
  by \<open>idleWatch\<close>; \<open>finished\<close> is the end of \<open>runApp\<close>, a recovered panic included, with its deferred count.
  A session that waits is at \<open><-ready\<close>: nothing but the shell request wakes it.
\<close>

inductive slot_step :: "int \<Rightarrow> nat set \<Rightarrow> slots \<Rightarrow> slots \<Rightarrow> bool" for maxSessions :: int and conns :: "nat set" where
  check: "c \<in> conns \<Longrightarrow> c \<notin> sl_passed s \<Longrightarrow> slot_free maxSessions s \<Longrightarrow>
    slot_step maxSessions conns s (s\<lparr>sl_passed := insert c (sl_passed s)\<rparr>)"
| refused: "c \<in> sl_passed s \<Longrightarrow> slot_step maxSessions conns s (s\<lparr>sl_passed := sl_passed s - {c}\<rparr>)"
| accepted: "c \<in> sl_passed s \<Longrightarrow> i \<notin> dom (sl_live s) \<Longrightarrow>
    slot_step maxSessions conns s \<lparr>sl_passed = sl_passed s - {c}, sl_count = sl_count s + 1, sl_live = (sl_live s)(i \<mapsto> (Waiting, True))\<rparr>"
| shell: "sl_live s i = Some (Waiting, True) \<Longrightarrow>
    slot_step maxSessions conns s (s\<lparr>sl_live := (sl_live s)(i \<mapsto> (Running, True))\<rparr>)"
| hangup: "sl_live s i = Some (p, True) \<Longrightarrow> slot_step maxSessions conns s (s\<lparr>sl_live := (sl_live s)(i \<mapsto> (p, False))\<rparr>)"
| finished: "sl_live s i = Some (Running, b) \<Longrightarrow>
    slot_step maxSessions conns s (s\<lparr>sl_count := sl_count s - 1, sl_live := (sl_live s)(i := None)\<rparr>)"

inductive slot_run :: "int \<Rightarrow> nat set \<Rightarrow> slots \<Rightarrow> slots \<Rightarrow> bool" for maxSessions :: int and conns :: "nat set" where
  start: "slot_run maxSessions conns s s"
| next_step: "slot_run maxSessions conns s t \<Longrightarrow> slot_step maxSessions conns t u \<Longrightarrow> slot_run maxSessions conns s u"

inductive_cases slot_stepE: "slot_step maxSessions conns s t"

section \<open>The limit\<close>

definition slots_inv :: "int \<Rightarrow> nat set \<Rightarrow> slots \<Rightarrow> bool" where
  "slots_inv maxSessions conns s \<longleftrightarrow> finite (dom (sl_live s)) \<and> sl_passed s \<subseteq> conns \<and> sl_count s = int (card (dom (sl_live s)))
     \<and> (maxSessions > 0 \<longrightarrow> sl_count s + int (card (sl_passed s)) \<le> maxSessions + int (card conns) - 1)"

lemma slots_invI:
  assumes "finite (dom L)" "P \<subseteq> conns" "n = int (card (dom L))" "maxSessions > 0 \<Longrightarrow> n + int (card P) \<le> maxSessions + int (card conns) - 1"
  shows "slots_inv maxSessions conns \<lparr>sl_passed = P, sl_count = n, sl_live = L\<rparr>"
  unfolding slots_inv_def slots.select_convs using assms by blast

lemma slots_inv_step:
  assumes "finite conns" "conns \<noteq> {}" and inv: "slots_inv maxSessions conns s" and "slot_step maxSessions conns s t"
  shows "slots_inv maxSessions conns t"
proof -
  obtain P n L where s: "s = \<lparr>sl_passed = P, sl_count = n, sl_live = L\<rparr>"
    by (cases s)
  have fin: "finite (dom L)" "finite P" and sub: "P \<subseteq> conns" and n: "n = int (card (dom L))"
    and lim: "maxSessions > 0 \<Longrightarrow> n + int (card P) \<le> maxSessions + int (card conns) - 1"
    using inv assms(1) finite_subset by (auto simp: slots_inv_def s)
  have upd: "slots_inv maxSessions conns (s\<lparr>sl_live := L(i \<mapsto> v)\<rparr>)" if "i \<in> dom L" for i v
    using fin sub n lim that by (simp add: s slots_invI insert_absorb)
  from assms(4) show ?thesis
  proof cases
    case (check c)
    have "card (insert c P) \<le> card conns"
      using assms(1) sub check by (intro card_mono) (auto simp: s)
    moreover have "n < maxSessions" if "maxSessions > 0"
      using check(4) that by (simp add: slot_free_def s)
    ultimately have l: "n + int (card (insert c P)) \<le> maxSessions + int (card conns) - 1" if "maxSessions > 0"
      using that by linarith
    have t: "t = \<lparr>sl_passed = insert c P, sl_count = n, sl_live = L\<rparr>" and c: "insert c P \<subseteq> conns"
      using check sub by (simp_all add: s)
    show ?thesis
      unfolding t by (rule slots_invI [OF fin(1) c n l])
  next
    case (refused c)
    have "card (P - {c}) \<le> card P"
      using fin by (intro card_mono) auto
    then have l: "n + int (card (P - {c})) \<le> maxSessions + int (card conns) - 1" if "maxSessions > 0"
      using lim [OF that] by linarith
    have t: "t = \<lparr>sl_passed = P - {c}, sl_count = n, sl_live = L\<rparr>" and c: "P - {c} \<subseteq> conns"
      using refused sub by (auto simp: s)
    show ?thesis
      unfolding t by (rule slots_invI [OF fin(1) c n l])
  next
    case (accepted c i)
    then have cP: "c \<in> P" and "i \<notin> dom L"
      by (simp_all add: s)
    then have c: "card P = Suc (card (P - {c}))" "i \<notin> dom L"
      using card.remove [OF fin(2) cP] by simp_all
    have t: "t = \<lparr>sl_passed = P - {c}, sl_count = n + 1, sl_live = L(i \<mapsto> (Waiting, True))\<rparr>"
      using accepted by (simp add: s)
    have l: "n + 1 + int (card (P - {c})) \<le> maxSessions + int (card conns) - 1" if "maxSessions > 0"
      using lim [OF that] c(1) by linarith
    have "dom (L(i \<mapsto> (Waiting, True))) = insert i (dom L)"
      by simp
    then have d: "finite (dom (L(i \<mapsto> (Waiting, True))))" "n + 1 = int (card (dom (L(i \<mapsto> (Waiting, True)))))"
      using fin(1) n card_insert_disjoint [OF fin(1) c(2)] by simp_all
    have "P - {c} \<subseteq> conns"
      using sub by blast
    then show ?thesis
      unfolding t by (rule slots_invI [OF d(1) _ d(2) l])
  next
    case (shell i)
    then show ?thesis using upd by (auto simp: s)
  next
    case (hangup i p)
    then show ?thesis using upd by (auto simp: s)
  next
    case (finished i b)
    then have c: "card (dom L) = Suc (card (dom L - {i}))"
      using fin by (intro card.remove) (auto simp: s)
    have t: "t = \<lparr>sl_passed = P, sl_count = n - 1, sl_live = L(i := None)\<rparr>"
      using finished by (simp add: s)
    have l: "n - 1 + int (card P) \<le> maxSessions + int (card conns) - 1" if "maxSessions > 0"
      using lim [OF that] by linarith
    have "dom (L(i := None)) = dom L - {i}"
      by simp
    then have d: "finite (dom (L(i := None)))" "n - 1 = int (card (dom (L(i := None))))"
      using fin(1) n c by simp_all
    show ?thesis
      unfolding t by (rule slots_invI [OF d(1) sub d(2) l])
  qed
qed

lemma slots_inv_run:
  "slot_run maxSessions conns s t \<Longrightarrow> finite conns \<Longrightarrow> conns \<noteq> {} \<Longrightarrow> slots_inv maxSessions conns s \<Longrightarrow> slots_inv maxSessions conns t"
  by (induction rule: slot_run.induct) (auto intro: slots_inv_step)

text \<open>C31: the session limit. Whatever the connections and their clients do, the server counts exactly the
  sessions there are, and never has more than the limit plus one less than the number of connections:
  with a single connection the limit is exact, and every further one may slip in one session between
  the check and the count.\<close>

theorem session_limit:
  assumes "slot_run maxSessions conns no_slots s" "finite conns" "conns \<noteq> {}" "maxSessions > 0"
  shows "sl_count s = int (card (dom (sl_live s))) \<and> sl_count s \<le> maxSessions + int (card conns) - 1"
proof -
  have "slots_inv maxSessions conns no_slots"
    using assms(2,3) by (auto simp: slots_inv_def no_slots_def card_gt_0_iff Suc_le_eq int_one_le_iff_zero_less)
  then show ?thesis
    using slots_inv_run [OF assms(1-3)] assms(4) by (auto simp: slots_inv_def)
qed

section \<open>Slots that are never given back\<close>

text \<open>A session whose client left before it asked for a shell.\<close>

definition abandoned :: "slots \<Rightarrow> nat set" where
  "abandoned s = {i. sl_live s i = Some (Waiting, False)}"

lemma abandoned_step: "slot_step maxSessions conns s t \<Longrightarrow> abandoned s \<subseteq> abandoned t"
  by (erule slot_stepE) (auto simp: abandoned_def)

lemma abandoned_run: "slot_run maxSessions conns s t \<Longrightarrow> abandoned s \<subseteq> abandoned t"
proof (induction rule: slot_run.induct)
  case (next_step s t u)
  then show ?case using abandoned_step by blast
qed simp

lemma full_step:
  assumes "slots_inv maxSessions conns s" "maxSessions > 0" "int (card (abandoned s)) \<ge> maxSessions" "sl_passed s = {}"
    and "slot_step maxSessions conns s t"
  shows "sl_passed t = {} \<and> dom (sl_live t) \<subseteq> dom (sl_live s)"
proof -
  have "abandoned s \<subseteq> dom (sl_live s)"
    by (auto simp: abandoned_def)
  then have "card (abandoned s) \<le> card (dom (sl_live s))"
    using assms(1) by (intro card_mono) (auto simp: slots_inv_def)
  then have "\<not> slot_free maxSessions s"
    using assms(1-3) by (auto simp: slot_free_def slots_inv_def)
  then show ?thesis
    using assms(4,5) by (auto elim!: slot_stepE split: if_splits)
qed

text \<open>Once as many sessions as the limit allows were abandoned, no session is ever started again.\<close>

lemma abandoned_slots_leak:
  assumes "slot_run maxSessions conns no_slots s" "finite conns" "conns \<noteq> {}" "maxSessions > 0"
    and "int (card (abandoned s)) \<ge> maxSessions" "sl_passed s = {}" and "slot_run maxSessions conns s t"
  shows "dom (sl_live t) \<subseteq> dom (sl_live s)"
proof -
  have inv: "slots_inv maxSessions conns s"
    using assms(2,3) by (intro slots_inv_run [OF assms(1-3)])
      (auto simp: slots_inv_def no_slots_def card_gt_0_iff Suc_le_eq int_one_le_iff_zero_less)
  have "sl_passed t = {} \<and> dom (sl_live t) \<subseteq> dom (sl_live s) \<and> maxSessions \<le> int (card (abandoned t)) \<and> slots_inv maxSessions conns t"
    using assms(7,1-6) inv
  proof (induction rule: slot_run.induct)
    case (next_step s t u)
    then have t: "sl_passed t = {}" "dom (sl_live t) \<subseteq> dom (sl_live s)" "maxSessions \<le> int (card (abandoned t))" "slots_inv maxSessions conns t"
      by auto
    have u: "slots_inv maxSessions conns u"
      using slots_inv_step [OF next_step.prems(2,3) t(4) next_step.hyps(2)] .
    have "finite (abandoned u)"
      using u by (rule_tac finite_subset [of _ "dom (sl_live u)"]) (auto simp: slots_inv_def abandoned_def)
    then have "card (abandoned t) \<le> card (abandoned u)"
      using abandoned_step [OF next_step.hyps(2)] by (rule card_mono)
    then show ?case
      using full_step [OF t(4) next_step.prems(4) t(3,1) next_step.hyps(2)] subset_trans [OF _ t(2)] t(3) u by simp
  qed simp
  then show ?thesis by simp
qed

end
