(* ===== verification/Node_Service.thy ===== *)
theory Node_Service
  imports Node_Wiring Engine_Server Engine_Slots
begin

text \<open>
  The game behind the front door of a node, as \<open>cmd/node/main.go\<close> serves it: whoever connects logs in or
  creates an account, and plays. \<open>zone\<close> is the server's time zone and \<open>bc\<close> the password library.
\<close>

definition node_door :: "(int \<Rightarrow> int) \<Rightarrow> row_order \<Rightarrow> time_json \<Rightarrow> (Snapshot \<Rightarrow> string) \<Rightarrow> Client \<Rightarrow> string \<Rightarrow> (call, game, hub) Door" where
  "node_door zone ord tj hash c nodeID =
     \<lparr>dr_NewCharacter = NewCharacter, dr_Run = (\<lambda>p. Game_Run zone (node_context ord tj hash c nodeID p))\<rparr>"

lemma CreateAccount_game: "k_chars (fst (CreateAccount bc io now i n pw s)) = k_chars s" "k_inv (fst (CreateAccount bc io now i n pw s)) = k_inv s"
  by (simp_all add: CreateAccount_def InsertPlayer_def Emit_def Let_def split: option.split prod.split)

interpretation node_front: kept_door "node_door zone ord tj hash c nodeID" game_ok
proof unfold_locales
  show "game_ok (fst (dr_NewCharacter (node_door zone ord tj hash c nodeID) f i s))" if "game_ok s" for f i s
    using NewCharacter_ok [OF that] by (simp add: node_door_def)
  show "game_ok (fst (fst (dr_Run (node_door zone ord tj hash c nodeID) p x (s, h) xs)))" if "game_ok s" for p x s h xs
    using node_link.run_keeps [OF that] by (simp add: node_door_def)
  show "game_ok (fst (CreateAccount bc io now i n pw s))" if "game_ok s" for bc io now i n pw s
    using that by (auto simp: game_ok_def CreateAccount_game intro: CreateAccount_wf)
  show "game_ok (fst (TouchLastSeen f now i s))" if "game_ok s" for f now i s
  proof -
    have "k_chars (fst (TouchLastSeen f now i s)) = k_chars s" "k_inv (fst (TouchLastSeen f now i s)) = k_inv s"
      by (simp_all add: TouchLastSeen_def)
    then show ?thesis
      using that TouchLastSeen_wf by (auto simp: game_ok_def)
  qed
qed (simp_all add: node_door_def NewCharacter_def)

text \<open>C30: only account holders get in. Whatever is typed at the front door, whoever is let into the game
  has a row in the table of accounts, not away on a journey, whose password hash matches a password that
  was typed; and all the door ever does to the accounts is to add active ones of this node.\<close>

theorem door_lets_in_players:
  assumes "\<And>pw h. bc_gen bc pw = Some h \<Longrightarrow> bc_cmp bc h pw"
    and "login bc (node_door zone ord tj hash c nodeID) s xs = (s1, r, ys)"
  shows "(\<exists>new. g_players s1 = g_players s @ new \<and> (\<forall>p \<in> set new. p_HomeNode p = g_nodeID s \<and> p_Status p = ''active''))
    \<and> (case r of Inl _ \<Rightarrow> True | Inr (p, x) \<Rightarrow> p_Status p \<noteq> ''traveling'' \<and>
         (\<exists>row \<in> set (g_players s1). Player.truncate row = p \<and> (\<exists>pw. typed pw x xs \<and> bc_cmp bc (p_pw_hash row) pw)))"
  using node_front.login_came [OF assms(2,1)] by (auto simp: grown_def came_in_def split: sum.splits) blast+

text \<open>C28: serving a client is safe. At a node with a hub, whatever bytes a client sends from the login menu to
  the end of the game, whatever random numbers are drawn, whatever statements fail and whatever happens
  to the calls to the hub, every character keeps between one and its maximum of hit points, attributes
  in range and at most three rests a day, every turn budget stays within the daily allowance, every
  account keeps its budget, and all tables keep unique keys.\<close>

theorem serving_keeps_types:
  assumes "game_ok s"
  shows "game_ok (fst (fst (runApp bc (node_door zone ord tj hash c nodeID) (s, h) xs)))"
  using assms by (rule node_front.runApp_keeps)

text \<open>C29: the sync loop catches up. Ticks may fail in any number and other nodes may keep adding to the feed:
  once one tick in five hundred unread foreign entries has got through its pull, every event of another
  node that the hub's feed held at the start is in the node's event table.\<close>

theorem sync_catches_up:
  assumes "sync_inv sha c n w" and "list_all (calls_ok sha) ts"
    and "behind (h_evseq (snd w)) n w \<le> 500 * through (node_syncer ord tj hash c n) ts w"
    and "x \<in> set (h_events (snd w))" and "e_SourceNode (snd x) \<noteq> n"
  shows "e_EventID (snd x) \<in> v_EventID ` set (g_events (fst (Run (node_syncer ord tj hash c n) ts w)))"
  using assms by (intro node_sync.Run_catches_up) (simp_all add: node_syncer_def list_all_iff)

end
