(* ===== verification/Game_Art.thy ===== *)
theory Game_Art
  imports Engine_Term
begin

text \<open>
  The layout functions of the reference game (\<open>internal/game/art.go\<close>): boxes, menu entries, hit-point bars
  and the status columns, on strings that carry ANSI colour sequences. A count that would make
  \<open>strings.Repeat\<close> panic gives \<open>None\<close>.
\<close>

section \<open>Visible width\<close>

definition boxH :: string where "boxH = map char_of [226, 148, 128 :: nat]"
definition boxV :: string where "boxV = map char_of [226, 148, 130 :: nat]"
definition boxTL :: string where "boxTL = map char_of [226, 148, 140 :: nat]"
definition boxTR :: string where "boxTR = map char_of [226, 148, 144 :: nat]"
definition boxBL :: string where "boxBL = map char_of [226, 148, 148 :: nat]"
definition boxBR :: string where "boxBR = map char_of [226, 148, 152 :: nat]"

definition isFinalByte :: "nat \<Rightarrow> bool" where
  "isFinalByte r \<longleftrightarrow> 64 \<le> r \<and> r \<le> 126"

text \<open>\<open>visLen\<close>: everything but the sequences \<open>ESC [ ... final byte\<close> counts as one column.\<close>

fun skip_csi :: "nat list \<Rightarrow> nat list" where
  "skip_csi [] = []"
| "skip_csi (r # rs) = (if isFinalByte r then rs else skip_csi rs)"

lemma skip_csi_length: "length (skip_csi rs) \<le> length rs"
  by (induction rs) (auto intro: le_SucI)

function vis_count :: "nat list \<Rightarrow> int" where
  "vis_count [] = 0"
| "vis_count (r # rs) = (if r = 27 \<and> rs \<noteq> [] \<and> hd rs = 91 then vis_count (skip_csi (tl rs)) else 1 + vis_count rs)"
  by pat_completeness auto
termination
proof (relation "measure length", goal_cases)
  case (2 r rs)
  then show ?case using skip_csi_length [of "tl rs"] by simp
qed simp_all

definition visLen :: "string \<Rightarrow> int" where
  "visLen s = vis_count (runes s)"

definition padRight :: "string \<Rightarrow> int \<Rightarrow> string" where
  "padRight s w = (if visLen s \<ge> w then s else s @ replicate (nat (w - visLen s)) CHR '' '')"

section \<open>Boxes\<close>

definition hRule :: "string \<Rightarrow> int \<Rightarrow> string option" where
  "hRule color w = map_option (\<lambda>b. color @ b @ reset) (repeat_string boxH w)"

definition boxTop :: "string \<Rightarrow> int \<Rightarrow> string option" where
  "boxTop color w = map_option (\<lambda>b. color @ boxTL @ b @ boxTR @ reset) (repeat_string boxH (w - 2))"

definition boxBot :: "string \<Rightarrow> int \<Rightarrow> string option" where
  "boxBot color w = map_option (\<lambda>b. color @ boxBL @ b @ boxBR @ reset) (repeat_string boxH (w - 2))"

definition boxLine :: "string \<Rightarrow> string \<Rightarrow> int \<Rightarrow> string" where
  "boxLine borderColor content w = borderColor @ boxV @ reset @ padRight content (w - 2) @ borderColor @ boxV @ reset"

definition menuItem :: "string \<Rightarrow> string \<Rightarrow> string \<Rightarrow> string" where
  "menuItem key name desc =
     ''   '' @ (Bright 2 @ ''['' @ key @ '']'' @ reset) @ ''  '' @ padRight name 22 @ '' - '' @ (FG 6 @ desc @ reset)"

section \<open>Hit points\<close>

definition hpBar :: "int \<Rightarrow> int \<Rightarrow> int \<Rightarrow> string option" where
  "hpBar hp max0 width =
     (let mx = (if max0 \<le> 0 then 1 else max0);
          pct = go_quo (wrap64 (hp * 100)) mx;
          filled0 = go_quo (wrap64 (hp * width)) mx;
          filled1 = (if filled0 < 0 then 0 else filled0);
          filled = (if filled1 > width then width else filled1);
          color = (if pct > 50 then Bright 2 else if pct > 25 then Bright 3 else Bright 1)
      in case (repeat_string ''#'' filled, repeat_string ''-'' (width - filled)) of
           (Some a, Some b) \<Rightarrow> Some (color @ ''['' @ a @ b @ '']'' @ reset)
         | _ \<Rightarrow> None)"

definition fmtHP :: "string \<Rightarrow> int \<Rightarrow> int \<Rightarrow> string option" where
  "fmtHP label hp maxHP =
     map_option (\<lambda>bar. ''  '' @ pad_verb 16 (label @ '':'') @ '' '' @ bar @ ''  '' @ show_int hp @ ''/'' @ show_int maxHP) (hpBar hp maxHP 14)"

section \<open>The status columns\<close>

definition iconHP :: string where "iconHP = map char_of [226, 153, 165 :: nat]"
definition iconExp :: string where "iconExp = map char_of [226, 151, 137 :: nat]"
definition iconAtk :: string where "iconAtk = map char_of [226, 156, 149 :: nat]"
definition iconDebt :: string where "iconDebt = map char_of [226, 151, 138 :: nat]"
definition iconDepth :: string where "iconDepth = map char_of [226, 137, 161 :: nat]"

definition status_cell :: "string \<Rightarrow> string \<Rightarrow> int \<Rightarrow> string" where
  "status_cell color s w = padRight ('' '' @ color @ s @ reset) w"

definition statusCols :: "int \<Rightarrow> int \<Rightarrow> int \<Rightarrow> int \<Rightarrow> int \<Rightarrow> int \<Rightarrow> int \<Rightarrow> int \<Rightarrow> int \<Rightarrow> int \<Rightarrow> string \<times> string" where
  "statusCols hp maxHP actions maxActions attacks maxAttacks debt level depthRecord w =
     (let sep = FG 5 @ boxV @ reset; inner = w - 2; c6 = inner - 12 - 15 - 12 - 11 - 8 - 5;
          labels = [status_cell (Bright 1) (iconHP @ '' HP'') 12, status_cell (Bright 3) (iconExp @ '' Expeditions'') 15,
            status_cell (Bright 1) (iconAtk @ '' Attacks'') 12, status_cell (FG 5) (iconDebt @ '' Debt'') 11,
            status_cell (FG 4) ''Lv'' 8, status_cell (FG 6) (iconDepth @ '' Depth'') c6];
          vals = [status_cell (Bright 1) (show_int hp @ ''/'' @ show_int maxHP) 12,
            status_cell (Bright 3) (show_int actions @ ''/'' @ show_int maxActions) 15,
            status_cell (Bright 1) (show_int attacks @ ''/'' @ show_int maxAttacks) 12,
            status_cell (FG 5) (show_int debt) 11, status_cell (FG 4) (show_int level) 8, status_cell (FG 6) (show_int depthRecord) c6]
      in (join_with sep labels, join_with sep vals))"

section \<open>Widths add up\<close>

text \<open>Text that does not end inside an escape sequence.\<close>

function closed :: "nat list \<Rightarrow> bool" where
  "closed [] = True"
| "closed (r # rs) \<longleftrightarrow> (if r = 27 then rs \<noteq> [] \<and> hd rs = 91 \<and> list_ex isFinalByte (tl rs) \<and> closed (skip_csi (tl rs)) else closed rs)"
  by pat_completeness auto
termination
proof (relation "measure length", goal_cases)
  case (2 r rs)
  then show ?case using skip_csi_length [of "tl rs"] by simp
qed simp_all

definition tidy :: "string \<Rightarrow> bool" where
  "tidy s \<longleftrightarrow> utf8 s \<and> closed (runes s)"

lemma skip_csi_append: "list_ex isFinalByte rs \<Longrightarrow> skip_csi (rs @ ts) = skip_csi rs @ ts"
  by (induction rs) auto

lemma vis_append: "closed rs \<Longrightarrow> vis_count (rs @ ts) = vis_count rs + vis_count ts"
proof (induction rs rule: closed.induct)
  case (2 r rs)
  then show ?case by (cases "r = 27") (simp_all add: skip_csi_append)
qed simp

lemma closed_append: "closed rs \<Longrightarrow> closed (rs @ ts) = closed ts"
proof (induction rs rule: closed.induct)
  case (2 r rs)
  then show ?case by (cases "r = 27") (auto simp: skip_csi_append)
qed simp

lemma tidy_append: "tidy s \<Longrightarrow> visLen (s @ t) = visLen s + visLen t" "tidy s \<Longrightarrow> tidy t \<Longrightarrow> tidy (s @ t)"
  by (simp_all add: tidy_def visLen_def runes_append vis_append closed_append)

lemma plain_closed: "27 \<notin> set rs \<Longrightarrow> closed rs \<and> vis_count rs = int (length rs)"
  by (induction rs) auto

lemma tidy_Nil [simp]: "tidy []" "visLen [] = 0"
  by (simp_all add: tidy_def visLen_def)

lemma tidy_ascii:
  assumes "ascii s" "CHR 0x1B \<notin> set s"
  shows "tidy s" "visLen s = int (length s)"
proof -
  have "byte c \<noteq> 27" if "c \<in> set s" for c
  proof -
    have "byte c \<noteq> byte (CHR 0x1B)"
      using assms(2) that by (auto simp only: of_char_eq_iff)
    then show ?thesis by simp
  qed
  then have "27 \<notin> set (map byte s)"
    unfolding set_map by (metis imageE)
  then show "tidy s" "visLen s = int (length s)"
    using runes_ascii [OF assms(1), of "[]"] plain_closed [of "map byte s"] ascii_utf8 [OF assms(1)]
    by (simp_all add: tidy_def visLen_def)
qed

text \<open>A colour sequence takes no column.\<close>

definition color :: "string \<Rightarrow> bool" where
  "color s \<longleftrightarrow> tidy s \<and> visLen s = 0"

lemma color_csi:
  assumes "list_all is_digit ds"
  shows "color (esc @ ds @ ''m'')"
proof -
  have d: "byte c < 64" "byte c < 128" if "c \<in> set ds" for c
    using assms that by (auto simp: list_all_iff is_digit_def)
  have asc: "ascii (esc @ ds @ ''m'')"
    using d by (auto simp: esc_def ascii_def list_all_iff)
  have "skip_csi (map byte cs @ [109]) = []" if "list_all (\<lambda>c. byte c < 64) cs" for cs
    using that by (induction cs) (simp_all add: isFinalByte_def)
  then have "skip_csi (map byte ds @ [109]) = []"
    using d(1) by (simp add: list_all_iff)
  moreover have "runes (esc @ ds @ ''m'') = 27 # 91 # map byte ds @ [109]"
    using runes_ascii [OF asc, of "[]"] by (simp add: esc_def)
  ultimately show ?thesis
    using ascii_utf8 [OF asc] by (simp add: color_def tidy_def visLen_def isFinalByte_def)
qed

lemma show_int_digits: "0 \<le> i \<Longrightarrow> list_all is_digit (show_int i)"
  by (simp add: show_int_def show_nat_digits)

lemma colors [simp]: "0 \<le> c \<Longrightarrow> color (FG c)" "0 \<le> c \<Longrightarrow> color (Bright c)" "color reset"
  using color_csi [of "''3'' @ show_int c"] color_csi [of "''9'' @ show_int c"] color_csi [of "''0''"] show_int_digits [of c]
  by (simp_all add: FG_def Bright_def reset_def is_digit_def)

lemma color_simps: "color s \<Longrightarrow> visLen (s @ t) = visLen t" "color s \<Longrightarrow> tidy t \<Longrightarrow> tidy (s @ t)" "color s \<Longrightarrow> tidy s" "color s \<Longrightarrow> visLen s = 0"
  by (simp_all add: color_def tidy_append)

text \<open>The drawing characters and icons take one.\<close>

definition cell :: "string \<Rightarrow> bool" where
  "cell s \<longleftrightarrow> tidy s \<and> visLen s = 1"

lemma cells [simp]: "cell boxH" "cell boxV" "cell boxTL" "cell boxTR" "cell boxBL" "cell boxBR"
  "cell iconHP" "cell iconExp" "cell iconAtk" "cell iconDebt" "cell iconDepth"
proof -
  have c: "cell (encode_rune r)" if "valid_rune r" "r \<noteq> 27" for r
  proof -
    have "runes (encode_rune r) = [r]"
      using chunks_encode [OF that(1), of "[]"] by (simp add: runes_def)
    moreover have "utf8 (encode_rune r)"
      using utf8_of_runes [of "[r]"] that(1) by (simp add: string_of_runes_def)
    ultimately show ?thesis
      using that(2) by (simp add: cell_def tidy_def visLen_def)
  qed
  have e: "boxH = encode_rune 9472" "boxV = encode_rune 9474" "boxTL = encode_rune 9484" "boxTR = encode_rune 9488"
    "boxBL = encode_rune 9492" "boxBR = encode_rune 9496" "iconHP = encode_rune 9829" "iconExp = encode_rune 9673"
    "iconAtk = encode_rune 10005" "iconDebt = encode_rune 9674" "iconDepth = encode_rune 8801"
    by (simp_all add: encode_rune_def valid_rune_def boxH_def boxV_def boxTL_def boxTR_def boxBL_def boxBR_def iconHP_def
        iconExp_def iconAtk_def iconDebt_def iconDepth_def)
  show "cell boxH" "cell boxV" "cell boxTL" "cell boxTR" "cell boxBL" "cell boxBR"
    "cell iconHP" "cell iconExp" "cell iconAtk" "cell iconDebt" "cell iconDepth"
    unfolding e by (rule c; simp add: valid_rune_def)+
qed

lemma cell_simps: "cell s \<Longrightarrow> visLen (s @ t) = 1 + visLen t" "cell s \<Longrightarrow> tidy t \<Longrightarrow> tidy (s @ t)" "cell s \<Longrightarrow> tidy s" "cell s \<Longrightarrow> visLen s = 1"
  by (simp_all add: cell_def tidy_append)

lemma repeated:
  assumes "cell s" "0 \<le> n"
  shows "\<exists>b. repeat_string s n = Some b \<and> tidy b \<and> visLen b = n"
proof -
  have "tidy (concat (replicate k s)) \<and> visLen (concat (replicate k s)) = int k" for k
    using assms(1) by (induction k) (simp_all add: cell_simps)
  then show ?thesis
    using assms(2) by (simp add: repeat_string_def)
qed

lemma padRight_width:
  assumes "tidy s" "visLen s \<le> w"
  shows "tidy (padRight s w)" "visLen (padRight s w) = w"
proof -
  have p: "tidy (replicate n CHR '' '')" "visLen (replicate n CHR '' '') = int n" for n
    by (rule tidy_ascii; simp add: ascii_def list_all_iff) (subst tidy_ascii; simp add: ascii_def list_all_iff)
  show "tidy (padRight s w)" "visLen (padRight s w) = w"
    using assms by (simp_all add: padRight_def tidy_append p)
qed

section \<open>The layout fits\<close>

lemma boxLine_width:
  assumes "color c" "tidy content" "visLen content \<le> w - 2"
  shows "visLen (boxLine c content w) = w"
  using assms padRight_width [OF assms(2,3)] by (simp add: boxLine_def color_simps cell_simps tidy_append)

lemma borders_width:
  assumes "color c" "2 \<le> w"
  shows "\<exists>t b r. boxTop c w = Some t \<and> visLen t = w \<and> boxBot c w = Some b \<and> visLen b = w \<and> hRule c w = Some r \<and> visLen r = w"
proof -
  have w: "0 \<le> w - 2" "0 \<le> w"
    using assms(2) by simp_all
  obtain b b' where "repeat_string boxH (w - 2) = Some b" "tidy b" "visLen b = w - 2" "repeat_string boxH w = Some b'" "tidy b'" "visLen b' = w"
    using repeated [of boxH "w - 2", OF _ w(1)] repeated [of boxH w, OF _ w(2)] cells(1) by blast
  then show ?thesis
    using assms(1) by (simp add: boxTop_def boxBot_def hRule_def color_simps cell_simps tidy_append)
qed

lemma ascii_cells: "cell ''#''" "cell ''-''"
  by (simp_all add: cell_def tidy_ascii)

text \<open>The bar is drawn whatever the numbers are: negative hit points, a maximum of zero, overflow.\<close>

lemma hpBar_width:
  assumes "0 \<le> width"
  shows "\<exists>s. hpBar hp mx width = Some s \<and> visLen s = width + 2"
proof -
  define m where "m = (if mx \<le> 0 then 1 else mx)"
  define f where "f = min (max 0 (go_quo (wrap64 (hp * width)) m)) width"
  define c where "c = (if go_quo (wrap64 (hp * 100)) m > 50 then Bright 2 else if go_quo (wrap64 (hp * 100)) m > 25 then Bright 3 else Bright 1)"
  have f: "0 \<le> f" "0 \<le> width - f" "color c"
    using assms by (simp_all add: f_def c_def)
  obtain a b where ab: "repeat_string ''#'' f = Some a" "tidy a" "visLen a = f" "repeat_string ''-'' (width - f) = Some b" "tidy b" "visLen b = width - f"
    using repeated [OF ascii_cells(1) f(1)] repeated [OF ascii_cells(2) f(2)] by blast
  have e: "(let fl = go_quo (wrap64 (hp * width)) m; fl = if fl < 0 then 0 else fl in if fl > width then width else fl) = f"
    using assms by (auto simp: f_def Let_def)
  have h: "hpBar hp mx width = Some (c @ ''['' @ a @ b @ '']'' @ reset)"
    using ab e by (simp add: hpBar_def Let_def flip: m_def c_def)
  have l: "tidy ''[''" "visLen ''['' = 1" "tidy '']''" "visLen '']'' = 1"
    by (simp_all add: tidy_ascii)
  have "visLen (c @ ''['' @ a @ b @ '']'' @ reset) = width + 2"
    using f(3) ab l by (simp add: color_simps tidy_append del: append_Cons)
  then show ?thesis
    using h by simp
qed

lemma status_cell_width:
  assumes "color c" "tidy s" "visLen s + 1 \<le> w"
  shows "tidy (status_cell c s w)" "visLen (status_cell c s w) = w"
proof -
  have sp: "tidy '' ''" "visLen '' '' = 1"
    by (simp_all add: tidy_ascii)
  have "tidy ('' '' @ c @ s @ reset)" "visLen ('' '' @ c @ s @ reset) = 1 + visLen s"
    using assms(1,2) by (simp_all add: tidy_append sp color_simps del: append_Cons)
  then show "tidy (status_cell c s w)" "visLen (status_cell c s w) = w"
    using assms(3) padRight_width [of "'' '' @ c @ s @ reset" w] by (simp_all add: status_cell_def del: append_Cons)
qed

lemma joined_width:
  assumes "tidy sep" "list_all tidy cs" "cs \<noteq> []"
  shows "tidy (join_with sep cs) \<and> visLen (join_with sep cs) = (\<Sum>c\<leftarrow>cs. visLen c) + visLen sep * int (length cs - 1)"
  using assms(2,3)
proof (induction cs rule: induct_list012)
  case (3 p q ps)
  then show ?case using assms(1) by (simp add: tidy_append algebra_simps)
qed simp_all

text \<open>Numbers as the status row shows them.\<close>

lemma tidy_number: "tidy (show_int i)" "visLen (show_int i) = int (length (show_int i))"
  "tidy (show_int i @ ''/'' @ show_int j)" "visLen (show_int i @ ''/'' @ show_int j) = int (length (show_int i @ ''/'' @ show_int j))"
proof -
  have d: "byte c < 128 \<and> c \<noteq> CHR 0x1B" if "is_digit c" for c
    using that by (auto simp: is_digit_def)
  have n: "ascii (show_int i) \<and> CHR 0x1B \<notin> set (show_int i)" for i
    using d show_nat_digits [of "nat i"] show_nat_digits [of "nat (- i)"]
    by (auto simp: show_int_def ascii_def list_all_iff)
  then have nn: "ascii (show_int i @ ''/'' @ show_int j)" "CHR 0x1B \<notin> set (show_int i @ ''/'' @ show_int j)"
    by simp_all
  show "tidy (show_int i)" "visLen (show_int i) = int (length (show_int i))"
    using n tidy_ascii by blast+
  show "tidy (show_int i @ ''/'' @ show_int j)" "visLen (show_int i @ ''/'' @ show_int j) = int (length (show_int i @ ''/'' @ show_int j))"
    using nn tidy_ascii by blast+
qed

lemma label_cells:
  "tidy (iconHP @ '' HP'')" "visLen (iconHP @ '' HP'') = 4" "tidy (iconExp @ '' Expeditions'')" "visLen (iconExp @ '' Expeditions'') = 13"
  "tidy (iconAtk @ '' Attacks'')" "visLen (iconAtk @ '' Attacks'') = 9" "tidy (iconDebt @ '' Debt'')" "visLen (iconDebt @ '' Debt'') = 6"
  "tidy ''Lv''" "visLen ''Lv'' = 2" "tidy (iconDepth @ '' Depth'')" "visLen (iconDepth @ '' Depth'') = 7"
  by (simp_all add: cell_simps tidy_ascii)

text \<open>The status box is straight. As long as the numbers of a player fit their columns, both rows of the
  status are exactly as wide as the inside of the box, however many colour sequences they carry, and the
  boxed lines are exactly as wide as the screen.\<close>

theorem status_box_fits:
  assumes "statusCols hp maxHP actions maxActions attacks maxAttacks debt level depth 80 = (labels, vals)" and "0 \<le> border"
    and "length (show_int hp @ ''/'' @ show_int maxHP) \<le> 11" "length (show_int actions @ ''/'' @ show_int maxActions) \<le> 14"
      "length (show_int attacks @ ''/'' @ show_int maxAttacks) \<le> 11" "length (show_int debt) \<le> 10" "length (show_int level) \<le> 7"
      "length (show_int depth) \<le> 14"
  shows "visLen labels = 78 \<and> visLen vals = 78 \<and> visLen (boxLine (FG border) labels 80) = 80 \<and> visLen (boxLine (FG border) vals 80) = 80"
proof -
  have sep: "tidy (FG 5 @ boxV @ reset)" "visLen (FG 5 @ boxV @ reset) = 1"
    by (simp_all add: color_simps cell_simps)
  let ?l = "[status_cell (Bright 1) (iconHP @ '' HP'') 12, status_cell (Bright 3) (iconExp @ '' Expeditions'') 15,
    status_cell (Bright 1) (iconAtk @ '' Attacks'') 12, status_cell (FG 5) (iconDebt @ '' Debt'') 11,
    status_cell (FG 4) ''Lv'' 8, status_cell (FG 6) (iconDepth @ '' Depth'') 15]"
  let ?v = "[status_cell (Bright 1) (show_int hp @ ''/'' @ show_int maxHP) 12,
    status_cell (Bright 3) (show_int actions @ ''/'' @ show_int maxActions) 15,
    status_cell (Bright 1) (show_int attacks @ ''/'' @ show_int maxAttacks) 12,
    status_cell (FG 5) (show_int debt) 11, status_cell (FG 4) (show_int level) 8, status_cell (FG 6) (show_int depth) 15]"
  have lv: "labels = join_with (FG 5 @ boxV @ reset) ?l" "vals = join_with (FG 5 @ boxV @ reset) ?v"
    using assms(1) by (simp_all add: statusCols_def Let_def del: join_with.simps)
  have "list_all tidy ?l \<and> map visLen ?l = [12, 15, 12, 11, 8, 15]"
    by (simp add: status_cell_width label_cells del: append_Cons)
  moreover have "list_all tidy ?v \<and> map visLen ?v = [12, 15, 12, 11, 8, 15]"
    using assms(3-8) by (simp add: status_cell_width tidy_number del: append_Cons length_append)
  ultimately have "tidy labels" "visLen labels = 78" "tidy vals" "visLen vals = 78"
    using joined_width [OF sep(1), of ?l] joined_width [OF sep(1), of ?v] sep(2)
    by (simp_all add: lv del: join_with.simps)
  then show ?thesis
    using boxLine_width [of "FG border" labels 80] boxLine_width [of "FG border" vals 80] assms(2) by simp
qed

end
