(* ===== verification/Service_Examples.thy ===== *)
theory Service_Examples
  imports Node_Service Game_Art Node_Examples
begin

text \<open>
  A client at the front door of the example node, and a second node that reads the feed of the example
  hub: the properties of the terminal, of the server and of the sync loop's progress applied.
\<close>

section \<open>The example\<close>

definition ex_client :: "string \<Rightarrow> Client" where
  "ex_client k = \<lparr>c_Hub = ex_s, c_APIKey = k\<rparr>"

definition ex_door :: "(call, game, hub) Door" where
  "ex_door = node_door (\<lambda>_. 0) id ex_time ex_digest (ex_client ''k'') ''a''"

text \<open>The keys of a client who creates an account and looks around.\<close>

definition ex_typed :: "call input list" where
  "ex_typed = map ex_key (''ckim'' @ [CHR 0x0D] @ ''secret'' @ [CHR 0x0D] @ ''q'')"

text \<open>Node b with nothing read yet.\<close>

definition ex_reader :: "game \<times> hub" where
  "ex_reader = (ex_node ''b'' [] [], ex_hub)"

definition ex_reading :: "game Syncer" where
  "ex_reading = node_syncer id ex_time ex_digest (ex_client ''kk'') ''b''"

lemma ex_reader_inv: "sync_inv (\<lambda>s. [length s]) (ex_client ''kk'') ''b'' ex_reader"
proof -
  have "hex_encode [Suc (Suc 0)] = ''02''"
    by code_simp
  then show ?thesis
    by (simp add: sync_inv_def ex_inv key_of_def node_keys_def ex_row_def cursors_ok_def pushed_ok_def pulled_ok_def ex_client_def
        ex_reader_def ex_node_def in_int64_def ex_evseq)
qed


definition ex_fresh :: node_row where
  "ex_fresh = (ex_row ''b'' ''02'')\<lparr>n_LastHeartbeat := 9, n_GameVersion := game_Version\<rparr>"

definition ex_hub_b :: hub where
  "ex_hub_b = ex_hub\<lparr>h_nodes := [ex_row ''a'' ''01'', ex_fresh]\<rparr>"

definition ex_pulled :: Pulled where
  "ex_pulled = \<lparr>pl_HubSeq = 1, pl_Event = \<lparr>v_EventID = ''a:1'', v_SourceNode = ''a'', v_Seq = 1, v_Type = ''debt.adjusted'',
     v_TS = 5, v_Payload = e_Payload ex_adjust\<rparr>\<rparr>"

lemma ex_hash2: "hex_encode [Suc (Suc 0)] = ''02''"
  by code_simp

lemma ex_do:
  assumes "h = ex_hub \<or> h = ex_hub_b" and "r = client_req (ex_client ''kk'') m p q b"
    and "Handler ex_s ex_env r h = auth ex_env nxt r h"
  shows "\<exists>nd. n_NodeID nd = ''b'' \<and> client_do ex_call (ex_client ''kk'') m p q b h =
    (case nxt nd r h of (h1, resp) \<Rightarrow> (h1, if p_code resp div 100 = 2 then Inr (p_body resp) else Inl (FStatus (p_code resp))))"
proof -
  let ?nd = "scan_node (if h = ex_hub then ex_row ''b'' ''02'' else ex_fresh)"
  have "r_auth r = ''Bearer kk''"
    by (simp add: assms(2) client_req_def ex_client_def)
  moreover have "v_sha256 ex_env ''kk'' = [Suc (Suc 0)]"
    by (simp add: ex_env_def)
  ultimately have "caller ex_env r h = Some ?nd"
    using assms(1) by (auto simp: caller_iff bearer_def has_prefix_def hashKey_def ex_hash2 ex_row_def ex_fresh_def ex_hub_b_def)
  then have "Handler ex_s ex_env r h = nxt ?nd r h"
    using assms(3) auth_caller(1) by simp
  moreover have "n_NodeID ?nd = ''b''"
    by (simp add: scan_node_def ex_fresh_def ex_row_def)
  ultimately show ?thesis
    using assms(2) by (intro exI [of _ ?nd]) (simp add: client_do_def ex_call_def ex_client_def split: prod.split)
qed

lemma ex_beat: "Client_Heartbeat ex_call (ex_client ''kk'') ''b'' 0 0 game_Version ex_hub = (ex_hub_b, None)"
proof -
  let ?b = "JObj [(''game_version'', JStr game_Version), (''node_id'', JStr ''b''), (''player_count'', JInt 0), (''uptime_s'', JInt 0)]"
  let ?r = "client_req (ex_client ''kk'') ''POST'' [''v1'', ''heartbeat''] [] (Some ?b)"
  have H: "Handler ex_s ex_env ?r ex_hub = auth ex_env (handleHeartbeat ex_env) ?r ex_hub"
    by (simp add: Handler_def serve_def Route_def route_post_def client_req_def)
  have d: "dec_heartbeatReq ?b = (\<lparr>hb_NodeID = ''b'', hb_PlayerCount = 0, hb_UptimeS = 0, hb_GameVersion = game_Version\<rparr>, True)"
    by (simp add: dec_heartbeatReq_def fold_simps)
  have h: "fst (handleHeartbeat ex_env nd ?r ex_hub) = ex_hub_b \<and> p_code (snd (handleHeartbeat ex_env nd ?r ex_hub)) = 200"
    if "n_NodeID nd = ''b''" for nd
    using that by (simp add: handleHeartbeat_def d client_req_def Heartbeat_def ex_hub_b_def ex_row_def ex_fresh_def unix_now_def
        ex_env_def upd_where_def rows_where_def writeJSON_def)
  obtain nd where nd: "n_NodeID nd = ''b''" and c: "client_do ex_call (ex_client ''kk'') ''POST'' [''v1'', ''heartbeat''] [] (Some ?b) ex_hub =
      (case handleHeartbeat ex_env nd ?r ex_hub of (h1, resp) \<Rightarrow>
        (h1, if p_code resp div 100 = 2 then Inr (p_body resp) else Inl (FStatus (p_code resp))))"
    using ex_do [OF disjI1 [OF refl] refl H] by blast
  obtain resp where "handleHeartbeat ex_env nd ?r ex_hub = (ex_hub_b, resp)" "p_code resp = 200"
    using h [OF nd] by (metis prod.collapse)
  then show ?thesis
    using c by (simp add: Client_Heartbeat_def do_ok_def)
qed

lemma ex_page: "feed_page 500 ''b'' 0 ex_hub_b = [(1, ex_adjust)]"
proof -
  have "feed_wf ex_hub_b"
    using ex_inv by (simp add: hub_inv_defs feed_wf_def ex_hub_b_def)
  then show ?thesis
    by (simp add: feed_page_take clamp_limit_def visible_def ex_hub_b_def)
qed

lemma ex_pull: "Client_Pull ex_call (ex_client ''kk'') 0 True ex_hub_b = (ex_hub_b, Inr ([ex_pulled], 1))"
proof -
  let ?q = "[(''after'', show_int 0), (''limit'', ''500''), (''exclude_self'', ''true'')]"
  let ?r = "client_req (ex_client ''kk'') ''GET'' [''v1'', ''events''] ?q None"
  have H: "Handler ex_s ex_env ?r ex_hub_b = auth ex_env (handleEventsPull ex_env) ?r ex_hub_b"
    by (simp add: Handler_def serve_def Route_def route_get_def client_req_def)
  have z: "in_int64 0"
    by (simp add: in_int64_def)
  let ?j = "JObj [(''events'', JArr [enc_FeedEvent (1, ex_adjust)]), (''head'', JInt 1)]"
  have "handleEventsPull ex_env nd ?r ex_hub_b = (ex_hub_b, writeJSON 200 ?j)" if "n_NodeID nd = ''b''" for nd
  proof -
    have "head ex_hub_b = 1"
      by (simp add: head_def ex_hub_b_def)
    then have "snd (handleEventsPull ex_env nd ?r ex_hub_b) = writeJSON 200 ?j"
      using handleEventsPull_ok [OF ex_calm(1), of nd ?r ex_hub_b] that ex_page by (simp add: pull_query [OF z])
    moreover have "fst (handleEventsPull ex_env nd ?r ex_hub_b) = ex_hub_b"
      by (simp add: handleEventsPull_def Let_def split: sum.split prod.split)
    ultimately show ?thesis
      by (metis prod.collapse)
  qed
  then have "client_do ex_call (ex_client ''kk'') ''GET'' [''v1'', ''events''] ?q None ex_hub_b = (ex_hub_b, Inr (Some ?j))"
    using ex_do [OF disjI2 [OF refl] refl H] by (auto simp: writeJSON_def)
  moreover have "dec_feedEvent (enc_FeedEvent (1, ex_adjust)) = (ex_pulled, True)"
    by (simp add: dec_feedEvent_def enc_FeedEvent_def ex_adjust_def ex_pulled_def raw_json_def fold_simps unm_int_def unm_raw_def)
  ultimately show ?thesis
    by (simp add: Client_Pull_def do_out_def fold_simps unm_int_def)
qed

lemma ex_apply: "snd (snd (ApplyEvent (node_registry ''b'') apply_calm 90000 (pl_Event ex_pulled) (ex_node ''b'' [] []))) = None"
proof -
  have "node_registry ''b'' ''debt.adjusted'' = [on_debt_adjusted]"
    by (simp add: node_registry_def RegisterGameHandlers_def RegisterDebtHandlers_def OnEvent_def)
  then show ?thesis
    by (simp add: ApplyEvent_def store_event_def apply_calm_def markHandler_def on_debt_adjusted_def ex_pulled_def ex_node_def
        ex_adjust_def fold_simps unm_int_def Let_def split: prod.split)
qed

lemma ex_through: "through ex_reading [ex_tick] ex_reader = 1"
proof -
  have c: "ti_net ex_tick nm k = ex_call" "ti_db ex_tick nm k = False" "ti_apply ex_tick k = apply_calm" "ti_now ex_tick = 90000" for nm k
    by (simp_all add: ex_tick_def)
  have n: "sy_Client ex_reading = ex_client ''kk''" "sy_NodeID ex_reading = ''b''" "sy_GameVersion ex_reading = game_Version"
    "sy_Handlers ex_reading = node_registry ''b''"
    by (simp_all add: ex_reading_def node_syncer_def)
  have e: "LocalPlayers False (ex_node ''b'' [] []) = Inr []" "EventsSince False ''b'' 0 (ex_node ''b'' [] []) = Inr []"
    "SyncState False (ex_node ''b'' [] []) = Inr (0, 0, ''k'')"
    by (simp_all add: LocalPlayers_def EventsSince_def SyncState_def ex_node_def)
  have hb: "tick_heartbeat ex_reading ex_tick ex_reader = ((ex_node ''b'' [] [], ex_hub_b), None)"
    by (simp add: tick_heartbeat_def ex_reader_def c n e ex_beat)
  have push: "tick_push ex_reading ex_tick 0 (ex_node ''b'' [] [], ex_hub_b) = ((ex_node ''b'' [] [], ex_hub_b), None)"
    by (simp add: tick_push_def c n e)
  obtain s1 b where "ApplyEvent (node_registry ''b'') apply_calm 90000 (pl_Event ex_pulled) (ex_node ''b'' [] []) = (s1, b, None)"
    using ex_apply by (metis prod.collapse)
  then have "snd (tick_pull ex_reading ex_tick 0 (ex_node ''b'' [] [], ex_hub_b)) = None"
    by (simp add: tick_pull_def c n ex_pull SetHubCursor_def)
  then have "snd (pulls ex_reading ex_tick ex_reader) = None"
    by (simp add: pulls_def and_then_def hb push c e)
  then show ?thesis
    by simp
qed

lemma ex_comes_in: "\<not> isl (fst (snd (login ex_bcrypt ex_door ex_game ex_typed)))"
proof -
  have "\<not> isl (fst (snd (login ex_bcrypt \<lparr>dr_NewCharacter = NewCharacter, dr_Run = Q\<rparr> ex_game ex_typed)))" for Q
    by code_simp
  then show ?thesis
    by (simp add: ex_door_def node_door_def)
qed

lemma ex_calls_ok: "list_all (calls_ok (\<lambda>s. [length s])) [ex_tick]"
  by (simp add: calls_ok_def ex_tick_def ex_call_def ex_env_def honest_def grows_refl)

section \<open>The properties applied\<close>

theorem password_hidden_witness:
  "fst (snd (ReadLine False (map ex_key (''abc'' @ [CHR 0x0D])))) = fst (snd (ReadLine False (map ex_key (''x7%'' @ [CHR 0x0D]))))"
proof -
  have "map (key_kind \<circ> i_key) (map ex_key (''abc'' @ [CHR 0x0D])) = map (key_kind \<circ> i_key) (map ex_key (''x7%'' @ [CHR 0x0D]))"
    by code_simp
  then show ?thesis
    by (rule password_hidden)
qed

theorem frame_is_a_screen_witness:
  "\<exists>rows. Render (Status ''s'' (Pre ''p'' (Line ''hello'' NewFrame))) = clearHome @ join_with crlf rows \<and> length rows = 24
     \<and> rows ! 0 = ''hello'' \<and> rows ! 22 = ''p'' \<and> rows ! 23 = ''s''"
proof -
  let ?f = "Status ''s'' (Pre ''p'' (Line ''hello'' NewFrame))"
  have f: "f_lines ?f = [''hello'']" "f_pre ?f = ''p''" "f_status ?f = ''s''"
    by (code_simp, simp_all add: Status_def Pre_def)
  have c: "clip ''hello'' = ''hello''" "clip ''p'' = ''p''" "clip ''s'' = ''s''"
    by code_simp+
  obtain rows where r: "Render ?f = clearHome @ join_with crlf rows" "length rows = 24" "rows ! 23 = clip (f_status ?f)"
      "f_pre ?f \<noteq> [] \<longrightarrow> rows ! 22 = clip (f_pre ?f)"
      "\<forall>i < (if f_pre ?f = [] then 23 else 22). rows ! i = (if i < length (f_lines ?f) then clip (f_lines ?f ! i) else [])"
    using frame_is_a_screen [of ?f] by blast
  have "rows ! 0 = ''hello''" "rows ! 22 = ''p''" "rows ! 23 = ''s''"
    using r(3,4) r(5) [THEN spec, of 0] unfolding f by (simp_all add: c)
  with r(1,2) show ?thesis
    by blast
qed

theorem session_limit_witness:
  "\<exists>s. slot_run 1 {0} no_slots s \<and> sl_live s 5 \<noteq> None \<and> sl_count s = int (card (dom (sl_live s))) \<and> sl_count s \<le> 1"
proof -
  let ?a = "no_slots\<lparr>sl_passed := {0}\<rparr>" and ?b = "\<lparr>sl_passed = {}, sl_count = 1, sl_live = [5 \<mapsto> (Waiting, True)]\<rparr>"
  have "slot_step 1 {0} no_slots ?a"
    using slot_step.check [of 0 "{0}" no_slots 1] by (simp add: no_slots_def slot_free_def)
  moreover have "slot_step 1 {0} ?a ?b"
    using slot_step.accepted [of 0 ?a 5 1 "{0}"] by (simp add: no_slots_def)
  ultimately have "slot_run 1 {0} no_slots ?b"
    using slot_run.start slot_run.next_step by blast
  then show ?thesis
    using session_limit [of 1 "{0}" ?b] by (intro exI [of _ ?b]) simp
qed

theorem status_box_fits_witness:
  "visLen (boxLine (FG 4) (snd (statusCols 9 10 3 5 0 3 (- 12) 1 2 80)) 80) = 80"
proof -
  obtain labels vals where s: "statusCols 9 10 3 5 0 3 (- 12) 1 2 80 = (labels, vals)"
    by (cases "statusCols 9 10 3 5 0 3 (- 12) 1 2 80")
  have "length (show_int 9 @ ''/'' @ show_int 10) \<le> 11" "length (show_int 3 @ ''/'' @ show_int 5) \<le> 14"
    "length (show_int 0 @ ''/'' @ show_int 3) \<le> 11" "length (show_int (- 12)) \<le> 10" "length (show_int 1) \<le> 7" "length (show_int 2) \<le> 14"
    by code_simp+
  then show ?thesis
    using status_box_fits [OF s, of 4] s by simp
qed

theorem door_lets_in_players_witness:
  "case login ex_bcrypt ex_door ex_game ex_typed of (s1, r, ys) \<Rightarrow>
     (case r of Inl _ \<Rightarrow> False
      | Inr (p, x) \<Rightarrow> p_Status p \<noteq> ''traveling'' \<and> (\<exists>row \<in> set (g_players s1). Player.truncate row = p))"
proof -
  obtain s1 r ys where l: "login ex_bcrypt ex_door ex_game ex_typed = (s1, r, ys)"
    by (metis prod_cases3)
  moreover have "bc_cmp ex_bcrypt h pw" if "bc_gen ex_bcrypt pw = Some h" for pw h
    using that by (auto simp: ex_bcrypt_def)
  ultimately show ?thesis
    using door_lets_in_players [OF _ l [unfolded ex_door_def]] ex_comes_in by (cases r) auto
qed

theorem serving_keeps_types_witness:
  "game_ok (fst (fst (runApp ex_bcrypt (node_door (\<lambda>_. 0) id ex_time ex_digest (ex_client ''k'') ''a'') (ex_game, ex_hub) ex_typed)))"
  using ex_game_ok by (rule serving_keeps_types)

theorem sync_catches_up_witness:
  "''a:1'' \<in> v_EventID ` set (g_events (fst (Run ex_reading [ex_tick] ex_reader)))"
proof -
  have "behind (h_evseq (snd ex_reader)) ''b'' ex_reader \<le> 500"
    by (simp add: behind_def ex_reader_def visible_def)
  then have "behind (h_evseq (snd ex_reader)) ''b'' ex_reader \<le> 500 * through ex_reading [ex_tick] ex_reader"
    by (simp only: ex_through)
  then show ?thesis
    using sync_catches_up [OF ex_reader_inv ex_calls_ok, of id ex_time ex_digest "(1, ex_adjust)"]
    by (simp add: ex_reading_def ex_reader_def del: Run.simps)
qed

end
