(* ===== verification/Dom_Store.thy ===== *)
theory Dom_Store
  imports Engine_Events Engine_Term Go_Float
begin

text \<open>
  The second game of the repository, Empire Ascendant (\<open>games/empireascendant/dominion/quarantine\<close>), which
  runs on the same engine: its tables, added to the engine's store by extending its record, and every
  statement it runs on them (\<open>module.go\<close>, \<open>d2_data.go\<close>, \<open>d3_data.go\<close>). A flag or a fault schedule says
  which statements fail. Numbers a statement only ever moves by one stay far from the 64-bit range and
  are plain integers; \<open>money\<close> and the mineral stores are sums, and a sum out of range becomes a float
  that \<open>Scan\<close> refuses.
\<close>

section \<open>Constants\<close>

definition regionTypes :: "string list" where
  "regionTypes = [''agricultural'', ''industrial'', ''river'', ''urban'', ''desert'', ''ocean'', ''volcanic'', ''wasteland'']"

text \<open>A key that is not in a Go map gives the zero value.\<close>

definition lookup0 :: "(string \<times> int) list \<Rightarrow> string \<Rightarrow> int" where
  "lookup0 m k = (case map_of m k of None \<Rightarrow> 0 | Some v \<Rightarrow> v)"

definition regionBaseCost :: "string \<Rightarrow> int" where
  "regionBaseCost = lookup0 [(''agricultural'', 200), (''industrial'', 300), (''river'', 250), (''urban'', 280),
     (''desert'', 150), (''ocean'', 220), (''volcanic'', 350), (''wasteland'', 120)]"

definition nextRegionCost :: "int \<Rightarrow> string \<Rightarrow> int" where
  "nextRegionCost owned rtype = wrap64 (regionBaseCost rtype + go_quo (regionBaseCost rtype) 2 * owned)"

definition mineTypes :: "string list" where
  "mineTypes = [''gold'', ''silver'', ''iron'', ''nickel'', ''copper'']"

definition mineYield :: "string \<Rightarrow> int" where
  "mineYield = lookup0 [(''gold'', 1), (''silver'', 2), (''iron'', 10), (''nickel'', 5), (''copper'', 8)]"

definition mineralPrice :: "string \<Rightarrow> int" where
  "mineralPrice = lookup0 [(''gold'', 50), (''silver'', 30), (''iron'', 8), (''nickel'', 12), (''copper'', 10)]"

definition techCost :: "string \<Rightarrow> int" where
  "techCost = lookup0 [(''energy_fission'', 200), (''energy_fusion'', 500), (''soldiers_superhuman'', 300),
     (''soldiers_megahuman'', 600), (''vehicle_tank'', 250), (''vehicle_hovercraft'', 400), (''ballistic_nuclear'', 350),
     (''ballistic_antimatter'', 700), (''defense_turrets'', 150), (''defense_satellites'', 400),
     (''defense_global_shield'', 800), (''espionage_intel'', 300), (''travel_hyperdrive'', 600)]"

section \<open>State\<close>

record empireState =
  em_GlobalID :: string
  em_WorldName :: string
  em_EmpireName :: string
  em_Money :: int
  em_MoneyBank :: int
  em_Population :: int
  em_FoodStorage :: int
  em_Energy :: int
  em_ResearchPts :: int
  em_BuildingPts :: int

record regionRow =
  rg_RegionType :: string
  rg_Quantity :: int
  rg_Activated :: int
  rg_ActivateCost :: int

record buildingsRow =
  bd_MinersGuild :: int
  bd_FishingGuild :: int
  bd_FishersAssigned :: int
  bd_ConstructionFactory :: int
  bd_ResearchLab :: int
  bd_IntelBuilding :: int
  bd_Lottery :: int

record mineRow =
  mn_MineType :: string
  mn_NumMines :: int
  mn_MinersAssigned :: int
  mn_MineralLeft :: int

record militaryRow =
  ml_SoldiersNormal :: int
  ml_SoldiersSuper :: int
  ml_SoldiersMega :: int
  ml_Tanks :: int
  ml_Hovercrafts :: int
  ml_MissilesNuclear :: int
  ml_MissilesAntimatter :: int
  ml_ReconDrones :: int
  ml_Spies :: int
  ml_Turrets :: int
  ml_Satellites :: int
  ml_GlobalShieldActive :: int

record pvpLogEntry =
  pe_AttackerName :: string
  pe_AttackerWorld :: string
  pe_EventType :: string
  pe_Outcome :: string
  pe_Detail :: string

text \<open>A row of \<open>attack_limits\<close> without its key.\<close>

record limits =
  lm_ground_count :: int
  lm_missile_count :: int
  lm_spy_count :: int

text \<open>
  The tables, as lists of rows with their owner (and the rest of the primary key) in front. The column
  \<open>detail\<close> of \<open>pvp_log\<close> is the entry in JSON, of which the other two columns are copies.
\<close>

record dom = eng +
  dm_empires :: "empireState list"
  dm_regions :: "(string \<times> regionRow) list"
  dm_buildings :: "(string \<times> buildingsRow) list"
  dm_mines :: "(string \<times> mineRow) list"
  dm_tech :: "((string \<times> string) \<times> int) list"
  dm_minerals :: "((string \<times> string) \<times> int) list"
  dm_military :: "(string \<times> militaryRow) list"
  dm_log :: "(string \<times> pvpLogEntry \<times> int) list"
  dm_limits :: "((string \<times> string \<times> int) \<times> limits) list"

abbreviation region_key :: "string \<times> regionRow \<Rightarrow> string \<times> string" where
  "region_key r \<equiv> (fst r, rg_RegionType (snd r))"

abbreviation mine_key :: "string \<times> mineRow \<Rightarrow> string \<times> string" where
  "mine_key r \<equiv> (fst r, mn_MineType (snd r))"

section \<open>Empires\<close>

definition zero_empire :: "string \<Rightarrow> empireState" where
  "zero_empire i = \<lparr>em_GlobalID = i, em_WorldName = [], em_EmpireName = [], em_Money = 0, em_MoneyBank = 0, em_Population = 0,
     em_FoodStorage = 0, em_Energy = 0, em_ResearchPts = 0, em_BuildingPts = 0\<rparr>"

text \<open>The struct comes back with every error, filled as far as \<open>Scan\<close> got.\<close>

definition loadEmpire :: "bool \<Rightarrow> string \<Rightarrow> dom \<Rightarrow> empireState \<times> eng_err option" where
  "loadEmpire fault i s =
     (if fault then (zero_empire i, Some EDB)
      else case find (\<lambda>e. em_GlobalID e = i) (dm_empires s) of
        None \<Rightarrow> (zero_empire i, Some ENoRows)
      | Some e \<Rightarrow>
          if in_int64 (em_Money e) then (e, None)
          else ((zero_empire i)\<lparr>em_WorldName := em_WorldName e, em_EmpireName := em_EmpireName e\<rparr>, Some EDB))"

text \<open>The partial unique indexes on the two names.\<close>

definition names_taken :: "string \<Rightarrow> string \<Rightarrow> string \<Rightarrow> dom \<Rightarrow> bool" where
  "names_taken i w n s \<longleftrightarrow>
     list_ex (\<lambda>e. em_GlobalID e \<noteq> i \<and> (w \<noteq> [] \<and> em_WorldName e = w \<or> n \<noteq> [] \<and> em_EmpireName e = n)) (dm_empires s)"

definition saveNames :: "bool \<Rightarrow> string \<Rightarrow> string \<Rightarrow> string \<Rightarrow> dom \<Rightarrow> dom \<times> eng_err option" where
  "saveNames fault i w n s =
     (if fault \<or> i \<in> em_GlobalID ` set (dm_empires s) \<and> names_taken i w n s then (s, Some EDB)
      else (s\<lparr>dm_empires := upd_where (\<lambda>e. em_GlobalID e = i) (\<lambda>e. e\<lparr>em_WorldName := w, em_EmpireName := n\<rparr>) (dm_empires s)\<rparr>, None))"

text \<open>The columns \<open>updateEmpire\<close> writes: all but the names.\<close>

definition kept_names :: "empireState \<Rightarrow> empireState \<Rightarrow> empireState" where
  "kept_names e row = e\<lparr>em_WorldName := em_WorldName row, em_EmpireName := em_EmpireName row\<rparr>"

definition updateEmpire :: "bool \<Rightarrow> empireState \<Rightarrow> dom \<Rightarrow> dom \<times> eng_err option" where
  "updateEmpire fault e s =
     (if fault then (s, Some EDB)
      else (s\<lparr>dm_empires := upd_where (\<lambda>r. em_GlobalID r = em_GlobalID e) (kept_names e) (dm_empires s)\<rparr>, None))"

definition addMoney :: "bool \<Rightarrow> string \<Rightarrow> int \<Rightarrow> dom \<Rightarrow> dom" where
  "addMoney fault i n s =
     (if fault then s
      else s\<lparr>dm_empires := upd_where (\<lambda>e. em_GlobalID e = i) (\<lambda>e. e\<lparr>em_Money := em_Money e + n\<rparr>) (dm_empires s)\<rparr>)"

section \<open>Regions, buildings and mines\<close>

definition loadRegions :: "bool \<Rightarrow> string \<Rightarrow> dom \<Rightarrow> eng_err + regionRow list" where
  "loadRegions fault i s = (if fault then Inl EDB else Inr (map snd (filter (\<lambda>r. fst r = i) (dm_regions s))))"

definition region :: "regionRow list \<Rightarrow> string \<Rightarrow> regionRow option" where
  "region rs rt = find (\<lambda>r. rg_RegionType r = rt) rs"

definition addRegion :: "bool \<Rightarrow> string \<Rightarrow> string \<Rightarrow> int \<Rightarrow> dom \<Rightarrow> dom \<times> eng_err option" where
  "addRegion fault i rt cost s =
     (if fault then (s, Some EDB)
      else (s\<lparr>dm_regions := upsert region_key
          (\<lambda>old new. (fst old, (snd old)\<lparr>rg_Quantity := rg_Quantity (snd old) + 1, rg_Activated := rg_Activated (snd old) + 1, rg_ActivateCost := cost\<rparr>))
          (i, \<lparr>rg_RegionType = rt, rg_Quantity = 1, rg_Activated = 1, rg_ActivateCost = cost\<rparr>) (dm_regions s)\<rparr>, None))"

definition zero_buildings :: buildingsRow where
  "zero_buildings = \<lparr>bd_MinersGuild = 0, bd_FishingGuild = 0, bd_FishersAssigned = 0, bd_ConstructionFactory = 0,
     bd_ResearchLab = 0, bd_IntelBuilding = 0, bd_Lottery = 0\<rparr>"

text \<open>No row is no error; the struct comes back with an error too.\<close>

definition loadBuildings :: "bool \<Rightarrow> string \<Rightarrow> dom \<Rightarrow> buildingsRow \<times> eng_err option" where
  "loadBuildings fault i s =
     (if fault then (zero_buildings, Some EDB)
      else case map_of (dm_buildings s) i of None \<Rightarrow> (zero_buildings, None) | Some b \<Rightarrow> (b, None))"

definition saveBuildings :: "bool \<Rightarrow> string \<Rightarrow> buildingsRow \<Rightarrow> dom \<Rightarrow> dom \<times> eng_err option" where
  "saveBuildings fault i b s =
     (if fault then (s, Some EDB) else (s\<lparr>dm_buildings := upsert fst (\<lambda>_ new. new) (i, b) (dm_buildings s)\<rparr>, None))"

definition loadMines :: "bool \<Rightarrow> string \<Rightarrow> dom \<Rightarrow> eng_err + mineRow list" where
  "loadMines fault i s = (if fault then Inl EDB else Inr (map snd (filter (\<lambda>r. fst r = i) (dm_mines s))))"

definition setMineralLeft :: "bool \<Rightarrow> string \<Rightarrow> string \<Rightarrow> int \<Rightarrow> dom \<Rightarrow> dom \<times> eng_err option" where
  "setMineralLeft fault i mt n s =
     (if fault then (s, Some EDB)
      else (s\<lparr>dm_mines := upd_where (\<lambda>r. mine_key r = (i, mt)) (\<lambda>r. (fst r, (snd r)\<lparr>mn_MineralLeft := n\<rparr>)) (dm_mines s)\<rparr>, None))"

text \<open>A store out of the 64-bit range ends the scan with an error; the callers take the map as empty then.\<close>

definition loadMineralStore :: "bool \<Rightarrow> string \<Rightarrow> dom \<Rightarrow> eng_err + (string \<times> int) list" where
  "loadMineralStore fault i s =
     (let rows = filter (\<lambda>r. fst (fst r) = i) (dm_minerals s) in
      if fault \<or> \<not> list_all (\<lambda>r. in_int64 (snd r)) rows then Inl EDB else Inr (map (\<lambda>r. (snd (fst r), snd r)) rows))"

definition addMineralStore :: "bool \<Rightarrow> string \<Rightarrow> string \<Rightarrow> int \<Rightarrow> dom \<Rightarrow> dom \<times> eng_err option" where
  "addMineralStore fault i mt n s =
     (if fault then (s, Some EDB)
      else (s\<lparr>dm_minerals := upsert fst (\<lambda>old new. (fst old, snd old + n)) ((i, mt), n) (dm_minerals s)\<rparr>, None))"

definition clearMineralStore :: "bool \<Rightarrow> string \<Rightarrow> string \<Rightarrow> dom \<Rightarrow> dom \<times> eng_err option" where
  "clearMineralStore fault i mt s =
     (if fault then (s, Some EDB)
      else (s\<lparr>dm_minerals := upd_where (\<lambda>r. fst r = (i, mt)) (\<lambda>r. (fst r, 0)) (dm_minerals s)\<rparr>, None))"

section \<open>Technologies\<close>

definition hasTech :: "bool \<Rightarrow> string \<Rightarrow> string \<Rightarrow> dom \<Rightarrow> bool" where
  "hasTech fault i tech s \<longleftrightarrow> \<not> fault \<and> map_of (dm_tech s) (i, tech) = Some 1"

definition setTech :: "bool \<Rightarrow> string \<Rightarrow> string \<Rightarrow> dom \<Rightarrow> dom \<times> eng_err option" where
  "setTech fault i tech s =
     (if fault then (s, Some EDB) else (s\<lparr>dm_tech := upsert fst (\<lambda>_ new. new) ((i, tech), 1) (dm_tech s)\<rparr>, None))"

section \<open>Military\<close>

definition zero_military :: militaryRow where
  "zero_military = \<lparr>ml_SoldiersNormal = 0, ml_SoldiersSuper = 0, ml_SoldiersMega = 0, ml_Tanks = 0, ml_Hovercrafts = 0,
     ml_MissilesNuclear = 0, ml_MissilesAntimatter = 0, ml_ReconDrones = 0, ml_Spies = 0, ml_Turrets = 0, ml_Satellites = 0,
     ml_GlobalShieldActive = 0\<rparr>"

definition loadMilitary :: "bool \<Rightarrow> string \<Rightarrow> dom \<Rightarrow> militaryRow \<times> eng_err option" where
  "loadMilitary fault i s =
     (if fault then (zero_military, Some EDB)
      else case map_of (dm_military s) i of None \<Rightarrow> (zero_military, None) | Some m \<Rightarrow> (m, None))"

definition saveMilitary :: "bool \<Rightarrow> string \<Rightarrow> militaryRow \<Rightarrow> dom \<Rightarrow> dom \<times> eng_err option" where
  "saveMilitary fault i m s =
     (if fault then (s, Some EDB) else (s\<lparr>dm_military := upsert fst (\<lambda>_ new. new) (i, m) (dm_military s)\<rparr>, None))"

definition attackPower :: "militaryRow \<Rightarrow> int" where
  "attackPower m = wrap64 (ml_SoldiersNormal m * 1 + ml_SoldiersSuper m * 3 + ml_SoldiersMega m * 8 + ml_Tanks m * 15 + ml_Hovercrafts m * 20)"

definition defensePower :: "militaryRow \<Rightarrow> int" where
  "defensePower m = wrap64 (ml_SoldiersNormal m * 1 + ml_SoldiersSuper m * 3 + ml_SoldiersMega m * 8 + ml_Tanks m * 15
     + ml_Hovercrafts m * 20 + ml_Turrets m * 20 + ml_Satellites m * 50 + (if ml_GlobalShieldActive m > 0 then 200 else 0))"

record unitDef =
  ud_key :: char
  ud_field :: string
  ud_name :: string
  ud_costCr :: int
  ud_requires :: string
  ud_reqBldg :: string

definition unitDefs :: "unitDef list" where
  "unitDefs = map (\<lambda>(k, f, n, c, r, b). \<lparr>ud_key = k, ud_field = f, ud_name = n, ud_costCr = c, ud_requires = r, ud_reqBldg = b\<rparr>)
     [(CHR ''1'', ''soldiers_normal'', ''Normal Soldiers'', 50, [], []),
      (CHR ''2'', ''soldiers_super'', ''SuperHuman Soldiers'', 200, ''soldiers_superhuman'', []),
      (CHR ''3'', ''soldiers_mega'', ''MegaHuman Soldiers'', 500, ''soldiers_megahuman'', []),
      (CHR ''4'', ''tanks'', ''Tanks'', 400, ''vehicle_tank'', []),
      (CHR ''5'', ''hovercrafts'', ''Hovercrafts'', 600, ''vehicle_hovercraft'', []),
      (CHR ''6'', ''missiles_nuclear'', ''Nuclear Missiles'', 800, ''ballistic_nuclear'', []),
      (CHR ''7'', ''missiles_antimatter'', ''Antimatter Missiles'', 1500, ''ballistic_antimatter'', []),
      (CHR ''8'', ''recon_drones'', ''Recon Drones'', 150, [], []),
      (CHR ''9'', ''spies'', ''Spies'', 250, [], ''intel'')]"

definition unitCount :: "militaryRow \<Rightarrow> string \<Rightarrow> int" where
  "unitCount m f =
     (if f = ''soldiers_normal'' then ml_SoldiersNormal m else if f = ''soldiers_super'' then ml_SoldiersSuper m
      else if f = ''soldiers_mega'' then ml_SoldiersMega m else if f = ''tanks'' then ml_Tanks m
      else if f = ''hovercrafts'' then ml_Hovercrafts m else if f = ''missiles_nuclear'' then ml_MissilesNuclear m
      else if f = ''missiles_antimatter'' then ml_MissilesAntimatter m else if f = ''recon_drones'' then ml_ReconDrones m
      else if f = ''spies'' then ml_Spies m else 0)"

definition addUnits :: "militaryRow \<Rightarrow> string \<Rightarrow> int \<Rightarrow> militaryRow" where
  "addUnits m f n =
     (if f = ''soldiers_normal'' then m\<lparr>ml_SoldiersNormal := wrap64 (ml_SoldiersNormal m + n)\<rparr>
      else if f = ''soldiers_super'' then m\<lparr>ml_SoldiersSuper := wrap64 (ml_SoldiersSuper m + n)\<rparr>
      else if f = ''soldiers_mega'' then m\<lparr>ml_SoldiersMega := wrap64 (ml_SoldiersMega m + n)\<rparr>
      else if f = ''tanks'' then m\<lparr>ml_Tanks := wrap64 (ml_Tanks m + n)\<rparr>
      else if f = ''hovercrafts'' then m\<lparr>ml_Hovercrafts := wrap64 (ml_Hovercrafts m + n)\<rparr>
      else if f = ''missiles_nuclear'' then m\<lparr>ml_MissilesNuclear := wrap64 (ml_MissilesNuclear m + n)\<rparr>
      else if f = ''missiles_antimatter'' then m\<lparr>ml_MissilesAntimatter := wrap64 (ml_MissilesAntimatter m + n)\<rparr>
      else if f = ''recon_drones'' then m\<lparr>ml_ReconDrones := wrap64 (ml_ReconDrones m + n)\<rparr>
      else if f = ''spies'' then m\<lparr>ml_Spies := wrap64 (ml_Spies m + n)\<rparr> else m)"

section \<open>Dispatches and limits\<close>

definition writePvPLog :: "bool \<Rightarrow> int \<Rightarrow> string \<Rightarrow> pvpLogEntry \<Rightarrow> dom \<Rightarrow> dom \<times> eng_err option" where
  "writePvPLog fault now i e s = (if fault then (s, Some EDB) else (s\<lparr>dm_log := dm_log s @ [(i, e, now)]\<rparr>, None))"

text \<open>Entries of the same second come in the order they were written.\<close>

definition loadPvPLog :: "bool \<Rightarrow> string \<Rightarrow> dom \<Rightarrow> eng_err + pvpLogEntry list" where
  "loadPvPLog fault i s =
     (if fault then Inl EDB else Inr (map (\<lambda>r. fst (snd r)) (sort_key (\<lambda>r. snd (snd r)) (filter (\<lambda>r. fst r = i) (dm_log s)))))"

definition clearPvPLog :: "bool \<Rightarrow> string \<Rightarrow> dom \<Rightarrow> dom \<times> eng_err option" where
  "clearPvPLog fault i s = (if fault then (s, Some EDB) else (s\<lparr>dm_log := del_where (\<lambda>r. fst r = i) (dm_log s)\<rparr>, None))"

definition countPvPLog :: "bool \<Rightarrow> string \<Rightarrow> dom \<Rightarrow> nat" where
  "countPvPLog fault i s = (if fault then 0 else rows_where (\<lambda>r. fst r = i) (dm_log s))"

text \<open>The counter column is one of three.\<close>

datatype limit_col = ground_count | missile_count | spy_count

definition limit_get :: "limit_col \<Rightarrow> limits \<Rightarrow> int" where
  "limit_get c l = (case c of ground_count \<Rightarrow> lm_ground_count l | missile_count \<Rightarrow> lm_missile_count l | spy_count \<Rightarrow> lm_spy_count l)"

definition limit_inc :: "limit_col \<Rightarrow> limits \<Rightarrow> limits" where
  "limit_inc c l = (case c of ground_count \<Rightarrow> l\<lparr>lm_ground_count := lm_ground_count l + 1\<rparr>
     | missile_count \<Rightarrow> l\<lparr>lm_missile_count := lm_missile_count l + 1\<rparr> | spy_count \<Rightarrow> l\<lparr>lm_spy_count := lm_spy_count l + 1\<rparr>)"

definition no_limits :: limits where
  "no_limits = \<lparr>lm_ground_count = 0, lm_missile_count = 0, lm_spy_count = 0\<rparr>"

definition attackLimitOK :: "bool \<Rightarrow> string \<Rightarrow> string \<Rightarrow> int \<Rightarrow> limit_col \<Rightarrow> int \<Rightarrow> dom \<Rightarrow> bool" where
  "attackLimitOK fault a t day c mx s \<longleftrightarrow>
     (if fault then 0 else case map_of (dm_limits s) (a, t, day) of None \<Rightarrow> 0 | Some l \<Rightarrow> limit_get c l) < mx"

definition incAttackLimit :: "bool \<Rightarrow> string \<Rightarrow> string \<Rightarrow> int \<Rightarrow> limit_col \<Rightarrow> dom \<Rightarrow> dom \<times> eng_err option" where
  "incAttackLimit fault a t day c s =
     (if fault then (s, Some EDB)
      else (s\<lparr>dm_limits := upsert fst (\<lambda>old _. (fst old, limit_inc c (snd old))) ((a, t, day), limit_inc c no_limits) (dm_limits s)\<rparr>, None))"

definition attackCounts :: "bool \<Rightarrow> string \<Rightarrow> string \<Rightarrow> int \<Rightarrow> dom \<Rightarrow> int \<times> int \<times> int" where
  "attackCounts fault a t day s =
     (case if fault then None else map_of (dm_limits s) (a, t, day) of
        None \<Rightarrow> (0, 0, 0) | Some l \<Rightarrow> (lm_ground_count l, lm_missile_count l, lm_spy_count l))"

section \<open>Targets, absence and ranking\<close>

record empireStub =
  es_GlobalID :: string
  es_WorldName :: string
  es_EmpireName :: string

definition last_seen_of :: "string \<Rightarrow> dom \<Rightarrow> int option" where
  "last_seen_of i s = map_option p_LastSeen (find (\<lambda>p. p_GlobalID p = i) (g_players s))"

definition listTargets :: "bool \<Rightarrow> int \<Rightarrow> string \<Rightarrow> dom \<Rightarrow> eng_err + empireStub list" where
  "listTargets fault now self s =
     (if fault then Inl EDB
      else Inr (map (\<lambda>e. \<lparr>es_GlobalID = em_GlobalID e, es_WorldName = em_WorldName e, es_EmpireName = em_EmpireName e\<rparr>)
        (sort_key em_EmpireName (filter (\<lambda>e. em_GlobalID e \<noteq> self \<and> em_WorldName e \<noteq> [] \<and>
          (case last_seen_of (em_GlobalID e) s of None \<Rightarrow> False | Some t \<Rightarrow> t \<ge> now - 14 * 86400)) (dm_empires s)))))"

text \<open>The eight deletions for one player; each may fail on its own.\<close>

definition purge_empire :: "io \<Rightarrow> string \<Rightarrow> dom \<Rightarrow> dom" where
  "purge_empire io i s = s\<lparr>
     dm_empires := (if io 0 then dm_empires s else del_where (\<lambda>e. em_GlobalID e = i) (dm_empires s)),
     dm_regions := (if io 1 then dm_regions s else del_where (\<lambda>r. fst r = i) (dm_regions s)),
     dm_buildings := (if io 2 then dm_buildings s else del_where (\<lambda>r. fst r = i) (dm_buildings s)),
     dm_mines := (if io 3 then dm_mines s else del_where (\<lambda>r. fst r = i) (dm_mines s)),
     dm_tech := (if io 4 then dm_tech s else del_where (\<lambda>r. fst (fst r) = i) (dm_tech s)),
     dm_minerals := (if io 5 then dm_minerals s else del_where (\<lambda>r. fst (fst r) = i) (dm_minerals s)),
     dm_military := (if io 6 then dm_military s else del_where (\<lambda>r. fst r = i) (dm_military s)),
     dm_log := (if io 7 then dm_log s else del_where (\<lambda>r. fst r = i) (dm_log s))\<rparr>"

fun purge_all :: "io \<Rightarrow> nat \<Rightarrow> string list \<Rightarrow> dom \<Rightarrow> dom" where
  "purge_all io k [] s = s"
| "purge_all io k (i # is) s = purge_all io (k + 8) is (purge_empire (\<lambda>n. io (k + n)) i s)"

definition purgeInactiveEmpires :: "io \<Rightarrow> int \<Rightarrow> string \<Rightarrow> dom \<Rightarrow> dom \<times> eng_err option" where
  "purgeInactiveEmpires io now nodeID s =
     (if io 0 then (s, Some EDB)
      else (purge_all io 1 (map p_GlobalID (filter (\<lambda>p. p_HomeNode p = nodeID \<and> p_LastSeen p < now - 30 * 86400
          \<and> p_GlobalID p \<in> em_GlobalID ` set (dm_empires s)) (g_players s))) s, None))"

record rankEntry =
  rk_EmpireName :: string
  rk_WorldName :: string
  rk_Score :: int

text \<open>The conversion of a float to \<open>int\<close> drops the fraction.\<close>

definition go_trunc :: "rat \<Rightarrow> int" where
  "go_trunc x = float_to_int (if 0 \<le> x then \<lfloor>x\<rfloor> else - \<lfloor>- x\<rfloor>)"

definition computeScore :: "empireState \<Rightarrow> militaryRow \<Rightarrow> int \<Rightarrow> int" where
  "computeScore e m techCount =
     (let milScore = wrap64 (attackPower m + ml_Turrets m * 5 + ml_Satellites m * 10)
      in wrap64 (em_Population e + milScore * 10 + go_trunc (fl (fl (of_int (em_Money e)) * fl (1 / 10))) + techCount * 500))"

text \<open>One round of the insertion sort: the new entry moves left past every smaller one.\<close>

definition rank_insert :: "rankEntry list \<Rightarrow> rankEntry \<Rightarrow> rankEntry list" where
  "rank_insert rs x =
     rev (dropWhile (\<lambda>r. rk_Score x > rk_Score r) (rev rs)) @ [x] @ rev (takeWhile (\<lambda>r. rk_Score x > rk_Score r) (rev rs))"

definition rank_of :: "io \<Rightarrow> nat \<Rightarrow> dom \<Rightarrow> empireState \<Rightarrow> rankEntry" where
  "rank_of io k s e =
     (let tc = (if io (2 * k + 2) then 0 else int (rows_where (\<lambda>r. fst (fst r) = em_GlobalID e \<and> snd r = 1) (dm_tech s)))
      in \<lparr>rk_EmpireName = em_EmpireName e, rk_WorldName = em_WorldName e,
          rk_Score = computeScore e (fst (loadMilitary (io (2 * k + 1)) (em_GlobalID e) s)) tc\<rparr>)"

definition localRankings :: "io \<Rightarrow> dom \<Rightarrow> eng_err + rankEntry list" where
  "localRankings io s =
     (let es = filter (\<lambda>e. em_WorldName e \<noteq> []) (dm_empires s) in
      if io 0 \<or> \<not> list_all (\<lambda>e. in_int64 (em_Money e)) es then Inl EDB
      else Inr (foldl rank_insert [] (map (\<lambda>(k, e). rank_of io k s e) (enumerate 0 es))))"

end
