(* ===== verification/Dom_Rules.thy ===== *)
theory Dom_Rules
  imports Dom_Store
begin

text \<open>
  The rules of Empire Ascendant: founding an empire and its portable state (\<open>module.go\<close>), the production
  of a day (\<open>d2_production.go\<close>) and the resolution of attacks (\<open>d3_combat.go\<close>). An attack works on the
  structs of both sides, as the code does on its pointers; whoever calls it saves them.
\<close>

section \<open>Notices\<close>

definition noticeWin :: "string \<Rightarrow> string" where
  "noticeWin s = Bright 2 @ ''>> '' @ reset @ s"

definition noticeBad :: "string \<Rightarrow> string" where
  "noticeBad s = Bright 1 @ ''!! '' @ reset @ s"

definition fmtCredits :: "int \<Rightarrow> string" where
  "fmtCredits n = show_int n @ '' cr''"

definition em_dash :: string where
  "em_dash = map char_of [226, 128, 148 :: nat]"

text \<open>\<open>strings.Contains\<close>.\<close>

definition contains :: "string \<Rightarrow> string \<Rightarrow> bool" where
  "contains s p \<longleftrightarrow> find_sub p s \<noteq> None"

section \<open>Founding\<close>

definition new_empire :: "string \<Rightarrow> empireState" where
  "new_empire i = \<lparr>em_GlobalID = i, em_WorldName = [], em_EmpireName = [], em_Money = 2500, em_MoneyBank = 0, em_Population = 10000,
     em_FoodStorage = 500, em_Energy = 100, em_ResearchPts = 50, em_BuildingPts = 200\<rparr>"

definition seed_region :: "string \<Rightarrow> string \<Rightarrow> int \<Rightarrow> dom \<Rightarrow> dom" where
  "seed_region i rt n s = s\<lparr>dm_regions := insert_ignore region_key
     (i, \<lparr>rg_RegionType = rt, rg_Quantity = n, rg_Activated = n, rg_ActivateCost = nextRegionCost n rt\<rparr>) (dm_regions s)\<rparr>"

definition Dom_NewCharacter :: "io \<Rightarrow> string \<Rightarrow> dom \<Rightarrow> dom \<times> eng_err option" where
  "Dom_NewCharacter io i s =
     (if io 0 then (s, Some EDB)
      else let s1 = s\<lparr>dm_empires := insert_ignore em_GlobalID (new_empire i) (dm_empires s)\<rparr> in
        if io 1 then (s1, Some EDB)
        else let s2 = seed_region i ''agricultural'' 2 s1 in
          if io 2 then (s2, Some EDB)
          else let s3 = seed_region i ''industrial'' 1 s2 in
            if io 3 then (s3, Some EDB)
            else (s3\<lparr>dm_buildings := insert_ignore fst (i, zero_buildings) (dm_buildings s3)\<rparr>, None))"

text \<open>The name of a world or an empire as it comes from \<open>ReadLine\<close>, in ASCII.\<close>

definition is_letter :: "char \<Rightarrow> bool" where
  "is_letter c \<longleftrightarrow> (let n = byte c in 65 \<le> n \<and> n \<le> 90 \<or> 97 \<le> n \<and> n \<le> 122)"

definition validateName :: "string \<Rightarrow> string option" where
  "validateName s =
     (if length s < 2 then Some ''Name must be at least 2 characters.''
      else if length s > 30 then Some ''Name must be 30 characters or fewer.''
      else case find (\<lambda>c. \<not> (is_letter c \<or> is_digit c \<or> c = CHR '' '' \<or> c = CHR ''-'')) s of
        Some c \<Rightarrow> Some ''Invalid character. Use letters, numbers, spaces, hyphens.''
      | None \<Rightarrow> None)"

section \<open>Portable state\<close>

definition enc_empireState :: "empireState \<Rightarrow> json" where
  "enc_empireState e = JObj
     [(''global_id'', JStr (em_GlobalID e)), (''world_name'', JStr (em_WorldName e)), (''empire_name'', JStr (em_EmpireName e)),
      (''money'', JInt (em_Money e)), (''money_bank'', JInt (em_MoneyBank e)), (''population'', JInt (em_Population e)),
      (''food_storage'', JInt (em_FoodStorage e)), (''energy'', JInt (em_Energy e)), (''research_pts'', JInt (em_ResearchPts e)),
      (''building_pts'', JInt (em_BuildingPts e))]"

definition dec_empireState :: "json \<Rightarrow> empireState \<times> bool" where
  "dec_empireState j =
     (let g = fld unm_string ''global_id'' j []; w = fld unm_string ''world_name'' j []; n = fld unm_string ''empire_name'' j [];
          m = fld unm_int ''money'' j 0; b = fld unm_int ''money_bank'' j 0; p = fld unm_int ''population'' j 0;
          f = fld unm_int ''food_storage'' j 0; y = fld unm_int ''energy'' j 0; r = fld unm_int ''research_pts'' j 0;
          c = fld unm_int ''building_pts'' j 0
      in (\<lparr>em_GlobalID = fst g, em_WorldName = fst w, em_EmpireName = fst n, em_Money = fst m, em_MoneyBank = fst b,
           em_Population = fst p, em_FoodStorage = fst f, em_Energy = fst y, em_ResearchPts = fst r, em_BuildingPts = fst c\<rparr>,
          snd g \<and> snd w \<and> snd n \<and> snd m \<and> snd b \<and> snd p \<and> snd f \<and> snd y \<and> snd r \<and> snd c))"

definition Dom_ExportState :: "io \<Rightarrow> string \<Rightarrow> dom \<Rightarrow> eng_err + raw" where
  "Dom_ExportState io i s =
     (case loadEmpire (io 0) i s of (_, Some err) \<Rightarrow> Inl err | (e, None) \<Rightarrow> Inr (Some (enc_empireState e)))"

definition Dom_ImportState :: "io \<Rightarrow> Player \<Rightarrow> raw \<Rightarrow> dom \<Rightarrow> dom \<times> eng_err option" where
  "Dom_ImportState io p state s =
     (case state of
        None \<Rightarrow> (s, Some EJSON)
      | Some j \<Rightarrow>
          (case dec_empireState j of (e0, ok) \<Rightarrow>
             (let e = e0\<lparr>em_GlobalID := p_GlobalID p\<rparr> in
              if \<not> ok then (s, Some EJSON)
              else if io 0 \<or> names_taken (p_GlobalID p) (em_WorldName e) (em_EmpireName e) s then (s, Some EDB)
              else (s\<lparr>dm_empires := upsert em_GlobalID (\<lambda>_ new. new) e (dm_empires s)\<rparr>, None))))"

definition dominion_game :: "dom Game" where
  "dominion_game = \<lparr>gm_ID = ''empire_ascendant'', gm_ExportState = Dom_ExportState, gm_ImportState = Dom_ImportState\<rparr>"

section \<open>Production\<close>

text \<open>A share of the population, as a float rounded to the nearest integer.\<close>

definition share :: "rat \<Rightarrow> int \<Rightarrow> int" where
  "share r n = float_to_int (round_away (fl (fl (of_int n) * fl r)))"

definition energyRate :: "io \<Rightarrow> string \<Rightarrow> dom \<Rightarrow> int" where
  "energyRate io i s =
     (if hasTech (io 0) i ''energy_fusion'' s then 2000 else if hasTech (io 1) i ''energy_fission'' s then 500 else 100)"

definition activated :: "regionRow list \<Rightarrow> string \<Rightarrow> int" where
  "activated rs rt = (case region rs rt of None \<Rightarrow> 0 | Some r \<Rightarrow> rg_Activated r)"

text \<open>Food is grown and eaten; the population follows.\<close>

definition feed_empire :: "int \<Rightarrow> empireState \<Rightarrow> empireState" where
  "feed_empire foodProd e =
     (let food = wrap64 (em_FoodStorage e + foodProd - share (1 / 10) (em_Population e)) in
      if food > 0 then
        (let growth = share (1 / 100) (em_Population e); g = (if growth < 1 then 1 else growth)
         in e\<lparr>em_FoodStorage := food, em_Population := wrap64 (em_Population e + g)\<rparr>)
      else
        (let loss = share (5 / 1000) (em_Population e); l = (if loss < 1 then 1 else loss); p = wrap64 (em_Population e - l)
         in e\<lparr>em_FoodStorage := 0, em_Population := if p < 1 then 1 else p\<rparr>))"

text \<open>The shield costs 1000 energy a day and goes out without it.\<close>

definition drain_shield :: "io \<Rightarrow> string \<Rightarrow> empireState \<times> dom \<Rightarrow> empireState \<times> dom" where
  "drain_shield io i es =
     (case es of (e, s) \<Rightarrow>
        (let m = fst (loadMilitary (io 0) i s); y = wrap64 (em_Energy e - 1000) in
         if ml_GlobalShieldActive m > 0 then
           (if y < 0 then (e\<lparr>em_Energy := 0\<rparr>, fst (saveMilitary (io 1) i (m\<lparr>ml_GlobalShieldActive := 0\<rparr>) s))
            else (e\<lparr>em_Energy := y\<rparr>, s))
         else (e, s)))"

text \<open>The loop over the mines, in any order: a Go map has none.\<close>

fun run_mines :: "io \<Rightarrow> nat \<Rightarrow> string \<Rightarrow> mineRow list \<Rightarrow> dom \<Rightarrow> dom \<times> eng_err option" where
  "run_mines io k i [] s = (s, None)"
| "run_mines io k i (m # ms) s =
     (if mn_NumMines m = 0 \<or> mn_MinersAssigned m = 0 \<or> mn_MineralLeft m = 0 then run_mines io k i ms s
      else
        (let y0 = wrap64 (mn_MinersAssigned m * mineYield (mn_MineType m));
             y = (if y0 > mn_MineralLeft m then mn_MineralLeft m else y0)
         in case setMineralLeft (io k) i (mn_MineType m) (wrap64 (mn_MineralLeft m - y)) s of
              (s1, Some err) \<Rightarrow> (s1, Some err)
            | (s1, None) \<Rightarrow>
                (case addMineralStore (io (k + 1)) i (mn_MineType m) y s1 of
                   (s2, Some err) \<Rightarrow> (s2, Some err)
                 | (s2, None) \<Rightarrow> run_mines io (k + 2) i ms s2)))"

type_synonym mine_order = "mineRow list \<Rightarrow> mineRow list"

definition runProductionTick :: "mine_order \<Rightarrow> io \<Rightarrow> string \<Rightarrow> dom \<Rightarrow> dom \<times> eng_err option" where
  "runProductionTick ord io i s =
     (case loadEmpire (io 0) i s of
        (_, Some err) \<Rightarrow> (s, Some err)
      | (e0, None) \<Rightarrow>
          (case loadRegions (io 1) i s of
             Inl err \<Rightarrow> (s, Some err)
           | Inr regions \<Rightarrow>
               (case loadBuildings (io 2) i s of
                  (_, Some err) \<Rightarrow> (s, Some err)
                | (b, None) \<Rightarrow>
                    (case loadMines (io 3) i s of
                       Inl err \<Rightarrow> (s, Some err)
                     | Inr mines \<Rightarrow>
                         (let foodProd = wrap64 (activated regions ''agricultural'' * 500 + activated regions ''river'' * 300
                                + bd_FishersAssigned b * 50);
                              e1 = feed_empire foodProd e0;
                              e2 = e1\<lparr>em_Energy := wrap64 (em_Energy e1 + activated regions ''industrial'' * energyRate (\<lambda>k. io (k + 4)) i s)\<rparr>
                          in case drain_shield (\<lambda>k. io (k + 6)) i (e2, s) of (e3, s1) \<Rightarrow>
                               (case run_mines io 9 i (ord mines) s1 of
                                  (s2, Some err) \<Rightarrow> (s2, Some err)
                                | (s2, None) \<Rightarrow>
                                    updateEmpire (io 8) (e3\<lparr>em_ResearchPts := wrap64 (em_ResearchPts e3 + bd_ResearchLab b * 10),
                                      em_BuildingPts := wrap64 (em_BuildingPts e3 + bd_ConstructionFactory b * 5)\<rparr>) s2))))))"

section \<open>Attacks\<close>

definition shrink :: "rat \<Rightarrow> int \<Rightarrow> int" where
  "shrink rate n =
     (let lost0 = go_trunc (fl (fl (of_int n) * fl rate)); lost = (if n > 0 \<and> lost0 = 0 then 1 else lost0)
      in if lost > n then 0 else wrap64 (n - lost))"

definition applyCasualties :: "rat \<Rightarrow> militaryRow \<Rightarrow> militaryRow" where
  "applyCasualties rate m = m\<lparr>ml_SoldiersNormal := shrink rate (ml_SoldiersNormal m), ml_SoldiersSuper := shrink rate (ml_SoldiersSuper m),
     ml_SoldiersMega := shrink rate (ml_SoldiersMega m), ml_Tanks := shrink rate (ml_Tanks m),
     ml_Hovercrafts := shrink rate (ml_Hovercrafts m)\<rparr>"

definition wipeForces :: "militaryRow \<Rightarrow> militaryRow" where
  "wipeForces m = m\<lparr>ml_SoldiersNormal := 0, ml_SoldiersSuper := 0, ml_SoldiersMega := 0, ml_Tanks := 0, ml_Hovercrafts := 0\<rparr>"

text \<open>The defence is multiplied by a random factor between 0.8 and 1.2.\<close>

definition effDp :: "int \<Rightarrow> rng \<Rightarrow> nat \<Rightarrow> int" where
  "effDp dp r k = go_trunc (fl (fl (of_int dp) * fl (fl (8 / 10) + fl (Float64 r k * fl (4 / 10)))))"

definition groundAssault :: "empireState \<Rightarrow> empireState \<Rightarrow> militaryRow \<Rightarrow> militaryRow \<Rightarrow> rng \<Rightarrow> nat
    \<Rightarrow> (empireState \<times> empireState) \<times> (militaryRow \<times> militaryRow) \<times> string" where
  "groundAssault att def atm dfm r k =
     (let ap = attackPower atm in
      if ap = 0 then ((att, def), (atm, dfm), noticeBad ''You have no combat units to attack with.'')
      else if ap > effDp (defensePower dfm) r k then
        (let loot = go_quo (em_Money def) 4
         in ((att\<lparr>em_Money := wrap64 (em_Money att + loot)\<rparr>, def\<lparr>em_Money := wrap64 (em_Money def - loot)\<rparr>),
             (applyCasualties (15 / 100) atm, applyCasualties (30 / 100) dfm),
             noticeWin (''VICTORY! Seized '' @ fmtCredits loot @ ''. Your forces took 15% casualties.'')))
      else ((att, def), (wipeForces atm, applyCasualties (5 / 100) dfm),
            noticeBad ''DEFEAT. Your attacking force was repelled and destroyed.''))"

text \<open>\<open>ORDER BY RANDOM() LIMIT 1\<close>: pick is the random choice.\<close>

definition regionDamage :: "bool \<Rightarrow> nat \<Rightarrow> string \<Rightarrow> dom \<Rightarrow> dom" where
  "regionDamage fault pick i s =
     (let rows = filter (\<lambda>r. fst r = i \<and> rg_Activated (snd r) > 0) (dm_regions s) in
      if fault \<or> rows = [] then s
      else s\<lparr>dm_regions := upd_where (\<lambda>r. fst r = i \<and> rg_Activated (snd r) > 0
            \<and> rg_RegionType (snd r) = rg_RegionType (snd (rows ! (pick mod length rows))))
          (\<lambda>r. (fst r, (snd r)\<lparr>rg_Activated := max 0 (rg_Activated (snd r) - 1)\<rparr>)) (dm_regions s)\<rparr>)"

text \<open>The chance of the satellites, 20 percent each up to 95.\<close>

definition interceptChance :: "militaryRow \<Rightarrow> rat" where
  "interceptChance m =
     (let c = fl (fl (of_int (ml_Satellites m)) * fl (20 / 100)) in if c > fl (95 / 100) then fl (95 / 100) else c)"

definition ballisticStrike :: "bool \<Rightarrow> rng \<Rightarrow> nat \<Rightarrow> string \<Rightarrow> empireState \<times> militaryRow \<times> dom
    \<Rightarrow> (empireState \<times> militaryRow \<times> dom) \<times> string \<times> bool" where
  "ballisticStrike fault r k missileType ems =
     (case ems of (def, dfm, s) \<Rightarrow>
        if ml_GlobalShieldActive dfm > 0 then
          (ems, noticeBad (''INTERCEPTED '' @ em_dash @ '' Global Shield blocked the missile.''), True)
        else if interceptChance dfm > 0 \<and> Float64 r k < interceptChance dfm then
          (ems, noticeBad (''INTERCEPTED by orbital satellites ('' @ show_int (round_even (fl (interceptChance dfm * 100))) @ ''% chance).''), True)
        else if missileType = ''nuclear'' then
          (let loss0 = go_quo (em_Population def) 10; loss = (if loss0 < 1 then 1 else loss0);
               p = wrap64 (em_Population def - loss)
           in ((def\<lparr>em_Population := if p < 1 then 1 else p\<rparr>, dfm, regionDamage fault (nat (r (k + 1) mod 2 ^ 53)) (em_GlobalID def) s),
               noticeWin (''Nuclear strike hit. Killed '' @ show_int loss @ '' population; one region damaged.''), False))
        else if missileType = ''antimatter'' then
          ((def, applyCasualties (20 / 100) dfm, s), noticeWin ''Antimatter strike hit. 20%% of enemy military destroyed.'', False)
        else (ems, noticeWin ''Missile detonated.'', False))"

definition spySabotage :: "bool \<Rightarrow> rng \<Rightarrow> nat \<Rightarrow> string \<Rightarrow> militaryRow \<times> dom \<Rightarrow> (militaryRow \<times> dom) \<times> string \<times> bool" where
  "spySabotage fault r k i ms =
     (case ms of (tfm, s) \<Rightarrow>
        if Float64 r k \<ge> 1 / 2 then (ms, noticeBad ''SABOTAGE FAILED: spy was captured.'', True)
        else if Intn r (k + 1) 3 = 0 \<and> ml_Turrets tfm > 0 then
          ((tfm\<lparr>ml_Turrets := wrap64 (ml_Turrets tfm - 1)\<rparr>, s),
           noticeWin ''SABOTAGE SUCCESS: spy destroyed a Ground Turret and returned.'', False)
        else if Intn r (k + 1) 3 \<le> 1 then
          ((tfm, regionDamage fault (nat (r (k + 2) mod 2 ^ 53)) i s),
           noticeWin ''SABOTAGE SUCCESS: spy sabotaged a production region and returned.'', False)
        else if attackPower tfm > 0 then
          ((applyCasualties (10 / 100) tfm, s), noticeWin ''SABOTAGE SUCCESS: spy eliminated 10% of enemy forces and returned.'', False)
        else (ms, noticeWin ''SABOTAGE SUCCESS: spy infiltrated but found no useful targets.'', False))"

definition spyScout :: "empireState \<Rightarrow> militaryRow \<Rightarrow> string list" where
  "spyScout t m =
     [''SCOUT REPORT '' @ em_dash @ '' '' @ em_EmpireName t @ '' of '' @ em_WorldName t,
      ''  Credits: '' @ fmtCredits (em_Money t) @ '' on hand, '' @ fmtCredits (em_MoneyBank t) @ '' banked'',
      ''  Population: '' @ show_int (em_Population t),
      ''  Soldiers: '' @ show_int (ml_SoldiersNormal m) @ '' normal / '' @ show_int (ml_SoldiersSuper m) @ '' super / ''
        @ show_int (ml_SoldiersMega m) @ '' mega'',
      ''  Vehicles: '' @ show_int (ml_Tanks m) @ '' tanks / '' @ show_int (ml_Hovercrafts m) @ '' hovercrafts'',
      ''  Missiles: '' @ show_int (ml_MissilesNuclear m) @ '' nuclear / '' @ show_int (ml_MissilesAntimatter m) @ '' antimatter'',
      ''  Defense: '' @ show_int (ml_Turrets m) @ '' turrets / '' @ show_int (ml_Satellites m) @ '' satellites  Shield: ''
        @ (if ml_GlobalShieldActive m > 0 then ''ACTIVE'' else ''offline''),
      ''  Attack Power: '' @ show_int (attackPower m) @ ''   Defense Power: '' @ show_int (defensePower m)]"

end
