(* ===== verification/Dom_PvP.thy ===== *)
theory Dom_PvP
  imports Dom_Rules
begin

text \<open>
  Attacks of Empire Ascendant: on empires of this node (\<open>d3_menus.go\<close>) and across nodes
  (\<open>d4_pvp.go\<close>, \<open>RegisterGameHandlers\<close> of \<open>module.go\<close>): the request the attacker's node sends, its
  resolution at the defender's node and the handler that credits the loot. The faults of an operation
  are those of the key that started it, by the name of the statement.
\<close>

section \<open>Attacks at this node\<close>

definition no_turns :: string where
  "no_turns = noticeBad ''No turns remaining today.''"

definition no_attacks :: string where
  "no_attacks = noticeBad ''No attacks remaining today.''"

text \<open>How often one empire may attack another on one day.\<close>

definition limit_cap :: "limit_col \<Rightarrow> int" where
  "limit_cap c = (case c of ground_count \<Rightarrow> 3 | missile_count \<Rightarrow> 2 | spy_count \<Rightarrow> 1)"

definition limit_ok :: "'c input \<Rightarrow> empireState \<Rightarrow> empireState \<Rightarrow> int \<Rightarrow> limit_col \<Rightarrow> dom \<Rightarrow> bool" where
  "limit_ok x att def day c s =
     attackLimitOK (i_io x ''attackLimitOK'' 0) (em_GlobalID att) (em_GlobalID def) day c (limit_cap c) s"

text \<open>What every attack costs: a turn, an attack, and one of the day's attacks on this empire.\<close>

definition spend :: "'c input \<Rightarrow> string \<Rightarrow> empireState \<Rightarrow> empireState \<Rightarrow> int \<Rightarrow> limit_col \<Rightarrow> dom \<Rightarrow> dom" where
  "spend x gid att def day c s =
     (let s1 = fst (SpendActions (i_io x ''SpendActions'' 0) gid 1 s);
          s2 = fst (SpendAttack (i_io x ''SpendAttack'' 0) gid s1)
      in fst (incAttackLimit (i_io x ''incAttackLimit'' 0) (em_GlobalID att) (em_GlobalID def) day c s2))"

definition save_military :: "'c input \<Rightarrow> empireState \<Rightarrow> militaryRow \<Rightarrow> empireState \<Rightarrow> militaryRow \<Rightarrow> dom \<Rightarrow> dom" where
  "save_military x att atm def dfm s =
     fst (saveMilitary (i_io x ''saveMilitary'' 1) (em_GlobalID def) dfm
       (fst (saveMilitary (i_io x ''saveMilitary'' 0) (em_GlobalID att) atm s)))"

definition report :: "'c input \<Rightarrow> empireState \<Rightarrow> empireState \<Rightarrow> string \<Rightarrow> string \<Rightarrow> string \<Rightarrow> dom \<Rightarrow> dom" where
  "report x att def typ outcome detail s =
     fst (writePvPLog (i_io x ''writePvPLog'' 0) (i_now x) (em_GlobalID def)
       \<lparr>pe_AttackerName = em_EmpireName att, pe_AttackerWorld = em_WorldName att, pe_EventType = typ, pe_Outcome = outcome,
        pe_Detail = detail\<rparr> s)"

definition doGroundAssault :: "'c input \<Rightarrow> string \<Rightarrow> int \<Rightarrow> militaryRow \<Rightarrow> empireState \<Rightarrow> militaryRow
    \<Rightarrow> empireState \<times> dom \<Rightarrow> (empireState \<times> dom) \<times> string" where
  "doGroundAssault x gid day atm def dfm es =
     (case es of (att, s) \<Rightarrow>
        (let turn = turn_of (i_io x ''LoadTurn'' 1) gid s in
         if attackPower atm = 0 then (es, noticeBad ''You have no combat units to attack with.'')
         else if tn_Actions turn < 1 then (es, no_turns)
         else if tn_Attacks turn < 1 then (es, no_attacks)
         else if \<not> limit_ok x att def day ground_count s then
           (es, noticeBad ''You have already attacked this empire 3 times today (ground limit).'')
         else
           (case groundAssault att def atm dfm (i_rng x) 0 of
              ((att1, def1), (atm1, dfm1), result) \<Rightarrow>
                (let s1 = spend x gid att1 def1 day ground_count s;
                     s2 = fst (updateEmpire (i_io x ''updateEmpire'' 0) att1 s1);
                     s3 = fst (updateEmpire (i_io x ''updateEmpire'' 1) def1 s2);
                     s4 = save_military x att1 atm1 def1 dfm1 s3
                 in ((att1, report x att1 def1 ''ground'' (if contains result ''VICTORY'' then ''victory'' else ''defeat'')
                        (em_EmpireName att1 @ '' assaulted your forces.'') s4), result)))))"

text \<open>A page with a choice takes one key; without input nothing is chosen.\<close>

definition chooseMissileType :: "'c input list \<Rightarrow> string \<times> 'c input list" where
  "chooseMissileType xs =
     (case xs of [] \<Rightarrow> ([], [])
      | y # ys \<Rightarrow> (if is_key (i_key y) CHR ''n'' CHR ''N'' then ''nuclear''
                   else if is_key (i_key y) CHR ''a'' CHR ''A'' then ''antimatter'' else [], ys))"

definition use_missile :: "string \<Rightarrow> militaryRow \<Rightarrow> militaryRow" where
  "use_missile t m =
     (if t = ''nuclear'' then m\<lparr>ml_MissilesNuclear := wrap64 (ml_MissilesNuclear m - 1)\<rparr>
      else if t = ''antimatter'' then m\<lparr>ml_MissilesAntimatter := wrap64 (ml_MissilesAntimatter m - 1)\<rparr> else m)"

text \<open>The warhead: the player is asked only with both kinds in the arsenal.\<close>

definition pick_missile :: "militaryRow \<Rightarrow> 'c input list \<Rightarrow> string \<times> 'c input list" where
  "pick_missile atm xs =
     (if ml_MissilesNuclear atm > 0 \<and> ml_MissilesAntimatter atm > 0 then chooseMissileType xs
      else (if ml_MissilesNuclear atm > 0 then ''nuclear'' else if ml_MissilesAntimatter atm > 0 then ''antimatter'' else [], xs))"

definition doMissileStrike :: "'c input \<Rightarrow> string \<Rightarrow> int \<Rightarrow> militaryRow \<Rightarrow> empireState \<Rightarrow> militaryRow
    \<Rightarrow> empireState \<times> dom \<Rightarrow> 'c input list \<Rightarrow> (empireState \<times> dom) \<times> 'c input list \<times> string" where
  "doMissileStrike x gid day atm def dfm es xs =
     (case es of (att, s) \<Rightarrow>
        (let turn = turn_of (i_io x ''LoadTurn'' 1) gid s in
         if tn_Actions turn < 1 then (es, xs, no_turns)
         else if tn_Attacks turn < 1 then (es, xs, no_attacks)
         else if \<not> limit_ok x att def day missile_count s then
           (es, xs, noticeBad ''You have already fired 2 missiles at this empire today.'')
         else if \<not> ml_MissilesNuclear atm > 0 \<and> \<not> ml_MissilesAntimatter atm > 0 then
           (es, xs, noticeBad ''You have no missiles. Recruit some first.'')
         else
           (case pick_missile atm xs of
              (t, ys) \<Rightarrow>
                if t = [] then (es, ys, [])
                else
                  (case ballisticStrike (i_io x ''regionDamage'' 0) (i_rng x) 0 t (def, dfm, s) of
                     ((def1, dfm1, s1), result, _) \<Rightarrow>
                       (let s2 = spend x gid att def1 day missile_count s1;
                            s3 = fst (updateEmpire (i_io x ''updateEmpire'' 0) def1 s2);
                            s4 = save_military x att (use_missile t atm) def1 dfm1 s3
                        in ((att, report x att def1 ''missile'' ''strike''
                              (em_EmpireName att @ '' launched a '' @ t @ '' missile at your world.'') s4), ys, result))))))"

definition chooseSpyMission :: "'c input list \<Rightarrow> string \<times> 'c input list" where
  "chooseSpyMission xs =
     (case xs of [] \<Rightarrow> ([], [])
      | y # ys \<Rightarrow> (if is_key (i_key y) CHR ''s'' CHR ''S'' then ''scout''
                   else if is_key (i_key y) CHR ''b'' CHR ''B'' then ''sabotage'' else [], ys))"

text \<open>A scout's report is a page (one key); a saboteur's result is a notice.\<close>

definition doSpyMission :: "'c input \<Rightarrow> string \<Rightarrow> int \<Rightarrow> militaryRow \<Rightarrow> empireState \<Rightarrow> militaryRow
    \<Rightarrow> empireState \<times> dom \<Rightarrow> 'c input list \<Rightarrow> (empireState \<times> dom) \<times> 'c input list \<times> string" where
  "doSpyMission x gid day atm def dfm es xs =
     (case es of (att, s) \<Rightarrow>
        (let turn = turn_of (i_io x ''LoadTurn'' 1) gid s in
         if tn_Actions turn < 1 then (es, xs, no_turns)
         else if tn_Attacks turn < 1 then (es, xs, no_attacks)
         else if ml_Spies atm < 1 then (es, xs, noticeBad ''You have no spies. Recruit some first.'')
         else if bd_IntelBuilding (fst (loadBuildings (i_io x ''loadBuildings'' 0) (em_GlobalID att) s)) < 1 then
           (es, xs, noticeBad ''You need an Intelligence Building to deploy spies.'')
         else if \<not> limit_ok x att def day spy_count s then
           (es, xs, noticeBad ''You have already deployed a spy against this empire today.'')
         else
           (case chooseSpyMission xs of
              (t, ys) \<Rightarrow>
                if t = [] then (es, ys, [])
                else
                  (let s1 = spend x gid att def day spy_count s in
                   if t = ''scout'' then ((att, s1), tl ys, [])
                   else
                     (case spySabotage (i_io x ''regionDamage'' 0) (i_rng x) 0 (em_GlobalID def) (dfm, s1) of
                        ((dfm1, s2), msg, consumed) \<Rightarrow>
                          (let atm1 = (if consumed then atm\<lparr>ml_Spies := wrap64 (ml_Spies atm - 1)\<rparr> else atm);
                               s3 = save_military x att atm1 def dfm1 s2
                           in ((att, report x att def ''spy'' ''sabotage''
                                 (''A spy from '' @ em_EmpireName att @ '' was detected near your facilities.'') s3), ys, msg)))))))"

section \<open>Attacks across nodes: the request\<close>

record crossNodePayload =
  cp_AttackType :: string
  cp_MissileType :: string
  cp_AttackerName :: string
  cp_AttackerWorld :: string
  cp_AttackerMil :: militaryRow

definition enc_militaryRow :: "militaryRow \<Rightarrow> json" where
  "enc_militaryRow m = JObj
     [(''SoldiersNormal'', JInt (ml_SoldiersNormal m)), (''SoldiersSuper'', JInt (ml_SoldiersSuper m)),
      (''SoldiersMega'', JInt (ml_SoldiersMega m)), (''Tanks'', JInt (ml_Tanks m)), (''Hovercrafts'', JInt (ml_Hovercrafts m)),
      (''MissilesNuclear'', JInt (ml_MissilesNuclear m)), (''MissilesAntimatter'', JInt (ml_MissilesAntimatter m)),
      (''ReconDrones'', JInt (ml_ReconDrones m)), (''Spies'', JInt (ml_Spies m)), (''Turrets'', JInt (ml_Turrets m)),
      (''Satellites'', JInt (ml_Satellites m)), (''GlobalShieldActive'', JInt (ml_GlobalShieldActive m))]"

definition dec_militaryRow :: "json \<Rightarrow> militaryRow \<Rightarrow> militaryRow \<times> bool" where
  "dec_militaryRow j z =
     (if j = JNull then (z, True)
      else case j of
        JObj _ \<Rightarrow>
          (let a = fld unm_int ''SoldiersNormal'' j (ml_SoldiersNormal z); b = fld unm_int ''SoldiersSuper'' j (ml_SoldiersSuper z);
               c = fld unm_int ''SoldiersMega'' j (ml_SoldiersMega z); d = fld unm_int ''Tanks'' j (ml_Tanks z);
               e = fld unm_int ''Hovercrafts'' j (ml_Hovercrafts z); f = fld unm_int ''MissilesNuclear'' j (ml_MissilesNuclear z);
               g = fld unm_int ''MissilesAntimatter'' j (ml_MissilesAntimatter z); h = fld unm_int ''ReconDrones'' j (ml_ReconDrones z);
               i = fld unm_int ''Spies'' j (ml_Spies z); k = fld unm_int ''Turrets'' j (ml_Turrets z);
               l = fld unm_int ''Satellites'' j (ml_Satellites z); m = fld unm_int ''GlobalShieldActive'' j (ml_GlobalShieldActive z)
           in (\<lparr>ml_SoldiersNormal = fst a, ml_SoldiersSuper = fst b, ml_SoldiersMega = fst c, ml_Tanks = fst d, ml_Hovercrafts = fst e,
                ml_MissilesNuclear = fst f, ml_MissilesAntimatter = fst g, ml_ReconDrones = fst h, ml_Spies = fst i, ml_Turrets = fst k,
                ml_Satellites = fst l, ml_GlobalShieldActive = fst m\<rparr>,
               snd a \<and> snd b \<and> snd c \<and> snd d \<and> snd e \<and> snd f \<and> snd g \<and> snd h \<and> snd i \<and> snd k \<and> snd l \<and> snd m))
      | _ \<Rightarrow> (z, False))"

definition enc_crossNodePayload :: "crossNodePayload \<Rightarrow> json" where
  "enc_crossNodePayload p = JObj
     ((''attack_type'', JStr (cp_AttackType p)) #
      (if cp_MissileType p = [] then [] else [(''missile_type'', JStr (cp_MissileType p))]) @
      [(''attacker_name'', JStr (cp_AttackerName p)), (''attacker_world'', JStr (cp_AttackerWorld p)),
       (''attacker_mil'', enc_militaryRow (cp_AttackerMil p))])"

text \<open>\<open>attack\<close> is \<open>Context.CrossNodeAttack\<close>, \<open>None\<close> without a hub; its state is the hub's, and it reports
  whether it failed. The request carries a copy of the army, which stays at home.\<close>

type_synonym ('c, 'h) attack_fn = "'c \<Rightarrow> string \<Rightarrow> string \<Rightarrow> raw \<Rightarrow> 'h \<Rightarrow> 'h \<times> bool"

definition doRemoteGroundAssault :: "('c, 'h) attack_fn option \<Rightarrow> 'c input \<Rightarrow> string \<Rightarrow> empireState \<Rightarrow> militaryRow \<Rightarrow> Player
    \<Rightarrow> dom \<times> 'h \<Rightarrow> (dom \<times> 'h) \<times> string" where
  "doRemoteGroundAssault attack x gid att atm victim w =
     (case attack of
        None \<Rightarrow> (w, noticeBad ''Not connected to the InterDOOR network.'')
      | Some f \<Rightarrow>
          (case w of (s, h) \<Rightarrow>
             (let turn = turn_of (i_io x ''LoadTurn'' 1) gid s in
              if attackPower atm = 0 then (w, noticeBad ''You have no combat units to attack with.'')
              else if tn_Actions turn < 1 then (w, no_turns)
              else if tn_Attacks turn < 1 then (w, no_attacks)
              else
                (case f (i_call x) gid (p_GlobalID victim)
                   (Some (enc_crossNodePayload \<lparr>cp_AttackType = ''ground'', cp_MissileType = [], cp_AttackerName = em_EmpireName att,
                      cp_AttackerWorld = em_WorldName att, cp_AttackerMil = atm\<rparr>)) h of
                   (h1, True) \<Rightarrow> ((s, h1), noticeBad ''Network error submitting attack.'')
                 | (h1, False) \<Rightarrow>
                     (let s1 = fst (SpendActions (i_io x ''SpendActions'' 0) gid 1 s)
                      in ((fst (SpendAttack (i_io x ''SpendAttack'' 0) gid s1), h1),
                          noticeWin (''Ground forces dispatched toward '' @ p_Name victim
                            @ [CHR 0x27] @ ''s node. Check Galactic Dispatches for the result.'')))))))"

definition doRemoteMissileStrike :: "('c, 'h) attack_fn option \<Rightarrow> 'c input \<Rightarrow> string \<Rightarrow> empireState \<Rightarrow> militaryRow \<Rightarrow> Player
    \<Rightarrow> string \<Rightarrow> dom \<times> 'h \<Rightarrow> (dom \<times> 'h) \<times> string" where
  "doRemoteMissileStrike attack x gid att atm victim t w =
     (case attack of
        None \<Rightarrow> (w, noticeBad ''Not connected to the InterDOOR network.'')
      | Some f \<Rightarrow>
          (case w of (s, h) \<Rightarrow>
             (let turn = turn_of (i_io x ''LoadTurn'' 1) gid s in
              if tn_Actions turn < 1 then (w, no_turns)
              else if tn_Attacks turn < 1 then (w, no_attacks)
              else if t = ''nuclear'' \<and> ml_MissilesNuclear atm = 0 then (w, noticeBad ''No nuclear missiles in arsenal.'')
              else if t = ''antimatter'' \<and> ml_MissilesAntimatter atm = 0 then (w, noticeBad ''No antimatter missiles in arsenal.'')
              else if t \<noteq> ''nuclear'' \<and> t \<noteq> ''antimatter'' then (w, noticeBad ''Unknown missile type.'')
              else
                (case f (i_call x) gid (p_GlobalID victim)
                   (Some (enc_crossNodePayload \<lparr>cp_AttackType = ''ballistic'', cp_MissileType = t, cp_AttackerName = em_EmpireName att,
                      cp_AttackerWorld = em_WorldName att, cp_AttackerMil = atm\<rparr>)) h of
                   (h1, True) \<Rightarrow> ((s, h1), noticeBad ''Network error submitting strike.'')
                 | (h1, False) \<Rightarrow>
                     (let s1 = fst (saveMilitary (i_io x ''saveMilitary'' 0) gid (use_missile t atm) s);
                          s2 = fst (SpendActions (i_io x ''SpendActions'' 0) gid 1 s1)
                      in ((fst (SpendAttack (i_io x ''SpendAttack'' 0) gid s2), h1),
                          noticeWin (''Missile launched toward '' @ p_Name victim
                            @ [CHR 0x27] @ ''s node. Check Galactic Dispatches for confirmation.'')))))))"

section \<open>Attacks across nodes: the resolution\<close>

definition dec_crossNodePayload :: "json \<Rightarrow> crossNodePayload \<times> bool" where
  "dec_crossNodePayload j =
     (let a = fld unm_string ''attack_type'' j []; t = fld unm_string ''missile_type'' j []; n = fld unm_string ''attacker_name'' j [];
          w = fld unm_string ''attacker_world'' j []; m = fld dec_militaryRow ''attacker_mil'' j zero_military
      in (\<lparr>cp_AttackType = fst a, cp_MissileType = fst t, cp_AttackerName = fst n, cp_AttackerWorld = fst w, cp_AttackerMil = fst m\<rparr>,
          snd a \<and> snd t \<and> snd n \<and> snd w \<and> snd m))"

record pvpResolvedPayload =
  rp_RequestID :: string
  rp_AttackerGlobalID :: string
  rp_VictimGlobalID :: string
  rp_Outcome :: string
  rp_ResultText :: string
  rp_VictimName :: string
  rp_VictimWorld :: string
  rp_LootAmount :: int

definition enc_pvpResolved :: "pvpResolvedPayload \<Rightarrow> json" where
  "enc_pvpResolved p = JObj
     [(''request_id'', JStr (rp_RequestID p)), (''attacker_global_id'', JStr (rp_AttackerGlobalID p)),
      (''victim_global_id'', JStr (rp_VictimGlobalID p)), (''outcome'', JStr (rp_Outcome p)), (''result_text'', JStr (rp_ResultText p)),
      (''victim_name'', JStr (rp_VictimName p)), (''victim_world'', JStr (rp_VictimWorld p)), (''loot_amount'', JInt (rp_LootAmount p))]"

definition dec_pvpResolved :: "json \<Rightarrow> pvpResolvedPayload \<times> bool" where
  "dec_pvpResolved j =
     (let r = fld unm_string ''request_id'' j []; a = fld unm_string ''attacker_global_id'' j [];
          v = fld unm_string ''victim_global_id'' j []; o' = fld unm_string ''outcome'' j []; t = fld unm_string ''result_text'' j [];
          n = fld unm_string ''victim_name'' j []; w = fld unm_string ''victim_world'' j []; l = fld unm_int ''loot_amount'' j 0
      in (\<lparr>rp_RequestID = fst r, rp_AttackerGlobalID = fst a, rp_VictimGlobalID = fst v, rp_Outcome = fst o', rp_ResultText = fst t,
           rp_VictimName = fst n, rp_VictimWorld = fst w, rp_LootAmount = fst l\<rparr>,
          snd r \<and> snd a \<and> snd v \<and> snd o' \<and> snd t \<and> snd n \<and> snd w \<and> snd l))"

definition attack_outcome :: "string \<Rightarrow> string" where
  "attack_outcome result =
     (if contains result ''VICTORY'' \<or> contains result ''hit'' then ''attacked''
      else if contains result ''INTERCEPTED'' then ''intercepted'' else ''repelled'')"

text \<open>The fight itself, on the structs of both sides: the attacker of another node owns no credits here.
  \<open>None\<close> is an unknown kind of attack.\<close>

definition remote_fight :: "bool \<Rightarrow> rng \<Rightarrow> string \<Rightarrow> crossNodePayload \<Rightarrow> empireState \<times> militaryRow \<times> dom
    \<Rightarrow> ((empireState \<times> militaryRow \<times> dom) \<times> string) option" where
  "remote_fight fault r attackerID atk w =
     (case w of (defender, dfm, s) \<Rightarrow>
        if cp_AttackType atk = ''ground'' then
          (let fake = (zero_empire attackerID)\<lparr>em_EmpireName := cp_AttackerName atk, em_WorldName := cp_AttackerWorld atk\<rparr>
           in case groundAssault fake defender (cp_AttackerMil atk) dfm r 0 of
                ((_, def1), (_, dfm1), result) \<Rightarrow> Some ((def1, dfm1, s), result))
        else if cp_AttackType atk = ''ballistic'' then
          (case ballisticStrike fault r 0 (cp_MissileType atk) (defender, dfm, s) of (w1, result, _) \<Rightarrow> Some (w1, result))
        else None)"

definition Dom_IncomingPvP :: "int \<Rightarrow> rng \<Rightarrow> io \<Rightarrow> string \<Rightarrow> string \<Rightarrow> string \<Rightarrow> raw \<Rightarrow> dom \<Rightarrow> dom \<times> eng_err option" where
  "Dom_IncomingPvP now r io reqID attackerID victimID payload s =
     (case payload of
        None \<Rightarrow> (s, Some EJSON)
      | Some j \<Rightarrow>
          (case dec_crossNodePayload j of (atk, ok) \<Rightarrow>
             if \<not> ok then (s, Some EJSON)
             else
               (let resolved = (\<lambda>outcome text name world loot. enc_pvpResolved
                      \<lparr>rp_RequestID = reqID, rp_AttackerGlobalID = attackerID, rp_VictimGlobalID = victimID, rp_Outcome = outcome,
                       rp_ResultText = text, rp_VictimName = name, rp_VictimWorld = world, rp_LootAmount = loot\<rparr>)
                in case loadEmpire (io 0) victimID s of
                     (_, Some _) \<Rightarrow> Emit (io 1) now ''pvp.resolved'' (resolved ''no_target'' ''Target empire not found on this node.'' [] [] 0) s
                   | (defender, None) \<Rightarrow>
                       (case remote_fight (io 3) r attackerID atk (defender, fst (loadMilitary (io 2) victimID s), s) of
                          None \<Rightarrow> (s, Some (EMsg (''IncomingPvP: unknown attack type '' @ go_quote (cp_AttackType atk))))
                        | Some ((def1, dfm1, s1), result) \<Rightarrow>
                            (let s2 = fst (updateEmpire (io 4) def1 s1);
                                 s3 = fst (saveMilitary (io 5) victimID dfm1 s2);
                                 loot = wrap64 (em_Money defender - em_Money def1);
                                 outcome = attack_outcome result;
                                 s4 = fst (writePvPLog (io 6) now victimID
                                   \<lparr>pe_AttackerName = cp_AttackerName atk, pe_AttackerWorld = cp_AttackerWorld atk,
                                    pe_EventType = cp_AttackType atk, pe_Outcome = outcome,
                                    pe_Detail = ''[Cross-node] '' @ cp_AttackerName atk @ '' of '' @ cp_AttackerWorld atk @ '': '' @ result\<rparr> s3)
                             in Emit (io 1) now ''pvp.resolved''
                                  (resolved outcome result (em_EmpireName def1) (em_WorldName def1) (if loot < 0 then 0 else loot)) s4)))))"

text \<open>The handler at the attacker's node, taking in an event at the time \<open>now\<close>. It never reports an error.\<close>

definition Dom_on_pvp_resolved :: "string \<Rightarrow> int \<Rightarrow> dom handler" where
  "Dom_on_pvp_resolved nodeID now io e s =
     (case v_Payload e of
        None \<Rightarrow> (s, None)
      | Some j \<Rightarrow>
          (case dec_pvpResolved j of (p, ok) \<Rightarrow>
             if \<not> ok \<or> \<not> has_prefix (rp_AttackerGlobalID p) (nodeID @ '':'') then (s, None)
             else
               (let s1 = (if rp_LootAmount p > 0 then addMoney (io 0) (rp_AttackerGlobalID p) (rp_LootAmount p) s else s);
                    detail = (if rp_VictimName p \<noteq> []
                      then ''[Cross-node vs '' @ rp_VictimName p @ '' of '' @ rp_VictimWorld p @ ''] '' @ rp_ResultText p
                      else ''[Cross-node result] '' @ rp_ResultText p)
                in (fst (writePvPLog (io 1) now (rp_AttackerGlobalID p)
                      \<lparr>pe_AttackerName = rp_VictimName p, pe_AttackerWorld = rp_VictimWorld p, pe_EventType = ''pvp_result'',
                       pe_Outcome = rp_Outcome p, pe_Detail = detail\<rparr> s1), None))))"

definition Dom_RegisterGameHandlers :: "string \<Rightarrow> int \<Rightarrow> dom registry \<Rightarrow> dom registry" where
  "Dom_RegisterGameHandlers nodeID now H = OnEvent ''pvp.resolved'' (Dom_on_pvp_resolved nodeID now) H"

section \<open>Keys are used up\<close>

lemma tl_suffix: "suffix (tl xs) xs"
  by (cases xs) (auto simp: suffix_def)

lemma choose_suffix:
  "chooseMissileType xs = (t, ys) \<Longrightarrow> suffix ys xs" "chooseSpyMission xs = (t, ys) \<Longrightarrow> suffix ys xs"
  by (auto simp: chooseMissileType_def chooseSpyMission_def suffix_def split: list.splits)

lemma pick_suffix: "pick_missile m xs = (t, ys) \<Longrightarrow> suffix ys xs"
  by (auto simp: pick_missile_def split: if_splits dest: choose_suffix)

lemma doMissileStrike_suffix: "doMissileStrike x g d atm def dfm es xs = (es', ys, n) \<Longrightarrow> suffix ys xs"
  by (auto simp: doMissileStrike_def Let_def split: prod.splits if_splits dest: pick_suffix)

lemma doSpyMission_suffix: "doSpyMission x g d atm def dfm es xs = (es', ys, n) \<Longrightarrow> suffix ys xs"
  by (auto simp: doSpyMission_def Let_def split: prod.splits if_splits dest: choose_suffix intro: suffix_order.trans [OF tl_suffix])

end
