(* ===== verification/Dom_Menus.thy ===== *)
theory Dom_Menus
  imports Dom_PvP
begin

text \<open>
  The menus in which an empire is developed (\<open>d2_develop.go\<close>, and recruiting in \<open>d3_menus.go\<close>). Every menu
  of the game is a loop that reads a key, does one thing and goes on or returns: \<open>menu\<close> is that loop and a
  step is its body. The empire in memory is read anew at the top of each body, and kept as it is when the
  read fails. Notices are only shown and are left out.
\<close>

section \<open>Loops\<close>

text \<open>A step gets the key, the state and the keys after it; it gives the state, the keys it left and whether the
  loop goes on. It never gives back more keys than it got, which \<open>take\<close> makes plain to the recursion.\<close>

type_synonym ('c, 'w) mstep = "'c input \<Rightarrow> 'w \<Rightarrow> 'c input list \<Rightarrow> 'w \<times> 'c input list \<times> bool"

function menu :: "('c, 'w) mstep \<Rightarrow> 'w \<Rightarrow> 'c input list \<Rightarrow> 'w \<times> 'c input list" where
  "menu step w [] = (w, [])"
| "menu step w (x # xs) =
     (case step x w xs of (w1, ys, go) \<Rightarrow> if go then menu step w1 (take (length xs) ys) else (w1, ys))"
  by pat_completeness auto
termination
  by (relation "measure (\<lambda>(step, w, xs). length xs)") auto

text \<open>A body that leaves a rest of its keys.\<close>

definition leaves_rest :: "('c, 'w) mstep \<Rightarrow> bool" where
  "leaves_rest step \<longleftrightarrow> (\<forall>x w xs. suffix (fst (snd (step x w xs))) xs)"

lemma leaves_restD: "leaves_rest step \<Longrightarrow> step x w xs = (w1, ys, go) \<Longrightarrow> suffix ys xs"
  unfolding leaves_rest_def by (metis fst_conv snd_conv)

lemma menu_Cons:
  "leaves_rest step \<Longrightarrow> menu step w (x # xs) =
     (case step x w xs of (w1, ys, go) \<Rightarrow> if go then menu step w1 ys else (w1, ys))"
  by (auto split: prod.splits dest!: leaves_restD suffix_length_le)

lemma menu_suffix:
  assumes "leaves_rest step"
  shows "suffix (snd (menu step w xs)) xs"
proof (induction "length xs" arbitrary: w xs rule: less_induct)
  case less
  show ?case
  proof (cases xs)
    case (Cons x ys)
    obtain w1 zs go where st: "step x w ys = (w1, zs, go)" by (metis prod_cases3)
    have "suffix zs ys" by (rule leaves_restD [OF assms st])
    then have "suffix zs xs" "length zs < length xs"
      using Cons suffix_length_le [of zs ys] by (simp_all add: suffix_ConsI)
    then show ?thesis
      using less [of zs w1] st Cons by (auto simp: menu_Cons [OF assms] simp del: menu.simps intro: suffix_order.trans)
  qed simp
qed

lemma menu_keys: "leaves_rest step \<Longrightarrow> menu step w xs = (w1, ys) \<Longrightarrow> suffix ys xs"
  using menu_suffix [of step w xs] by simp

text \<open>What every body keeps, the loop keeps. The keys may satisfy a condition of their own.\<close>

lemma menu_keeps:
  assumes "leaves_rest step" and "\<And>x w ys w1 zs go. Q w \<Longrightarrow> R x \<Longrightarrow> list_all R ys \<Longrightarrow> step x w ys = (w1, zs, go) \<Longrightarrow> Q w1"
    and "Q w" and "list_all R xs"
  shows "Q (fst (menu step w xs))"
  using assms(3,4)
proof (induction "length xs" arbitrary: w xs rule: less_induct)
  case less
  show ?case
  proof (cases xs)
    case (Cons x ys)
    obtain w1 zs go where st: "step x w ys = (w1, zs, go)" by (metis prod_cases3)
    have "Q w1"
      using assms(2) [OF less.prems(1) _ _ st] less.prems(2) Cons by simp
    moreover have "suffix zs ys"
      by (rule leaves_restD [OF assms(1) st])
    then have "length zs < length xs" "list_all R zs"
      using Cons less.prems(2) suffix_length_le [of zs ys] by (auto simp: list_all_iff dest: set_mono_suffix)
    ultimately show ?thesis
      using less.hyps [of zs w1] st Cons by (simp add: menu_Cons [OF assms(1)] del: menu.simps)
  qed (use less.prems in simp)
qed

section \<open>The empire in memory\<close>

type_synonym esess = "empireState \<times> dom"

definition refresh :: "bool \<Rightarrow> empireState \<Rightarrow> dom \<Rightarrow> empireState" where
  "refresh fault e s = (case loadEmpire fault (em_GlobalID e) s of (fresh, None) \<Rightarrow> fresh | (_, Some _) \<Rightarrow> e)"

definition quits :: "'c input \<Rightarrow> bool" where
  "quits x \<longleftrightarrow> is_key (i_key x) CHR ''q'' CHR ''Q''"

section \<open>Regions\<close>

definition developRegion_do :: "'c input \<Rightarrow> string \<Rightarrow> string \<Rightarrow> esess \<Rightarrow> esess" where
  "developRegion_do x gid rt es =
     (case es of (e, s) \<Rightarrow>
        (let regions = (case loadRegions (i_io x ''loadRegions'' 0) (em_GlobalID e) s of Inl _ \<Rightarrow> [] | Inr rs \<Rightarrow> rs);
             qty = (case region regions rt of None \<Rightarrow> 0 | Some r \<Rightarrow> rg_Quantity r);
             cost = nextRegionCost qty rt
         in if tn_Actions (turn_of (i_io x ''LoadTurn'' 0) gid s) < 1 \<or> em_Money e < cost then (e, s)
            else
              (let e1 = e\<lparr>em_Money := wrap64 (em_Money e - cost)\<rparr> in
               case updateEmpire (i_io x ''updateEmpire'' 0) e1 s of
                 (s1, Some _) \<Rightarrow> (e1, s1)
               | (s1, None) \<Rightarrow>
                   (case addRegion (i_io x ''addRegion'' 0) (em_GlobalID e) rt (nextRegionCost (qty + 1) rt) s1 of
                      (s2, Some _) \<Rightarrow> (e1\<lparr>em_Money := wrap64 (em_Money e1 + cost)\<rparr>, s2)
                    | (s2, None) \<Rightarrow> (e1, fst (SpendActions (i_io x ''SpendActions'' 0) gid 1 s2))))))"

definition developRegion_step :: "string \<Rightarrow> ('c, esess) mstep" where
  "developRegion_step gid x es xs =
     (case es of (e0, s) \<Rightarrow>
        (let e = refresh (i_io x ''loadEmpire'' 0) e0 s in
         if quits x then ((e, s), xs, False)
         else case digit_index (i_key x) of
           None \<Rightarrow> ((e, s), xs, True)
         | Some i \<Rightarrow> (if i < length regionTypes then developRegion_do x gid (regionTypes ! i) (e, s) else (e, s), xs, True)))"

definition developRegionMenu :: "string \<Rightarrow> esess \<Rightarrow> 'c input list \<Rightarrow> esess \<times> 'c input list" where
  "developRegionMenu gid = menu (developRegion_step gid)"

section \<open>Structures\<close>

record structureDef =
  sd_key :: char
  sd_name :: string
  sd_bldgCost :: int
  sd_monCost :: int

definition structures :: "structureDef list" where
  "structures = map (\<lambda>(k, n, b, m). \<lparr>sd_key = k, sd_name = n, sd_bldgCost = b, sd_monCost = m\<rparr>)
     [(CHR ''1'', ''Research Lab'', 80, 400), (CHR ''2'', ''Construction Factory'', 100, 500), (CHR ''3'', ''Fishing Guild'', 60, 300),
      (CHR ''4'', ''Miners Guild'', 70, 350), (CHR ''5'', ''Intelligence Building'', 90, 450), (CHR ''6'', ''Ground Turret'', 150, 750),
      (CHR ''7'', ''Orbital Satellite'', 250, 1500)]"

definition applyStructure :: "buildingsRow \<Rightarrow> string \<Rightarrow> int \<Rightarrow> buildingsRow" where
  "applyStructure b name delta =
     (if name = ''Research Lab'' then b\<lparr>bd_ResearchLab := wrap64 (bd_ResearchLab b + delta)\<rparr>
      else if name = ''Construction Factory'' then b\<lparr>bd_ConstructionFactory := wrap64 (bd_ConstructionFactory b + delta)\<rparr>
      else if name = ''Fishing Guild'' then b\<lparr>bd_FishingGuild := wrap64 (bd_FishingGuild b + delta)\<rparr>
      else if name = ''Miners Guild'' then b\<lparr>bd_MinersGuild := wrap64 (bd_MinersGuild b + delta)\<rparr>
      else if name = ''Intelligence Building'' then b\<lparr>bd_IntelBuilding := wrap64 (bd_IntelBuilding b + delta)\<rparr> else b)"

text \<open>The defence structures need their technology.\<close>

definition structure_open :: "'c input \<Rightarrow> empireState \<Rightarrow> structureDef \<Rightarrow> dom \<Rightarrow> bool" where
  "structure_open x e d s \<longleftrightarrow>
     \<not> (sd_name d = ''Ground Turret'' \<and> \<not> hasTech (i_io x ''hasTech'' 0) (em_GlobalID e) ''defense_turrets'' s)
     \<and> \<not> (sd_name d = ''Orbital Satellite'' \<and> \<not> hasTech (i_io x ''hasTech'' 1) (em_GlobalID e) ''defense_satellites'' s)"

definition build_do :: "'c input \<Rightarrow> structureDef \<Rightarrow> esess \<Rightarrow> esess" where
  "build_do x d es =
     (case es of (e, s) \<Rightarrow>
        (let b = fst (loadBuildings (i_io x ''loadBuildings'' 0) (em_GlobalID e) s);
             m = fst (loadMilitary (i_io x ''loadMilitary'' 0) (em_GlobalID e) s)
         in if \<not> structure_open x e d s \<or> em_BuildingPts e < sd_bldgCost d \<or> em_Money e < sd_monCost d then (e, s)
            else
              (let e1 = e\<lparr>em_BuildingPts := wrap64 (em_BuildingPts e - sd_bldgCost d), em_Money := wrap64 (em_Money e - sd_monCost d)\<rparr> in
               case (if sd_name d = ''Ground Turret'' then
                       saveMilitary (i_io x ''saveMilitary'' 0) (em_GlobalID e) (m\<lparr>ml_Turrets := wrap64 (ml_Turrets m + 1)\<rparr>) s
                     else if sd_name d = ''Orbital Satellite'' then
                       saveMilitary (i_io x ''saveMilitary'' 0) (em_GlobalID e) (m\<lparr>ml_Satellites := wrap64 (ml_Satellites m + 1)\<rparr>) s
                     else saveBuildings (i_io x ''saveBuildings'' 0) (em_GlobalID e) (applyStructure b (sd_name d) 1) s) of
                 (s1, Some _) \<Rightarrow> (e1, s1)
               | (s1, None) \<Rightarrow> (e1, fst (updateEmpire (i_io x ''updateEmpire'' 0) e1 s1)))))"

definition build_step :: "('c, esess) mstep" where
  "build_step x es xs =
     (case es of (e0, s) \<Rightarrow>
        (let e = refresh (i_io x ''loadEmpire'' 0) e0 s in
         if quits x then ((e, s), xs, False)
         else case find (\<lambda>d. sd_key d = i_key x) structures of
           None \<Rightarrow> ((e, s), xs, True)
         | Some d \<Rightarrow> (build_do x d (e, s), xs, True)))"

definition buildStructureMenu :: "esess \<Rightarrow> 'c input list \<Rightarrow> esess \<times> 'c input list" where
  "buildStructureMenu = menu build_step"

section \<open>Technologies\<close>

record techDef =
  td_key :: char
  td_id :: string
  td_requires :: string

definition td_cost :: "techDef \<Rightarrow> int" where
  "td_cost d = techCost (td_id d)"

definition techTree :: "techDef list" where
  "techTree = map (\<lambda>(k, i, r). \<lparr>td_key = k, td_id = i, td_requires = r\<rparr>)
     [(CHR ''1'', ''energy_fission'', []), (CHR ''2'', ''energy_fusion'', ''energy_fission''),
      (CHR ''3'', ''soldiers_superhuman'', []), (CHR ''4'', ''soldiers_megahuman'', ''soldiers_superhuman''),
      (CHR ''5'', ''vehicle_tank'', []), (CHR ''6'', ''vehicle_hovercraft'', ''vehicle_tank''),
      (CHR ''7'', ''ballistic_nuclear'', []), (CHR ''8'', ''ballistic_antimatter'', ''ballistic_nuclear''),
      (CHR ''9'', ''defense_turrets'', []), (CHR ''A'', ''defense_satellites'', ''defense_turrets''),
      (CHR ''B'', ''defense_global_shield'', ''defense_satellites'')]"

definition research_do :: "'c input \<Rightarrow> techDef \<Rightarrow> esess \<Rightarrow> esess" where
  "research_do x d es =
     (case es of (e, s) \<Rightarrow>
        if hasTech (i_io x ''hasTech'' 0) (em_GlobalID e) (td_id d) s
          \<or> td_requires d \<noteq> [] \<and> \<not> hasTech (i_io x ''hasTech'' 1) (em_GlobalID e) (td_requires d) s
          \<or> em_ResearchPts e < td_cost d then (e, s)
        else
          (let e1 = e\<lparr>em_ResearchPts := wrap64 (em_ResearchPts e - td_cost d)\<rparr> in
           case updateEmpire (i_io x ''updateEmpire'' 0) e1 s of
             (s1, Some _) \<Rightarrow> (e1, s1)
           | (s1, None) \<Rightarrow> (e1, fst (setTech (i_io x ''setTech'' 0) (em_GlobalID e) (td_id d) s1))))"

definition research_step :: "('c, esess) mstep" where
  "research_step x es xs =
     (case es of (e0, s) \<Rightarrow>
        (let e = refresh (i_io x ''loadEmpire'' 0) e0 s in
         if quits x then ((e, s), xs, False)
         else case find (\<lambda>d. td_key d = i_key x) techTree of
           None \<Rightarrow> ((e, s), xs, True)
         | Some d \<Rightarrow> (research_do x d (e, s), xs, True)))"

definition researchTechMenu :: "esess \<Rightarrow> 'c input list \<Rightarrow> esess \<times> 'c input list" where
  "researchTechMenu = menu research_step"

section \<open>The bank\<close>

definition bank_move :: "bool \<Rightarrow> int \<Rightarrow> empireState \<Rightarrow> empireState option" where
  "bank_move deposit amt e =
     (if amt \<le> 0 then None
      else if deposit then
        (if amt > em_Money e then None
         else Some (e\<lparr>em_Money := wrap64 (em_Money e - amt), em_MoneyBank := wrap64 (em_MoneyBank e + amt)\<rparr>))
      else
        (if amt > em_MoneyBank e then None
         else Some (e\<lparr>em_MoneyBank := wrap64 (em_MoneyBank e - amt), em_Money := wrap64 (em_Money e + amt)\<rparr>)))"

definition bank_step :: "('c, esess) mstep" where
  "bank_step x es xs =
     (case es of (e0, s) \<Rightarrow>
        (let e = refresh (i_io x ''loadEmpire'' 0) e0 s; deposit = is_key (i_key x) CHR ''d'' CHR ''D'' in
         if quits x then ((e, s), xs, False)
         else if \<not> deposit \<and> \<not> is_key (i_key x) CHR ''w'' CHR ''W'' then ((e, s), xs, True)
         else case ReadLine True xs of
           (None, _, ys) \<Rightarrow> ((e, s), ys, False)
         | (Some (l, y), _, ys) \<Rightarrow>
             (let line = trim_space l in
              case (if line = [] \<or> line = ''q'' \<or> line = ''Q'' then None
                    else case parse_int line of None \<Rightarrow> None | Some amt \<Rightarrow> bank_move deposit amt e) of
                None \<Rightarrow> ((e, s), ys, True)
              | Some e1 \<Rightarrow> ((e1, fst (updateEmpire (i_io y ''updateEmpire'' 0) e1 s)), ys, True))))"

definition bankMenu :: "esess \<Rightarrow> 'c input list \<Rightarrow> esess \<times> 'c input list" where
  "bankMenu = menu bank_step"

section \<open>Minerals\<close>

text \<open>Sell all: the total of what is in store, and every such store cleared; a failed statement is not noticed.\<close>

fun sell_all :: "'c input \<Rightarrow> nat \<Rightarrow> string \<Rightarrow> (string \<times> int) list \<Rightarrow> string list \<Rightarrow> int \<times> dom \<Rightarrow> int \<times> dom" where
  "sell_all x k i store [] ts = ts"
| "sell_all x k i store (mt # mts) (tot, s) =
     sell_all x (Suc k) i store mts
       (if lookup0 store mt \<le> 0 then (tot, s)
        else (wrap64 (tot + lookup0 store mt * mineralPrice mt), fst (clearMineralStore (i_io x ''clearMineralStore'' k) i mt s)))"

definition sell_step :: "('c, esess) mstep" where
  "sell_step x es xs =
     (case es of (e0, s) \<Rightarrow>
        (let e = refresh (i_io x ''loadEmpire'' 0) e0 s;
             store = (case loadMineralStore (i_io x ''loadMineralStore'' 0) (em_GlobalID e) s of Inl _ \<Rightarrow> [] | Inr m \<Rightarrow> m);
             hasAny = list_ex (\<lambda>r. snd r > 0) store
         in if quits x then ((e, s), xs, False)
            else if \<not> hasAny then ((e, s), xs, True)
            else if is_key (i_key x) CHR ''a'' CHR ''A'' then
              (case sell_all x 0 (em_GlobalID e) store mineTypes (0, s) of
                 (tot, s1) \<Rightarrow>
                   (let e1 = e\<lparr>em_Money := wrap64 (em_Money e + tot)\<rparr>
                    in ((e1, fst (updateEmpire (i_io x ''updateEmpire'' 0) e1 s1)), xs, True)))
            else case digit_index (i_key x) of
              None \<Rightarrow> ((e, s), xs, True)
            | Some i \<Rightarrow>
                if i < length mineTypes \<and> lookup0 store (mineTypes ! i) > 0 then
                  (let mt = mineTypes ! i; e1 = e\<lparr>em_Money := wrap64 (em_Money e + lookup0 store mt * mineralPrice mt)\<rparr>;
                       s1 = fst (clearMineralStore (i_io x ''clearMineralStore'' 0) (em_GlobalID e) mt s)
                   in ((e1, fst (updateEmpire (i_io x ''updateEmpire'' 0) e1 s1)), xs, True))
                else ((e, s), xs, True)))"

definition sellMineralsMenu :: "esess \<Rightarrow> 'c input list \<Rightarrow> esess \<times> 'c input list" where
  "sellMineralsMenu = menu sell_step"

section \<open>Recruiting\<close>

definition unitAvailable :: "bool \<Rightarrow> string \<Rightarrow> buildingsRow \<Rightarrow> unitDef \<Rightarrow> dom \<Rightarrow> bool" where
  "unitAvailable fault i b d s \<longleftrightarrow>
     \<not> (ud_reqBldg d = ''intel'' \<and> bd_IntelBuilding b < 1) \<and> \<not> (ud_requires d \<noteq> [] \<and> \<not> hasTech fault i (ud_requires d) s)"

text \<open>The price is checked after the multiplication wrapped.\<close>

definition recruit :: "unitDef \<Rightarrow> int \<Rightarrow> empireState \<times> militaryRow \<Rightarrow> (empireState \<times> militaryRow) option" where
  "recruit d qty em =
     (case em of (e, m) \<Rightarrow>
        (let tot = wrap64 (qty * ud_costCr d) in
         if qty \<le> 0 \<or> tot > em_Money e then None
         else Some (e\<lparr>em_Money := wrap64 (em_Money e - tot)\<rparr>, addUnits m (ud_field d) qty)))"

definition recruit_step :: "('c, esess) mstep" where
  "recruit_step x es xs =
     (case es of (e0, s) \<Rightarrow>
        (let e = refresh (i_io x ''loadEmpire'' 0) e0 s;
             m = fst (loadMilitary (i_io x ''loadMilitary'' 0) (em_GlobalID e) s);
             b = fst (loadBuildings (i_io x ''loadBuildings'' 0) (em_GlobalID e) s)
         in if quits x then ((e, s), xs, False)
            else case find (\<lambda>d. ud_key d = i_key x) unitDefs of
              None \<Rightarrow> ((e, s), xs, True)
            | Some d \<Rightarrow>
                if \<not> unitAvailable (i_io x ''hasTech'' 0) (em_GlobalID e) b d s then ((e, s), xs, True)
                else case ReadLine True xs of
                  (None, _, ys) \<Rightarrow> ((e, s), ys, False)
                | (Some (l, y), _, ys) \<Rightarrow>
                    (case (case parse_int (trim_space l) of None \<Rightarrow> None | Some qty \<Rightarrow> recruit d qty (e, m)) of
                       None \<Rightarrow> ((e, s), ys, True)
                     | Some (e1, m1) \<Rightarrow>
                         (let s1 = fst (updateEmpire (i_io y ''updateEmpire'' 0) e1 s)
                          in ((e1, fst (saveMilitary (i_io y ''saveMilitary'' 0) (em_GlobalID e) m1 s1)), ys, True)))))"

definition recruitMenu :: "esess \<Rightarrow> 'c input list \<Rightarrow> esess \<times> 'c input list" where
  "recruitMenu = menu recruit_step"

section \<open>The develop menu\<close>

definition develop_step :: "string \<Rightarrow> ('c, esess) mstep" where
  "develop_step gid x es xs =
     (case es of (e0, s) \<Rightarrow>
        (let k = i_key x; es1 = (refresh (i_io x ''loadEmpire'' 0) e0 s, s); into = (\<lambda>r. case r of (es2, ys) \<Rightarrow> (es2, ys, True)) in
         if is_key k CHR ''r'' CHR ''R'' then into (developRegionMenu gid es1 xs)
         else if is_key k CHR ''b'' CHR ''B'' then into (buildStructureMenu es1 xs)
         else if is_key k CHR ''t'' CHR ''T'' then into (researchTechMenu es1 xs)
         else if is_key k CHR ''u'' CHR ''U'' then into (recruitMenu es1 xs)
         else if is_key k CHR ''k'' CHR ''K'' then into (bankMenu es1 xs)
         else if is_key k CHR ''s'' CHR ''S'' then into (sellMineralsMenu es1 xs)
         else (es1, xs, \<not> quits x)))"

definition developMenu :: "string \<Rightarrow> esess \<Rightarrow> 'c input list \<Rightarrow> esess \<times> 'c input list" where
  "developMenu gid = menu (develop_step gid)"

section \<open>Keys are used up\<close>

lemma ReadLine_rest: "ReadLine b xs = (r, o', ys) \<Longrightarrow> suffix ys xs"
  using read_line_edits [of b "[]" "[]" xs r o' ys] unfolding ReadLine_def
  by (metis suffix_dropWhile suffix_order.trans tl_suffix)

named_theorems rests \<open>steps that leave a rest of their keys\<close>

lemma develop_rests [rests]:
  "leaves_rest (developRegion_step gid)" "leaves_rest build_step" "leaves_rest research_step" "leaves_rest sell_step"
  by (auto simp: leaves_rest_def developRegion_step_def build_step_def research_step_def sell_step_def Let_def
      split: prod.splits option.splits)

lemma line_rests [rests]: "leaves_rest bank_step" "leaves_rest recruit_step"
  by (auto simp: leaves_rest_def bank_step_def recruit_step_def Let_def split: prod.splits option.splits dest: ReadLine_rest)

lemma develop_rest [rests]: "leaves_rest (develop_step gid)"
  by (auto simp: leaves_rest_def develop_step_def Let_def developRegionMenu_def buildStructureMenu_def researchTechMenu_def
      recruitMenu_def bankMenu_def sellMineralsMenu_def split: prod.splits dest!: menu_keys [OF rests(1)] menu_keys [OF rests(2)]
      menu_keys [OF rests(3)] menu_keys [OF rests(4)] menu_keys [OF rests(5)] menu_keys [OF rests(6)])

end
