(* ===== verification/Dom_Session.thy ===== *)
theory Dom_Session
  imports Dom_Menus
begin

text \<open>
  A session of Empire Ascendant: the attack menus (\<open>d3_menus.go\<close>, \<open>d4_menus.go\<close>), warp travel, the founding
  of an empire by its player, the menus around them and \<open>Run\<close> (\<open>module.go\<close>). The two functions that reach
  the hub, and the order of a Go map, come with the context; pages wait for one key.
\<close>

record ('c, 'h) Dom_Context =
  dx_Player :: Player
  dx_NodeID :: string
  dx_Order :: mine_order
  dx_CrossNodeAttack :: "('c, 'h) attack_fn option"
  dx_Travel :: "('c \<Rightarrow> int \<Rightarrow> io \<Rightarrow> string \<Rightarrow> string \<Rightarrow> dom \<times> 'h \<Rightarrow> (dom \<times> 'h) \<times> bool) option"

definition dx_gid :: "('c, 'h) Dom_Context \<Rightarrow> string" where
  "dx_gid X = p_GlobalID (dx_Player X)"

text \<open>The state of a session: the empire in memory, the store and the hub.\<close>

type_synonym 'h dsess = "empireState \<times> dom \<times> 'h"

section \<open>Attacks\<close>

definition attackTarget_step :: "string \<Rightarrow> empireStub \<Rightarrow> ('c, esess) mstep" where
  "attackTarget_step gid target x es xs =
     (case es of (e0, s) \<Rightarrow>
        (let att = refresh (i_io x ''loadEmpire'' 0) e0 s;
             day = tn_DayIndex (turn_of (i_io x ''LoadTurn'' 0) gid s);
             atm = fst (loadMilitary (i_io x ''loadMilitary'' 0) (em_GlobalID att) s);
             def = fst (loadEmpire (i_io x ''loadEmpire'' 1) (es_GlobalID target) s);
             dfm = fst (loadMilitary (i_io x ''loadMilitary'' 1) (es_GlobalID target) s);
             k = i_key x
         in if is_key k CHR ''g'' CHR ''G'' then (fst (doGroundAssault x gid day atm def dfm (att, s)), xs, True)
            else if is_key k CHR ''m'' CHR ''M'' then
              (case doMissileStrike x gid day atm def dfm (att, s) xs of (es1, ys, _) \<Rightarrow> (es1, ys, True))
            else if is_key k CHR ''y'' CHR ''Y'' then
              (case doSpyMission x gid day atm def dfm (att, s) xs of (es1, ys, _) \<Rightarrow> (es1, ys, True))
            else ((att, s), xs, \<not> quits x)))"

definition attackTarget :: "string \<Rightarrow> empireStub \<Rightarrow> esess \<Rightarrow> 'c input list \<Rightarrow> esess \<times> 'c input list" where
  "attackTarget gid target = menu (attackTarget_step gid target)"

text \<open>An attack that was sent is shown on a page and ends the menu.\<close>

definition sent :: "string \<Rightarrow> (dom \<times> 'h) \<times> string \<Rightarrow> 'c input list \<Rightarrow> (dom \<times> 'h) \<times> 'c input list \<times> bool" where
  "sent word r xs = (if contains (snd r) word then (fst r, tl xs, False) else (fst r, xs, True))"

definition remoteAttackTarget_step :: "('c, 'h) Dom_Context \<Rightarrow> empireState \<Rightarrow> Player \<Rightarrow> ('c, dom \<times> 'h) mstep" where
  "remoteAttackTarget_step X att victim x w xs =
     (let gid = dx_gid X; atm = fst (loadMilitary (i_io x ''loadMilitary'' 0) gid (fst w)); k = i_key x in
      if is_key k CHR ''g'' CHR ''G'' then
        sent ''dispatched'' (doRemoteGroundAssault (dx_CrossNodeAttack X) x gid att atm victim w) xs
      else if is_key k CHR ''m'' CHR ''M'' then
        (if wrap64 (ml_MissilesNuclear atm + ml_MissilesAntimatter atm) = 0 then (w, xs, True)
         else case chooseMissileType xs of
           (t, ys) \<Rightarrow> if t = [] then (w, ys, True)
             else sent ''launched'' (doRemoteMissileStrike (dx_CrossNodeAttack X) x gid att atm victim t w) ys)
      else (w, xs, \<not> quits x))"

definition remoteAttackTarget :: "('c, 'h) Dom_Context \<Rightarrow> empireState \<Rightarrow> Player \<Rightarrow> dom \<times> 'h \<Rightarrow> 'c input list \<Rightarrow> (dom \<times> 'h) \<times> 'c input list" where
  "remoteAttackTarget X att victim = menu (remoteAttackTarget_step X att victim)"

text \<open>At most nine players of other nodes are offered, and only with a hub.\<close>

definition remote_targets :: "('c, 'h) Dom_Context \<Rightarrow> 'c input \<Rightarrow> empireState \<Rightarrow> dom \<Rightarrow> Player list" where
  "remote_targets X x e s =
     (if dx_CrossNodeAttack X = None then []
      else case Players (i_io x ''Players'' 0) (em_GlobalID e) s of
        Inl _ \<Rightarrow> [] | Inr ps \<Rightarrow> take 9 (filter (\<lambda>p. p_HomeNode p \<noteq> dx_NodeID X) ps))"

text \<open>The index of a letter counts from upper-case A in either case.\<close>

definition letter_index :: "char \<Rightarrow> nat option" where
  "letter_index k = (let n = byte k in if 65 \<le> n \<and> n \<le> 73 \<or> 97 \<le> n \<and> n \<le> 105 then Some (n - 65) else None)"

definition select_step :: "('c, 'h) Dom_Context \<Rightarrow> ('c, 'h dsess) mstep" where
  "select_step X x w xs =
     (case w of (e, s, h) \<Rightarrow>
        (let gid = dx_gid X; turn = turn_of (i_io x ''LoadTurn'' 0) gid s;
             locals = (case listTargets (i_io x ''listTargets'' 0) (i_now x) (em_GlobalID e) s of Inl _ \<Rightarrow> [] | Inr ts \<Rightarrow> ts);
             remotes = remote_targets X x e s;
             able = (tn_Actions turn \<ge> 1 \<and> tn_Attacks turn \<ge> 1)
         in if locals = [] \<and> remotes = [] then (w, xs, False)
            else if quits x then (w, xs, False)
            else case digit_index (i_key x) of
              Some i \<Rightarrow>
                if i < length locals \<and> able then
                  (case attackTarget gid (locals ! i) (e, s) xs of ((e1, s1), ys) \<Rightarrow> ((e1, s1, h), ys, True))
                else (w, xs, True)
            | None \<Rightarrow>
                (case letter_index (i_key x) of
                   Some i \<Rightarrow>
                     if i < length remotes \<and> able then
                       (case remoteAttackTarget X e (remotes ! i) (s, h) xs of ((s1, h1), ys) \<Rightarrow> ((e, s1, h1), ys, True))
                     else (w, xs, True)
                 | None \<Rightarrow> (w, xs, True))))"

definition selectAndAttack :: "('c, 'h) Dom_Context \<Rightarrow> 'h dsess \<Rightarrow> 'c input list \<Rightarrow> 'h dsess \<times> 'c input list" where
  "selectAndAttack X = menu (select_step X)"

definition globalShieldToggle :: "'c input \<Rightarrow> empireState \<Rightarrow> dom \<Rightarrow> dom" where
  "globalShieldToggle x e s =
     (if \<not> hasTech (i_io x ''hasTech'' 0) (em_GlobalID e) ''defense_global_shield'' s then s
      else
        (let m = fst (loadMilitary (i_io x ''loadMilitary'' 0) (em_GlobalID e) s) in
         if ml_GlobalShieldActive m > 0 then fst (saveMilitary (i_io x ''saveMilitary'' 0) (em_GlobalID e) (m\<lparr>ml_GlobalShieldActive := 0\<rparr>) s)
         else if em_Energy e < 1000 then s
         else fst (saveMilitary (i_io x ''saveMilitary'' 0) (em_GlobalID e) (m\<lparr>ml_GlobalShieldActive := 1\<rparr>) s)))"

definition galacticDispatches :: "'c input \<Rightarrow> string \<Rightarrow> dom \<Rightarrow> dom" where
  "galacticDispatches x gid s = fst (clearPvPLog (i_io x ''clearPvPLog'' 0) gid s)"

definition attack_step :: "('c, 'h) Dom_Context \<Rightarrow> ('c, 'h dsess) mstep" where
  "attack_step X x w xs =
     (case w of (e0, s, h) \<Rightarrow>
        (let k = i_key x; e = refresh (i_io x ''loadEmpire'' 0) e0 s in
         if is_key k CHR ''s'' CHR ''S'' then (case selectAndAttack X (e, s, h) xs of (w1, ys) \<Rightarrow> (w1, ys, True))
         else if is_key k CHR ''g'' CHR ''G'' then ((e, globalShieldToggle x e s, h), tl xs, True)
         else if is_key k CHR ''d'' CHR ''D'' then ((e, galacticDispatches x (dx_gid X) s, h), tl xs, True)
         else ((e, s, h), xs, \<not> quits x)))"

definition Dom_attackMenu :: "('c, 'h) Dom_Context \<Rightarrow> 'h dsess \<Rightarrow> 'c input list \<Rightarrow> 'h dsess \<times> 'c input list" where
  "Dom_attackMenu X = menu (attack_step X)"

section \<open>Warp\<close>

text \<open>The nodes of the roster other than this one, each once, in order of appearance.\<close>

definition warp_nodes :: "string \<Rightarrow> Player list \<Rightarrow> string list" where
  "warp_nodes nodeID ps = rev (remdups (rev (filter (\<lambda>n. n \<noteq> nodeID) (map p_HomeNode ps))))"

definition dx_travel :: "('c, 'h) Dom_Context \<Rightarrow> 'c input \<Rightarrow> string \<Rightarrow> dom \<times> 'h \<Rightarrow> (dom \<times> 'h) \<times> bool" where
  "dx_travel X x dest w =
     (case dx_Travel X of None \<Rightarrow> (w, True) | Some f \<Rightarrow> f (i_call x) (i_now x) (i_io x ''Travel'') (dx_gid X) dest w)"

definition warp_step :: "('c, 'h) Dom_Context \<Rightarrow> string list \<Rightarrow> ('c, dom \<times> 'h) mstep" where
  "warp_step X nodes x w xs =
     (case digit_index (i_key x) of
        Some i \<Rightarrow>
          if i \<ge> min 9 (length nodes) \<or> tn_Actions (turn_of (i_io x ''LoadTurn'' 0) (dx_gid X) (fst w)) < 2 then (w, xs, True)
          else (case dx_travel X x (nodes ! i) w of
            (w1, True) \<Rightarrow> (w1, xs, True)
          | ((s1, h1), False) \<Rightarrow> ((fst (SpendActions (i_io x ''SpendActions'' 0) (dx_gid X) 2 s1), h1), tl xs, False))
      | None \<Rightarrow> (w, xs, \<not> quits x))"

definition depart_step :: "('c, 'h) Dom_Context \<Rightarrow> ('c, dom \<times> 'h) mstep" where
  "depart_step X x w xs =
     (if is_key (i_key x) CHR ''r'' CHR ''R'' then
        (case dx_travel X x (p_HomeNode (dx_Player X)) w of (w1, True) \<Rightarrow> (w1, xs, True) | (w1, False) \<Rightarrow> (w1, tl xs, False))
      else (w, xs, \<not> quits x))"

definition warpScreen :: "('c, 'h) Dom_Context \<Rightarrow> 'c input \<Rightarrow> empireState \<Rightarrow> dom \<times> 'h \<Rightarrow> 'c input list \<Rightarrow> (dom \<times> 'h) \<times> 'c input list" where
  "warpScreen X x e w xs =
     (if dx_Travel X = None \<or> \<not> hasTech (i_io x ''hasTech'' 0) (em_GlobalID e) ''travel_hyperdrive'' (fst w) then (w, tl xs)
      else if p_HomeNode (dx_Player X) \<noteq> dx_NodeID X then menu (depart_step X) w xs
      else
        (let nodes = warp_nodes (dx_NodeID X) (case Players (i_io x ''Players'' 0) (dx_gid X) (fst w) of Inl _ \<Rightarrow> [] | Inr ps \<Rightarrow> ps)
         in if nodes = [] then (w, tl xs) else menu (warp_step X nodes) w xs))"

section \<open>Headquarters and main menu\<close>

definition hq_step :: "('c, 'h) Dom_Context \<Rightarrow> ('c, 'h dsess) mstep" where
  "hq_step X x w xs =
     (case w of (e0, s, h) \<Rightarrow>
        (let k = i_key x; e = refresh (i_io x ''loadEmpire'' 0) e0 s in
         if is_key k CHR ''t'' CHR ''T'' then ((refresh (i_io x ''loadEmpire'' 1) e s, s, h), tl xs, True)
         else if is_key k CHR ''d'' CHR ''D'' then
           (case developMenu (dx_gid X) (e, s) xs of ((e1, s1), ys) \<Rightarrow> ((e1, s1, h), ys, True))
         else if is_key k CHR ''a'' CHR ''A'' then (case Dom_attackMenu X (e, s, h) xs of (w1, ys) \<Rightarrow> (w1, ys, True))
         else if is_key k CHR ''v'' CHR ''V'' then (case warpScreen X x e (s, h) xs of (sh, ys) \<Rightarrow> ((e, sh), ys, True))
         else if is_key k CHR ''w'' CHR ''W'' \<or> is_key k CHR ''i'' CHR ''I'' \<or> is_key k CHR ''m'' CHR ''M'' then ((e, s, h), tl xs, True)
         else ((e, s, h), xs, \<not> quits x)))"

definition empireHQ :: "('c, 'h) Dom_Context \<Rightarrow> 'h dsess \<Rightarrow> 'c input list \<Rightarrow> 'h dsess \<times> 'c input list" where
  "empireHQ X = menu (hq_step X)"

definition main_step :: "('c, 'h) Dom_Context \<Rightarrow> ('c, 'h dsess) mstep" where
  "main_step X x w xs =
     (let k = i_key x in
      if is_key k CHR ''e'' CHR ''E'' then (case empireHQ X w xs of (w1, ys) \<Rightarrow> (w1, ys, True))
      else if is_key k CHR ''r'' CHR ''R'' \<or> is_key k CHR ''n'' CHR ''N'' \<or> is_key k CHR ''s'' CHR ''S'' then (w, tl xs, True)
      else (w, xs, \<not> quits x))"

definition mainMenu :: "('c, 'h) Dom_Context \<Rightarrow> 'h dsess \<Rightarrow> 'c input list \<Rightarrow> 'h dsess \<times> 'c input list" where
  "mainMenu X = menu (main_step X)"

section \<open>Founding an empire\<close>

lemma ReadLine_less: "ReadLine b xs = (Some r, o', ys) \<Longrightarrow> length ys < length xs"
  using read_line_edits [of b "[]" "[]" xs "Some r" o' ys] length_dropWhile_le [of in_line xs] unfolding ReadLine_def
  by (cases "dropWhile in_line xs") auto

text \<open>A name is asked for until it is valid and free; a count that fails leaves 0. Without input it is an error.\<close>

definition eof :: eng_err where
  "eof = EMsg ''EOF''"

function ask_name :: "(empireState \<Rightarrow> string) \<Rightarrow> dom \<Rightarrow> 'c input list \<Rightarrow> string option \<times> 'c input list" where
  "ask_name col s xs =
     (case ReadLine True xs of
        (None, _, ys) \<Rightarrow> (None, ys)
      | (Some (l, y), _, ys) \<Rightarrow>
          (let n = trim_space l in
           if validateName n \<noteq> None \<or> \<not> i_io y ''count'' 0 \<and> rows_where (\<lambda>e. col e = n) (dm_empires s) > 0 then ask_name col s ys
           else (Some n, ys)))"
  by pat_completeness auto
termination
  by (relation "measure (\<lambda>(col, s, xs). length xs)") (auto dest: ReadLine_less sym)

declare ask_name.simps [simp del]

text \<open>The last page waits for a key.\<close>

definition setupWizard :: "'c input \<Rightarrow> esess \<Rightarrow> 'c input list \<Rightarrow> (esess \<times> 'c input list) \<times> eng_err option" where
  "setupWizard x es xs =
     (case es of (e, s) \<Rightarrow>
        case ask_name em_WorldName s xs of
          (None, ys) \<Rightarrow> ((es, ys), Some eof)
        | (Some w, ys) \<Rightarrow>
            (case ask_name em_EmpireName s ys of
               (None, zs) \<Rightarrow> ((es, zs), Some eof)
             | (Some n, zs) \<Rightarrow>
                 (case saveNames (i_io x ''saveNames'' 0) (em_GlobalID e) w n s of
                    (s1, Some err) \<Rightarrow> ((((e, s1), zs)), Some err)
                  | (s1, None) \<Rightarrow> ((((e\<lparr>em_WorldName := w, em_EmpireName := n\<rparr>, s1), tl zs)), None))))"

section \<open>The session\<close>

definition found_or_load :: "'c input \<Rightarrow> string \<Rightarrow> dom \<Rightarrow> dom \<times> (eng_err + empireState)" where
  "found_or_load x0 gid s =
     (case loadEmpire (i_io x0 ''loadEmpire'' 0) gid s of
        (e, None) \<Rightarrow> (s, Inr e)
      | (_, Some _) \<Rightarrow>
          (case Dom_NewCharacter (i_io x0 ''NewCharacter'') gid s of
             (s1, Some err) \<Rightarrow> (s1, Inl err)
           | (s1, None) \<Rightarrow>
               (case loadEmpire (i_io x0 ''loadEmpire'' 1) gid s1 of (e, None) \<Rightarrow> (s1, Inr e) | (_, Some err) \<Rightarrow> (s1, Inl err))))"

text \<open>A new day: production, the purge of empires long abandoned, and the empire read again.\<close>

definition new_day :: "(int \<Rightarrow> int) \<Rightarrow> mine_order \<Rightarrow> 'c input \<Rightarrow> string \<Rightarrow> esess \<Rightarrow> dom \<times> (eng_err + empireState)" where
  "new_day zone ord x0 gid es =
     (case es of (e, s) \<Rightarrow>
        case ResetIfNewDay zone (i_io x0 ''ResetIfNewDay'') (i_now x0) gid s of
          (s1, False, _) \<Rightarrow> (s1, Inr e)
        | (s1, True, _) \<Rightarrow>
            (let s2 = fst (runProductionTick ord (i_io x0 ''runProductionTick'') gid s1);
                 s3 = fst (purgeInactiveEmpires (i_io x0 ''purgeInactiveEmpires'') (i_now x0) (g_nodeID s2) s2)
             in case loadEmpire (i_io x0 ''loadEmpire'' 2) gid s3 of (e1, None) \<Rightarrow> (s3, Inr e1) | (_, Some err) \<Rightarrow> (s3, Inl err)))"

text \<open>Up to the main menu: the empire is founded or loaded and its day begun; news take one key.\<close>

definition Dom_start :: "(int \<Rightarrow> int) \<Rightarrow> ('c, 'h) Dom_Context \<Rightarrow> 'c input \<Rightarrow> dom \<Rightarrow> 'c input list
    \<Rightarrow> dom \<times> (eng_err + empireState \<times> 'c input list)" where
  "Dom_start zone X x0 s xs =
     (case found_or_load x0 (dx_gid X) s of
        (s1, Inl err) \<Rightarrow> (s1, Inl err)
      | (s1, Inr e) \<Rightarrow>
          (case (if em_WorldName e = [] then setupWizard x0 (e, s1) xs else (((e, s1), xs), None)) of
             (((_, s2), _), Some err) \<Rightarrow> (s2, Inl err)
           | ((es2, ys), None) \<Rightarrow>
               (case new_day zone (dx_Order X) x0 (dx_gid X) es2 of
                  (s3, Inl err) \<Rightarrow> (s3, Inl err)
                | (s3, Inr e3) \<Rightarrow>
                    (s3, Inr (e3, if countPvPLog (i_io x0 ''countPvPLog'' 0) (dx_gid X) s3 > 0 then tl ys else ys)))))"

definition Dom_Run :: "(int \<Rightarrow> int) \<Rightarrow> ('c, 'h) Dom_Context \<Rightarrow> 'c input \<Rightarrow> dom \<times> 'h \<Rightarrow> 'c input list \<Rightarrow> (dom \<times> 'h) \<times> eng_err option" where
  "Dom_Run zone X x0 w xs =
     (case w of (s, h) \<Rightarrow>
        case Dom_start zone X x0 s xs of
          (s1, Inl err) \<Rightarrow> ((s1, h), Some err)
        | (s1, Inr (e, zs)) \<Rightarrow> (snd (fst (mainMenu X (e, s1, h) zs)), None))"

section \<open>Keys are used up\<close>

lemma attackTarget_rests [rests]: "leaves_rest (attackTarget_step gid t)"
  by (auto simp: leaves_rest_def attackTarget_step_def Let_def split: prod.splits dest: doMissileStrike_suffix doSpyMission_suffix)

lemma remote_rests [rests]: "leaves_rest (remoteAttackTarget_step X e v)"
  by (auto simp: leaves_rest_def remoteAttackTarget_step_def Let_def sent_def tl_suffix split: prod.splits dest: choose_suffix
      intro: suffix_order.trans [OF tl_suffix])

lemma select_rests [rests]: "leaves_rest (select_step X)"
  by (auto simp: leaves_rest_def select_step_def Let_def attackTarget_def remoteAttackTarget_def split: prod.splits option.splits
      dest!: menu_keys [OF attackTarget_rests] menu_keys [OF remote_rests])

lemma attack_rests [rests]: "leaves_rest (attack_step X)"
  by (auto simp: leaves_rest_def attack_step_def Let_def selectAndAttack_def tl_suffix split: prod.splits
      dest!: menu_keys [OF select_rests])

lemma warp_rests [rests]: "leaves_rest (warp_step X ns)" "leaves_rest (depart_step X)"
  by (auto simp: leaves_rest_def warp_step_def depart_step_def tl_suffix split: prod.splits option.splits bool.splits)

lemma warpScreen_suffix: "warpScreen X x e w xs = (w1, ys) \<Longrightarrow> suffix ys xs"
  by (auto simp: warpScreen_def Let_def tl_suffix split: if_splits dest: menu_keys [OF warp_rests(1)] menu_keys [OF warp_rests(2)])

lemma hq_rests [rests]: "leaves_rest (hq_step X)"
  by (auto simp: leaves_rest_def hq_step_def Let_def developMenu_def Dom_attackMenu_def tl_suffix split: prod.splits
      dest!: menu_keys [OF develop_rest] menu_keys [OF attack_rests] warpScreen_suffix)

lemma main_rests [rests]: "leaves_rest (main_step X)"
  by (auto simp: leaves_rest_def main_step_def Let_def empireHQ_def tl_suffix split: prod.splits dest!: menu_keys [OF hq_rests])

lemma ask_name_suffix: "suffix (snd (ask_name col s xs)) xs"
proof (induction col s xs rule: ask_name.induct)
  case (1 col s xs)
  obtain r o' ys where r: "ReadLine True xs = (r, o', ys)" by (metis prod_cases3)
  have ys: "suffix ys xs"
    using r by (rule ReadLine_rest)
  show ?case
  proof (cases r)
    case None
    then show ?thesis using r ys by (subst ask_name.simps) simp
  next
    case (Some p)
    obtain l y where p: "p = (l, y)" by (cases p)
    note IH = 1 [OF r [symmetric, unfolded Some p] refl refl refl refl]
    show ?thesis
      using r Some p ys suffix_order.trans [OF IH ys] by (subst ask_name.simps) (auto simp: Let_def)
  qed
qed

end
