(* ===== verification/Dom_Safety.thy ===== *)
theory Dom_Safety
  imports Dom_Session
begin

text \<open>
  What a session of Empire Ascendant keeps, whatever is pressed and whatever fails. The locale
  \<open>table_laws\<close> says what an invariant has to know of the statements on the tables; its lemmas carry it
  through everything but the attacks at this node. \<open>empire_laws\<close> adds the law of the counters, and its lemmas
  go up to \<open>Dom_Run\<close>. The order of the tables and the limits on attacks are instances of both; that everything
  but an attack leaves the counters alone is an instance of the first.
\<close>

section \<open>What statements leave alone\<close>

lemma spend_frame [simp]:
  "dm_limits (fst (SpendActions f g n s)) = dm_limits s" "dm_limits (fst (SpendAttack f g s)) = dm_limits s"
  by (simp_all add: SpendActions_def SpendAttack_def Let_def)

lemma damage_frame [simp]: "dm_limits (regionDamage f p i s) = dm_limits s"
  by (simp add: regionDamage_def Let_def)

lemma limit_ok_cong:
  "dm_limits t = dm_limits s \<Longrightarrow> em_GlobalID a' = em_GlobalID a \<Longrightarrow> em_GlobalID d' = em_GlobalID d
    \<Longrightarrow> limit_ok x a' d' day c t = limit_ok x a d day c s"
  by (simp add: limit_ok_def attackLimitOK_def)

lemma groundAssault_ids:
  "groundAssault a d am dm r k = ((a1, d1), ms, t) \<Longrightarrow> em_GlobalID a1 = em_GlobalID a \<and> em_GlobalID d1 = em_GlobalID d"
  by (auto simp: groundAssault_def Let_def split: if_splits)

lemma ballisticStrike_frame:
  "ballisticStrike f r k t (d, m, s) = ((d1, m1, s1), u) \<Longrightarrow> em_GlobalID d1 = em_GlobalID d \<and> dm_limits s1 = dm_limits s
    \<and> (s1 = s \<or> (\<exists>p. s1 = regionDamage f p (em_GlobalID d) s))"
  by (auto simp: ballisticStrike_def Let_def split: if_splits)

lemma spySabotage_frame:
  "spySabotage f r k i (m, s) = ((m1, s1), u) \<Longrightarrow> s1 = s \<or> (\<exists>p. s1 = regionDamage f p i s)"
  by (auto simp: spySabotage_def Let_def split: if_splits)

lemma setupWizard_frame:
  assumes "setupWizard x (e, s) xs = (((e2, s2), ys), q)"
  shows "suffix ys xs \<and> (s2 = s \<or> (\<exists>f i w n. s2 = fst (saveNames f i w n s)))"
proof -
  obtain r1 us where a: "ask_name em_WorldName s xs = (r1, us)" by (cases "ask_name em_WorldName s xs")
  obtain r2 vs where b: "ask_name em_EmpireName s us = (r2, vs)" by (cases "ask_name em_EmpireName s us")
  have 1: "suffix us xs" "suffix vs us"
    using ask_name_suffix [of em_WorldName s xs] ask_name_suffix [of em_EmpireName s us] a b by simp_all
  then have "suffix vs xs" "suffix (tl vs) xs"
    using suffix_order.trans tl_suffix by blast+
  moreover obtain s3 r3 where c: "saveNames (i_io x ''saveNames'' 0) (em_GlobalID e) (the r1) (the r2) s = (s3, r3)"
    by (cases "saveNames (i_io x ''saveNames'' 0) (em_GlobalID e) (the r1) (the r2) s")
  moreover from c have "\<exists>f i w n. s3 = fst (saveNames f i w n s)"
    by (metis fst_conv)
  ultimately show ?thesis
    using assms a b 1 by (cases r1; cases r2; cases r3) (auto simp: setupWizard_def)
qed

lemma Dom_start_suffix:
  assumes "Dom_start zone X x0 s xs = (s1, Inr (e, zs))"
  shows "suffix zs xs"
proof -
  have "suffix ys xs" "suffix (tl ys) xs" if "setupWizard x0 es xs = ((es2, ys), q)" for es es2 ys q
    using setupWizard_frame [of x0 "fst es" "snd es" xs "fst es2" "snd es2" ys q] that suffix_order.trans [OF tl_suffix] by auto
  then show ?thesis
    using assms by (auto simp: Dom_start_def tl_suffix split: prod.splits sum.splits option.splits if_splits)
qed

section \<open>An invariant through a session\<close>

locale table_laws =
  fixes P :: "dom \<Rightarrow> bool" and R :: "'c input \<Rightarrow> bool"
  assumes law_names: "P s \<Longrightarrow> P (fst (saveNames f i w nm s))"
    and law_empire: "P s \<Longrightarrow> P (fst (updateEmpire f e s))"
    and law_region: "P s \<Longrightarrow> rt \<in> set regionTypes \<Longrightarrow> P (fst (addRegion f i rt cost s))"
    and law_buildings: "P s \<Longrightarrow> P (fst (saveBuildings f i b s))"
    and law_left: "P s \<Longrightarrow> P (fst (setMineralLeft f i mt q s))"
    and law_store: "P s \<Longrightarrow> P (fst (addMineralStore f i mt q s))"
    and law_clear: "P s \<Longrightarrow> P (fst (clearMineralStore f i mt s))"
    and law_tech: "P s \<Longrightarrow> d \<in> set techTree \<Longrightarrow> td_requires d = [] \<or> hasTech f' i (td_requires d) s
        \<Longrightarrow> P (fst (setTech f i (td_id d) s))"
    and law_military: "P s \<Longrightarrow> P (fst (saveMilitary f i m s))"
    and law_log: "P s \<Longrightarrow> P (fst (writePvPLog f now i l s))" "P s \<Longrightarrow> P (fst (clearPvPLog f i s))"
    and law_purge: "P s \<Longrightarrow> P (purge_empire io i s)"
    and law_new: "P s \<Longrightarrow> P (fst (Dom_NewCharacter io i s))"
    and law_damage: "P s \<Longrightarrow> P (regionDamage f pick i s)"
    and law_turns: "P s \<Longrightarrow> 0 \<le> n \<Longrightarrow> P (fst (SpendActions f g n s))" "P s \<Longrightarrow> P (fst (SpendAttack f g s))"
      "P s \<Longrightarrow> P (fst (ResetIfNewDay zone io now g s))"
    and law_warp: "P s \<Longrightarrow> \<not> hasTech f i ''travel_hyperdrive'' s"
begin

lemmas laws = law_names law_empire law_region law_buildings law_left law_store law_clear law_military law_log law_purge
  law_new law_damage law_turns

text \<open>A pair of a new state and an error, taken apart.\<close>

lemma keeps_pair: "f s = (s1, r) \<Longrightarrow> (P s \<Longrightarrow> P (fst (f s))) \<Longrightarrow> P s \<Longrightarrow> P s1"
  by (metis fst_conv)

section \<open>Development\<close>

lemma keeps_developRegion_do:
  assumes "P s" and "rt \<in> set regionTypes"
  shows "P (snd (developRegion_do x gid rt (e, s)))"
  using assms law_empire law_region law_turns(1)
  by (auto simp: developRegion_do_def Let_def split: prod.splits option.splits) (metis fst_conv zero_le_one)+

lemma keeps_build_do: "P s \<Longrightarrow> P (snd (build_do x d (e, s)))"
  using law_empire law_buildings law_military
  by (auto simp: build_do_def Let_def split: prod.splits option.splits if_splits) (metis fst_conv)+

lemma keeps_research_do:
  assumes "P s" and "d \<in> set techTree"
  shows "P (snd (research_do x d (e, s)))"
proof -
  let ?e = "e\<lparr>em_ResearchPts := wrap64 (em_ResearchPts e - td_cost d)\<rparr>"
  obtain s1 r where s1: "updateEmpire (i_io x ''updateEmpire'' 0) ?e s = (s1, r)"
    by (cases "updateEmpire (i_io x ''updateEmpire'' 0) ?e s")
  have P1: "P s1" and t: "dm_tech s1 = dm_tech s"
    using law_empire [OF assms(1), of "i_io x ''updateEmpire'' 0" ?e] s1 by (auto simp: updateEmpire_def split: if_splits)
  show ?thesis
  proof (cases "td_requires d \<noteq> [] \<and> \<not> hasTech (i_io x ''hasTech'' 1) (em_GlobalID e) (td_requires d) s")
    case False
    then have "td_requires d = [] \<or> hasTech (i_io x ''hasTech'' 1) (em_GlobalID e) (td_requires d) s1"
      using t by (simp add: hasTech_def)
    then have "P (fst (setTech (i_io x ''setTech'' 0) (em_GlobalID e) (td_id d) s1))"
      by (rule law_tech [OF P1 assms(2)])
    then show ?thesis
      using assms(1) P1 s1 by (simp add: research_do_def Let_def split: option.split)
  qed (use assms(1) in \<open>simp add: research_do_def\<close>)
qed

lemma keeps_sell_all: "P (snd ts) \<Longrightarrow> P (snd (sell_all x k i store mts ts))"
proof (induction x k i store mts ts rule: sell_all.induct)
  case (2 x k i store mt mts tot s)
  then show ?case using law_clear by (auto simp: fst_def split: prod.split)
qed simp

text \<open>Every body keeps it; so does the menu around it.\<close>

abbreviation keeps :: "('w \<Rightarrow> dom) \<Rightarrow> ('c, 'w) mstep \<Rightarrow> bool" where
  "keeps st step \<equiv> \<forall>x w ys. P (st w) \<longrightarrow> R x \<longrightarrow> list_all R ys \<longrightarrow> P (st (fst (step x w ys)))"

lemma menu_P:
  assumes "leaves_rest step" and "keeps st step" and "P (st w)" and "list_all R xs"
  shows "P (st (fst (menu step w xs)))"
  using assms(2) by (intro menu_keeps [OF assms(1), where R = R and Q = "\<lambda>w. P (st w)"] assms(3,4)) (metis fst_conv)

lemma keeps_developRegion: "keeps snd (developRegion_step gid)"
  by (auto simp: developRegion_step_def Let_def split: option.split intro!: keeps_developRegion_do)

lemma keeps_build: "keeps snd build_step"
  by (auto simp: build_step_def Let_def split: option.split intro!: keeps_build_do)

lemma keeps_research: "keeps snd research_step"
  by (auto simp: research_step_def Let_def split: option.split dest!: find_Some_D intro!: keeps_research_do)

lemma keeps_bank: "keeps snd bank_step"
  using law_empire by (auto simp: bank_step_def Let_def split: option.split prod.split)

lemma keeps_sell: "keeps snd sell_step"
proof (intro allI impI)
  fix x :: "'c input" and w :: esess and ys
  assume P: "P (snd w)"
  obtain e s where w: "w = (e, s)" by (cases w)
  have all: "P s1" if "sell_all x 0 i st mts (0, s) = (t, s1)" for i st mts t s1
    using keeps_sell_all [of "(0, s)" x 0 i st mts] P w that by simp
  show "P (snd (fst (sell_step x w ys)))"
    using P w all law_empire law_clear by (auto simp: sell_step_def Let_def split: option.split prod.split)
qed

lemma keeps_recruit: "keeps snd recruit_step"
  using law_empire law_military by (auto simp: recruit_step_def Let_def split: option.split prod.split)

lemma keeps_develop: "keeps snd (develop_step gid)"
proof (intro allI impI)
  fix x :: "'c input" and w :: esess and ys
  assume P: "P (snd w)" and R: "list_all R ys"
  note m = menu_P [OF _ _ _ R, of _ snd]
  show "P (snd (fst (develop_step gid x w ys)))"
    using P m [OF rests(1) keeps_developRegion] m [OF rests(2) keeps_build] m [OF rests(3) keeps_research] m [OF rests(4) keeps_sell]
      m [OF rests(5) keeps_bank] m [OF rests(6) keeps_recruit]
    by (auto simp: develop_step_def Let_def developRegionMenu_def buildStructureMenu_def researchTechMenu_def recruitMenu_def
        bankMenu_def sellMineralsMenu_def split: prod.split) (metis fst_conv snd_conv)+
qed

section \<open>Attacks on other nodes and shields\<close>

lemma keeps_sent: "P (fst (fst r)) \<Longrightarrow> P (fst (fst (sent t r xs)))"
  by (simp add: sent_def)

lemma keeps_remote:
  assumes "P (fst w)"
  shows "P (fst (fst (doRemoteGroundAssault f x gid a am v w)))" "P (fst (fst (doRemoteMissileStrike f x gid a am v t w)))"
proof -
  obtain s h where w: "w = (s, h)" by (cases w)
  show "P (fst (fst (doRemoteGroundAssault f x gid a am v w)))" "P (fst (fst (doRemoteMissileStrike f x gid a am v t w)))"
    using assms unfolding w doRemoteGroundAssault_def doRemoteMissileStrike_def Let_def
    by (auto split: option.split prod.split bool.split intro!: law_turns law_military)
qed

lemma keeps_remoteTarget: "keeps fst (remoteAttackTarget_step X a v)"
  by (auto simp: remoteAttackTarget_step_def Let_def split: prod.split intro!: keeps_sent keeps_remote)

lemma keeps_shield: "P s \<Longrightarrow> P (globalShieldToggle x e s)"
  by (simp add: globalShieldToggle_def Let_def law_military)

section \<open>Warp and a new day\<close>

lemma no_warp: "P (fst w) \<Longrightarrow> warpScreen X x e w xs = (w, tl xs)"
  by (simp add: warpScreen_def law_warp)

lemma keeps_mines: "P s \<Longrightarrow> P (fst (run_mines io k i ms s))"
proof (induction io k i ms s rule: run_mines.induct)
  case (2 io k i m ms s)
  note step = "2.IH"
  have "P s1" if "setMineralLeft f j mt q s = (s1, r)" for f j mt q s1 r
    using law_left [OF "2.prems", of f j mt q] that by simp
  moreover have "P s2" if "addMineralStore f j mt q s1 = (s2, r)" "P s1" for f j mt q s1 s2 r
    using law_store [OF that(2), of f j mt q] that(1) by simp
  ultimately show ?case
    using "2.prems" step by (auto simp: Let_def split: prod.split option.split)
qed simp

lemma keeps_production: "P s \<Longrightarrow> P (fst (runProductionTick ord io i s))"
proof -
  assume P: "P s"
  have d: "P s1" if "drain_shield f i (e, s) = (e1, s1)" for f e e1 s1
    using P that law_military by (auto simp: drain_shield_def Let_def split: if_splits)
  have "P s2" if "run_mines f k i ms s1 = (s2, r)" "P s1" for f k ms s1 s2 r
    using keeps_mines [OF that(2), of f k i ms] that(1) by simp
  then show ?thesis
    using P d law_empire by (auto simp: runProductionTick_def Let_def split: prod.split option.split sum.split)
qed

lemma keeps_purge: "P s \<Longrightarrow> P (fst (purgeInactiveEmpires io now n s))"
proof -
  have "P s \<Longrightarrow> P (purge_all io k is s)" for k "is"
    by (induction io k "is" s rule: purge_all.induct) (simp_all add: law_purge)
  then show "P s \<Longrightarrow> ?thesis"
    by (simp add: purgeInactiveEmpires_def)
qed

lemma keeps_new_day: "P s \<Longrightarrow> P (fst (new_day zone ord x0 gid (e, s)))"
proof -
  assume P: "P s"
  obtain s1 b r where s1: "ResetIfNewDay zone (i_io x0 ''ResetIfNewDay'') (i_now x0) gid s = (s1, b, r)" by (metis prod_cases3)
  then have "P s1"
    using law_turns(3) [OF P, of zone "i_io x0 ''ResetIfNewDay''" "i_now x0" gid] by simp
  then have "P (fst (purgeInactiveEmpires pio now n (fst (runProductionTick ord io gid s1))))" for pio now n io
    by (intro keeps_purge keeps_production)
  then show ?thesis
    using s1 \<open>P s1\<close> by (auto simp: new_day_def Let_def split: prod.split option.split bool.split)
qed

lemma keeps_start:
  assumes "P s"
  shows "P (fst (Dom_start zone X x0 s xs))"
proof -
  obtain s1 r where f: "found_or_load x0 (dx_gid X) s = (s1, r)" by (cases "found_or_load x0 (dx_gid X) s")
  have "P t" if "Dom_NewCharacter io i s = (t, q)" for io i t q
    using law_new [OF assms, of io i] that by simp
  then have P1: "P s1"
    using assms f by (auto simp: found_or_load_def split: prod.splits option.splits)
  have wiz: "P s2" if "setupWizard x0 (e, s1) xs = (((e2, s2), ys), q)" for e e2 s2 ys q
    using setupWizard_frame [OF that] P1 law_names by auto
  have day: "P s3" if "new_day zone (dx_Order X) x0 (dx_gid X) (e2, s2) = (s3, q)" "P s2" for e2 s2 s3 q
    using keeps_new_day [OF that(2), of zone "dx_Order X" x0 "dx_gid X" e2] that(1) by simp
  show ?thesis
    using f P1 wiz day by (auto simp: Dom_start_def split: sum.split prod.split option.split)
qed

end

section \<open>Attacks\<close>

locale empire_laws = table_laws P R for P :: "dom \<Rightarrow> bool" and R :: "'c input \<Rightarrow> bool" +
  assumes law_limit: "P s \<Longrightarrow> R x \<Longrightarrow> limit_ok x att def day c s
        \<Longrightarrow> P (fst (incAttackLimit f (em_GlobalID att) (em_GlobalID def) day c s))"
begin

lemma keeps_spend:
  assumes "P s" and "R x" and "limit_ok x a d day c s0" and "dm_limits s = dm_limits s0"
    and "em_GlobalID a' = em_GlobalID a" "em_GlobalID d' = em_GlobalID d"
  shows "P (spend x gid a' d' day c s)"
proof -
  let ?s2 = "fst (SpendAttack (i_io x ''SpendAttack'' 0) gid (fst (SpendActions (i_io x ''SpendActions'' 0) gid 1 s)))"
  have "P ?s2"
    using assms(1) by (intro law_turns) simp_all
  moreover have "limit_ok x a' d' day c ?s2"
    using limit_ok_cong [of ?s2 s0 a' a d' d x day c] assms(3-6) by simp
  ultimately show ?thesis
    unfolding spend_def Let_def using law_limit assms(2) by blast
qed

lemma keeps_save: "P s \<Longrightarrow> P (save_military x a am d dm s)"
  by (simp add: save_military_def law_military)

lemma keeps_report: "P s \<Longrightarrow> P (report x a d t o' l s)"
  by (simp add: report_def law_log)

lemma keeps_ground:
  fixes x :: "'c input"
  assumes "P s" and "R x"
  shows "P (snd (fst (doGroundAssault x gid day am d dm (a, s))))"
proof -
  obtain a1 d1 am1 dm1 t where g: "groundAssault a d am dm (i_rng x) 0 = ((a1, d1), (am1, dm1), t)"
    by (metis surj_pair)
  have "P (spend x gid a1 d1 day ground_count s)" if "limit_ok x a d day ground_count s"
    using keeps_spend [OF assms that refl] groundAssault_ids [OF g] by simp
  then show ?thesis
    using assms(1) g by (auto simp: doGroundAssault_def Let_def intro!: keeps_report keeps_save law_empire)
qed

lemma keeps_missile:
  fixes x :: "'c input"
  assumes "P s" and "R x"
  shows "P (snd (fst (doMissileStrike x gid day am d dm (a, s) xs)))"
proof -
  obtain t ys where p: "pick_missile am xs = (t, ys)" by (cases "pick_missile am xs")
  obtain d1 dm1 s1 u where b: "ballisticStrike (i_io x ''regionDamage'' 0) (i_rng x) 0 t (d, dm, s) = ((d1, dm1, s1), u)"
    by (metis surj_pair)
  note fr = ballisticStrike_frame [OF b]
  have "P s1"
    using fr assms(1) law_damage by auto
  then have "P (spend x gid a d1 day missile_count s1)" if "limit_ok x a d day missile_count s"
    using keeps_spend [OF _ assms(2) that, of s1 a d1] fr by simp
  then show ?thesis
    using assms(1) p b by (cases u) (auto simp: doMissileStrike_def Let_def intro!: keeps_report keeps_save law_empire)
qed

lemma keeps_spy:
  fixes x :: "'c input"
  assumes "P s" and "R x"
  shows "P (snd (fst (doSpyMission x gid day am d dm (a, s) xs)))"
proof -
  let ?s1 = "spend x gid a d day spy_count s"
  obtain t ys where p: "chooseSpyMission xs = (t, ys)" by (cases "chooseSpyMission xs")
  obtain dm1 s2 u where b: "spySabotage (i_io x ''regionDamage'' 0) (i_rng x) 0 (em_GlobalID d) (dm, ?s1) = ((dm1, s2), u)"
    by (metis surj_pair)
  have 1: "P ?s1" if "limit_ok x a d day spy_count s"
    using keeps_spend [OF assms that] by simp
  then have "P s2" if "limit_ok x a d day spy_count s"
    using spySabotage_frame [OF b] that law_damage by auto
  then show ?thesis
    using assms(1) 1 p b by (cases u) (auto simp: doSpyMission_def Let_def intro!: keeps_report keeps_save)
qed

lemma keeps_attackTarget: "keeps snd (attackTarget_step gid t)"
proof (intro allI impI)
  fix x :: "'c input" and w :: esess and ys
  assume P: "P (snd w)" and R: "R x"
  obtain e s where w: "w = (e, s)" by (cases w)
  have "P s2" if "doMissileStrike x gid day am d dm (a, s) xs = ((e1, s2), zs, n)" for day am d dm a xs e1 s2 zs n
    using keeps_missile [of s x gid day am d dm a xs] P R w that by simp
  moreover have "P s2" if "doSpyMission x gid day am d dm (a, s) xs = ((e1, s2), zs, n)" for day am d dm a xs e1 s2 zs n
    using keeps_spy [of s x gid day am d dm a xs] P R w that by simp
  ultimately show "P (snd (fst (attackTarget_step gid t x w ys)))"
    using P R w by (auto simp: attackTarget_step_def Let_def intro!: keeps_ground split: prod.split)
qed

abbreviation store_of :: "'h dsess \<Rightarrow> dom" where
  "store_of w \<equiv> fst (snd w)"

lemma keeps_select:
  fixes X :: "('c, 'h) Dom_Context"
  shows "keeps store_of (select_step X)"
proof (intro allI impI)
  fix x :: "'c input" and w :: "'h dsess" and ys
  assume P: "P (store_of w)" and R: "list_all R ys"
  obtain e s h where w: "w = (e, s, h)" by (metis prod_cases3)
  have Ps: "P s" using P w by simp
  have 1: "P s1" if "menu (attackTarget_step g t) (e, s) ys = ((e1, s1), zs)" for g t e1 s1 zs
    using menu_P [OF attackTarget_rests keeps_attackTarget [of g t], of "(e, s)" ys] Ps R that by simp
  have 2: "P s1" if "menu (remoteAttackTarget_step X e v) (s, h) ys = ((s1, h1), zs)" for v s1 h1 zs
    using menu_P [OF remote_rests keeps_remoteTarget [of X e v], of "(s, h)" ys] Ps R that by simp
  show "P (store_of (fst (select_step X x w ys)))"
    using Ps w 1 2 by (auto simp: select_step_def Let_def attackTarget_def remoteAttackTarget_def split: option.split prod.split)
qed

lemma keeps_attack:
  fixes X :: "('c, 'h) Dom_Context"
  shows "keeps store_of (attack_step X)"
proof (intro allI impI)
  fix x :: "'c input" and w :: "'h dsess" and ys
  assume P: "P (store_of w)" and R: "list_all R ys"
  obtain e s h where w: "w = (e, s, h)" by (metis prod_cases3)
  have "P (store_of w1)" if "menu (select_step X) (e', s, h) ys = (w1, zs)" for e' w1 zs
    using menu_P [OF select_rests keeps_select [of X], of "(e', s, h)" ys] P w R that by simp
  then show "P (store_of (fst (attack_step X x w ys)))"
    using P w by (auto simp: attack_step_def Let_def selectAndAttack_def galacticDispatches_def intro!: keeps_shield law_log
        split: prod.split)
qed

section \<open>The session\<close>

lemma keeps_hq:
  fixes X :: "('c, 'h) Dom_Context"
  shows "keeps store_of (hq_step X)"
proof (intro allI impI)
  fix x :: "'c input" and w :: "'h dsess" and ys
  assume P: "P (store_of w)" and R: "list_all R ys"
  obtain e s h where w: "w = (e, s, h)" by (metis prod_cases3)
  have Ps: "P s" using P w by simp
  have "P s1" if "menu (develop_step g) (e', s) ys = ((e1, s1), zs)" for g e' e1 s1 zs
    using menu_P [OF develop_rest keeps_develop [of g], of "(e', s)" ys] Ps R that by simp
  moreover have "P (store_of w1)" if "menu (attack_step X) (e', s, h) ys = (w1, zs)" for e' w1 zs
    using menu_P [OF attack_rests keeps_attack [of X], of "(e', s, h)" ys] Ps R that by simp
  moreover have "warpScreen X x e' (s, h) ys = ((s, h), tl ys)" for e'
    using no_warp [of "(s, h)"] Ps by simp
  ultimately show "P (store_of (fst (hq_step X x w ys)))"
    using Ps w by (auto simp: hq_step_def Let_def developMenu_def Dom_attackMenu_def split: prod.split)
qed

lemma keeps_main:
  fixes X :: "('c, 'h) Dom_Context"
  shows "keeps store_of (main_step X)"
proof (intro allI impI)
  fix x :: "'c input" and w :: "'h dsess" and ys
  assume P: "P (store_of w)" and R: "list_all R ys"
  have "P (store_of w1)" if "menu (hq_step X) w ys = (w1, zs)" for w1 zs
    using menu_P [OF hq_rests keeps_hq [of X], of w ys] P R that by simp
  then show "P (store_of (fst (main_step X x w ys)))"
    using P by (auto simp: main_step_def Let_def empireHQ_def split: prod.split)
qed

lemma keeps_run:
  assumes "P s" and "list_all R xs"
  shows "P (fst (fst (Dom_Run zone X x0 (s, h) xs)))"
proof -
  obtain s1 r where d: "Dom_start zone X x0 s xs = (s1, r)" by (cases "Dom_start zone X x0 s xs")
  then have P1: "P s1"
    using keeps_start [OF assms(1), of zone X x0 xs] by simp
  show ?thesis
  proof (cases r)
    case (Inr ez)
    obtain e zs where ez: "ez = (e, zs)" by (cases ez)
    then have "list_all R zs"
      using set_mono_suffix [OF Dom_start_suffix] d Inr assms(2) by (fastforce simp: list_all_iff)
    then have "P (store_of (fst (mainMenu X (e, s1, h) zs)))"
      unfolding mainMenu_def using P1 by (intro menu_P [OF main_rests keeps_main]) simp_all
    then show ?thesis
      using d Inr ez by (simp add: Dom_Run_def)
  qed (use d P1 in \<open>simp add: Dom_Run_def\<close>)
qed

end

end
