(* ===== verification/Dom_Invariant.thy ===== *)
theory Dom_Invariant
  imports Dom_Safety
begin

text \<open>
  The two invariants of Empire Ascendant and their interpretations: \<open>dom_ok\<close>, the order of the nine tables
  (with the technologies closed under their prerequisites), and \<open>limits_kept\<close>, the caps on attacks.
\<close>

section \<open>The order of the tables\<close>

definition names_ok :: "empireState list \<Rightarrow> bool" where
  "names_ok es \<longleftrightarrow> (\<forall>e \<in> set es. \<forall>f \<in> set es. em_GlobalID e \<noteq> em_GlobalID f \<longrightarrow>
     (em_WorldName e \<noteq> [] \<longrightarrow> em_WorldName f \<noteq> em_WorldName e) \<and> (em_EmpireName e \<noteq> [] \<longrightarrow> em_EmpireName f \<noteq> em_EmpireName e))"

definition region_ok :: "regionRow \<Rightarrow> bool" where
  "region_ok r \<longleftrightarrow> rg_RegionType r \<in> set regionTypes \<and> 0 \<le> rg_Activated r \<and> rg_Activated r \<le> rg_Quantity r"

text \<open>A researched technology is of the tree and stands on its prerequisite.\<close>

definition tech_ok :: "((string \<times> string) \<times> int) list \<Rightarrow> bool" where
  "tech_ok ts \<longleftrightarrow> (\<forall>((i, t), v) \<in> set ts. v = 1
     \<and> (\<exists>d \<in> set techTree. td_id d = t \<and> (td_requires d = [] \<or> ((i, td_requires d), 1) \<in> set ts)))"

definition dom_ok :: "dom \<Rightarrow> bool" where
  "dom_ok s \<longleftrightarrow> eng_wf s
     \<and> distinct (map em_GlobalID (dm_empires s)) \<and> names_ok (dm_empires s)
     \<and> distinct (map region_key (dm_regions s)) \<and> (\<forall>r \<in> set (dm_regions s). region_ok (snd r))
     \<and> distinct (map fst (dm_buildings s)) \<and> distinct (map mine_key (dm_mines s)) \<and> distinct (map fst (dm_minerals s))
     \<and> distinct (map fst (dm_tech s)) \<and> tech_ok (dm_tech s)
     \<and> distinct (map fst (dm_military s)) \<and> distinct (map fst (dm_limits s))"

text \<open>The engine's part, under any change of the game's tables.\<close>

lemma eng_wf_tables [simp]:
  "eng_wf (s\<lparr>dm_empires := a\<rparr>) = eng_wf s" "eng_wf (s\<lparr>dm_regions := b\<rparr>) = eng_wf s" "eng_wf (s\<lparr>dm_buildings := c\<rparr>) = eng_wf s"
  "eng_wf (s\<lparr>dm_mines := d\<rparr>) = eng_wf s" "eng_wf (s\<lparr>dm_tech := e\<rparr>) = eng_wf s" "eng_wf (s\<lparr>dm_minerals := g\<rparr>) = eng_wf s"
  "eng_wf (s\<lparr>dm_military := h\<rparr>) = eng_wf s" "eng_wf (s\<lparr>dm_log := l\<rparr>) = eng_wf s" "eng_wf (s\<lparr>dm_limits := m\<rparr>) = eng_wf s"
  for s :: dom
  by (simp_all add: eng_wf_def)

lemma dom_ok_engine:
  assumes "dom_ok s" and "eng_wf s \<Longrightarrow> eng_wf t" and "dm_empires t = dm_empires s" "dm_regions t = dm_regions s"
    "dm_buildings t = dm_buildings s" "dm_mines t = dm_mines s" "dm_minerals t = dm_minerals s" "dm_tech t = dm_tech s"
    "dm_military t = dm_military s" "dm_limits t = dm_limits s"
  shows "dom_ok t"
  using assms by (simp add: dom_ok_def)

lemma ok_turns:
  assumes "dom_ok s"
  shows "0 \<le> n \<Longrightarrow> dom_ok (fst (SpendActions f g n s))" "dom_ok (fst (SpendAttack f g s))"
    "dom_ok (fst (ResetIfNewDay zone io now g s))"
proof -
  show "0 \<le> n \<Longrightarrow> dom_ok (fst (SpendActions f g n s))"
    by (rule dom_ok_engine [OF assms]) (simp_all add: SpendActions_wf, simp_all add: SpendActions_def Let_def)
  show "dom_ok (fst (SpendAttack f g s))"
    by (rule dom_ok_engine [OF assms]) (simp_all add: SpendAttack_wf, simp_all add: SpendAttack_def Let_def)
  show "dom_ok (fst (ResetIfNewDay zone io now g s))"
    by (rule dom_ok_engine [OF assms]) (simp_all add: ResetIfNewDay_wf, simp_all add: ResetIfNewDay_def split: sum.split)
qed

section \<open>Statements on the empires\<close>

lemma ok_empires:
  "dom_ok s \<Longrightarrow> distinct (map em_GlobalID es) \<Longrightarrow> names_ok es \<Longrightarrow> dom_ok (s\<lparr>dm_empires := es\<rparr>)"
  by (simp add: dom_ok_def)

text \<open>An update that leaves the key and the names.\<close>

lemma ok_kept:
  assumes "dom_ok s" and "\<And>e. P e \<Longrightarrow> em_GlobalID (f e) = em_GlobalID e \<and> em_WorldName (f e) = em_WorldName e \<and> em_EmpireName (f e) = em_EmpireName e"
  shows "dom_ok (s\<lparr>dm_empires := upd_where P f (dm_empires s)\<rparr>)"
proof (rule ok_empires [OF assms(1)])
  show "distinct (map em_GlobalID (upd_where P f (dm_empires s)))"
    using assms by (intro distinct_upd_where) (simp_all add: dom_ok_def)
  have "\<exists>e \<in> set (dm_empires s). em_GlobalID e = em_GlobalID r \<and> em_WorldName e = em_WorldName r \<and> em_EmpireName e = em_EmpireName r"
    if "r \<in> set (upd_where P f (dm_empires s))" for r
    using that assms(2) by (auto simp: table_simps)
  then show "names_ok (upd_where P f (dm_empires s))"
    using assms(1) unfolding dom_ok_def names_ok_def by metis
qed

lemma ok_updateEmpire: "dom_ok s \<Longrightarrow> dom_ok (fst (updateEmpire f e s))"
  by (simp add: updateEmpire_def ok_kept kept_names_def)

lemma ok_saveNames:
  assumes "dom_ok s"
  shows "dom_ok (fst (saveNames f i w n s))"
proof (cases "f \<or> i \<in> em_GlobalID ` set (dm_empires s) \<and> names_taken i w n s")
  case False
  let ?u = "\<lambda>e. e\<lparr>em_WorldName := w, em_EmpireName := n\<rparr>"
  let ?es = "upd_where (\<lambda>e. em_GlobalID e = i) ?u (dm_empires s)"
  have "distinct (map em_GlobalID ?es)"
    using assms by (intro distinct_upd_where) (simp_all add: dom_ok_def)
  moreover have free: "(w \<noteq> [] \<longrightarrow> em_WorldName e \<noteq> w) \<and> (n \<noteq> [] \<longrightarrow> em_EmpireName e \<noteq> n)"
    if "e \<in> set (dm_empires s)" "em_GlobalID e \<noteq> i" "e0 \<in> set (dm_empires s)" "em_GlobalID e0 = i" for e e0
    using False that by (auto simp: names_taken_def list_ex_iff)
  have "names_ok ?es"
    unfolding names_ok_def
  proof (intro ballI impI)
    fix a b
    assume "a \<in> set ?es" "b \<in> set ?es" and ne: "em_GlobalID a \<noteq> em_GlobalID b"
    then consider (none) "a \<in> set (dm_empires s)" "b \<in> set (dm_empires s)"
      | (left) a0 where "a0 \<in> set (dm_empires s)" "em_GlobalID a0 = i" "a = ?u a0" "b \<in> set (dm_empires s)" "em_GlobalID b \<noteq> i"
      | (right) b0 where "b0 \<in> set (dm_empires s)" "em_GlobalID b0 = i" "b = ?u b0" "a \<in> set (dm_empires s)" "em_GlobalID a \<noteq> i"
      by (auto simp: table_simps)
    then show "(em_WorldName a \<noteq> [] \<longrightarrow> em_WorldName b \<noteq> em_WorldName a) \<and> (em_EmpireName a \<noteq> [] \<longrightarrow> em_EmpireName b \<noteq> em_EmpireName a)"
    proof cases
      case none
      then show ?thesis using assms ne by (simp add: dom_ok_def names_ok_def)
    next
      case (left a0)
      then show ?thesis using free [of b a0] by simp
    next
      case (right b0)
      then show ?thesis using free [of a b0] by auto
    qed
  qed
  ultimately show ?thesis
    using False by (auto simp: saveNames_def intro: ok_empires [OF assms])
qed (use assms in \<open>simp add: saveNames_def\<close>)

section \<open>The other tables\<close>

lemma ok_regions:
  "dom_ok s \<Longrightarrow> distinct (map region_key rs) \<Longrightarrow> \<forall>r \<in> set rs. region_ok (snd r) \<Longrightarrow> dom_ok (s\<lparr>dm_regions := rs\<rparr>)"
  by (simp add: dom_ok_def)

lemma ok_addRegion:
  assumes "dom_ok s" and "rt \<in> set regionTypes"
  shows "dom_ok (fst (addRegion f i rt cost s))"
proof -
  let ?m = "\<lambda>old new :: string \<times> regionRow. (fst old, (snd old)\<lparr>rg_Quantity := rg_Quantity (snd old) + 1,
    rg_Activated := rg_Activated (snd old) + 1, rg_ActivateCost := cost\<rparr>)"
  let ?r = "(i, \<lparr>rg_RegionType = rt, rg_Quantity = 1, rg_Activated = 1, rg_ActivateCost = cost\<rparr>)"
  have ok: "\<forall>r \<in> set (dm_regions s). region_ok (snd r)" and d: "distinct (map region_key (dm_regions s))"
    using assms(1) by (simp_all add: dom_ok_def)
  have "map region_key (upd_where (\<lambda>x. region_key x = region_key ?r) (\<lambda>x. ?m x ?r) (dm_regions s)) = map region_key (dm_regions s)"
    by (rule map_upd_where) simp
  then have "distinct (map region_key (upsert region_key ?m ?r (dm_regions s)))"
    using d by (auto simp: upsert_def)
  moreover have "\<forall>r \<in> set (upsert region_key ?m ?r (dm_regions s)). region_ok (snd r)"
    using ok assms(2) by (auto simp: upsert_def table_simps region_ok_def)
  ultimately show ?thesis
    using assms(1) by (simp add: addRegion_def ok_regions)
qed

lemma ok_damage: "dom_ok s \<Longrightarrow> dom_ok (regionDamage f pick i s)"
  by (auto simp: regionDamage_def Let_def dom_ok_def table_simps region_ok_def map_upd_where)

lemma ok_seed:
  "dom_ok s \<Longrightarrow> rt \<in> set regionTypes \<Longrightarrow> 0 \<le> n \<Longrightarrow> dom_ok (seed_region i rt n s)"
  unfolding seed_region_def by (rule ok_regions) (auto simp: dom_ok_def insert_ignore_def region_ok_def)

lemma ok_tables:
  assumes "dom_ok s"
  shows "distinct (map fst b) \<Longrightarrow> dom_ok (s\<lparr>dm_buildings := b\<rparr>)" "distinct (map mine_key m) \<Longrightarrow> dom_ok (s\<lparr>dm_mines := m\<rparr>)"
    "distinct (map fst q) \<Longrightarrow> dom_ok (s\<lparr>dm_minerals := q\<rparr>)" "distinct (map fst y) \<Longrightarrow> dom_ok (s\<lparr>dm_military := y\<rparr>)"
    "distinct (map fst l) \<Longrightarrow> dom_ok (s\<lparr>dm_limits := l\<rparr>)" "dom_ok (s\<lparr>dm_log := g\<rparr>)"
    "distinct (map fst t) \<Longrightarrow> tech_ok t \<Longrightarrow> dom_ok (s\<lparr>dm_tech := t\<rparr>)"
  using assms by (simp_all add: dom_ok_def)

lemma keys_of_ok:
  assumes "dom_ok s"
  shows "distinct (map fst (dm_buildings s))" "distinct (map mine_key (dm_mines s))" "distinct (map fst (dm_minerals s))"
    "distinct (map fst (dm_military s))" "distinct (map fst (dm_limits s))" "distinct (map fst (dm_tech s))" "tech_ok (dm_tech s)"
  using assms by (simp_all add: dom_ok_def)

lemma ok_simple:
  assumes "dom_ok s"
  shows "dom_ok (fst (saveBuildings f i b s))" "dom_ok (fst (setMineralLeft f i mt q s))" "dom_ok (fst (addMineralStore f i mt q s))"
    "dom_ok (fst (clearMineralStore f i mt s))" "dom_ok (fst (saveMilitary f i m s))" "dom_ok (fst (writePvPLog f now i l s))"
    "dom_ok (fst (clearPvPLog f i s))" "dom_ok (fst (incAttackLimit f a t day c s))"
proof -
  note k = keys_of_ok [OF assms] and t = ok_tables [OF assms]
  have up: "distinct (map fst (upsert fst mg (x :: 'k \<times> 'v) xs))"
    if "distinct (map fst xs)" and "\<And>y. fst (mg y x) = fst y \<or> fst (mg y x) = fst x" for mg x xs
  proof -
    have "map fst (upd_where (\<lambda>y. fst y = fst x) (\<lambda>y. mg y x) xs) = map fst xs"
      using that(2) by (intro map_upd_where) metis
    then show ?thesis using that(1) by (simp add: upsert_def)
  qed
  show "dom_ok (fst (saveBuildings f i b s))" "dom_ok (fst (setMineralLeft f i mt q s))" "dom_ok (fst (addMineralStore f i mt q s))"
    "dom_ok (fst (clearMineralStore f i mt s))" "dom_ok (fst (saveMilitary f i m s))" "dom_ok (fst (writePvPLog f now i l s))"
    "dom_ok (fst (clearPvPLog f i s))" "dom_ok (fst (incAttackLimit f a t day c s))"
    using assms
    by (auto simp: saveBuildings_def setMineralLeft_def addMineralStore_def clearMineralStore_def saveMilitary_def writePvPLog_def
        clearPvPLog_def incAttackLimit_def intro!: t distinct_upd_where up k)
qed

section \<open>Technologies\<close>

text \<open>A technology never becomes unknown, so what stood on it still does.\<close>

lemma tech_okD:
  "tech_ok ts \<Longrightarrow> ((i, t), v) \<in> set ts
    \<Longrightarrow> v = 1 \<and> (\<exists>d \<in> set techTree. td_id d = t \<and> (td_requires d = [] \<or> ((i, td_requires d), 1) \<in> set ts))"
  by (auto simp: tech_ok_def)

lemma tech_okI:
  assumes "\<And>i t v. ((i, t), v) \<in> set ts
    \<Longrightarrow> v = 1 \<and> (\<exists>d \<in> set techTree. td_id d = t \<and> (td_requires d = [] \<or> ((i, td_requires d), 1) \<in> set ts))"
  shows "tech_ok ts"
  using assms by (auto simp: tech_ok_def)

lemma tech_ok_mono:
  assumes "tech_ok ts" and "set ts \<subseteq> set us" and "\<And>k v. (k, v) \<in> set us \<Longrightarrow> (k, v) \<in> set ts \<or> k = (i, td_id d) \<and> v = 1"
    and "d \<in> set techTree" and "td_requires d = [] \<or> ((i, td_requires d), 1) \<in> set us"
  shows "tech_ok us"
proof (rule tech_okI)
  fix j t and v :: int
  assume "((j, t), v) \<in> set us"
  then consider "((j, t), v) \<in> set ts" | "j = i" "t = td_id d" "v = 1"
    using assms(3) by blast
  then show "v = 1 \<and> (\<exists>d \<in> set techTree. td_id d = t \<and> (td_requires d = [] \<or> ((j, td_requires d), 1) \<in> set us))"
  proof cases
    case 1
    then show ?thesis using tech_okD [OF assms(1)] assms(2) by blast
  next
    case 2
    then show ?thesis using assms(4,5) by blast
  qed
qed

lemma hasTech_row: "hasTech f i t s \<Longrightarrow> ((i, t), 1) \<in> set (dm_tech s)"
  by (auto simp: hasTech_def dest: map_of_SomeD)

lemma ok_setTech:
  assumes "dom_ok s" and "d \<in> set techTree" and "td_requires d = [] \<or> hasTech f' i (td_requires d) s"
  shows "dom_ok (fst (setTech f i (td_id d) s))"
proof -
  let ?us = "upsert fst (\<lambda>_ new. new) ((i, td_id d), 1) (dm_tech s)"
  note k = keys_of_ok(6,7) [OF assms(1)]
  have one: "v = 1" if "((j, t), v) \<in> set (dm_tech s)" for j t and v :: int
    using tech_okD [OF k(2) that] by simp
  have "set (dm_tech s) \<subseteq> set ?us"
    using one by (auto simp: upsert_def table_simps)
  moreover have "(key, v) \<in> set (dm_tech s) \<or> key = (i, td_id d) \<and> v = 1" if "(key, v) \<in> set ?us" for key v
    using that by (auto simp: upsert_def table_simps split: if_splits)
  ultimately have "tech_ok ?us"
    using assms(2,3) hasTech_row by (intro tech_ok_mono [OF k(2), of ?us i d]) blast+
  moreover have "distinct (map fst ?us)"
    using k(1) by (rule distinct_upsert) simp
  ultimately show ?thesis
    using assms(1) by (simp add: setTech_def ok_tables(7))
qed

text \<open>The tree has no hyperdrive, so nobody ever has it.\<close>

lemma no_hyperdrive: "dom_ok s \<Longrightarrow> \<not> hasTech f i ''travel_hyperdrive'' s"
proof
  assume "dom_ok s" and "hasTech f i ''travel_hyperdrive'' s"
  then obtain d where "d \<in> set techTree" "td_id d = ''travel_hyperdrive''"
    using tech_okD [OF keys_of_ok(7) hasTech_row] by blast
  then show False by (auto simp: techTree_def)
qed

section \<open>Founding and purging\<close>

lemma ok_NewCharacter: "dom_ok s \<Longrightarrow> dom_ok (fst (Dom_NewCharacter io i s))"
proof -
  assume s: "dom_ok s"
  have "dom_ok (s\<lparr>dm_empires := insert_ignore em_GlobalID (new_empire i) (dm_empires s)\<rparr>)" (is "dom_ok ?s1")
    using s by (intro ok_empires [OF s]) (auto simp: dom_ok_def insert_ignore_def names_ok_def new_empire_def)
  moreover have rt: "''agricultural'' \<in> set regionTypes" "''industrial'' \<in> set regionTypes"
    by (simp_all add: regionTypes_def)
  ultimately have 2: "dom_ok (seed_region i ''agricultural'' 2 ?s1)" (is "dom_ok ?s2")
    by (simp add: ok_seed)
  then have 3: "dom_ok (seed_region i ''industrial'' 1 ?s2)" (is "dom_ok ?s3")
    using rt by (simp add: ok_seed)
  then have "dom_ok (?s3\<lparr>dm_buildings := insert_ignore fst (i, zero_buildings) (dm_buildings ?s3)\<rparr>)"
    using keys_of_ok(1) [OF 3] by (intro ok_tables(1) distinct_insert_ignore) simp_all
  then show ?thesis
    using s \<open>dom_ok ?s1\<close> 2 3 by (simp add: Dom_NewCharacter_def Let_def)
qed

lemma tech_ok_purge: "tech_ok ts \<Longrightarrow> tech_ok (del_where (\<lambda>r. fst (fst r) = i) ts)"
  by (rule tech_okI) (use tech_okD in \<open>fastforce simp: table_simps\<close>)

lemma ok_purge: "dom_ok s \<Longrightarrow> dom_ok (purge_empire io i s)"
  by (simp add: dom_ok_def purge_empire_def eng_wf_def tech_ok_purge distinct_map_key) (auto simp: table_simps names_ok_def)

interpretation order: empire_laws dom_ok "\<lambda>_ :: 'c input. True"
  by unfold_locales (simp_all add: ok_saveNames ok_updateEmpire ok_addRegion ok_simple ok_setTech ok_purge ok_NewCharacter ok_damage
      ok_turns no_hyperdrive)

section \<open>The limits on attacks\<close>

definition caps_ok :: "limits \<Rightarrow> bool" where
  "caps_ok l \<longleftrightarrow> (\<forall>c \<in> {ground_count, missile_count, spy_count}. 0 \<le> limit_get c l \<and> limit_get c l \<le> limit_cap c)"

definition limits_kept :: "dom \<Rightarrow> bool" where
  "limits_kept s \<longleftrightarrow> dom_ok s \<and> (\<forall>r \<in> set (dm_limits s). caps_ok (snd r))"

lemma caps_ok_all: "caps_ok l \<longleftrightarrow> (\<forall>c. 0 \<le> limit_get c l \<and> limit_get c l \<le> limit_cap c)"
  unfolding caps_ok_def by (metis (full_types) insertCI limit_col.exhaust)

lemma limit_get_inc: "limit_get c' (limit_inc c l) = limit_get c' l + (if c' = c then 1 else 0)"
  by (cases c; cases c') (simp_all add: limit_get_def limit_inc_def)

lemma caps_inc: "caps_ok l \<Longrightarrow> limit_get c l < limit_cap c \<Longrightarrow> caps_ok (limit_inc c l)"
  by (simp add: caps_ok_all limit_get_inc)

lemma kept_same: "limits_kept s \<Longrightarrow> dom_ok t \<Longrightarrow> dm_limits t = dm_limits s \<Longrightarrow> limits_kept t"
  by (simp add: limits_kept_def)

lemma kept_inc:
  assumes "limits_kept s" and "\<not> i_io x ''attackLimitOK'' 0" and "limit_ok x a d day c s"
  shows "limits_kept (fst (incAttackLimit f (em_GlobalID a) (em_GlobalID d) day c s))"
proof -
  let ?k = "(em_GlobalID a, em_GlobalID d, day)"
  have ok: "dom_ok s" and caps: "\<forall>r \<in> set (dm_limits s). caps_ok (snd r)"
    using assms(1) by (simp_all add: limits_kept_def)
  have room: "limit_get c l < limit_cap c" if "(?k, l) \<in> set (dm_limits s)" for l
    using assms(2,3) that map_of_is_SomeI [OF keys_of_ok(5) [OF ok] that] by (simp add: limit_ok_def attackLimitOK_def)
  have "caps_ok (limit_inc c no_limits)"
    by (cases c) (simp_all add: caps_ok_def limit_get_def limit_inc_def limit_cap_def no_limits_def)
  then have "\<forall>r \<in> set (upsert fst (\<lambda>old _. (fst old, limit_inc c (snd old))) (?k, limit_inc c no_limits) (dm_limits s)). caps_ok (snd r)"
    using caps room by (auto simp: upsert_def table_simps intro!: caps_inc)
  then show ?thesis
    using ok_simple(8) [OF ok, of f "em_GlobalID a" "em_GlobalID d" day c] assms(1)
    by (simp add: incAttackLimit_def limits_kept_def)
qed

lemma limits_frame:
  "dm_limits (fst (saveNames f i w n s)) = dm_limits s" "dm_limits (fst (updateEmpire f e s)) = dm_limits s"
  "dm_limits (fst (addRegion f i rt cost s)) = dm_limits s" "dm_limits (fst (saveBuildings f i b s)) = dm_limits s"
  "dm_limits (fst (setMineralLeft f i mt q s)) = dm_limits s" "dm_limits (fst (addMineralStore f i mt q s)) = dm_limits s"
  "dm_limits (fst (clearMineralStore f i mt s)) = dm_limits s" "dm_limits (fst (setTech f i t s)) = dm_limits s"
  "dm_limits (fst (saveMilitary f i m s)) = dm_limits s" "dm_limits (fst (writePvPLog f now i l s)) = dm_limits s"
  "dm_limits (fst (clearPvPLog f i s)) = dm_limits s" "dm_limits (purge_empire io i s) = dm_limits s"
  "dm_limits (fst (ResetIfNewDay zone io now g s)) = dm_limits s"
  by (simp_all add: saveNames_def updateEmpire_def addRegion_def saveBuildings_def setMineralLeft_def addMineralStore_def
      clearMineralStore_def setTech_def saveMilitary_def writePvPLog_def clearPvPLog_def purge_empire_def ResetIfNewDay_def
      split: sum.split)

lemma new_frame: "dm_limits (fst (Dom_NewCharacter io i s)) = dm_limits s"
  by (simp add: Dom_NewCharacter_def seed_region_def Let_def)

interpretation caps: empire_laws limits_kept "\<lambda>x :: 'c input. \<not> i_io x ''attackLimitOK'' 0"
proof unfold_locales
  fix s and x :: "'c input"
  assume s: "limits_kept s"
  then have ok: "dom_ok s" by (simp add: limits_kept_def)
  note same = kept_same [OF s]
  show "\<not> i_io x ''attackLimitOK'' 0 \<Longrightarrow> limit_ok x att def day c s
      \<Longrightarrow> limits_kept (fst (incAttackLimit f (em_GlobalID att) (em_GlobalID def) day c s))" for att def day c f
    by (rule kept_inc [OF s])
  show "d \<in> set techTree \<Longrightarrow> td_requires d = [] \<or> hasTech f' i (td_requires d) s \<Longrightarrow> limits_kept (fst (setTech f i (td_id d) s))"
    for d f' i f
    by (rule same [OF ok_setTech [OF ok]]) (simp_all add: limits_frame)
qed (auto simp: limits_frame new_frame ok_saveNames ok_updateEmpire ok_addRegion ok_simple ok_purge ok_NewCharacter ok_damage
    ok_turns no_hyperdrive limits_kept_def)
end
