(* ===== verification/Dom_Effects.thy ===== *)
theory Dom_Effects
  imports Dom_Invariant
begin

text \<open>
  What the operations of Empire Ascendant do: the claims about a whole session, the bank, combat at this
  node and across nodes, and the production of a day; and what the model shows to go wrong.
\<close>

section \<open>Sessions\<close>

text \<open>C22: the tables stay in order through every session, whatever keys the player presses and whatever
  statements fail: unique rows and names, no region with more land active than owned, turn budgets within
  the day's allowance, and every researched technology in the tree with its prerequisite researched.\<close>

theorem dominion_keeps_order:
  assumes "dom_ok s"
  shows "dom_ok (fst (fst (Dom_Run zone X x0 (s, h) xs)))"
  using order.keeps_run [OF assms] by (simp add: list_all_iff)

section \<open>The bank\<close>

definition wealth :: "empireState \<Rightarrow> int" where
  "wealth e = em_Money e + em_MoneyBank e"

text \<open>The purse and the account of an empire, and of all its rows.\<close>

definition funds :: "int \<Rightarrow> empireState \<Rightarrow> bool" where
  "funds w e \<longleftrightarrow> 0 \<le> em_Money e \<and> 0 \<le> em_MoneyBank e \<and> wealth e = w"

definition banked :: "string \<Rightarrow> int \<Rightarrow> (string \<times> int) list \<Rightarrow> esess \<Rightarrow> bool" where
  "banked i w ws es \<longleftrightarrow> em_GlobalID (fst es) = i \<and> funds w (fst es)
     \<and> (\<forall>r \<in> set (dm_empires (snd es)). em_GlobalID r = i \<longrightarrow> funds w r)
     \<and> map (\<lambda>r. (em_GlobalID r, wealth r)) (dm_empires (snd es)) = ws"

lemma refresh_funds:
  "banked i w ws (e, s) \<Longrightarrow> banked i w ws (refresh f e s, s)"
  by (auto simp: refresh_def loadEmpire_def banked_def split: option.split dest: find_Some_D)

lemma bank_move_funds:
  "funds w e \<Longrightarrow> w < 2 ^ 63 \<Longrightarrow> bank_move b amt e = Some e1 \<Longrightarrow> funds w e1 \<and> em_GlobalID e1 = em_GlobalID e"
  by (auto simp: bank_move_def funds_def wealth_def wrap64_id in_int64_def split: if_splits)

lemma update_funds:
  assumes "banked i w ws (e, s)" and "funds w e1" and "em_GlobalID e1 = i"
  shows "banked i w ws (e1, fst (updateEmpire f e1 s))"
proof -
  have "map (\<lambda>r. (em_GlobalID r, wealth r)) (upd_where (\<lambda>r. em_GlobalID r = i) (kept_names e1) (dm_empires s))
      = map (\<lambda>r. (em_GlobalID r, wealth r)) (dm_empires s)"
    using assms by (auto simp: upd_where_def banked_def funds_def wealth_def kept_names_def)
  moreover have "funds w (kept_names e1 r)" for r
    using assms(2) by (simp add: funds_def wealth_def kept_names_def)
  ultimately show ?thesis
    using assms by (auto simp: updateEmpire_def banked_def table_simps)
qed

text \<open>C26: the bank neither makes nor loses credits. Whatever is typed and whatever statements fail, every
  empire keeps the sum of its credits on hand and banked, and neither gets negative.\<close>

theorem bank_conserves:
  assumes "funds w e" and "w < 2 ^ 63" and "\<forall>r \<in> set (dm_empires s). em_GlobalID r = em_GlobalID e \<longrightarrow> funds w r"
    and "bankMenu (e, s) xs = ((e1, s1), ys)"
  shows "funds w e1 \<and> map (\<lambda>r. (em_GlobalID r, wealth r)) (dm_empires s1) = map (\<lambda>r. (em_GlobalID r, wealth r)) (dm_empires s)"
proof -
  let ?Q = "banked (em_GlobalID e) w (map (\<lambda>r. (em_GlobalID r, wealth r)) (dm_empires s))"
  have "?Q es1" if "?Q es" "bank_step x es zs = (es1, us, go)" for x es zs es1 us go
  proof -
    obtain e0 s0 where es: "es = (e0, s0)" by (cases es)
    let ?e = "refresh (i_io x ''loadEmpire'' 0) e0 s0"
    have q: "?Q (?e, s0)"
      using that(1) es refresh_funds by blast
    have "?Q (e2, fst (updateEmpire f e2 s0))" if "bank_move b amt ?e = Some e2" for b amt e2 f
      using bank_move_funds [OF _ assms(2) that] q by (intro update_funds [OF q]) (auto simp: banked_def)
    then show ?thesis
      using that(2) q es by (auto simp: bank_step_def Let_def split: if_splits prod.splits option.splits)
  qed
  then have "?Q (fst (menu bank_step (e, s) xs))"
    by (rule menu_keeps [OF rests(5), where R = "\<lambda>_. True"]) (use assms(1,3) in \<open>auto simp: banked_def list_all_iff\<close>)
  then show ?thesis
    using assms(4) by (simp add: bankMenu_def banked_def)
qed

section \<open>Combat across nodes\<close>

definition credits_of :: "string \<Rightarrow> dom \<Rightarrow> int" where
  "credits_of i s = (case find (\<lambda>e. em_GlobalID e = i) (dm_empires s) of None \<Rightarrow> 0 | Some e \<Rightarrow> em_Money e)"

lemma find_empire_upd:
  "(\<And>r. em_GlobalID r = j \<Longrightarrow> em_GlobalID (f r) = j) \<Longrightarrow> find (\<lambda>e. em_GlobalID e = i) (upd_where (\<lambda>e. em_GlobalID e = j) f es)
     = (if i = j then map_option f (find (\<lambda>e. em_GlobalID e = i) es) else find (\<lambda>e. em_GlobalID e = i) es)"
  by (induction es) (auto simp: upd_where_def)

lemma credits_update:
  assumes "em_GlobalID e = i" and "i \<in> em_GlobalID ` set (dm_empires s)"
  shows "credits_of i (fst (updateEmpire False e s)) = em_Money e"
proof -
  obtain r where "find (\<lambda>e. em_GlobalID e = i) (dm_empires s) = Some r"
    using assms(2) by (cases "find (\<lambda>e. em_GlobalID e = i) (dm_empires s)") (auto simp: find_None_iff)
  then show ?thesis
    using assms(1) by (simp add: updateEmpire_def credits_of_def find_empire_upd kept_names_def)
qed

lemma credits_tables [simp]:
  "credits_of i (fst (saveMilitary f j m s)) = credits_of i s" "credits_of i (fst (writePvPLog f now j l s)) = credits_of i s"
  "credits_of i (fst (Emit f now ty b s)) = credits_of i s" "credits_of i (regionDamage f p j s) = credits_of i s"
  by (simp_all add: credits_of_def saveMilitary_def writePvPLog_def Emit_def regionDamage_def Let_def)

lemma pvpResolved_roundtrip: "in_int64 (rp_LootAmount p) \<Longrightarrow> dec_pvpResolved (enc_pvpResolved p) = (p, True)"
  by (simp add: dec_pvpResolved_def enc_pvpResolved_def json_simps key_match_def ascii_up_def Let_def)

lemma remote_fight_loot:
  assumes "remote_fight f r a p (d, dm, s) = Some ((d1, dm1, s1), msg)" and "0 \<le> em_Money d" "in_int64 (em_Money d)"
  shows "em_Money d1 \<le> em_Money d" "0 \<le> em_Money d1" "em_GlobalID d1 = em_GlobalID d" "dm_empires s1 = dm_empires s" "g_events s1 = g_events s"
proof -
  have q: "go_quo (em_Money d) 4 = em_Money d div 4" "0 \<le> em_Money d div 4" "em_Money d div 4 \<le> em_Money d"
    using assms(2) by (simp_all add: go_quo_nonneg)
  moreover have "wrap64 (em_Money d - em_Money d div 4) = em_Money d - em_Money d div 4"
    using q assms(2,3) by (intro wrap64_id) (simp add: in_int64_def)
  moreover have "dm_empires (regionDamage f k i s) = dm_empires s" "g_events (regionDamage f k i s) = g_events s" for k i
    by (simp_all add: regionDamage_def Let_def)
  ultimately show "em_Money d1 \<le> em_Money d" "0 \<le> em_Money d1" "em_GlobalID d1 = em_GlobalID d" "dm_empires s1 = dm_empires s"
    "g_events s1 = g_events s"
    using assms(1,2) by (auto simp: remote_fight_def groundAssault_def ballisticStrike_def Let_def split: if_splits prod.splits)
qed

lemma Emit_sent:
  assumes "Emit f now ty b s = (s1, None)"
  shows "\<exists>ev. g_events s1 = g_events s @ [ev] \<and> v_Type ev = ty \<and> v_Payload ev = Some b"
proof -
  have "g_events s1 = g_events s @ [\<lparr>v_EventID = g_nodeID s @ '':'' @ show_int (g_seq s + 1), v_SourceNode = g_nodeID s,
      v_Seq = g_seq s + 1, v_Type = ty, v_TS = now, v_Payload = Some b\<rparr>]"
    using assms by (auto simp: Emit_def Let_def split: if_splits)
  then show ?thesis by simp
qed

text \<open>What the handler makes of a result: exactly its loot, for a player of its node who has an empire.\<close>

lemma handler_credits:
  assumes "v_Payload ev = Some (enc_pvpResolved p)" and "0 \<le> rp_LootAmount p" "in_int64 (rp_LootAmount p)"
    and "has_prefix (rp_AttackerGlobalID p) (node @ '':'')" "rp_AttackerGlobalID p \<in> em_GlobalID ` set (dm_empires t)"
  shows "credits_of (rp_AttackerGlobalID p) (fst (Dom_on_pvp_resolved node now no_io ev t))
    = credits_of (rp_AttackerGlobalID p) t + rp_LootAmount p"
proof -
  let ?a = "rp_AttackerGlobalID p"
  obtain r where "find (\<lambda>e. em_GlobalID e = ?a) (dm_empires t) = Some r"
    using assms(5) by (cases "find (\<lambda>e. em_GlobalID e = ?a) (dm_empires t)") (auto simp: find_None_iff)
  then have "credits_of ?a (addMoney False ?a n t) = credits_of ?a t + n" for n
    by (simp add: addMoney_def credits_of_def find_empire_upd)
  then show ?thesis
    using assms(2,4) by (simp add: Dom_on_pvp_resolved_def assms(1) pvpResolved_roundtrip [OF assms(3)] Let_def)
qed

text \<open>C24: loot crosses the network exactly. However an attack from another node is resolved, the result event
  that the defender's node emits credits the attacker, when it is taken in at the attacker's node, with as
  many credits as the defender lost: nothing is made and nothing is lost.\<close>

theorem cross_node_loot_exact:
  assumes "Dom_IncomingPvP now r no_io req a v payload s = (s1, None)"
    and "\<forall>e \<in> set (dm_empires s). 0 \<le> em_Money e"
    and "has_prefix a (node @ '':'')" and "a \<in> em_GlobalID ` set (dm_empires t)"
  shows "\<exists>ev. g_events s1 = g_events s @ [ev] \<and> v_Type ev = ''pvp.resolved''
    \<and> credits_of a (fst (Dom_on_pvp_resolved node now' no_io ev t)) = credits_of a t + (credits_of v s - credits_of v s1)"
proof -
  obtain p where p: "payload = Some p"
    using assms(1) by (cases payload) (simp_all add: Dom_IncomingPvP_def)
  obtain atk ok where d: "dec_crossNodePayload p = (atk, ok)" by (cases "dec_crossNodePayload p")
  obtain e q where l: "loadEmpire False v s = (e, q)" by (cases "loadEmpire False v s")
  have result: ?thesis
    if "Emit False now ''pvp.resolved'' (enc_pvpResolved m) s2 = (s1, None)" "rp_AttackerGlobalID m = a" "g_events s2 = g_events s"
      "rp_LootAmount m = credits_of v s - credits_of v s2" "0 \<le> rp_LootAmount m" "in_int64 (rp_LootAmount m)" for m s2
  proof -
    note sent = Emit_sent [OF that(1)]
    obtain ev where "g_events s1 = g_events s2 @ [ev]" "v_Type ev = ''pvp.resolved''" and ev: "v_Payload ev = Some (enc_pvpResolved m)"
      using sent by blast
    moreover have "credits_of v s1 = credits_of v s2"
      using credits_tables(3) [of v False now "''pvp.resolved''" "enc_pvpResolved m" s2] that(1) by simp
    ultimately show ?thesis
      using handler_credits [OF ev that(5,6), of node t now'] assms(3,4) that(2-4) by auto
  qed
  show ?thesis
  proof (cases q)
    case (Some err)
    then show ?thesis
      using assms(1) p d l by (cases ok)
        (auto simp: Dom_IncomingPvP_def Let_def in_int64_def intro!: result [of _ s])
  next
    case None
    then have e: "find (\<lambda>e. em_GlobalID e = v) (dm_empires s) = Some e" "in_int64 (em_Money e)"
      using l by (auto simp: loadEmpire_def split: option.splits if_splits)
    then have e': "0 \<le> em_Money e" "e \<in> set (dm_empires s)" "em_GlobalID e = v" "credits_of v s = em_Money e"
      using assms(2) find_Some_D [OF e(1)] by (auto simp: credits_of_def)
    obtain e1 m1 s2 msg where f: "remote_fight (no_io 3) r a atk (e, fst (loadMilitary (no_io 2) v s), s) = Some ((e1, m1, s2), msg)"
      using assms(1) p d l None by (cases ok) (auto simp: Dom_IncomingPvP_def Let_def split: option.splits)
    note fl = remote_fight_loot [OF f e'(1) e(2)]
    have "credits_of v (fst (updateEmpire False e1 s2)) = em_Money e1"
      using fl(3,4) e'(2,3) by (intro credits_update) (auto intro: rev_image_eqI)
    moreover have "g_events (fst (writePvPLog g now v lg (fst (saveMilitary g' v m1 (fst (updateEmpire False e1 s2)))))) = g_events s" for g g' lg
      using fl(5) by (simp add: updateEmpire_def saveMilitary_def writePvPLog_def)
    moreover have "wrap64 (em_Money e - em_Money e1) = em_Money e - em_Money e1" "in_int64 (em_Money e - em_Money e1)"
      using fl(1,2) e(2) by (auto intro!: wrap64_id simp: in_int64_def)
    moreover from calculation(3) obtain x y w n lg where
      "Emit False now ''pvp.resolved'' (enc_pvpResolved \<lparr>rp_RequestID = req, rp_AttackerGlobalID = a, rp_VictimGlobalID = v,
         rp_Outcome = x, rp_ResultText = y, rp_VictimName = n, rp_VictimWorld = w, rp_LootAmount = em_Money e - em_Money e1\<rparr>)
       (fst (writePvPLog False now v lg (fst (saveMilitary False v m1 (fst (updateEmpire False e1 s2)))))) = (s1, None)"
      using assms(1) p d l None f fl(1) by (cases ok) (auto simp: Dom_IncomingPvP_def Let_def)
    ultimately show ?thesis
      using fl(1) e'(4) by (elim result) simp_all
  qed
qed
end
