(* ===== verification/Dom_Growth.thy ===== *)
theory Dom_Growth
  imports Dom_Effects
begin

text \<open>
  Bounds of Empire Ascendant in float64 arithmetic: what an assault takes from both sides and what the
  production of a day does to an empire.
\<close>

section \<open>Products of floats\<close>

text \<open>A product of an integer and a small rate, both rounded, and rounded again.\<close>

lemma fl_product:
  assumes "0 \<le> n" and "0 \<le> rate"
  shows "0 \<le> fl (fl (of_int n) * fl rate)" "fl (fl (of_int n) * fl rate) \<le> of_int n * rate * (1 + 1 / 2 ^ 50)"
    "of_int n * rate * (1 - 1 / 2 ^ 50) \<le> fl (fl (of_int n) * fl rate)"
proof -
  let ?x = "of_int n :: rat" and ?u = "1 / 2 ^ 53 :: rat"
  have x: "0 \<le> ?x" using assms(1) by simp
  note a = fl_between [OF x] and b = fl_between [OF assms(2)]
  have 0: "0 \<le> fl ?x" "0 \<le> fl rate"
    using fl_nonneg x assms(2) by blast+
  then have p: "0 \<le> fl ?x * fl rate" by simp
  then show "0 \<le> fl (fl ?x * fl rate)" by (rule fl_nonneg)
  have up: "fl ?x * fl rate \<le> (?x * (1 + ?u)) * (rate * (1 + ?u))"
    using a(2) b(2) 0 x by (intro mult_mono) simp_all
  have "fl (fl ?x * fl rate) \<le> fl ?x * fl rate * (1 + ?u)"
    using fl_between(2) [OF p] .
  also have "\<dots> \<le> (?x * (1 + ?u)) * (rate * (1 + ?u)) * (1 + ?u)"
    using up by (intro mult_right_mono) simp_all
  also have "\<dots> = ?x * rate * ((1 + ?u) * (1 + ?u) * (1 + ?u))"
    by simp
  also have "\<dots> \<le> ?x * rate * (1 + 1 / 2 ^ 50)"
    using x assms(2) by (intro mult_left_mono) simp_all
  finally show "fl (fl ?x * fl rate) \<le> ?x * rate * (1 + 1 / 2 ^ 50)" .
  have lo: "(?x * (1 - ?u)) * (rate * (1 - ?u)) \<le> fl ?x * fl rate"
    using a(1) b(1) 0 x assms(2) by (intro mult_mono) simp_all
  have "?x * rate * (1 - 1 / 2 ^ 50) \<le> ?x * rate * ((1 - ?u) * (1 - ?u) * (1 - ?u))"
    using x assms(2) by (intro mult_left_mono) simp_all
  also have "\<dots> = (?x * (1 - ?u)) * (rate * (1 - ?u)) * (1 - ?u)"
    by simp
  also have "\<dots> \<le> fl ?x * fl rate * (1 - ?u)"
    using lo by (intro mult_right_mono) simp_all
  also have "\<dots> \<le> fl (fl ?x * fl rate)"
    using fl_between(1) [OF p] .
  finally show "?x * rate * (1 - 1 / 2 ^ 50) \<le> fl (fl ?x * fl rate)" .
qed

section \<open>Casualties\<close>

lemma shrink_bounds:
  assumes "0 \<le> n" "n < 2 ^ 62" and "0 \<le> rate" "rate \<le> 1 / 2"
  shows "0 \<le> shrink rate n" "shrink rate n \<le> n" "0 < n \<Longrightarrow> shrink rate n < n"
proof -
  let ?y = "fl (fl (of_int n) * fl rate)"
  have "of_int n * rate \<le> of_int n * (1 / 2)"
    using assms by (intro mult_left_mono) simp_all
  then have "of_int n * rate * (1 + 1 / 2 ^ 50) \<le> of_int n * (1 / 2) * (1 + 1 / 2 ^ 50)"
    by (rule mult_right_mono) simp
  also have "\<dots> \<le> of_int n"
    using assms(1) by simp
  finally have y: "0 \<le> ?y" "?y \<le> of_int n"
    using fl_product [OF assms(1,3)] by linarith+
  then have f: "0 \<le> \<lfloor>?y\<rfloor>" "\<lfloor>?y\<rfloor> \<le> n"
    by (simp_all add: floor_le_iff)
  moreover have "in_int64 z" if "0 \<le> z" "z \<le> n" for z
    using that assms(2) by (simp add: in_int64_def)
  ultimately have "in_int64 \<lfloor>?y\<rfloor>"
    by blast
  then obtain l where l: "go_trunc ?y = l" "0 \<le> l" "l \<le> n"
    using y(1) f by (auto simp: go_trunc_def float_to_int_def)
  have w: "wrap64 (n - l) = n - l" if "0 \<le> l" "l \<le> n" for l
    using that assms(2) by (intro wrap64_id) (simp add: in_int64_def)
  show "0 \<le> shrink rate n" "shrink rate n \<le> n" "0 < n \<Longrightarrow> shrink rate n < n"
    using l(2,3) assms(1) by (auto simp: shrink_def l(1) w Let_def)
qed

text \<open>An army that fields no more of any unit than another, and the same of what does not fight.\<close>

definition smaller :: "militaryRow \<Rightarrow> militaryRow \<Rightarrow> bool" where
  "smaller m1 m \<longleftrightarrow> ml_SoldiersNormal m1 \<le> ml_SoldiersNormal m \<and> ml_SoldiersSuper m1 \<le> ml_SoldiersSuper m
     \<and> ml_SoldiersMega m1 \<le> ml_SoldiersMega m \<and> ml_Tanks m1 \<le> ml_Tanks m \<and> ml_Hovercrafts m1 \<le> ml_Hovercrafts m
     \<and> m1 = m\<lparr>ml_SoldiersNormal := ml_SoldiersNormal m1, ml_SoldiersSuper := ml_SoldiersSuper m1,
          ml_SoldiersMega := ml_SoldiersMega m1, ml_Tanks := ml_Tanks m1, ml_Hovercrafts := ml_Hovercrafts m1\<rparr>"

definition army_ok :: "militaryRow \<Rightarrow> bool" where
  "army_ok m \<longleftrightarrow> (\<forall>n \<in> {ml_SoldiersNormal m, ml_SoldiersSuper m, ml_SoldiersMega m, ml_Tanks m, ml_Hovercrafts m}.
     0 \<le> n \<and> n < 2 ^ 62)"

lemma smaller_refl: "smaller m m"
  by (simp add: smaller_def)

lemma smaller_casualties: "army_ok m \<Longrightarrow> 0 \<le> rate \<Longrightarrow> rate \<le> 1 / 2 \<Longrightarrow> smaller (applyCasualties rate m) m"
  by (simp add: smaller_def applyCasualties_def army_ok_def shrink_bounds)

lemma smaller_wiped: "army_ok m \<Longrightarrow> smaller (wipeForces m) m"
  by (simp add: smaller_def wipeForces_def army_ok_def)

text \<open>The fight: a quarter of the purse changes hands or nothing, and both armies shrink.\<close>

lemma groundAssault_effect:
  assumes "groundAssault a d am dm r k = ((a1, d1), (am1, dm1), msg)" and "army_ok am" "army_ok dm"
    and "0 \<le> em_Money a" "0 \<le> em_Money d" "em_Money a + em_Money d < 2 ^ 63"
  shows "smaller am1 am" "smaller dm1 dm"
    "\<exists>loot \<in> {0, em_Money d div 4}. a1 = a\<lparr>em_Money := em_Money a + loot\<rparr> \<and> d1 = d\<lparr>em_Money := em_Money d - loot\<rparr>"
proof -
  have q: "go_quo (em_Money d) 4 = em_Money d div 4" "0 \<le> em_Money d div 4" "em_Money d div 4 \<le> em_Money d"
    using assms(5) by (simp_all add: go_quo_nonneg)
  have w: "wrap64 (em_Money a + em_Money d div 4) = em_Money a + em_Money d div 4"
    "wrap64 (em_Money d - em_Money d div 4) = em_Money d - em_Money d div 4"
    using q assms(4-6) by (auto intro!: wrap64_id simp: in_int64_def)
  have same: "e\<lparr>em_Money := em_Money e\<rparr> = e" for e :: empireState
    by simp
  show "smaller am1 am" "smaller dm1 dm"
    using assms(1-3) by (auto simp: groundAssault_def Let_def smaller_refl smaller_casualties smaller_wiped split: if_splits)
  show "\<exists>loot \<in> {0, em_Money d div 4}. a1 = a\<lparr>em_Money := em_Money a + loot\<rparr> \<and> d1 = d\<lparr>em_Money := em_Money d - loot\<rparr>"
    using assms(1) w same by (auto simp: groundAssault_def Let_def q split: if_splits)
qed

section \<open>Assaults at this node\<close>

definition army :: "string \<Rightarrow> dom \<Rightarrow> militaryRow" where
  "army i s = fst (loadMilitary False i s)"

lemma army_save: "army i (fst (saveMilitary False j m s)) = (if i = j then m else army i s)"
proof -
  have "map_of (upd_where (\<lambda>x. fst x = j) (\<lambda>_. (j, m)) xs) i = (if i = j \<and> j \<in> fst ` set xs then Some m else map_of xs i)"
    for xs :: "(string \<times> militaryRow) list"
    by (induction xs) (auto simp: upd_where_def image_iff, fastforce)
  note upd = this
  show ?thesis
  proof (cases "j \<in> fst ` set (dm_military s)")
    case True
    then show ?thesis by (simp add: army_def loadMilitary_def saveMilitary_def upsert_def upd)
  next
    case False
    then have "map_of (dm_military s) j = None" by (simp add: map_of_eq_None_iff)
    then show ?thesis
      using False by (simp add: army_def loadMilitary_def saveMilitary_def upsert_def map_add_def split: option.split)
  qed
qed

lemma army_tables [simp]:
  "army i (fst (updateEmpire f e s)) = army i s" "army i (fst (writePvPLog f now j l s)) = army i s"
  "army i (spend x g a d day c s) = army i s"
  by (simp_all add: army_def loadMilitary_def updateEmpire_def writePvPLog_def spend_def Let_def incAttackLimit_def SpendActions_def
      SpendAttack_def)

lemma credits_spend [simp]: "credits_of i (spend x g a d day c s) = credits_of i s"
  by (simp add: credits_of_def spend_def Let_def incAttackLimit_def SpendActions_def SpendAttack_def)

lemma empires_spend [simp]: "dm_empires (spend x g a d day c s) = dm_empires s"
  by (simp add: spend_def Let_def incAttackLimit_def SpendActions_def SpendAttack_def)

lemma credits_other: "em_GlobalID e \<noteq> i \<Longrightarrow> credits_of i (fst (updateEmpire f e s)) = credits_of i s"
  by (simp add: updateEmpire_def credits_of_def find_empire_upd kept_names_def)

lemma update_ids: "em_GlobalID ` set (dm_empires (fst (updateEmpire f e s))) = em_GlobalID ` set (dm_empires s)"
proof -
  have "map em_GlobalID (dm_empires (fst (updateEmpire f e s))) = map em_GlobalID (dm_empires s)"
    by (simp add: updateEmpire_def map_upd_where kept_names_def)
  then show ?thesis by (metis set_map)
qed

lemma credits_row: "dom_ok s \<Longrightarrow> e \<in> set (dm_empires s) \<Longrightarrow> credits_of (em_GlobalID e) s = em_Money e"
  using find_key_Some [of em_GlobalID "dm_empires s" e] by (simp add: credits_of_def dom_ok_def)

text \<open>C25: an assault is a transfer. When no statement fails, the attacker's purse gains what the defender's
  loses, a quarter of it or nothing; no other empire's credits change, and no army gains a unit.\<close>

theorem assault_transfers:
  assumes "dom_ok s" and "a \<in> set (dm_empires s)" "d \<in> set (dm_empires s)" "em_GlobalID a \<noteq> em_GlobalID d"
    and "0 \<le> em_Money a" "0 \<le> em_Money d" "em_Money a + em_Money d < 2 ^ 63"
    and "army_ok (army (em_GlobalID a) s)" "army_ok (army (em_GlobalID d) s)" and "i_io x = (\<lambda>_. no_io)"
    and "doGroundAssault x gid day (army (em_GlobalID a) s) d (army (em_GlobalID d) s) (a, s) = ((a1, s1), msg)"
  shows "(\<exists>loot \<in> {0, em_Money d div 4}. \<forall>i. credits_of i s1 = credits_of i s
      + (if i = em_GlobalID a then loot else if i = em_GlobalID d then - loot else 0))
    \<and> (\<forall>i. smaller (army i s1) (army i s))"
proof (cases "s1 = s")
  case True
  then show ?thesis by (simp add: smaller_refl)
next
  case False
  let ?am = "army (em_GlobalID a) s" and ?dm = "army (em_GlobalID d) s"
  obtain a2 d2 am2 dm2 t where g: "groundAssault a d ?am ?dm (i_rng x) 0 = ((a2, d2), (am2, dm2), t)"
    by (metis surj_pair)
  note e = groundAssault_effect [OF g assms(8,9,5-7)] and ids = groundAssault_ids [OF g]
  from e(3) obtain loot where l: "loot \<in> {0, em_Money d div 4}" "em_Money a2 = em_Money a + loot" "em_Money d2 = em_Money d - loot"
    by auto
  obtain u v lg where s1: "s1 = fst (writePvPLog False u (em_GlobalID d) lg (save_military x a2 am2 d2 dm2
      (fst (updateEmpire False d2 (fst (updateEmpire False a2 (spend x gid a2 d2 day ground_count s)))))))"
    using assms(10,11) False g ids by (auto simp: doGroundAssault_def report_def Let_def split: if_splits)
  have "credits_of i s1 = credits_of i s + (if i = em_GlobalID a then loot else if i = em_GlobalID d then - loot else 0)" for i
  proof -
    have in_s: "em_GlobalID a \<in> em_GlobalID ` set (dm_empires s)" "em_GlobalID d \<in> em_GlobalID ` set (dm_empires s)"
      using assms(2,3) by simp_all
    consider "i = em_GlobalID a" | "i = em_GlobalID d" | "i \<noteq> em_GlobalID a" "i \<noteq> em_GlobalID d" by blast
    then show ?thesis
    proof cases
      case 1
      then show ?thesis
        using s1 ids assms(4) in_s credits_row [OF assms(1,2)] l by (simp add: save_military_def credits_other credits_update)
    next
      case 2
      then show ?thesis
        using s1 ids assms(4) in_s credits_row [OF assms(1,3)] l by (simp add: save_military_def credits_update update_ids)
    next
      case 3
      then show ?thesis
        using s1 ids by (simp add: save_military_def credits_other)
    qed
  qed
  moreover have "smaller (army i s1) (army i s)" for i
    using s1 ids e(1,2) assms(10) by (simp add: save_military_def army_save smaller_refl)
  ultimately show ?thesis
    using l(1) by blast
qed

section \<open>The production of a day\<close>

lemma share_bounds:
  assumes "0 \<le> p" "p \<le> 2 ^ 52" and "0 < q" "10 \<le> q"
  shows "0 \<le> share (1 / of_int q) p" "q * share (1 / of_int q) p < p + q"
proof -
  let ?r = "1 / of_int q :: rat" and ?y = "fl (fl (of_int p) * fl (1 / of_int q))"
  have r: "0 \<le> ?r" "?r \<le> 1 / 10"
    using assms(3,4) by (simp_all add: field_simps)
  have pr: "of_int p * ?r \<le> 2 ^ 52 * (1 / 10)"
    using assms(1,2) r by (intro mult_mono) simp_all
  have y: "0 \<le> ?y" "?y \<le> of_int p * ?r + 2 / 5"
    using fl_product(1,2) [OF assms(1) r(1)] pr by (simp_all add: algebra_simps)
  note a = round_away_nonneg [OF y(1)]
  have lt: "of_int (round_away ?y) < of_int p * ?r + 1"
    using a(1) y(2) by linarith
  moreover have "(2 :: rat) ^ 52 * (1 / 10) + 1 < 2 ^ 53"
    by simp
  ultimately have "of_int (round_away ?y) < (2 ^ 53 :: rat)"
    using pr by linarith
  then have "of_int (round_away ?y) < (of_int (2 ^ 53) :: rat)"
    by simp
  then have "round_away ?y < 2 ^ 53"
    by (simp only: of_int_less_iff)
  then have "in_int64 (round_away ?y)"
    using a(3) by (simp add: in_int64_def)
  then have s: "share ?r p = round_away ?y"
    by (simp add: share_def float_to_int_def)
  show "0 \<le> share ?r p"
    using a(3) s by simp
  have "of_int q * of_int (share ?r p) < of_int q * (of_int p * ?r + 1)"
    using lt assms(3) s by (simp add: mult_strict_left_mono)
  also have "\<dots> = of_int (p + q)"
    using assms(3) by (simp add: algebra_simps)
  finally have "of_int (q * share ?r p) < (of_int (p + q) :: rat)"
    by simp
  then show "q * share ?r p < p + q"
    by (simp only: of_int_less_iff)
qed

text \<open>The stock that the laws of production speak about.\<close>

definition stocked :: "empireState \<Rightarrow> bool" where
  "stocked e \<longleftrightarrow> (\<forall>n \<in> {em_Population e, em_FoodStorage e, em_Energy e}. 0 \<le> n \<and> n \<le> 2 ^ 52)"

lemma feed_bounds:
  assumes "stocked e" and "0 \<le> fp" "fp \<le> 2 ^ 60"
  shows "0 \<le> em_FoodStorage (feed_empire fp e)" "1 \<le> em_Population (feed_empire fp e)"
    "100 * \<bar>em_Population (feed_empire fp e) - em_Population e\<bar> \<le> em_Population e + 100"
    "(feed_empire fp e)\<lparr>em_FoodStorage := em_FoodStorage e, em_Population := em_Population e\<rparr> = e"
proof -
  let ?p = "em_Population e"
  have p: "0 \<le> ?p" "?p \<le> 2 ^ 52" and f: "0 \<le> em_FoodStorage e" "em_FoodStorage e \<le> 2 ^ 52"
    using assms(1) by (simp_all add: stocked_def)
  have g: "0 \<le> share (1 / 100) ?p" "100 * share (1 / 100) ?p < ?p + 100"
    using share_bounds [OF p, of 100] by simp_all
  have l: "0 \<le> share (5 / 1000) ?p" "200 * share (5 / 1000) ?p < ?p + 200"
    using share_bounds [OF p, of 200] by simp_all
  have w: "wrap64 (?p + n) = ?p + n" "wrap64 (?p - n) = ?p - n" if "0 \<le> n" "n \<le> 2 ^ 53" for n
    using that p by (auto intro!: wrap64_id simp: in_int64_def)
  define grow where "grow = (if share (1 / 100) ?p < 1 then 1 else share (1 / 100) ?p)"
  define lose where "lose = (if share (5 / 1000) ?p < 1 then 1 else share (5 / 1000) ?p)"
  have b: "1 \<le> grow" "100 * grow \<le> ?p + 100" "1 \<le> lose" "100 * lose \<le> ?p + 100"
    using g l p(1) by (auto simp: grow_def lose_def)
  then have wg: "wrap64 (?p + grow) = ?p + grow" and wl: "wrap64 (?p - lose) = ?p - lose"
    using p(2) by (auto intro!: w)
  show "0 \<le> em_FoodStorage (feed_empire fp e)"
    by (simp add: feed_empire_def Let_def)
  have "em_Population (feed_empire fp e) = ?p + grow \<or> em_Population (feed_empire fp e) = (if ?p - lose < 1 then 1 else ?p - lose)"
    unfolding feed_empire_def Let_def grow_def [symmetric] lose_def [symmetric] wg wl by simp
  then show "1 \<le> em_Population (feed_empire fp e)" "100 * \<bar>em_Population (feed_empire fp e) - ?p\<bar> \<le> ?p + 100"
    using b p(1) by (auto split: if_splits)
  show "(feed_empire fp e)\<lparr>em_FoodStorage := em_FoodStorage e, em_Population := ?p\<rparr> = e"
    by (simp add: feed_empire_def Let_def)
qed

lemma drain_bounds:
  assumes "drain_shield io i (e, s) = (e1, s1)" and "0 \<le> em_Energy e" "em_Energy e < 2 ^ 63"
  shows "0 \<le> em_Energy e1" "e1\<lparr>em_Energy := em_Energy e\<rparr> = e" "dm_empires s1 = dm_empires s"
proof -
  have "wrap64 (em_Energy e - 1000) = em_Energy e - 1000"
    using assms(2,3) by (intro wrap64_id) (simp add: in_int64_def)
  then show "0 \<le> em_Energy e1" "e1\<lparr>em_Energy := em_Energy e\<rparr> = e" "dm_empires s1 = dm_empires s"
    using assms(1,2) by (auto simp: drain_shield_def saveMilitary_def Let_def split: if_splits)
qed

lemma mineral_frame:
  "setMineralLeft f i mt q s = (s1, r) \<Longrightarrow> dm_empires s1 = dm_empires s"
  "addMineralStore f i mt q s = (s1, r) \<Longrightarrow> dm_empires s1 = dm_empires s"
  by (auto simp: setMineralLeft_def addMineralStore_def split: if_splits)

lemma mines_empires: "dm_empires (fst (run_mines io k i ms s)) = dm_empires s"
proof (induction ms arbitrary: k s)
  case (Cons m ms)
  show ?case
    by (auto simp: Let_def Cons.IH dest!: mineral_frame split: prod.split option.split)
qed simp

text \<open>What the regions and the guild bring in on a day stays within 64 bits.\<close>

definition modest :: "dom \<Rightarrow> bool" where
  "modest s \<longleftrightarrow> (\<forall>r \<in> set (dm_regions s). rg_Activated (snd r) \<le> 2 ^ 40)
     \<and> (\<forall>b \<in> set (dm_buildings s). 0 \<le> bd_FishersAssigned (snd b) \<and> bd_FishersAssigned (snd b) \<le> 2 ^ 40)"

lemma activated_bounds:
  assumes "dom_ok s" "modest s" and "loadRegions f i s = Inr rs"
  shows "0 \<le> activated rs t" "activated rs t \<le> 2 ^ 40"
proof -
  have "0 \<le> rg_Activated r \<and> rg_Activated r \<le> 2 ^ 40" if "r \<in> set rs" for r
    using that assms by (auto simp: loadRegions_def modest_def dom_ok_def region_ok_def split: if_splits)
  then show "0 \<le> activated rs t" "activated rs t \<le> 2 ^ 40"
    by (auto simp: activated_def region_def split: option.split dest!: find_Some_D)
qed

lemma income_bounds:
  assumes "0 \<le> a" "a \<le> 2 ^ 40" "0 \<le> b" "b \<le> 2 ^ 40" "0 \<le> c" "c \<le> (2 ^ 40 :: int)"
  shows "0 \<le> wrap64 (a * 500 + b * 300 + c * 50)" "wrap64 (a * 500 + b * 300 + c * 50) \<le> 2 ^ 60"
    "c * energyRate io i s \<le> 2 ^ 60" "0 \<le> c * energyRate io i s"
proof -
  have "wrap64 (a * 500 + b * 300 + c * 50) = a * 500 + b * 300 + c * 50"
    using assms by (intro wrap64_id) (simp add: in_int64_def)
  then show "0 \<le> wrap64 (a * 500 + b * 300 + c * 50)" "wrap64 (a * 500 + b * 300 + c * 50) \<le> 2 ^ 60"
    using assms by simp_all
  show "c * energyRate io i s \<le> 2 ^ 60" "0 \<le> c * energyRate io i s"
    using assms by (simp_all add: energyRate_def)
qed

text \<open>C27: the production of a day leaves an empire alive. Stored food and energy never get negative, at least
  one citizen is left, the population changes by at most a hundredth and one, and neither credits nor names
  change, whichever of the statements the code does not check fail.\<close>

theorem production_bounds:
  assumes "dom_ok s" "modest s" and "find (\<lambda>r. em_GlobalID r = i) (dm_empires s) = Some e" and "stocked e"
    and "runProductionTick ord io i s = (s1, None)"
  shows "\<exists>e1. find (\<lambda>r. em_GlobalID r = i) (dm_empires s1) = Some e1
    \<and> 0 \<le> em_FoodStorage e1 \<and> 0 \<le> em_Energy e1 \<and> 1 \<le> em_Population e1
    \<and> 100 * \<bar>em_Population e1 - em_Population e\<bar> \<le> em_Population e + 100
    \<and> em_Money e1 = em_Money e \<and> em_MoneyBank e1 = em_MoneyBank e
    \<and> em_WorldName e1 = em_WorldName e \<and> em_EmpireName e1 = em_EmpireName e"
proof -
  obtain e0 q where l: "loadEmpire (io 0) i s = (e0, q)" by (cases "loadEmpire (io 0) i s")
  then have e0: "q = None" "e0 = e" "em_GlobalID e = i"
    using assms(3,5) find_Some_D [OF assms(3)] by (auto simp: runProductionTick_def loadEmpire_def split: if_splits)
  obtain rs where rs: "loadRegions (io 1) i s = Inr rs"
    using assms(5) l e0 by (cases "loadRegions (io 1) i s") (auto simp: runProductionTick_def)
  obtain b where b: "loadBuildings (io 2) i s = (b, None)"
    using assms(5) l e0 rs by (cases "loadBuildings (io 2) i s"; cases "snd (loadBuildings (io 2) i s)") (auto simp: runProductionTick_def)
  obtain ms where ms: "loadMines (io 3) i s = Inr ms"
    using assms(5) l e0 rs b by (cases "loadMines (io 3) i s") (auto simp: runProductionTick_def)
  define fp where "fp = wrap64 (activated rs ''agricultural'' * 500 + activated rs ''river'' * 300 + bd_FishersAssigned b * 50)"
  define en where "en = activated rs ''industrial'' * energyRate (\<lambda>k. io (k + 4)) i s"
  define e2 where "e2 = (feed_empire fp e)\<lparr>em_Energy := wrap64 (em_Energy (feed_empire fp e) + en)\<rparr>"
  obtain e3 s3 where d: "drain_shield (\<lambda>k. io (k + 6)) i (e2, s) = (e3, s3)"
    by (cases "drain_shield (\<lambda>k. io (k + 6)) i (e2, s)")
  obtain s4 where m: "run_mines io 9 i (ord ms) s3 = (s4, None)"
    using assms(5) l e0 rs b ms d
    by (cases "run_mines io 9 i (ord ms) s3"; cases "snd (run_mines io 9 i (ord ms) s3)")
      (auto simp: runProductionTick_def Let_def simp flip: fp_def en_def e2_def)
  obtain e4 where u: "updateEmpire (io 8) e4 s4 = (s1, None)"
    and e4: "e4 = e3\<lparr>em_ResearchPts := wrap64 (em_ResearchPts e3 + bd_ResearchLab b * 10),
      em_BuildingPts := wrap64 (em_BuildingPts e3 + bd_ConstructionFactory b * 5)\<rparr>"
    using assms(5) l e0 rs b ms d m by (auto simp: runProductionTick_def Let_def simp flip: fp_def en_def e2_def)
  have fish: "0 \<le> bd_FishersAssigned b" "bd_FishersAssigned b \<le> 2 ^ 40"
    using b assms(2) by (auto simp: loadBuildings_def modest_def zero_buildings_def split: if_splits option.splits dest!: map_of_SomeD)
  note act = activated_bounds [OF assms(1,2) rs]
  have fp: "0 \<le> fp" "fp \<le> 2 ^ 60" and en: "0 \<le> en" "en \<le> 2 ^ 60"
    using income_bounds [OF act act fish] income_bounds(3,4) [OF act act act] by (simp_all add: fp_def en_def)
  note f = feed_bounds [OF assms(4) fp]
  have same: "em_Energy (feed_empire fp e) = em_Energy e" "em_GlobalID (feed_empire fp e) = em_GlobalID e"
    "em_Money (feed_empire fp e) = em_Money e" "em_MoneyBank (feed_empire fp e) = em_MoneyBank e"
    by (simp_all add: feed_empire_def Let_def)
  have st: "0 \<le> em_Energy e" "em_Energy e \<le> 2 ^ 52"
    using assms(4) by (simp_all add: stocked_def)
  then have "wrap64 (em_Energy e + en) = em_Energy e + en"
    using en by (intro wrap64_id) (simp add: in_int64_def)
  then have e2: "0 \<le> em_Energy e2" "em_Energy e2 < 2 ^ 63"
    using en st by (simp_all add: e2_def same)
  note dr = drain_bounds [OF d e2]
  have k3: "em_FoodStorage e3 = em_FoodStorage e2" "em_Population e3 = em_Population e2" "em_GlobalID e3 = em_GlobalID e2"
    "em_Money e3 = em_Money e2" "em_MoneyBank e3 = em_MoneyBank e2"
    using dr(2) by (metis empireState.select_convs empireState.update_convs(8) empireState.surjective)+
  have "dm_empires s4 = dm_empires s"
    using mines_empires [of io 9 i "ord ms" s3] m dr(3) by simp
  then have "find (\<lambda>r. em_GlobalID r = i) (dm_empires s1) = Some (kept_names e4 e)"
    using u assms(3) e0(3) k3(3) same(2) by (auto simp: updateEmpire_def find_empire_upd kept_names_def e4 e2_def split: if_splits)
  then show ?thesis
    using f(1-3) dr(1) k3 same by (simp add: kept_names_def e4 e2_def)
qed

section \<open>What goes wrong\<close>

text \<open>The price of a recruitment is compared after it wrapped: soldiers worth more than all credits there
  can be cost 34.\<close>

lemma recruit_overflow:
  assumes "em_Money e = 34" and "ml_SoldiersNormal m = 0"
  shows "recruit (hd unitDefs) 368934881474191033 (e, m)
    = Some (e\<lparr>em_Money := 0\<rparr>, m\<lparr>ml_SoldiersNormal := 368934881474191033\<rparr>)"
  using assms by (simp add: recruit_def unitDefs_def addUnits_def wrap64_def Let_def)

text \<open>No one can warp, for the tree has no hyperdrive.\<close>

lemma warp_unreachable: "dom_ok (fst w) \<Longrightarrow> warpScreen X x e w xs = (w, tl xs)"
  by (rule order.no_warp)

text \<open>The lower-case letters of the target list select nothing: their index is at least 32, and at most nine
  targets are listed.\<close>

lemma lower_case_ignored:
  assumes "97 \<le> byte k" "byte k \<le> 105" and "letter_index k = Some n"
  shows "\<not> n < length (remote_targets X x e s)"
proof -
  have "32 \<le> n"
    using assms by (auto simp: letter_index_def Let_def split: if_splits)
  moreover have "length (remote_targets X x e s) \<le> 9"
    by (simp add: remote_targets_def split: sum.split)
  ultimately show ?thesis by simp
qed

end
