(* ===== verification/Dom_Attacks.thy ===== *)
theory Dom_Attacks
  imports Dom_Invariant
begin

text \<open>
  The attacks of Empire Ascendant that are carried out, read off the run of a session: every key of the
  attack menu that changed the database is one, of the empire in memory on the chosen target, on the day of
  the player's turn row. They are counted against the table \<open>attack_limits\<close>, over any sequence of sessions.
\<close>

section \<open>Attacks carried out\<close>

text \<open>Attacker, target, day and kind.\<close>

type_synonym attack = "string \<times> string \<times> int \<times> limit_col"

text \<open>What a loop over the keys does, key by key.\<close>

function trail :: "('c input \<Rightarrow> 'w \<Rightarrow> 'c input list \<Rightarrow> 'e list) \<Rightarrow> ('c, 'w) mstep \<Rightarrow> 'w \<Rightarrow> 'c input list \<Rightarrow> 'e list" where
  "trail obs step w [] = []"
| "trail obs step w (x # xs) =
     obs x w xs @ (case step x w xs of (w1, ys, go) \<Rightarrow> if go then trail obs step w1 (take (length xs) ys) else [])"
  by pat_completeness auto
termination
  by (relation "measure (\<lambda>(obs, step, w, xs). length xs)") auto

definition attack_kind :: "char \<Rightarrow> limit_col" where
  "attack_kind k = (if is_key k CHR ''g'' CHR ''G'' then ground_count
     else if is_key k CHR ''m'' CHR ''M'' then missile_count else spy_count)"

definition target_attacks :: "string \<Rightarrow> empireStub \<Rightarrow> 'c input \<Rightarrow> esess \<Rightarrow> 'c input list \<Rightarrow> attack list" where
  "target_attacks gid target x es xs =
     (if snd (fst (attackTarget_step gid target x es xs)) = snd es then []
      else [(em_GlobalID (fst es), es_GlobalID target, tn_DayIndex (turn_of False gid (snd es)), attack_kind (i_key x))])"

text \<open>The menus on the way to it.\<close>

definition select_attacks :: "('c, 'h) Dom_Context \<Rightarrow> 'c input \<Rightarrow> 'h dsess \<Rightarrow> 'c input list \<Rightarrow> attack list" where
  "select_attacks X x w xs =
     (case w of (e, s, h) \<Rightarrow>
        (let gid = dx_gid X; turn = turn_of (i_io x ''LoadTurn'' 0) gid s;
             locals = (case listTargets (i_io x ''listTargets'' 0) (i_now x) (em_GlobalID e) s of Inl _ \<Rightarrow> [] | Inr ts \<Rightarrow> ts)
         in if quits x then []
            else case digit_index (i_key x) of
              Some i \<Rightarrow>
                if i < length locals \<and> tn_Actions turn \<ge> 1 \<and> tn_Attacks turn \<ge> 1
                then trail (target_attacks gid (locals ! i)) (attackTarget_step gid (locals ! i)) (e, s) xs else []
            | None \<Rightarrow> []))"

definition attack_attacks :: "('c, 'h) Dom_Context \<Rightarrow> 'c input \<Rightarrow> 'h dsess \<Rightarrow> 'c input list \<Rightarrow> attack list" where
  "attack_attacks X x w xs =
     (case w of (e, s, h) \<Rightarrow>
        if is_key (i_key x) CHR ''s'' CHR ''S''
        then trail (select_attacks X) (select_step X) (refresh (i_io x ''loadEmpire'' 0) e s, s, h) xs else [])"

definition hq_attacks :: "('c, 'h) Dom_Context \<Rightarrow> 'c input \<Rightarrow> 'h dsess \<Rightarrow> 'c input list \<Rightarrow> attack list" where
  "hq_attacks X x w xs =
     (case w of (e, s, h) \<Rightarrow>
        if is_key (i_key x) CHR ''a'' CHR ''A''
        then trail (attack_attacks X) (attack_step X) (refresh (i_io x ''loadEmpire'' 0) e s, s, h) xs else [])"

definition main_attacks :: "('c, 'h) Dom_Context \<Rightarrow> 'c input \<Rightarrow> 'h dsess \<Rightarrow> 'c input list \<Rightarrow> attack list" where
  "main_attacks X x w xs =
     (if is_key (i_key x) CHR ''e'' CHR ''E'' then trail (hq_attacks X) (hq_step X) w xs else [])"

definition session_attacks :: "(int \<Rightarrow> int) \<Rightarrow> ('c, 'h) Dom_Context \<Rightarrow> 'c input \<Rightarrow> dom \<times> 'h \<Rightarrow> 'c input list \<Rightarrow> attack list" where
  "session_attacks zone X x0 w xs =
     (case Dom_start zone X x0 (fst w) xs of
        (s1, Inl _) \<Rightarrow> []
      | (s1, Inr (e, zs)) \<Rightarrow> trail (main_attacks X) (main_step X) (e, s1, snd w) zs)"

section \<open>Counters\<close>

definition used :: "attack \<Rightarrow> dom \<Rightarrow> int" where
  "used k s = (case k of (a, d, day, c) \<Rightarrow> case map_of (dm_limits s) (a, d, day) of None \<Rightarrow> 0 | Some l \<Rightarrow> limit_get c l)"

lemma used_cong: "dm_limits t = dm_limits s \<Longrightarrow> used k t = used k s"
  by (simp add: used_def)

lemma used_bounds:
  assumes "limits_kept s"
  shows "0 \<le> used (a, d, day, c) s" "used (a, d, day, c) s \<le> limit_cap c"
  using assms by (auto simp: used_def limits_kept_def caps_ok_all split: option.split dest!: map_of_SomeD)
    (auto simp: limit_cap_def split: limit_col.split)

lemma map_of_upsert:
  "map_of (upsert fst (\<lambda>old _. (fst old, f (snd old))) (k, v) xs) = (map_of xs)(k \<mapsto> (case map_of xs k of None \<Rightarrow> v | Some l \<Rightarrow> f l))"
proof -
  have upd: "map_of (upd_where (\<lambda>y. fst y = k) (\<lambda>y. (fst y, f (snd y))) ys)
      = (\<lambda>j. if j = k then map_option f (map_of ys j) else map_of ys j)" for ys
    by (induction ys) (auto simp: upd_where_def)
  show ?thesis
  proof (cases "k \<in> fst ` set xs")
    case True
    then obtain l where "map_of xs k = Some l"
      by (metis map_of_eq_None_iff not_None_eq)
    then show ?thesis
      using True upd by (simp add: upsert_def fun_eq_iff)
  next
    case False
    then have "map_of xs k = None"
      by (simp add: map_of_eq_None_iff)
    then show ?thesis
      using False by (auto simp: upsert_def fun_eq_iff map_add_def split: option.split)
  qed
qed

lemma limit_get_none [simp]: "limit_get c no_limits = 0"
  by (cases c) (simp_all add: limit_get_def no_limits_def)

lemma used_inc:
  "used k (fst (incAttackLimit False a d day c s)) = used k s + (if k = (a, d, day, c) then 1 else 0)"
  by (cases k) (auto simp: used_def incAttackLimit_def map_of_upsert limit_get_inc split: option.split)

text \<open>The statements that count do not fail.\<close>

definition fair :: "'c input \<Rightarrow> bool" where
  "fair x \<longleftrightarrow> \<not> i_io x ''attackLimitOK'' 0 \<and> \<not> i_io x ''incAttackLimit'' 0 \<and> \<not> i_io x ''LoadTurn'' 0"

section \<open>An attack counts once\<close>

definition counted :: "empireState \<Rightarrow> empireState \<Rightarrow> int \<Rightarrow> limit_col \<Rightarrow> dom \<Rightarrow> dom \<Rightarrow> bool" where
  "counted a d day c s t \<longleftrightarrow> t = s \<or> dm_limits t = dm_limits (fst (incAttackLimit False (em_GlobalID a) (em_GlobalID d) day c s))"

lemma counted_refl [simp]: "counted a d day c s s"
  by (simp add: counted_def)

lemma limits_inc:
  "dm_limits t = dm_limits s \<Longrightarrow> dm_limits (fst (incAttackLimit f a d day c t)) = dm_limits (fst (incAttackLimit f a d day c s))"
  by (simp add: incAttackLimit_def)

lemma spend_limits:
  assumes "fair x" and "dm_limits s1 = dm_limits s" and "em_GlobalID a1 = em_GlobalID a" "em_GlobalID d1 = em_GlobalID d"
  shows "dm_limits (spend x gid a1 d1 day c s1) = dm_limits (fst (incAttackLimit False (em_GlobalID a) (em_GlobalID d) day c s))"
  unfolding spend_def Let_def using assms by (simp add: fair_def) (rule limits_inc, simp)

lemma result_limits:
  "dm_limits (report x a d t o' l s) = dm_limits s" "dm_limits (save_military x a am d dm s) = dm_limits s"
  by (simp_all add: report_def save_military_def limits_frame)

lemma ground_counted:
  assumes "fair x"
  shows "counted a d day ground_count s (snd (fst (doGroundAssault x gid day am d dm (a, s))))"
proof -
  obtain a1 d1 am1 dm1 t where g: "groundAssault a d am dm (i_rng x) 0 = ((a1, d1), (am1, dm1), t)"
    by (metis surj_pair)
  have "dm_limits (spend x gid a1 d1 day ground_count s)
      = dm_limits (fst (incAttackLimit False (em_GlobalID a) (em_GlobalID d) day ground_count s))"
    using groundAssault_ids [OF g] by (intro spend_limits [OF assms refl]) simp_all
  then show ?thesis
    using g by (auto simp: doGroundAssault_def counted_def Let_def result_limits limits_frame)
qed

lemma missile_counted:
  assumes "fair x"
  shows "counted a d day missile_count s (snd (fst (doMissileStrike x gid day am d dm (a, s) xs)))"
proof -
  obtain t ys where p: "pick_missile am xs = (t, ys)" by (cases "pick_missile am xs")
  obtain d1 dm1 s1 u where b: "ballisticStrike (i_io x ''regionDamage'' 0) (i_rng x) 0 t (d, dm, s) = ((d1, dm1, s1), u)"
    by (metis surj_pair)
  have "dm_limits (spend x gid a d1 day missile_count s1)
      = dm_limits (fst (incAttackLimit False (em_GlobalID a) (em_GlobalID d) day missile_count s))"
    using ballisticStrike_frame [OF b] by (intro spend_limits [OF assms]) simp_all
  then show ?thesis
    using p b by (cases u) (auto simp: doMissileStrike_def counted_def Let_def result_limits limits_frame)
qed

lemma spy_counted:
  assumes "fair x"
  shows "counted a d day spy_count s (snd (fst (doSpyMission x gid day am d dm (a, s) xs)))"
proof -
  obtain t ys where p: "chooseSpyMission xs = (t, ys)" by (cases "chooseSpyMission xs")
  obtain dm1 s2 u where b: "spySabotage (i_io x ''regionDamage'' 0) (i_rng x) 0 (em_GlobalID d) (dm, spend x gid a d day spy_count s)
      = ((dm1, s2), u)"
    by (metis surj_pair)
  have "dm_limits s2 = dm_limits (spend x gid a d day spy_count s)"
    using spySabotage_frame [OF b] by auto
  moreover have "dm_limits (spend x gid a d day spy_count s)
      = dm_limits (fst (incAttackLimit False (em_GlobalID a) (em_GlobalID d) day spy_count s))"
    by (intro spend_limits [OF assms]) simp_all
  ultimately show ?thesis
    using p b by (cases u) (auto simp: doSpyMission_def counted_def Let_def result_limits limits_frame)
qed

lemma loaded_ids:
  "em_GlobalID (refresh f e s) = em_GlobalID e" "em_GlobalID (fst (loadEmpire f i s)) = i"
  by (auto simp: refresh_def loadEmpire_def zero_empire_def split: option.split dest: find_Some_D)

lemma target_used:
  assumes "fair x"
  shows "used k (snd (fst (attackTarget_step gid target x es xs))) = used k (snd es) + count_list (target_attacks gid target x es xs) k"
proof -
  obtain e s where es: "es = (e, s)" by (cases es)
  let ?a = "refresh (i_io x ''loadEmpire'' 0) e s" and ?d = "fst (loadEmpire (i_io x ''loadEmpire'' 1) (es_GlobalID target) s)"
  let ?day = "tn_DayIndex (turn_of False gid s)" and ?t = "snd (fst (attackTarget_step gid target x es xs))"
  have "counted ?a ?d ?day (attack_kind (i_key x)) s ?t"
    using assms ground_counted [OF assms, of ?a ?d ?day s gid] missile_counted [OF assms, of ?a ?d ?day s gid]
      spy_counted [OF assms, of ?a ?d ?day s gid]
    by (simp add: attackTarget_step_def es Let_def attack_kind_def fair_def case_prod_beta)
  then have "?t = s \<or> dm_limits ?t = dm_limits (fst (incAttackLimit False (em_GlobalID e) (es_GlobalID target) ?day (attack_kind (i_key x)) s))"
    by (simp add: counted_def loaded_ids)
  then have "?t = s \<or> used k ?t = used k s + (if k = (em_GlobalID e, es_GlobalID target, ?day, attack_kind (i_key x)) then 1 else 0)"
    using used_inc [of k] used_cong [of ?t _ k] by metis
  then show ?thesis
    by (auto simp: es target_attacks_def)
qed

section \<open>Through the menus\<close>

definition tallies :: "('w \<Rightarrow> dom) \<Rightarrow> ('c input \<Rightarrow> 'w \<Rightarrow> 'c input list \<Rightarrow> attack list) \<Rightarrow> ('c, 'w) mstep \<Rightarrow> bool" where
  "tallies st obs step \<longleftrightarrow> (\<forall>x w ys. limits_kept (st w) \<longrightarrow> fair x \<longrightarrow> list_all fair ys \<longrightarrow>
     limits_kept (st (fst (step x w ys))) \<and> (\<forall>k. used k (st (fst (step x w ys))) = used k (st w) + count_list (obs x w ys) k))"

lemma trail_Cons:
  "leaves_rest step \<Longrightarrow> trail obs step w (x # xs) =
     obs x w xs @ (case step x w xs of (w1, ys, go) \<Rightarrow> if go then trail obs step w1 ys else [])"
  by (auto split: prod.splits dest!: leaves_restD suffix_length_le)

lemma menu_tally:
  assumes "leaves_rest step" and "tallies st obs step" and "limits_kept (st w)" and "list_all fair xs"
  shows "limits_kept (st (fst (menu step w xs))) \<and> used k (st (fst (menu step w xs))) = used k (st w) + count_list (trail obs step w xs) k"
  using assms(3,4)
proof (induction "length xs" arbitrary: w xs rule: less_induct)
  case less
  show ?case
  proof (cases xs)
    case (Cons x ys)
    obtain w1 zs go where st: "step x w ys = (w1, zs, go)" by (metis prod_cases3)
    have 1: "limits_kept (st w1)" "used k (st w1) = used k (st w) + count_list (obs x w ys) k"
      using assms(2) [unfolded tallies_def, rule_format, of w x ys] less.prems st Cons by (simp_all del: split_paired_All)
    have "suffix zs ys"
      by (rule leaves_restD [OF assms(1) st])
    then have "length zs < length xs" "list_all fair zs"
      using Cons less.prems(2) suffix_length_le [of zs ys] by (auto simp: list_all_iff dest: set_mono_suffix)
    then show ?thesis
      using less.hyps [of zs w1] 1 st Cons
      by (simp add: menu_Cons [OF assms(1)] trail_Cons [OF assms(1)] del: menu.simps trail.simps)
  qed (use less.prems in simp)
qed

text \<open>Everything but an attack on an empire of this node leaves the counters alone.\<close>

interpretation fixed: table_laws "\<lambda>s. limits_kept s \<and> dm_limits s = L" "\<lambda>_ :: 'c input. True" for L
proof unfold_locales
  fix s
  assume s: "limits_kept s \<and> dm_limits s = L"
  then have ok: "dom_ok s" by (simp add: limits_kept_def)
  show "d \<in> set techTree \<Longrightarrow> td_requires d = [] \<or> hasTech f' i (td_requires d) s
      \<Longrightarrow> limits_kept (fst (setTech f i (td_id d) s)) \<and> dm_limits (fst (setTech f i (td_id d) s)) = L" for d f' i f
    using s kept_same [of s, OF _ ok_setTech [OF ok]] by (simp add: limits_frame)
qed (auto simp: limits_frame new_frame ok_saveNames ok_updateEmpire ok_addRegion ok_simple ok_purge ok_NewCharacter ok_damage
    ok_turns no_hyperdrive limits_kept_def)

lemma fixed_menu:
  assumes "leaves_rest step" and "limits_kept (st w)"
    and "\<And>x w ys. limits_kept (st w) \<Longrightarrow> limits_kept (st (fst (step x w ys))) \<and> dm_limits (st (fst (step x w ys))) = dm_limits (st w)"
  shows "limits_kept (st (fst (menu step w xs))) \<and> dm_limits (st (fst (menu step w xs))) = dm_limits (st w)"
  using assms(3) fixed.menu_P [where L = "dm_limits (st w)" and st = st and w = w and xs = xs, OF assms(1)] assms(2) by (simp add: list_all_iff)

lemma kept_by_caps:
  assumes "\<forall>x w ys. limits_kept (st w) \<longrightarrow> \<not> i_io x ''attackLimitOK'' 0 \<longrightarrow> list_all (\<lambda>x. \<not> i_io x ''attackLimitOK'' 0) ys
      \<longrightarrow> limits_kept (st (fst (step x w ys)))"
    and "\<And>x w ys k. limits_kept (st w) \<Longrightarrow> fair x \<Longrightarrow> list_all fair ys
      \<Longrightarrow> used k (st (fst (step x w ys))) = used k (st w) + count_list (obs x w ys) k"
  shows "tallies st obs step"
  using assms by (auto simp: tallies_def fair_def list_all_iff)

lemma target_tally: "tallies snd (target_attacks gid target) (attackTarget_step gid target)"
  using caps.keeps_attackTarget target_used by (rule kept_by_caps)

abbreviation store_in :: "'h dsess \<Rightarrow> dom" where
  "store_in w \<equiv> fst (snd w)"

lemma select_tally:
  fixes X :: "('c, 'h) Dom_Context"
  shows "tallies store_in (select_attacks X) (select_step X)"
proof (rule kept_by_caps [OF caps.keeps_select])
  fix x :: "'c input" and w :: "'h dsess" and ys :: "'c input list" and k
  assume P: "limits_kept (store_in w)" and F: "fair x" "list_all fair ys"
  obtain e s h where w: "w = (e, s, h)" by (metis prod_cases3)
  have local: "used k s1 = used k s + count_list (trail (target_attacks g t) (attackTarget_step g t) (e, s) ys) k"
    if "menu (attackTarget_step g t) (e, s) ys = ((e1, s1), zs)" for g t e1 s1 zs
    using menu_tally [OF attackTarget_rests target_tally, of "(e, s)" ys g t k] P F w that by simp
  have remote: "used k s1 = used k s" if "menu (remoteAttackTarget_step X e v) (s, h) ys = ((s1, h1), zs)" for v s1 h1 zs
    using fixed.menu_P [where L = "dm_limits s" and w = "(s, h)" and xs = ys, OF remote_rests fixed.keeps_remoteTarget] P w that
    by (intro used_cong) (metis fst_conv snd_conv list_all_iff)
  show "used k (store_in (fst (select_step X x w ys))) = used k (store_in w) + count_list (select_attacks X x w ys) k"
    using local remote
    by (auto simp: w select_step_def select_attacks_def Let_def attackTarget_def remoteAttackTarget_def select_attacks_def
        remote_targets_def split: option.split prod.split)
qed

lemma attack_tally:
  fixes X :: "('c, 'h) Dom_Context"
  shows "tallies store_in (attack_attacks X) (attack_step X)"
proof (rule kept_by_caps [OF caps.keeps_attack])
  fix x :: "'c input" and w :: "'h dsess" and ys :: "'c input list" and k
  assume P: "limits_kept (store_in w)" and F: "fair x" "list_all fair ys"
  obtain e s h where w: "w = (e, s, h)" by (metis prod_cases3)
  have sel: "used k (store_in w1) = used k s + count_list (trail (select_attacks X) (select_step X) (e', s, h) ys) k"
    if "menu (select_step X) (e', s, h) ys = (w1, zs)" for e' w1 zs
    using menu_tally [OF select_rests select_tally, of "(e', s, h)" ys X k] P F w that by simp
  have "used k (globalShieldToggle x e' s) = used k s" "used k (galacticDispatches x g s) = used k s" for e' g
    using fixed.keeps_shield [where L = "dm_limits s" and s = s] P w
    by (auto intro: used_cong simp: galacticDispatches_def limits_frame)
  then show "used k (store_in (fst (attack_step X x w ys))) = used k (store_in w) + count_list (attack_attacks X x w ys) k"
    using sel by (auto simp: w attack_step_def attack_attacks_def Let_def selectAndAttack_def is_key_def split: prod.split)
qed

lemma hq_tally:
  fixes X :: "('c, 'h) Dom_Context"
  shows "tallies store_in (hq_attacks X) (hq_step X)"
proof (rule kept_by_caps [OF caps.keeps_hq])
  fix x :: "'c input" and w :: "'h dsess" and ys :: "'c input list" and k
  assume P: "limits_kept (store_in w)" and F: "fair x" "list_all fair ys"
  obtain e s h where w: "w = (e, s, h)" by (metis prod_cases3)
  have att: "used k (store_in w1) = used k s + count_list (trail (attack_attacks X) (attack_step X) (e', s, h) ys) k"
    if "menu (attack_step X) (e', s, h) ys = (w1, zs)" for e' w1 zs
    using menu_tally [OF attack_rests attack_tally, of "(e', s, h)" ys X k] P F w that by simp
  have dev: "used k s1 = used k s" if "menu (develop_step g) (e', s) ys = ((e1, s1), zs)" for g e' e1 s1 zs
    using fixed.menu_P [where L = "dm_limits s" and w = "(e', s)" and xs = ys, OF develop_rest fixed.keeps_develop] P w that
    by (intro used_cong) (metis fst_conv snd_conv list_all_iff)
  have "warpScreen X x e' (s, h) ys = ((s, h), tl ys)" for e'
    using order.no_warp [of "(s, h)"] P w by (simp add: limits_kept_def)
  then show "used k (store_in (fst (hq_step X x w ys))) = used k (store_in w) + count_list (hq_attacks X x w ys) k"
    using att dev
    by (auto simp: w hq_step_def hq_attacks_def Let_def developMenu_def Dom_attackMenu_def is_key_def split: prod.split)
qed

lemma main_tally:
  fixes X :: "('c, 'h) Dom_Context"
  shows "tallies store_in (main_attacks X) (main_step X)"
proof (rule kept_by_caps [OF caps.keeps_main])
  fix x :: "'c input" and w :: "'h dsess" and ys :: "'c input list" and k
  assume P: "limits_kept (store_in w)" and F: "fair x" "list_all fair ys"
  have "used k (store_in w1) = used k (store_in w) + count_list (trail (hq_attacks X) (hq_step X) w ys) k"
    if "menu (hq_step X) w ys = (w1, zs)" for w1 zs
    using menu_tally [OF hq_rests hq_tally, of w ys X k] P F that by simp
  then show "used k (store_in (fst (main_step X x w ys))) = used k (store_in w) + count_list (main_attacks X x w ys) k"
    by (auto simp: main_step_def main_attacks_def Let_def empireHQ_def split: prod.split)
qed

lemma session_tally:
  fixes X :: "('c, 'h) Dom_Context" and x0 :: "'c input" and h :: 'h and zone :: "int \<Rightarrow> int" and k :: attack
  assumes "limits_kept s" and "list_all fair xs"
  defines "t \<equiv> fst (fst (Dom_Run zone X x0 (s, h) xs))"
  shows "limits_kept t" "used k t = used k s + count_list (session_attacks zone X x0 (s, h) xs) k"
proof -
  obtain s1 r where d: "Dom_start zone X x0 s xs = (s1, r)" by (cases "Dom_start zone X x0 s xs")
  then have 1: "limits_kept s1" "dm_limits s1 = dm_limits s"
    using fixed.keeps_start [where L = "dm_limits s" and s = s and zone = zone and X = X and ?x0.0 = x0 and xs = xs] assms(1) by simp_all
  have "limits_kept t \<and> used k t = used k s + count_list (session_attacks zone X x0 (s, h) xs) k"
  proof (cases r)
    case (Inr ez)
    obtain e zs where ez: "ez = (e, zs)" by (cases ez)
    then have "list_all fair zs"
      using set_mono_suffix [OF Dom_start_suffix] d Inr assms(2) by (fastforce simp: list_all_iff)
    then show ?thesis
      using menu_tally [OF main_rests main_tally, of "(e, s1, h)" zs X k] 1 used_cong [OF 1(2), of k] d Inr ez
      by (simp add: t_def Dom_Run_def session_attacks_def mainMenu_def)
  qed (use 1 used_cong [OF 1(2), of k] d in \<open>simp add: t_def Dom_Run_def session_attacks_def\<close>)
  then show "limits_kept t" "used k t = used k s + count_list (session_attacks zone X x0 (s, h) xs) k"
    by simp_all
qed

section \<open>Between the sessions\<close>

lemma kept_Emit:
  assumes "limits_kept s"
  shows "limits_kept (fst (Emit f now ty b s))" "dm_limits (fst (Emit f now ty b s)) = dm_limits s"
proof -
  have ok: "dom_ok s" using assms by (simp add: limits_kept_def)
  show same: "dm_limits (fst (Emit f now ty b s)) = dm_limits s"
    by (simp add: Emit_def Let_def)
  have "dom_ok (fst (Emit f now ty b s))"
    by (rule dom_ok_engine [OF ok]) (simp_all add: Emit_wf, simp_all add: Emit_def Let_def)
  then show "limits_kept (fst (Emit f now ty b s))"
    using same assms by (simp add: kept_same)
qed

lemma kept_addMoney: "limits_kept s \<Longrightarrow> limits_kept (addMoney f i n s) \<and> dm_limits (addMoney f i n s) = dm_limits s"
  by (auto simp: addMoney_def limits_kept_def ok_kept)

lemma kept_fight:
  assumes "limits_kept s" and "remote_fight f r a atk (d, dm, s) = Some ((d1, dm1, s1), t)"
  shows "limits_kept s1 \<and> dm_limits s1 = dm_limits s"
proof -
  have "limits_kept s1 \<and> dm_limits s1 = dm_limits s" if "ballisticStrike f r 0 mt (d, dm, s) = ((d1, dm1, s1), u)" for mt u
    using ballisticStrike_frame [OF that] assms(1) fixed.law_damage [where L = "dm_limits s" and s = s] by auto
  then show ?thesis
    using assms by (auto simp: remote_fight_def split: if_splits prod.splits)
qed

lemma kept_incoming:
  assumes "limits_kept s"
  shows "limits_kept (fst (Dom_IncomingPvP now r io q a v p s)) \<and> dm_limits (fst (Dom_IncomingPvP now r io q a v p s)) = dm_limits s"
proof -
  have ending: "limits_kept (fst (Emit f now ty b (fst (writePvPLog f1 now i l (fst (saveMilitary f2 j m (fst (updateEmpire f3 e s1)))))))) \<and>
      dm_limits (fst (Emit f now ty b (fst (writePvPLog f1 now i l (fst (saveMilitary f2 j m (fst (updateEmpire f3 e s1)))))))) = dm_limits s"
    if "limits_kept s1 \<and> dm_limits s1 = dm_limits s" for f f1 f2 f3 i j l m e s1 ty b
    using that kept_Emit fixed.law_log(1) fixed.law_military fixed.law_empire by simp
  show ?thesis
    using assms ending kept_fight [OF assms]
    by (auto simp: Dom_IncomingPvP_def Let_def kept_Emit split: option.split prod.split)
qed

lemma kept_resolved:
  assumes "limits_kept s"
  shows "limits_kept (fst (Dom_on_pvp_resolved n now io e s)) \<and> dm_limits (fst (Dom_on_pvp_resolved n now io e s)) = dm_limits s"
proof -
  have log: "limits_kept (fst (writePvPLog f now i l s1))" if "limits_kept s1" for f i l s1
    using that fixed.law_log(1) by blast
  show ?thesis
    using assms kept_addMoney [OF assms]
    by (simp add: Dom_on_pvp_resolved_def Let_def log limits_frame split: option.split prod.split)
qed

section \<open>The limits\<close>

text \<open>What happens at a node: sessions of its players, attacks from other nodes, and the results of attacks
  on other nodes. The first component is the state, the second the attacks carried out in the sessions.\<close>

datatype ('c, 'h) node_op = Visit "('c, 'h) Dom_Context" "'c input" 'h "'c input list"
  | Incoming int rng io string string string raw | Resolved int io Event

fun happen :: "(int \<Rightarrow> int) \<Rightarrow> ('c, 'h) node_op \<Rightarrow> dom \<Rightarrow> dom \<times> attack list" where
  "happen zone (Visit X x0 h xs) s = (fst (fst (Dom_Run zone X x0 (s, h) xs)), session_attacks zone X x0 (s, h) xs)"
| "happen zone (Incoming now r io q a v p) s = (fst (Dom_IncomingPvP now r io q a v p s), [])"
| "happen zone (Resolved now io e) s = (fst (Dom_on_pvp_resolved (g_nodeID s) now io e s), [])"

fun season :: "(int \<Rightarrow> int) \<Rightarrow> ('c, 'h) node_op list \<Rightarrow> dom \<Rightarrow> dom \<times> attack list" where
  "season zone [] s = (s, [])"
| "season zone (x # xs) s = (case happen zone x s of (t, as) \<Rightarrow> case season zone xs t of (u, bs) \<Rightarrow> (u, as @ bs))"

fun fair_op :: "('c, 'h) node_op \<Rightarrow> bool" where
  "fair_op (Visit X x0 h xs) \<longleftrightarrow> list_all fair xs"
| "fair_op _ \<longleftrightarrow> True"

lemma happen_tally:
  assumes "limits_kept s" and "fair_op x"
  shows "limits_kept (fst (happen zone x s)) \<and> used k (fst (happen zone x s)) = used k s + count_list (snd (happen zone x s)) k"
proof (cases x)
  case (Visit X x0 h xs)
  then have "list_all fair xs"
    using assms(2) by simp
  note kept = session_tally [OF assms(1) this]
  show ?thesis
    unfolding Visit happen.simps fst_conv snd_conv by (intro conjI kept)
next
  case (Incoming now r io q a v p)
  note kept = kept_incoming [OF assms(1), of now r io q a v p]
  show ?thesis
    using kept used_cong [OF conjunct2 [OF kept], of k] by (simp add: Incoming)
next
  case (Resolved now io e)
  note kept = kept_resolved [OF assms(1), of "g_nodeID s" now io e]
  show ?thesis
    using kept used_cong [OF conjunct2 [OF kept], of k] by (simp add: Resolved)
qed

lemma season_tally:
  assumes "limits_kept s" and "list_all fair_op xs"
  shows "limits_kept (fst (season zone xs s)) \<and> used k (fst (season zone xs s)) = used k s + count_list (snd (season zone xs s)) k"
  using assms
proof (induction xs arbitrary: s)
  case (Cons x xs)
  obtain t as where x: "happen zone x s = (t, as)" by (cases "happen zone x s")
  obtain u bs where xs: "season zone xs t = (u, bs)" by (cases "season zone xs t")
  have "limits_kept t" "used k t = used k s + count_list as k"
    using happen_tally [OF Cons.prems(1), of x zone k] Cons.prems(2) x by simp_all
  then show ?case
    using Cons.IH [of t] Cons.prems(2) x xs by simp
qed simp

text \<open>C23: no empire attacks another empire of its node more often than allowed: three assaults, two missiles
  and one spy mission a day. Over any sequence of sessions of any players, attacks coming in and results coming
  back, the table counts exactly the attacks carried out, and the count of a day stays within the limit. The
  statements that read the day and the count and that write the count are taken not to fail (the code goes on
  when they do); attacks on empires of other nodes have no such limit in the code and are not counted.\<close>

theorem attack_limits_hold:
  assumes "limits_kept s" and "list_all fair_op xs" and "season zone xs s = (t, as)"
  shows "count_list as (a, d, day, ground_count) \<le> 3 \<and> count_list as (a, d, day, missile_count) \<le> 2
    \<and> count_list as (a, d, day, spy_count) \<le> 1
    \<and> used (a, d, day, c) t = used (a, d, day, c) s + count_list as (a, d, day, c) \<and> used (a, d, day, c) t \<le> limit_cap c"
proof -
  have tally: "limits_kept t" "used (a, d, day, b) t = used (a, d, day, b) s + count_list as (a, d, day, b)" for b
    using season_tally [OF assms(1,2), of zone "(a, d, day, b)"] assms(3) by simp_all
  have "int (count_list as (a, d, day, b)) \<le> limit_cap b" for b
    using used_bounds(2) [OF tally(1), of a d day b] used_bounds(1) [OF assms(1), of a d day b] tally(2) [of b] by simp
  from this [of ground_count] this [of missile_count] this [of spy_count] show ?thesis
    using tally(2) [of c] used_bounds(2) [OF tally(1), of a d day c] by (simp add: limit_cap_def)
qed

end
