(* ===== verification/Dom_Examples.thy ===== *)
theory Dom_Examples
  imports Dom_Growth Dom_Attacks
begin

text \<open>
  Two empires of one node and a player who attacks and banks: the properties of Empire Ascendant applied.
\<close>

section \<open>The example\<close>

definition exd_player :: "string \<Rightarrow> string \<Rightarrow> player_row" where
  "exd_player i n = \<lparr>p_GlobalID = i, p_Name = n, p_HomeNode = ''a'', p_Level = 1, p_Standing = 0, p_Status = ''active'',
     p_CreatedAt = 1, p_LastSeen = 90000, p_pw_hash = ''x''\<rparr>"

definition exd_turn :: "string \<Rightarrow> turn_row" where
  "exd_turn i = \<lparr>tn_Actions = 15, tn_Attacks = 3, tn_LastReset = 90000, tn_DayIndex = 4, tn_global_id = i\<rparr>"

definition exd_empire :: "string \<Rightarrow> string \<Rightarrow> int \<Rightarrow> empireState" where
  "exd_empire i n m = (new_empire i)\<lparr>em_WorldName := ''W'' @ n, em_EmpireName := ''E'' @ n, em_Money := m\<rparr>"

definition exd_army :: militaryRow where
  "exd_army = zero_military\<lparr>ml_SoldiersNormal := 100, ml_Tanks := 2\<rparr>"

definition exd :: dom where
  "exd = \<lparr>g_nodeID = ''a'', g_seq = 0, g_oseq = 0, g_players = [exd_player ''a:1'' ''ann'', exd_player ''a:2'' ''bob''],
     g_turns = [exd_turn ''a:1'', exd_turn ''a:2''], g_events = [], g_hstate = [], g_obligations = [],
     g_sync = \<lparr>y_hub_cursor = 0, y_last_pushed = 0, y_api_key = []\<rparr>, g_remote = [],
     dm_empires = [exd_empire ''a:1'' ''one'' 2500, exd_empire ''a:2'' ''two'' 1000],
     dm_regions = [(''a:1'', \<lparr>rg_RegionType = ''agricultural'', rg_Quantity = 2, rg_Activated = 2, rg_ActivateCost = 400\<rparr>)],
     dm_buildings = [(''a:1'', zero_buildings)], dm_mines = [], dm_tech = [((''a:1'', ''energy_fission''), 1)], dm_minerals = [],
     dm_military = [(''a:1'', exd_army), (''a:2'', zero_military)], dm_log = [],
     dm_limits = [((''a:1'', ''a:2'', 4), \<lparr>lm_ground_count = 2, lm_missile_count = 0, lm_spy_count = 0\<rparr>)]\<rparr>"

definition exd_key :: "char \<Rightarrow> unit input" where
  "exd_key k = \<lparr>i_key = k, i_now = 90000, i_io = (\<lambda>_. no_io), i_rng = (\<lambda>n. int n * 7919), i_call = ()\<rparr>"

definition exd_context :: "(unit, unit) Dom_Context" where
  "exd_context = \<lparr>dx_Player = Player.truncate (exd_player ''a:1'' ''ann''), dx_NodeID = ''a'', dx_Order = id,
     dx_CrossNodeAttack = None, dx_Travel = None\<rparr>"

text \<open>Headquarters, develop, bank: deposit 500; then out again and an assault on the first target.\<close>

definition exd_keys :: "unit input list" where
  "exd_keys = map exd_key (''edkd500'' @ [CHR 0x0D] @ ''qqas1gqqqq'')"

lemma exd_tables:
  "eng_wf exd" "names_ok (dm_empires exd)" "tech_ok (dm_tech exd)"
  by (simp_all add: exd_def eng_wf_def exd_player_def exd_turn_def nocase_def ascii_up_def MainActionsPerDay_def AttacksPerDay_def
      names_ok_def exd_empire_def new_empire_def tech_ok_def techTree_def)

lemma exd_ok: "dom_ok exd" "limits_kept exd"
proof -
  show ok: "dom_ok exd"
    using exd_tables by (simp add: dom_ok_def) (simp add: exd_def exd_empire_def new_empire_def region_ok_def regionTypes_def)
  show "limits_kept exd"
    by (simp add: limits_kept_def ok) (simp add: exd_def caps_ok_def limit_get_def limit_cap_def)
qed

section \<open>The properties applied\<close>

theorem dominion_keeps_order_witness:
  "dom_ok (fst (fst (Dom_Run (\<lambda>_. 0) exd_context (exd_key CHR ''e'') (exd, ()) exd_keys)))"
  by (rule dominion_keeps_order [OF exd_ok(1)])

text \<open>Headquarters, attacks, an assault on the first target: the one attack of the session, the third of the day.
  Then an attack comes in from another node.\<close>

lemma exd_session:
  "session_attacks (\<lambda>_. 0) exd_context (exd_key CHR ''e'') (exd, ()) (map exd_key ''eas1g'') = [(''a:1'', ''a:2'', 4, ground_count)]"
  by code_simp

definition exd_season :: "(unit, unit) node_op list" where
  "exd_season = [Visit exd_context (exd_key CHR ''e'') () (map exd_key ''eas1g''), Incoming 90001 (\<lambda>_. 0) no_io ''r'' ''b:1'' ''a:2'' None]"

theorem attack_limits_hold_witness:
  "used (''a:1'', ''a:2'', 4, ground_count) (fst (season (\<lambda>_. 0) exd_season exd)) = 3"
proof -
  obtain t as where s: "season (\<lambda>_. 0) exd_season exd = (t, as)"
    by (cases "season (\<lambda>_. 0) exd_season exd")
  then have "as = [(''a:1'', ''a:2'', 4, ground_count)]"
    by (simp add: exd_season_def exd_session split: prod.splits del: list.map)
  moreover have "used (''a:1'', ''a:2'', 4, ground_count) exd = 2"
    by (simp add: used_def exd_def limit_get_def)
  moreover have "list_all fair_op exd_season"
    by (simp add: exd_season_def fair_def exd_key_def)
  ultimately show ?thesis
    using attack_limits_hold [OF exd_ok(2) _ s, of "''a:1''" "''a:2''" 4 ground_count] s by simp
qed

text \<open>A deposit of 500 credits.\<close>

definition exd_deposit :: "unit input list" where
  "exd_deposit = map exd_key (''d500'' @ [CHR 0x0D] @ ''q'')"

theorem bank_conserves_witness:
  "map (\<lambda>r. (em_GlobalID r, wealth r)) (dm_empires (snd (fst (bankMenu (exd_empire ''a:1'' ''one'' 2500, exd) exd_deposit))))
   = [(''a:1'', 2500), (''a:2'', 1000)]"
proof -
  have e: "funds 2500 (exd_empire ''a:1'' ''one'' 2500)"
    by (simp add: funds_def wealth_def exd_empire_def new_empire_def)
  have r: "\<forall>r \<in> set (dm_empires exd). em_GlobalID r = em_GlobalID (exd_empire ''a:1'' ''one'' 2500) \<longrightarrow> funds 2500 r"
    using e by (simp add: exd_def exd_empire_def new_empire_def)
  obtain e1 s1 ys where b: "bankMenu (exd_empire ''a:1'' ''one'' 2500, exd) exd_deposit = ((e1, s1), ys)"
    by (metis surj_pair)
  have "map (\<lambda>r. (em_GlobalID r, wealth r)) (dm_empires exd) = [(''a:1'', 2500), (''a:2'', 1000)]"
    by (simp add: exd_def exd_empire_def new_empire_def wealth_def)
  then show ?thesis
    using bank_conserves [OF e _ r b] b by simp
qed

text \<open>An army of another node attacks the second empire; the attacker's node credits what was seized.\<close>

definition exd_payload :: json where
  "exd_payload = enc_crossNodePayload \<lparr>cp_AttackType = ''ground'', cp_MissileType = [], cp_AttackerName = ''Far'', cp_AttackerWorld = ''Off'',
     cp_AttackerMil = exd_army\<rparr>"

definition exd_home :: dom where
  "exd_home = exd\<lparr>g_nodeID := ''b'', dm_empires := [exd_empire ''b:9'' ''nine'' 10]\<rparr>"

lemma exd_resolves:
  "snd (Dom_IncomingPvP 90001 (\<lambda>n. int n * 7919) no_io ''r'' ''b:9'' ''a:2'' (Some exd_payload) exd) = None"
proof -
  obtain p where p: "dec_crossNodePayload exd_payload = (p, True)" "cp_AttackType p = ''ground''"
    by (simp add: dec_crossNodePayload_def exd_payload_def enc_crossNodePayload_def enc_militaryRow_def dec_militaryRow_def json_simps
        key_match_def ascii_up_def exd_army_def zero_military_def in_int64_def Let_def)
  have l: "loadEmpire False ''a:2'' exd = (exd_empire ''a:2'' ''two'' 1000, None)"
    by (simp add: loadEmpire_def exd_def exd_empire_def new_empire_def in_int64_def)
  have "g_events exd = []" by (simp add: exd_def)
  then show ?thesis
    using p l by (simp add: Dom_IncomingPvP_def remote_fight_def Let_def Emit_def updateEmpire_def saveMilitary_def writePvPLog_def
        split: prod.split)
qed

theorem cross_node_loot_exact_witness:
  "\<exists>ev s1. Dom_IncomingPvP 90001 (\<lambda>n. int n * 7919) no_io ''r'' ''b:9'' ''a:2'' (Some exd_payload) exd = (s1, None)
    \<and> credits_of ''b:9'' (fst (Dom_on_pvp_resolved ''b'' 90002 no_io ev exd_home)) = 10 + (1000 - credits_of ''a:2'' s1)"
proof -
  obtain s1 where s1: "Dom_IncomingPvP 90001 (\<lambda>n. int n * 7919) no_io ''r'' ''b:9'' ''a:2'' (Some exd_payload) exd = (s1, None)"
    using exd_resolves by (metis prod.collapse)
  have "\<forall>e \<in> set (dm_empires exd). 0 \<le> em_Money e" "has_prefix ''b:9'' (''b'' @ '':'')" "''b:9'' \<in> em_GlobalID ` set (dm_empires exd_home)"
    "credits_of ''b:9'' exd_home = 10" "credits_of ''a:2'' exd = 1000"
    by (simp_all add: exd_def exd_home_def exd_empire_def new_empire_def has_prefix_def credits_of_def)
  then show ?thesis
    using cross_node_loot_exact [OF s1, of "''b''" exd_home 90002] s1 by auto
qed

theorem assault_transfers_witness:
  "\<exists>loot \<in> {0, 250}. \<forall>i. credits_of i (snd (fst (doGroundAssault (exd_key CHR ''g'') ''a:1'' 4 (army ''a:1'' exd)
       (exd_empire ''a:2'' ''two'' 1000) (army ''a:2'' exd) (exd_empire ''a:1'' ''one'' 2500, exd))))
     = credits_of i exd + (if i = ''a:1'' then loot else if i = ''a:2'' then - loot else 0)"
proof -
  have ids: "em_GlobalID (exd_empire i n m) = i" "em_Money (exd_empire i n m) = m" for i n m
    by (simp_all add: exd_empire_def new_empire_def)
  have rows: "exd_empire ''a:1'' ''one'' 2500 \<in> set (dm_empires exd)" "exd_empire ''a:2'' ''two'' 1000 \<in> set (dm_empires exd)"
    by (simp_all add: exd_def)
  have armies: "army_ok (army ''a:1'' exd)" "army_ok (army ''a:2'' exd)"
    by (simp_all add: army_def loadMilitary_def exd_def army_ok_def exd_army_def zero_military_def)
  obtain a1 s1 msg where g: "doGroundAssault (exd_key CHR ''g'') ''a:1'' 4 (army ''a:1'' exd)
       (exd_empire ''a:2'' ''two'' 1000) (army ''a:2'' exd) (exd_empire ''a:1'' ''one'' 2500, exd) = ((a1, s1), msg)"
    by (metis surj_pair)
  have calm: "i_io (exd_key CHR ''g'') = (\<lambda>_. no_io)"
    by (simp add: exd_key_def)
  have "\<exists>loot \<in> {0, 1000 div 4}. \<forall>i. credits_of i s1 = credits_of i exd
      + (if i = ''a:1'' then loot else if i = ''a:2'' then - loot else 0)"
    by (rule assault_transfers [OF exd_ok(1) rows, unfolded ids, OF _ _ _ _ armies calm g, THEN conjunct1]) simp_all
  then show ?thesis
    using g by (simp only: fst_conv snd_conv) simp
qed

theorem production_bounds_witness:
  "\<exists>e1. find (\<lambda>r. em_GlobalID r = ''a:1'') (dm_empires (fst (runProductionTick id no_io ''a:1'' exd))) = Some e1
    \<and> 1 \<le> em_Population e1 \<and> 100 * \<bar>em_Population e1 - 10000\<bar> \<le> 10100"
proof -
  have e: "find (\<lambda>r. em_GlobalID r = ''a:1'') (dm_empires exd) = Some (exd_empire ''a:1'' ''one'' 2500)"
    by (simp add: exd_def exd_empire_def new_empire_def)
  have st: "stocked (exd_empire ''a:1'' ''one'' 2500)" "em_Population (exd_empire ''a:1'' ''one'' 2500) = 10000"
    by (simp_all add: stocked_def exd_empire_def new_empire_def)
  have mo: "modest exd"
    by (simp add: modest_def exd_def zero_buildings_def)
  have "in_int64 (em_Money (exd_empire ''a:1'' ''one'' 2500))"
    by (simp add: exd_empire_def in_int64_def)
  moreover have "dm_buildings exd = [(''a:1'', zero_buildings)]" "dm_mines exd = []"
    by (simp_all add: exd_def)
  ultimately have "snd (runProductionTick id no_io ''a:1'' exd) = None"
    by (simp add: runProductionTick_def loadEmpire_def e loadRegions_def loadBuildings_def loadMines_def updateEmpire_def Let_def
        split: prod.split)
  then obtain s1 where s1: "runProductionTick id no_io ''a:1'' exd = (s1, None)"
    by (metis prod.collapse)
  show ?thesis
    using production_bounds [OF exd_ok(1) mo e st(1) s1] s1 st(2) by auto
qed

end
