(* ===== verification/Hub_Portal.thy ===== *)
theory Hub_Portal
  imports Hub_Server Go_Text
begin

text \<open>
  The hub's public SSH page (\<open>internal/hub/portal.go\<close>, \<open>logo.go\<close>): the directory of the nodes whose heartbeat
  is recent, one page per node, and the loop over the client's reads. The listener and the SSH handshake
  are the transport. A screen is its rows; all but the last end in CR LF.
\<close>

section \<open>Colours and logo\<close>

definition ansi :: "string \<Rightarrow> string" where
  "ansi code = CHR 0x1B # ''['' @ code @ ''m''"

abbreviation ansiReset :: string where "ansiReset \<equiv> ansi ''0''"
abbreviation ansiBY :: string where "ansiBY \<equiv> ansi ''1;33''"
abbreviation ansiDY :: string where "ansiDY \<equiv> ansi ''0;33''"
abbreviation ansiBW :: string where "ansiBW \<equiv> ansi ''1;37''"
abbreviation ansiDC :: string where "ansiDC \<equiv> ansi ''0;36''"
abbreviation ansiBL :: string where "ansiBL \<equiv> ansi ''0;34''"
abbreviation ansiBG :: string where "ansiBG \<equiv> ansi ''1;32''"
abbreviation ansiDG :: string where "ansiDG \<equiv> ansi ''0;37''"

text \<open>The block characters of the logo by an ASCII letter each.\<close>

definition glyph :: "char \<Rightarrow> nat" where
  "glyph c = (if c = CHR ''-'' then 0x2500 else if c = CHR ''m'' then 0x2584 else if c = CHR ''w'' then 0x2580
     else if c = CHR ''#'' then 0x2588 else if c = CHR ''['' then 0x2590 else if c = CHR '']'' then 0x258C else of_char c)"

definition glyphs :: "string \<Rightarrow> string" where
  "glyphs s = string_of_runes (map glyph s)"

definition logoLines :: "string list" where
  "logoLines =
     [ansiBL @ glyphs (replicate 80 CHR ''-'') @ ansiReset,
      [],
      ansiDY @ glyphs ''              -m-  m--m  -m-  m--m  m--m  m--m   m--m  m--m  m--m'' @ ansiReset,
      ansiBG @ glyphs ''               #   #  #   #   #-    #-mw  #  []  #  #  #  #  #-mw'' @ ansiReset,
      ansiBG @ glyphs ''              -w-  w  w   w   w--w  w  w  w--w   w--w  w--w  w  w'' @ ansiReset,
      [], [],
      ansiBW @ ''                   Federated Terminal Game Network'' @ ansiDC @ ''   hub.interdoor.net'' @ ansiReset,
      ansiBL @ glyphs (replicate 80 CHR ''-'') @ ansiReset]"

section \<open>Fields\<close>

text \<open>\<open>%-16s\<close> pads by runes.\<close>

definition fmt_left :: "nat \<Rightarrow> string \<Rightarrow> string" where
  "fmt_left w s = s @ replicate (w - length (runes s)) CHR '' ''"

definition portalTrunc :: "string \<Rightarrow> nat \<Rightarrow> string" where
  "portalTrunc s n = (if length (runes s) \<le> n then s else string_of_runes (take (n - 1) (runes s)) @ string_of_runes [0x2026])"

definition portalAddr :: "string \<Rightarrow> string" where
  "portalAddr addr = (if has_prefix addr ''ssh://'' then drop 6 addr else addr)"

text \<open>\<open>net.SplitHostPort\<close>: the port follows the last colon; a host with colons stands in brackets.\<close>

definition SplitHostPort :: "string \<Rightarrow> (string \<times> string) option" where
  "SplitHostPort s =
     (let port = rev (takeWhile (\<lambda>c. c \<noteq> CHR '':'') (rev s)); before = take (length s - length port - 1) s in
      if CHR '':'' \<notin> set s then None
      else if hd s = CHR ''['' then
        (let host = takeWhile (\<lambda>c. c \<noteq> CHR '']'') (tl s) in
         if CHR '']'' \<notin> set s \<or> length host + 2 \<noteq> length before
           \<or> CHR ''['' \<in> set (tl s) \<or> CHR '']'' \<in> set (drop (length host + 2) s) then None
         else Some (host, port))
      else if CHR '':'' \<in> set before \<or> CHR ''['' \<in> set s \<or> CHR '']'' \<in> set s then None
      else Some (before, port))"

definition portalSSHCmd :: "string \<Rightarrow> string" where
  "portalSSHCmd addr =
     (case SplitHostPort (portalAddr addr) of
        None \<Rightarrow> ''ssh '' @ portalAddr addr
      | Some (host, port) \<Rightarrow> if port = ''22'' then ''ssh '' @ host else ''ssh -p '' @ port @ '' '' @ host)"

section \<open>Screens\<close>

definition portalClear :: string where
  "portalClear = CHR 0x1B # ''[2J'' @ CHR 0x1B # ''[H''"

definition portalOnline :: "int \<Rightarrow> Node list \<Rightarrow> Node list" where
  "portalOnline now nodes = filter (\<lambda>n. now - n_LastHeartbeat n < 180) nodes"

definition dot :: string where
  "dot = string_of_runes [0xB7]"

definition status_row :: "nat \<Rightarrow> int \<Rightarrow> string" where
  "status_row n events = ''  '' @ ansiBG @ show_nat n @ '' '' @ (if n = 1 then ''node'' else ''nodes'') @ '' online'' @ ansiReset
     @ ''  '' @ ansiDG @ dot @ ''  '' @ show_int events @ '' events indexed'' @ ansiReset"

definition node_entry :: "nat \<Rightarrow> Node \<Rightarrow> string" where
  "node_entry i n = ''  '' @ ansiBW @ ''['' @ show_nat (i + 1) @ '']'' @ ansiReset @ ''  '' @ fmt_left 16 (portalTrunc (n_NodeID n) 16)
     @ ''  '' @ fmt_left 21 (portalTrunc (DisplayGameTitle n) 21)
     @ ''  '' @ fmt_left 23 (portalTrunc (portalAddr (n_AdvertiseAddr n)) 23) @ ''  '' @ show_int (n_PlayerCount n)"

definition directory_rows :: "Node list \<Rightarrow> string list" where
  "directory_rows online =
     (if online = [] then [ansiDG @ ''  No nodes are currently online.'' @ ansiReset]
      else map (\<lambda>(i, n). node_entry i n) (enumerate 0 (take 9 online)))"

text \<open>The rows of the directory; the blank rows are the loop \<open>for i := 15 + shown; i < 23\<close>.\<close>

definition main_rows :: "Node list \<Rightarrow> int \<Rightarrow> string list" where
  "main_rows online events =
     logoLines @ [[], status_row (length online) events, [],
       ansiDG @ ''  #    '' @ fmt_left 16 ''NODE'' @ ''  '' @ fmt_left 21 ''GAME'' @ ''  '' @ fmt_left 23 ''ADDRESS'' @ ''  PLAYERS'' @ ansiReset,
       ansiBL @ ''  '' @ glyphs (replicate 3 CHR ''-'') @ ''  '' @ glyphs (replicate 16 CHR ''-'') @ ''  '' @ glyphs (replicate 21 CHR ''-'')
         @ ''  '' @ glyphs (replicate 23 CHR ''-'') @ ''  '' @ glyphs (replicate 7 CHR ''-'') @ ansiReset]
     @ directory_rows online @ replicate (23 - (15 + length (directory_rows online))) []
     @ [ansiDG @ ''  [1-9] Connect  '' @ dot @ ''  [R] Refresh  '' @ dot @ ''  [Q] Quit'' @ ansiReset, ''  Select: '']"

definition on_screen :: "string list \<Rightarrow> string" where
  "on_screen rows = portalClear @ concat (map (\<lambda>r. r @ [CHR 0x0D, CHR 0x0A]) (butlast rows)) @ last rows"

definition portalRenderMain :: "Node list \<Rightarrow> int \<Rightarrow> string" where
  "portalRenderMain online events = on_screen (main_rows online events)"

definition detail_field :: "string \<Rightarrow> string \<Rightarrow> string \<Rightarrow> string" where
  "detail_field label colour v = ''  '' @ ansiDG @ label @ ansiReset @ colour @ v @ ansiReset"

definition portalShowDetail :: "Node \<Rightarrow> string" where
  "portalShowDetail n = on_screen
     (logoLines @ [[], detail_field ''Node:'' (''     '' @ ansiBW) (n_NodeID n), detail_field ''Game:'' (''     '' @ ansiDY) (DisplayGameTitle n),
       detail_field ''Version:'' (''  '' @ ansiDG) (n_GameVersion n), detail_field ''Address:'' (''  '' @ ansiDC) (portalAddr (n_AdvertiseAddr n)),
       ''  '' @ ansiDG @ ''Players:'' @ ansiReset @ ''  '' @ show_int (n_PlayerCount n) @ '' online'', [],
       ''  This hub lists nodes; it does not launch game sessions.'', ''  Open a new terminal and run:'',
       ''  '' @ ansiBY @ portalSSHCmd (n_AdvertiseAddr n) @ ansiReset, [],
       ansiDG @ ''  Press any key to return to the directory...'' @ ansiReset, []])"

section \<open>The loop\<close>

text \<open>One round: the hub, the clock and the faults when the directory is drawn, and what is read after it
  (nothing when the client is gone). The result is what was written. A failed query shows nothing.\<close>

record portal_round =
  pi_hub :: hub
  pi_now :: int
  pi_io :: "string \<Rightarrow> io"
  pi_read :: string

definition round_online :: "portal_round \<Rightarrow> Node list" where
  "round_online x = portalOnline (pi_now x) (case GetDirectory (pi_io x ''GetDirectory'') (pi_hub x) of Inl _ \<Rightarrow> [] | Inr ns \<Rightarrow> ns)"

definition portal_index :: "char \<Rightarrow> nat option" where
  "portal_index k = (let n = (of_char k :: nat) in if 49 \<le> n \<and> n \<le> 57 then Some (n - 49) else None)"

fun runPortal :: "portal_round list \<Rightarrow> string list" where
  "runPortal [] = []"
| "runPortal (x # xs) =
     portalRenderMain (round_online x) (or_zero (EventCount (pi_io x ''EventCount'') (pi_hub x))) #
     (case pi_read x of
        [] \<Rightarrow> []
      | b # _ \<Rightarrow>
          if b \<in> {CHR ''q'', CHR ''Q'', CHR 0x03, CHR 0x04}
            then [portalClear @ [CHR 0x0D, CHR 0x0A] @ ''  Goodbye.'' @ [CHR 0x0D, CHR 0x0A, CHR 0x0D, CHR 0x0A]]
          else case portal_index b of
            Some i \<Rightarrow> if i < length (round_online x) then portalShowDetail (round_online x ! i) # runPortal (tl xs) else runPortal xs
          | None \<Rightarrow> runPortal xs)"

section \<open>What the page shows\<close>

text \<open>The prompt is meant for row 24 of a terminal of 24 rows. It is there unless nine nodes or more are
  online: the ninth entry takes the row of the hint, and the first row of the logo scrolls away.\<close>

lemma portal_rows: "length (main_rows online events) = (if length online < 9 then 24 else 25)"
  by (auto simp: main_rows_def directory_rows_def logoLines_def)

text \<open>Every node offered is an active node of the hub whose last heartbeat is less than three minutes old.\<close>

lemma portal_fresh:
  assumes "n \<in> set (round_online x)"
  shows "pi_now x - n_LastHeartbeat n < 180 \<and> (\<exists>r \<in> set (h_nodes (pi_hub x)). n = scan_node r \<and> n_Status r = ''active'')"
  using assms by (auto simp: round_online_def portalOnline_def GetDirectory_def split: if_splits)

text \<open>The command a client is told to run reaches the address a node registered, by name and port.\<close>

lemma portal_command:
  assumes "set host \<inter> {CHR '':'', CHR ''['', CHR '']''} = {}" and "set port \<inter> {CHR '':'', CHR ''['', CHR '']''} = {}"
  shows "portalSSHCmd (''ssh://'' @ host @ '':'' @ port) = (if port = ''22'' then ''ssh '' @ host else ''ssh -p '' @ port @ '' '' @ host)"
proof -
  have "takeWhile (\<lambda>c. c \<noteq> CHR '':'') (rev port @ CHR '':'' # rev host) = rev port"
    using assms(2) by (subst takeWhile_append2) auto
  moreover have "hd (host @ CHR '':'' # port) \<noteq> CHR ''[''"
    using assms(1) by (cases host) auto
  ultimately have "SplitHostPort (host @ '':'' @ port) = Some (host, port)"
    using assms by (auto simp: SplitHostPort_def Let_def)
  moreover have "portalAddr (''ssh://'' @ a) = a" for a
    by (simp add: portalAddr_def has_prefix_def)
  ultimately show ?thesis
    by (simp add: portalSSHCmd_def)
qed

end
