(* ===== verification/Spec2Isabelle.thy ===== *)
theory Spec2Isabelle
  imports Operator_Examples Engine_Examples Node_Examples Service_Examples Dom_Examples Hub_Portal
begin

text \<open>
  A verification development for InterDOOR, a federation of text-mode games: nodes that serve players over
  SSH, and a hub that relays events, attacks and journeys between nodes. It models the Go code of
  \<open>src/games/ledgerofthelow\<close> (the hub, the engine, the federation client and the reference game) and of the
  quarantined second game under \<open>src/games/empireascendant\<close>.

  \<^bold>\<open>How the code is modelled.\<close> A database is a record with one list of rows per table; a statement is a function
  on it (\<open>Go_Prelude\<close>). Every statement may fail: a fault schedule \<open>io\<close> says which, and every theorem that does
  not fix it to \<open>no_io\<close> holds for all of them. Errors are values (\<open>+\<close>, \<open>option\<close> or a pair with an optional
  error), as the code returns them. Go's \<open>int\<close> is an \<open>int\<close> with \<open>wrap64\<close> at the operations that can leave
  64 bits; \<open>float64\<close> is a rational rounded by \<open>fl\<close> to 53 bits after every operation (no fused
  multiply-add, as on amd64). JSON is the datatype of its documents, with the field matching of
  \<open>encoding/json\<close>. Menus are functions on the list of keys still to come; with each key come the clock, the
  faults and the random numbers until the next one, and the end of the list is the end of the connection, so
  every loop over keys is total and no fuel is needed. The loops of a fight between players run thirty rounds
  as in the code; paging through the feed takes 500 entries a time, as the hub does.

  \<^bold>\<open>Parameters.\<close> What is not in the repository is an argument: bcrypt (\<open>bcrypt\<close>), SHA-256 and the hub's random
  bytes, the clock, the zone and the text form of times (\<open>time_json\<close>), SQLite's choice of a row order where the
  query names none (\<open>row_order\<close>), the order of a Go map (\<open>mine_order\<close>), the fate of an HTTP call (\<open>call\<close>: the
  request lost, the response lost, other nodes' requests in between).

  \<^bold>\<open>The library.\<close> \<open>Go_Prelude\<close>, \<open>Go_Json\<close>, \<open>Go_Float\<close> and \<open>Go_Text\<close> hold the pieces of Go the program uses and their
  facts (the collections \<open>table_simps\<close>, \<open>table_intros\<close>, \<open>json_simps\<close>). \<open>Contracts\<close> holds the interfaces of the hub's
  store as locales: a log without duplicates, a feed read in pages, a queue whose entries settle once. They
  are interpreted in \<open>Hub_Store\<close> and \<open>Hub_Safety\<close>. Further interfaces stand beside their clients:
  \<open>event_handlers\<close> (the intake of events, interpreted for the debts in \<open>Engine_Ledger\<close> and for a whole node in
  \<open>Node_Wiring\<close>), \<open>sync_hooks\<close> (what the sync loop asks of a node), \<open>travel_link\<close>, \<open>door\<close> with its
  extension \<open>kept_door\<close> (the game behind the front door, interpreted in \<open>Node_Service\<close>), and \<open>table_laws\<close> with its
  extension \<open>empire_laws\<close> (what an invariant of the second game must know of its statements, interpreted in
  \<open>Dom_Invariant\<close> and \<open>Dom_Attacks\<close>).

  \<^bold>\<open>The hub.\<close> \<open>Hub_Store\<close> is \<open>internal/hub/store.go\<close> and \<open>sqlite.go\<close>: nodes, feed, attacks, journeys, locations,
  roster and debts. \<open>Hub_Server\<close> is \<open>server.go\<close> and \<open>auth.go\<close>: every handler behind its route and its
  authentication. \<open>Hub_Safety\<close> shows what each request may change, who may cause it, and that the feed only
  grows; \<open>Hub_Index\<close> shows that the indexes of rosters and debts are the
  maps they are meant to be, and carries the invariant of the database through every run. \<open>Hub_Admin\<close> is the
  operator's tool \<open>cmd/hubadmin\<close>, and \<open>Hub_Operator\<close> its guarantees: dry runs, audit, key
  rotation, backup, and that requests once settled stay so under requests and commands in any order.
  \<open>Hub_Portal\<close> is the public page of \<open>portal.go\<close> and \<open>logo.go\<close>, screen by screen.

  \<^bold>\<open>The node.\<close> \<open>Engine_Store\<close> is \<open>internal/engine/store.go\<close>, \<open>auth.go\<close>, \<open>syncstate.go\<close>: accounts, turns, events, the
  roster. \<open>Engine_Events\<close> is \<open>eventlog.go\<close>, \<open>obligations.go\<close>, \<open>snapshot.go\<close>; \<open>Engine_Ledger\<close> shows that payments
  are exact, taken in once, and replicate. \<open>Engine_Term\<close> is \<open>term/term.go\<close>; \<open>Engine_Server\<close> and \<open>Engine_Slots\<close> are
  \<open>server.go\<close>: the front door, and the session slots of all connections as a step relation. \<open>Fed_Client\<close> and
  \<open>Fed_Sync\<close> are \<open>internal/fed/fed.go\<close> talking to the hub of \<open>Hub_Server\<close>; \<open>Fed_Safety\<close> and \<open>Fed_Loop\<close> show that no
  cursor passes what was not handed over, \<open>Fed_Progress\<close> that a loop whose pulls get through catches up.

  \<^bold>\<open>The reference game.\<close> \<open>Game_Content\<close> is \<open>content.go\<close> and \<open>combat.go\<close>; \<open>Game_Store\<close>, \<open>Game_Play\<close>, \<open>Game_PvP\<close> and
  \<open>Game_Session\<close> are \<open>module.go\<close>; \<open>Game_Art\<close> is the layout of \<open>art.go\<close>. \<open>Game_Goods\<close> and \<open>Game_Barter\<close> show that loot,
  payments and journeys conserve goods; \<open>Game_Safety\<close> and \<open>Game_Invariant\<close> carry the types of all rows through
  a session and show that fights end. \<open>Node_Wiring\<close> and \<open>Node_Service\<close> are \<open>cmd/node/main.go\<close>: the game, the
  engine, the sync loop and the front door put together.

  \<^bold>\<open>The second game.\<close> \<open>Dom_Store\<close> is \<open>d2_data.go\<close>, \<open>d3_data.go\<close> and the schema of \<open>module.go\<close>; \<open>Dom_Rules\<close> is
  \<open>d2_production.go\<close>, \<open>d3_combat.go\<close> and the portable state; \<open>Dom_PvP\<close> is \<open>d4_pvp.go\<close> and the attacks of
  \<open>d3_menus.go\<close>; \<open>Dom_Menus\<close> is \<open>d2_develop.go\<close> and recruiting, \<open>Dom_Session\<close> the other menus and \<open>Run\<close>. There every menu
  is the one loop \<open>menu\<close> around a step. \<open>Dom_Safety\<close> carries any invariant that satisfies \<open>empire_laws\<close> through a
  session, \<open>Dom_Invariant\<close> provides two. \<open>Dom_Attacks\<close> reads the attacks carried out off the run of a session and
  counts them against the daily limits; \<open>Dom_Effects\<close> and \<open>Dom_Growth\<close> show what the bank, combat and
  production do. The repository keeps this game in a quarantine directory and does not build it; the model
  shows some of the reasons (an overflowing price, a technology that cannot be researched, keys that select
  nothing).

  \<^bold>\<open>Claims.\<close> A theorem after a text block that begins with its number is a claim; the theories ending in
  \<open>_Examples\<close> apply each claim to a concrete federation, node or session.

  \<^bold>\<open>Not modelled.\<close> The drawing of screens, flavour texts and title art of the games; the
  SSH transport, idle timeout and signals; flags, environment variables and host keys; the process of the
  second game's node, which repeats the first's. Sessions and ticks of one node are atomic with respect to
  each other: SQLite runs one statement at a time, but the interleaving of two sessions' statements is not
  explored; between two requests of a node to the hub, however, other nodes may do anything. Rows that hold
  numbers out of 64 bits because a database sum overflowed are followed as far as the scan that refuses them.
  Two corners of libraries are left out: that Go decodes into the elements a slice already has when one JSON
  document gives the same array field twice, and that SQLite may read the name of a backup file as a URI.
\<close>

end
